(* ===== verification/Prelude.thy ===== *)
theory Prelude
  imports Main "HOL-Library.AList" "HOL-Library.Word"
begin

text \<open>
  Shared vocabulary of the development: the machine integers of the Rust sources as words,
  instants and durations as nanosecond counts, mutexes with their poison flag, and the generic
  facts about lists, options, association lists and words that the component theories use.

  \<^item> \<open>u8 .. u64\<close> are words of that width; \<open>usize\<close> values are natural numbers.
  \<^item> A Rust \<open>HashMap\<close> is an association list with distinct keys: \<^const>\<open>map_of\<close> is
    \<open>get\<close>, \<^const>\<open>AList.update\<close> is \<open>insert\<close>, \<^const>\<open>AList.delete\<close> is \<open>remove\<close>
    and \<^const>\<open>length\<close> is \<open>len\<close>. A \<open>VecDeque\<close> is a list, front first.
  \<^item> A \<open>Result<T, E>\<close> is \<open>'e + 't\<close> with \<^const>\<open>Inl\<close> for \<open>Err\<close>.
\<close>

named_theorems rust_std \<open>equations of the modelled standard-library functions\<close>
named_theorems wf_intros \<open>well-formedness preservation\<close>

type_synonym u8 = "8 word"
type_synonym u16 = "16 word"
type_synonym u32 = "32 word"
type_synonym u64 = "64 word"
type_synonym usize = nat

section \<open>Saturating arithmetic\<close>

text \<open>\<open>u64::saturating_add\<close>.\<close>

definition saturating_add :: "'a::len word \<Rightarrow> 'a word \<Rightarrow> 'a word" where
  "saturating_add a b = (if unat a + unat b < 2 ^ LENGTH('a) then a + b else - 1)"

lemma saturating_add_unat:
  "unat (saturating_add a (b :: 'a::len word)) = min (unat a + unat b) (2 ^ LENGTH('a) - 1)"
proof (cases "unat a + unat b < 2 ^ LENGTH('a)")
  case True
  then show ?thesis
    by (auto simp: saturating_add_def unat_word_ariths min_def)
next
  case False
  have "unat (- 1 :: 'a word) = 2 ^ LENGTH('a) - 1"
    by (simp add: unsigned_minus_1_eq_mask mask_eq_exp_minus_1)
  with False show ?thesis
    by (auto simp: saturating_add_def min_def)
qed

lemma unat_le_max: "unat (a :: 'a::len word) \<le> 2 ^ LENGTH('a) - 1"
proof -
  have "unat a < 2 ^ LENGTH('a)" by (rule unsigned_less)
  then show ?thesis by linarith
qed

lemma saturating_add_ge: "unat a \<le> unat (saturating_add a b)"
  using unat_le_max [of a] by (simp add: saturating_add_unat)

lemma saturating_add_le: "a \<le> saturating_add a b"
  by (simp add: word_le_nat_alt saturating_add_ge)

lemma saturating_add_one:
  assumes "i \<noteq> - 1"
  shows "unat (saturating_add i (1 :: 'a::len word)) = Suc (unat i)"
proof -
  have "unat (- 1 :: 'a word) = 2 ^ LENGTH('a) - 1"
    by (simp add: unsigned_minus_1_eq_mask mask_eq_exp_minus_1)
  with assms have "unat i \<noteq> 2 ^ LENGTH('a) - 1" by (metis unsigned_word_eqI)
  with unat_le_max [of i] have "unat i + 1 \<le> 2 ^ LENGTH('a) - 1" by linarith
  then show ?thesis by (simp add: saturating_add_unat)
qed

section \<open>Time\<close>

text \<open>
  \<open>Instant\<close> and \<open>Duration\<close> are counted in nanoseconds. On Linux an \<open>Instant\<close> keeps its
  seconds in an \<open>i64\<close>, so \<open>Instant + Duration\<close> panics once the sum leaves that range:
  \<open>instant_add\<close> returns \<^const>\<open>None\<close> for the panic.
\<close>

type_synonym instant = nat
type_synonym duration = nat

definition from_secs :: "nat \<Rightarrow> duration" where
  "from_secs s = s * 10 ^ 9"

definition as_secs :: "duration \<Rightarrow> nat" where
  "as_secs d = d div 10 ^ 9"

definition instant_add :: "instant \<Rightarrow> duration \<Rightarrow> instant option" where
  "instant_add t d = (if as_secs (t + d) < 2 ^ 63 then Some (t + d) else None)"

lemma instant_add_Some_iff: "instant_add t d = Some e \<longleftrightarrow> as_secs (t + d) < 2 ^ 63 \<and> e = t + d"
  by (auto simp: instant_add_def)

section \<open>Mutexes\<close>

text \<open>
  A \<open>std::sync::Mutex\<close>: a thread that panics while it holds the guard poisons the mutex, and
  \<open>lock()\<close> returns \<open>Err\<close> from then on.
\<close>

datatype 'a mutex = Healthy 'a | Poisoned 'a

fun lock :: "'a mutex \<Rightarrow> 'a option" where
  "lock (Healthy x) = Some x"
| "lock (Poisoned x) = None"

text \<open>A section under the lock, and what happens when the lock is poisoned.\<close>

definition with_lock :: "'a mutex \<Rightarrow> 'b \<Rightarrow> ('a \<Rightarrow> 'b) \<Rightarrow> 'b" where
  "with_lock m unavailable f = (case lock m of None \<Rightarrow> unavailable | Some x \<Rightarrow> f x)"

lemma with_lock_simps [simp]:
  "with_lock (Healthy x) u f = f x" "with_lock (Poisoned x) u f = u"
  by (simp_all add: with_lock_def)

text \<open>\<open>lock().unwrap_or_else(PoisonError::into_inner)\<close>.\<close>

fun into_inner :: "'a mutex \<Rightarrow> 'a" where
  "into_inner (Healthy x) = x"
| "into_inner (Poisoned x) = x"

lemma lock_Some_iff [simp]: "lock m = Some x \<longleftrightarrow> m = Healthy x"
  by (cases m) auto

lemma lock_None_iff: "lock m = None \<longleftrightarrow> (\<exists>x. m = Poisoned x)"
  by (cases m) auto

section \<open>Results and options\<close>

fun ok_or :: "'e \<Rightarrow> 'a option \<Rightarrow> 'e + 'a" where
  "ok_or e None = Inl e"
| "ok_or e (Some x) = Inr x"

fun is_ok :: "'e + 'a \<Rightarrow> bool" where
  "is_ok (Inl e) = False"
| "is_ok (Inr x) = True"

text \<open>The \<open>?\<close> operator.\<close>

fun and_then :: "'e + 'a \<Rightarrow> ('a \<Rightarrow> 'e + 'b) \<Rightarrow> 'e + 'b" where
  "and_then (Inl e) f = Inl e"
| "and_then (Inr x) f = f x"

lemma and_then_Inr_iff [simp]: "and_then r f = Inr y \<longleftrightarrow> (\<exists>x. r = Inr x \<and> f x = Inr y)"
  by (cases r) auto

lemma ok_or_Inr_iff [simp]: "ok_or e x = Inr y \<longleftrightarrow> x = Some y"
  by (cases x) auto

text \<open>Collecting an iterator of results into a \<open>Result<Vec<_>, _>\<close>: the first error wins.\<close>

fun collect_results :: "('a \<Rightarrow> 'e + 'b) \<Rightarrow> 'a list \<Rightarrow> 'e + 'b list" where
  "collect_results f [] = Inr []"
| "collect_results f (x # xs) =
     and_then (f x) (\<lambda>y. and_then (collect_results f xs) (\<lambda>ys. Inr (y # ys)))"

lemma collect_results_map:
  "(\<And>x. x \<in> set xs \<Longrightarrow> f (g x) = Inr x) \<Longrightarrow> collect_results f (map g xs) = Inr xs"
  by (induction xs) auto

lemma set_map_filter: "set (List.map_filter f xs) = {y. \<exists>x \<in> set xs. f x = Some y}"
  by (induction xs) (auto simp: List.map_filter_simps split: option.split)

lemma sorted_wrt_map_filter:
  "sorted_wrt R xs \<Longrightarrow> (\<And>x y a b. R x y \<Longrightarrow> f x = Some a \<Longrightarrow> f y = Some b \<Longrightarrow> Q a b) \<Longrightarrow>
     sorted_wrt Q (List.map_filter f xs)"
  by (induction xs) (auto simp: List.map_filter_simps set_map_filter split: option.split)

lemma sorted_wrt_distinct: "sorted_wrt R xs \<Longrightarrow> (\<And>x. \<not> R x x) \<Longrightarrow> distinct xs"
  by (induction xs) auto

section \<open>Association lists with distinct keys\<close>

abbreviation keys :: "('k \<times> 'v) list \<Rightarrow> 'k set" where
  "keys m \<equiv> fst ` set m"

abbreviation hm_wf :: "('k \<times> 'v) list \<Rightarrow> bool" where
  "hm_wf m \<equiv> distinct (map fst m)"

lemma map_of_delete_eq: "map_of (AList.delete k m) k' = (if k' = k then None else map_of m k')"
  by (simp add: AList.delete_conv')

lemma map_of_update_eq: "map_of (AList.update k v m) k' = (if k' = k then Some v else map_of m k')"
  by (simp add: AList.update_conv')

lemma keys_delete: "keys (AList.delete k m) = keys m - {k}"
  by (auto simp: AList.delete_eq)

lemma keys_update: "keys (AList.update k v m) = insert k (keys m)"
  by (metis dom_map_of_conv_image_fst dom_fun_upd AList.update_conv' option.distinct(1))

lemma hm_wf_delete [wf_intros]: "hm_wf m \<Longrightarrow> hm_wf (AList.delete k m)"
  by (rule AList.distinct_delete)

lemma hm_wf_update [wf_intros]: "hm_wf m \<Longrightarrow> hm_wf (AList.update k v m)"
  by (rule AList.distinct_update)

lemma hm_wf_filter [wf_intros]: "hm_wf m \<Longrightarrow> hm_wf (filter P m)"
  by (rule distinct_map_filter)

lemma hm_len: "hm_wf m \<Longrightarrow> length m = card (keys m)"
  by (metis distinct_card length_map set_map)

lemma in_keys_iff: "k \<in> keys m \<longleftrightarrow> map_of m k \<noteq> None"
  by (metis domIff dom_map_of_conv_image_fst)

lemma hm_len_update_fresh: "k \<notin> keys m \<Longrightarrow> length (AList.update k v m) = Suc (length m)"
  by (induction m) auto

lemma update_twice: "AList.update k v (AList.update k w m) = AList.update k v m"
  by (induction m) auto

lemma length_map_filter_le: "length (List.map_filter f xs) \<le> length xs"
  by (simp add: List.map_filter_def)

lemma update_fresh_append: "k \<notin> keys m \<Longrightarrow> AList.update k v m = m @ [(k, v)]"
  by (induction m) auto

lemma hm_len_update_old: "k \<in> keys m \<Longrightarrow> length (AList.update k v m) = length m"
  by (induction m) auto

lemma keys_update_old: "k \<in> keys m \<Longrightarrow> keys (AList.update k v m) = keys m"
  by (auto simp: keys_update)

lemma keys_filter_fst: "keys (filter (\<lambda>p. P (fst p)) m) = {k \<in> keys m. P k}"
  by auto

lemma map_of_filter_key: "map_of (filter (\<lambda>p. P (fst p)) m) k = (if P k then map_of m k else None)"
  by (induction m) auto

lemma map_of_filter_val:
  "hm_wf m \<Longrightarrow> map_of (filter (\<lambda>p. P (snd p)) m) k =
     (case map_of m k of None \<Rightarrow> None | Some v \<Rightarrow> if P v then Some v else None)"
proof (induction m)
  case (Cons p m)
  then show ?case
    by (cases p) (auto split: option.splits simp: map_of_eq_None_iff)
qed simp

lemmas hm_simps = map_of_delete_eq map_of_update_eq keys_delete keys_update

end
