(* ===== verification/RustStr.thy ===== *)
theory RustStr
  imports Prelude
begin

text \<open>
  The part of Rust's \<open>str\<close>, \<open>String\<close> and integer formatting that the sources use. A Rust
  string is its UTF-8 bytes, a \<^typ>\<open>string\<close>; \<open>len()\<close> counts bytes, and \<open>split_whitespace\<close>
  and \<open>trim\<close> recognise the encodings of every \<open>White_Space\<close> scalar, one to three bytes long.
  The integer parser accepts what \<open>FromStr\<close> accepts: an optional plus sign, at least one
  digit, no overflow.
\<close>

abbreviation NL :: char where "NL \<equiv> CHR 0x0A"
abbreviation CR :: char where "CR \<equiv> CHR 0x0D"
abbreviation TAB :: char where "TAB \<equiv> CHR 0x09"
abbreviation SP :: char where "SP \<equiv> CHR 0x20"

section \<open>Decimal integers\<close>

definition digit_val :: "char \<Rightarrow> nat option" where
  "digit_val c = (let n = of_char c :: nat in if 48 \<le> n \<and> n \<le> 57 then Some (n - 48) else None)"

definition digit_char :: "nat \<Rightarrow> char" where
  "digit_char d = char_of (48 + d)"

fun parse_digits :: "nat \<Rightarrow> nat \<Rightarrow> string \<Rightarrow> nat option" where
  "parse_digits mx acc [] = Some acc"
| "parse_digits mx acc (c # cs) =
     (case digit_val c of
        None \<Rightarrow> None
      | Some d \<Rightarrow> if acc * 10 + d \<le> mx then parse_digits mx (acc * 10 + d) cs else None)"

definition parse_uint :: "nat \<Rightarrow> string \<Rightarrow> nat option" where
  "parse_uint mx s =
     (case s of
        [] \<Rightarrow> None
      | c # cs \<Rightarrow>
          if c = CHR ''+'' then (if cs = [] then None else parse_digits mx 0 cs)
          else parse_digits mx 0 s)"

definition parse_word :: "string \<Rightarrow> 'a::len word option" where
  "parse_word s = map_option word_of_nat (parse_uint (2 ^ LENGTH('a) - 1) s)"

definition parse_usize :: "string \<Rightarrow> usize option" where
  "parse_usize s = parse_uint (2 ^ 64 - 1) s"

fun show_nat :: "nat \<Rightarrow> string" where
  "show_nat n = (if n < 10 then [digit_char n] else show_nat (n div 10) @ [digit_char (n mod 10)])"

declare show_nat.simps [simp del]

definition show_word :: "'a::len word \<Rightarrow> string" where
  "show_word w = show_nat (unat w)"

definition is_digit :: "char \<Rightarrow> bool" where
  "is_digit c \<longleftrightarrow> digit_val c \<noteq> None"

lemma digit_val_digit_char [simp]: "d < 10 \<Longrightarrow> digit_val (digit_char d) = Some d"
  by (simp add: digit_val_def digit_char_def)

lemma is_digit_digit_char: "d < 10 \<Longrightarrow> is_digit (digit_char d)"
  by (simp add: is_digit_def)

lemma show_nat_digits: "c \<in> set (show_nat n) \<Longrightarrow> is_digit c"
proof (induction n rule: show_nat.induct)
  case (1 n)
  then show ?case
    by (cases "n < 10") (auto simp: show_nat.simps [of n] is_digit_digit_char)
qed

lemma show_nat_nonempty [simp]: "show_nat n \<noteq> []"
  by (subst show_nat.simps) simp

lemma parse_digits_append:
  "parse_digits mx a (xs @ ys) =
     (case parse_digits mx a xs of None \<Rightarrow> None | Some b \<Rightarrow> parse_digits mx b ys)"
  by (induction xs arbitrary: a) (auto split: option.splits)

lemma parse_digits_show_nat: "n \<le> mx \<Longrightarrow> parse_digits mx 0 (show_nat n) = Some n"
proof (induction n rule: show_nat.induct)
  case (1 n)
  show ?case
  proof (cases "n < 10")
    case True
    with 1 show ?thesis by (simp add: show_nat.simps [of n])
  next
    case False
    with 1 have "parse_digits mx 0 (show_nat (n div 10)) = Some (n div 10)" by auto
    moreover have "n div 10 * 10 + n mod 10 = n" by simp
    ultimately show ?thesis
      using False 1 by (simp add: show_nat.simps [of n] parse_digits_append)
  qed
qed

lemma is_digit_not_plus: "is_digit c \<Longrightarrow> c \<noteq> CHR ''+''"
  by (auto simp: is_digit_def digit_val_def)

lemma parse_uint_show_nat: "n \<le> mx \<Longrightarrow> parse_uint mx (show_nat n) = Some n"
proof -
  assume n: "n \<le> mx"
  obtain c cs where s: "show_nat n = c # cs" by (cases "show_nat n") auto
  then have "c \<noteq> CHR ''+''" using show_nat_digits [of c n] by (auto dest: is_digit_not_plus)
  then show ?thesis using parse_digits_show_nat [OF n] s by (simp add: parse_uint_def)
qed

lemma parse_word_show_word [simp]: "parse_word (show_word w) = Some (w :: 'a::len word)"
  using parse_uint_show_nat [OF unat_le_max [of w]] by (simp add: parse_word_def show_word_def)

lemma parse_usize_show_nat: "n < 2 ^ 64 \<Longrightarrow> parse_usize (show_nat n) = Some n"
  by (simp add: parse_usize_def parse_uint_show_nat)

lemma parse_digits_bound: "parse_digits mx a s = Some n \<Longrightarrow> a \<le> mx \<Longrightarrow> n \<le> mx"
  by (induction s arbitrary: a) (auto split: option.splits if_splits)

lemma parse_uint_bound: "parse_uint mx s = Some n \<Longrightarrow> n \<le> mx"
  by (auto simp: parse_uint_def simp del: parse_digits.simps split: list.splits if_splits
      dest: parse_digits_bound)

section \<open>Splitting at a character\<close>

fun split_on :: "char \<Rightarrow> string \<Rightarrow> string list" where
  "split_on c [] = [[]]"
| "split_on c (x # xs) =
     (if x = c then [] # split_on c xs
      else case split_on c xs of [] \<Rightarrow> [[x]] | y # ys \<Rightarrow> (x # y) # ys)"

fun split_once :: "char \<Rightarrow> string \<Rightarrow> (string \<times> string) option" where
  "split_once c [] = None"
| "split_once c (x # xs) =
     (if x = c then Some ([], xs) else map_option (apfst ((#) x)) (split_once c xs))"

definition rsplit_once :: "char \<Rightarrow> string \<Rightarrow> (string \<times> string) option" where
  "rsplit_once c s = (case split_once c (rev s) of None \<Rightarrow> None | Some (a, b) \<Rightarrow> Some (rev b, rev a))"

fun splitn :: "nat \<Rightarrow> char \<Rightarrow> string \<Rightarrow> string list" where
  "splitn 0 c s = []"
| "splitn (Suc 0) c s = [s]"
| "splitn (Suc (Suc n)) c s =
     (case split_once c s of None \<Rightarrow> [s] | Some (a, b) \<Rightarrow> a # splitn (Suc n) c b)"

fun join :: "string \<Rightarrow> string list \<Rightarrow> string" where
  "join sep [] = []"
| "join sep [x] = x"
| "join sep (x # y # r) = x @ sep @ join sep (y # r)"

lemma split_on_nonempty [simp]: "split_on c s \<noteq> []"
  by (induction s) (auto split: list.splits)

lemma split_once_append: "c \<notin> set a \<Longrightarrow> split_once c (a @ c # b) = Some (a, b)"
  by (induction a) auto

lemma split_once_None: "c \<notin> set a \<Longrightarrow> split_once c a = None"
  by (induction a) auto

lemma split_once_Some: "split_once c s = Some (a, b) \<Longrightarrow> s = a @ c # b \<and> c \<notin> set a"
  by (induction s arbitrary: a) (auto split: if_splits)

lemma rsplit_once_Some:
  assumes "rsplit_once c s = Some (a, b)"
  shows "s = a @ c # b \<and> c \<notin> set b"
proof -
  have "split_once c (rev s) = Some (rev b, rev a)"
    using assms by (auto simp: rsplit_once_def split: option.splits prod.splits)
  from split_once_Some [OF this] show ?thesis
    by (metis append.assoc append_Cons append_Nil rev.simps(2) rev_append rev_rev_ident set_rev)
qed

lemma rsplit_once_append: "c \<notin> set b \<Longrightarrow> rsplit_once c (a @ c # b) = Some (a, b)"
  by (simp add: rsplit_once_def split_once_append)

lemma rsplit_once_None: "c \<notin> set s \<Longrightarrow> rsplit_once c s = None"
  by (simp add: rsplit_once_def split_once_None)

lemma split_on_append: "c \<notin> set a \<Longrightarrow> split_on c (a @ c # b) = a # split_on c b"
  by (induction a) auto

lemma split_on_id: "c \<notin> set a \<Longrightarrow> split_on c a = [a]"
  by (induction a) auto

lemma split_on_join:
  "xs \<noteq> [] \<Longrightarrow> (\<And>x. x \<in> set xs \<Longrightarrow> c \<notin> set x) \<Longrightarrow> split_on c (join [c] xs) = xs"
  by (induction "[c]" xs rule: join.induct) (auto simp: split_on_append split_on_id)

lemma join_last:
  "xs \<noteq> [] \<Longrightarrow> last xs \<noteq> [] \<Longrightarrow> join sep xs \<noteq> [] \<and> last (join sep xs) = last (last xs)"
proof (induction sep xs rule: join.induct)
  case (3 sep x y r)
  then have "join sep (y # r) \<noteq> [] \<and> last (join sep (y # r)) = last (last (y # r))" by simp
  then show ?case by (auto simp: last_append)
qed auto

lemma splitn_rec:
  "1 < n \<Longrightarrow> splitn n c s =
     (case split_once c s of None \<Rightarrow> [s] | Some (a, b) \<Rightarrow> a # splitn (n - 1) c b)"
proof -
  assume "1 < n"
  then obtain m where "n = Suc (Suc m)" 
    using less_imp_Suc_add [of 1 n] by auto
  then show ?thesis by (simp split: option.split)
qed

lemma splitn_1: "splitn 1 c s = [s]"
  by simp

lemma splitn_append: "1 < n \<Longrightarrow> c \<notin> set a \<Longrightarrow> splitn n c (a @ c # b) = a # splitn (n - 1) c b"
  by (simp add: splitn_rec split_once_append)

lemma splitn_None: "0 < n \<Longrightarrow> c \<notin> set a \<Longrightarrow> splitn n c a = [a]"
  by (induction n c a rule: splitn.induct) (auto simp: split_once_None)

section \<open>Prefixes, replacement, case\<close>

fun strip_prefix :: "string \<Rightarrow> string \<Rightarrow> string option" where
  "strip_prefix [] s = Some s"
| "strip_prefix (p # ps) [] = None"
| "strip_prefix (p # ps) (x # xs) = (if p = x then strip_prefix ps xs else None)"

definition starts_with :: "string \<Rightarrow> string \<Rightarrow> bool" where
  "starts_with p s \<longleftrightarrow> strip_prefix p s \<noteq> None"

fun contains_str :: "string \<Rightarrow> string \<Rightarrow> bool" where
  "contains_str p [] \<longleftrightarrow> p = []"
| "contains_str p (x # xs) \<longleftrightarrow> starts_with p (x # xs) \<or> contains_str p xs"

definition replace_char :: "char \<Rightarrow> string \<Rightarrow> string \<Rightarrow> string" where
  "replace_char c r s = concat (map (\<lambda>x. if x = c then r else [x]) s)"

text \<open>\<open>str::replace\<close> for a pattern of three bytes and a replacement of one.\<close>

fun replace3 :: "char \<Rightarrow> char \<Rightarrow> char \<Rightarrow> char \<Rightarrow> string \<Rightarrow> string" where
  "replace3 p q r t (a # b # c # s) =
     (if a = p \<and> b = q \<and> c = r then t # replace3 p q r t s else a # replace3 p q r t (b # c # s))"
| "replace3 p q r t s = s"

definition to_ascii_lowercase :: "string \<Rightarrow> string" where
  "to_ascii_lowercase = map (\<lambda>c. let n = of_char c :: nat in
     if 65 \<le> n \<and> n \<le> 90 then char_of (n + 32) else c)"

lemma strip_prefix_append [simp]: "strip_prefix p (p @ s) = Some s"
  by (induction p) auto

lemma strip_prefix_Some_iff: "strip_prefix p s = Some r \<longleftrightarrow> s = p @ r"
  by (induction p s rule: strip_prefix.induct) auto

section \<open>White space\<close>

definition is_ws1 :: "char \<Rightarrow> bool" where
  "is_ws1 a \<longleftrightarrow> a = SP \<or> a = TAB \<or> a = NL \<or> a = CHR 0x0B \<or> a = CHR 0x0C \<or> a = CR"

text \<open>U+0085 and U+00A0.\<close>

definition is_ws2 :: "char \<Rightarrow> char \<Rightarrow> bool" where
  "is_ws2 a b \<longleftrightarrow> a = CHR 0xC2 \<and> (b = CHR 0x85 \<or> b = CHR 0xA0)"

text \<open>U+1680, U+2000 to U+200A, U+2028, U+2029, U+202F, U+205F and U+3000.\<close>

definition is_ws3 :: "char \<Rightarrow> char \<Rightarrow> char \<Rightarrow> bool" where
  "is_ws3 a b c \<longleftrightarrow>
     a = CHR 0xE1 \<and> b = CHR 0x9A \<and> c = CHR 0x80 \<or>
     a = CHR 0xE2 \<and> b = CHR 0x80 \<and>
       (0x80 \<le> (of_char c :: nat) \<and> (of_char c :: nat) \<le> 0x8A \<or>
        c = CHR 0xA8 \<or> c = CHR 0xA9 \<or> c = CHR 0xAF) \<or>
     a = CHR 0xE2 \<and> b = CHR 0x81 \<and> c = CHR 0x9F \<or>
     a = CHR 0xE3 \<and> b = CHR 0x80 \<and> c = CHR 0x80"

text \<open>The string after one leading white-space scalar, if it starts with one.\<close>

fun strip_ws :: "string \<Rightarrow> string option" where
  "strip_ws [] = None"
| "strip_ws [a] = (if is_ws1 a then Some [] else None)"
| "strip_ws [a, b] = (if is_ws1 a then Some [b] else if is_ws2 a b then Some [] else None)"
| "strip_ws (a # b # c # s) =
     (if is_ws1 a then Some (b # c # s)
      else if is_ws2 a b then Some (c # s)
      else if is_ws3 a b c then Some s else None)"

lemma strip_ws_shorter: "strip_ws s = Some r \<Longrightarrow> length r < length s"
  by (cases s rule: strip_ws.cases) (auto split: if_splits)

function split_ws :: "string \<Rightarrow> string \<Rightarrow> string list" where
  "split_ws acc [] = (if acc = [] then [] else [rev acc])"
| "split_ws acc (c # cs) =
     (case strip_ws (c # cs) of
        Some r \<Rightarrow> if acc = [] then split_ws [] r else rev acc # split_ws [] r
      | None \<Rightarrow> split_ws (c # acc) cs)"
  by pat_completeness auto
termination
  by (relation "measure (length \<circ> snd)") (auto dest: strip_ws_shorter)

definition split_whitespace :: "string \<Rightarrow> string list" where
  "split_whitespace s = split_ws [] s"

function trim_start :: "string \<Rightarrow> string" where
  "trim_start s = (case strip_ws s of Some r \<Rightarrow> trim_start r | None \<Rightarrow> s)"
  by pat_completeness auto
termination
  by (relation "measure length") (auto dest: strip_ws_shorter)

declare trim_start.simps [simp del]

fun trim_end :: "string \<Rightarrow> string" where
  "trim_end [] = []"
| "trim_end (c # cs) = (if trim_start (c # cs) = [] then [] else c # trim_end cs)"

definition trim :: "string \<Rightarrow> string" where
  "trim s = trim_end (trim_start s)"

text \<open>\<open>no_ws s\<close>: no white-space scalar starts anywhere in \<open>s\<close>. A token is non-empty.\<close>

fun no_ws :: "string \<Rightarrow> bool" where
  "no_ws [] = True"
| "no_ws (c # cs) = (strip_ws (c # cs) = None \<and> no_ws cs)"

definition token :: "string \<Rightarrow> bool" where
  "token s \<longleftrightarrow> s \<noteq> [] \<and> no_ws s"

lemma multibyte_not_ws1:
  "is_ws2 a b \<Longrightarrow> \<not> is_ws1 b" "is_ws3 a b c \<Longrightarrow> \<not> is_ws1 b" "is_ws3 a b c \<Longrightarrow> \<not> is_ws1 c"
  by (auto simp: is_ws1_def is_ws2_def is_ws3_def)

lemma strip_ws_cons_ws1 [simp]: "is_ws1 d \<Longrightarrow> strip_ws (d # r) = Some r"
  by (cases r rule: strip_ws.cases) auto

lemma strip_ws_append_None:
  "strip_ws (a # t) = None \<Longrightarrow> is_ws1 d \<Longrightarrow> strip_ws (a # t @ d # r) = None"
  by (cases t rule: strip_ws.cases; cases r) (auto split: if_splits dest: multibyte_not_ws1)

lemma split_ws_token:
  "no_ws t \<Longrightarrow> is_ws1 d \<Longrightarrow> split_ws acc (t @ d # r) =
     (if acc = [] \<and> t = [] then split_ws [] r else (rev acc @ t) # split_ws [] r)"
  by (induction t arbitrary: acc) (auto simp: strip_ws_append_None)

lemma split_ws_last: "no_ws t \<Longrightarrow> split_ws acc t = (if acc = [] \<and> t = [] then [] else [rev acc @ t])"
  by (induction t arbitrary: acc) auto

lemma split_whitespace_cons:
  "token t \<Longrightarrow> is_ws1 d \<Longrightarrow> split_whitespace (t @ d # r) = t # split_whitespace r"
  by (auto simp: split_whitespace_def token_def split_ws_token)

lemma split_whitespace_token: "token t \<Longrightarrow> split_whitespace t = [t]"
  by (auto simp: split_whitespace_def token_def split_ws_last)

lemma is_ws1_SP [simp]: "is_ws1 SP" and is_ws1_NL [simp]: "is_ws1 NL"
  by (simp_all add: is_ws1_def)

lemma split_whitespace_ws1: "is_ws1 d \<Longrightarrow> split_whitespace (d # r) = split_whitespace r"
  by (simp add: split_whitespace_def)

lemma split_whitespace_Nil [simp]: "split_whitespace [] = []"
  by (simp add: split_whitespace_def)

text \<open>A frame of tokens joined by single spaces and closed by a newline splits into them.\<close>

lemma split_whitespace_join:
  "(\<And>t. t \<in> set ts \<Longrightarrow> token t) \<Longrightarrow> split_whitespace (join [SP] ts @ [NL]) = ts"
proof (induction "[SP]" ts rule: join.induct)
  case 1
  then show ?case by (simp add: split_whitespace_ws1)
next
  case (2 x)
  then show ?case using split_whitespace_cons [of x NL "[]"] by simp
next
  case (3 x y r)
  then show ?case using split_whitespace_cons [of x SP "join [SP] (y # r) @ [NL]"] by simp
qed

lemma split_whitespace_join_plain:
  "(\<And>t. t \<in> set ts \<Longrightarrow> token t) \<Longrightarrow> split_whitespace (join [SP] ts) = ts"
proof (induction "[SP]" ts rule: join.induct)
  case (2 x)
  then show ?case by (simp add: split_whitespace_token)
next
  case (3 x y r)
  then show ?case using split_whitespace_cons [of x SP "join [SP] (y # r)"] by simp
qed simp

text \<open>ASCII bytes other than white space never take part in a white-space scalar.\<close>

definition plain :: "char \<Rightarrow> bool" where
  "plain c \<longleftrightarrow> 0x21 \<le> (of_char c :: nat) \<and> (of_char c :: nat) < 0x80"

lemma plain_not_ws:
  assumes "plain a"
  shows "\<not> is_ws1 a" "\<not> is_ws2 a b" "\<not> is_ws3 a b c"
  using assms by (auto simp: plain_def is_ws1_def is_ws2_def is_ws3_def)

lemma plain_strip_ws: "plain a \<Longrightarrow> strip_ws (a # s) = None"
  by (cases s; cases "tl s") (simp_all add: plain_not_ws)

lemma plain_no_ws: "(\<And>c. c \<in> set s \<Longrightarrow> plain c) \<Longrightarrow> no_ws s"
  by (induction s) (auto simp: plain_strip_ws)

lemma no_ws_plain_append: "(\<And>c. c \<in> set s \<Longrightarrow> plain c) \<Longrightarrow> no_ws t \<Longrightarrow> no_ws (s @ t)"
  by (induction s) (auto simp: plain_strip_ws)

lemma plain_trim_start: "plain a \<Longrightarrow> trim_start (a # s) = a # s"
  by (simp add: trim_start.simps plain_strip_ws)

lemma trim_plain_NL:
  assumes "\<And>c. c \<in> set s \<Longrightarrow> plain c"
  shows "trim (s @ [NL]) = s"
proof -
  have nl: "trim_start [NL] = []" by (simp add: trim_start.simps)
  have "trim_end (t @ [NL]) = t" if "\<And>c. c \<in> set t \<Longrightarrow> plain c" for t
    using that nl by (induction t) (auto simp: plain_trim_start)
  with assms nl show ?thesis by (cases s) (auto simp: trim_def plain_trim_start)
qed

lemma is_digit_plain: "is_digit c \<Longrightarrow> plain c"
  by (auto simp: is_digit_def digit_val_def plain_def Let_def split: if_splits)

lemma token_show_nat [simp]: "token (show_nat n)"
  by (auto simp: token_def intro!: plain_no_ws is_digit_plain show_nat_digits)

lemma token_show_word [simp]: "token (show_word w)"
  by (simp add: show_word_def)

lemma token_key_value: "(\<And>c. c \<in> set k \<Longrightarrow> plain c) \<Longrightarrow> k \<noteq> [] \<Longrightarrow> no_ws v \<Longrightarrow> token (k @ v)"
  by (simp add: token_def no_ws_plain_append)

section \<open>Lines\<close>

definition strip_cr :: "string \<Rightarrow> string" where
  "strip_cr s = (if s \<noteq> [] \<and> last s = CR then butlast s else s)"

text \<open>\<open>str::lines\<close> and \<open>BufRead::lines\<close>: the line end is \<open>\n\<close> or \<open>\r\n\<close>.\<close>

definition str_lines :: "string \<Rightarrow> string list" where
  "str_lines s = (let ps = split_on NL s in
     map strip_cr (butlast ps) @ (if last ps = [] then [] else [last ps]))"

text \<open>\<open>trim_end_matches(['\r', '\n'])\<close>.\<close>

definition trim_crlf :: "string \<Rightarrow> string" where
  "trim_crlf s = rev (dropWhile (\<lambda>c. c = CR \<or> c = NL) (rev s))"

lemma trim_crlf_append_NL:
  "s = [] \<or> last s \<noteq> CR \<and> last s \<noteq> NL \<Longrightarrow> trim_crlf (s @ [NL]) = s"
  by (cases s rule: rev_cases) (auto simp: trim_crlf_def)

section \<open>IPv4 addresses\<close>

type_synonym octets = "u8 \<times> u8 \<times> u8 \<times> u8"

definition show_ipv4 :: "octets \<Rightarrow> string" where
  "show_ipv4 o4 = (case o4 of (a, b, c, d) \<Rightarrow>
     join ''.'' [show_word a, show_word b, show_word c, show_word d])"

text \<open>One octet of \<open>Ipv4Addr::from_str\<close>: one to three digits, no leading zero, at most 255.\<close>

definition parse_octet :: "string \<Rightarrow> u8 option" where
  "parse_octet s =
     (if s = [] \<or> 3 < length s \<or> (1 < length s \<and> hd s = CHR ''0'') then None
      else map_option word_of_nat (parse_digits 255 0 s))"

definition parse_ipv4 :: "string \<Rightarrow> octets option" where
  "parse_ipv4 s =
     (case map parse_octet (split_on CHR ''.'' s) of
        [Some a, Some b, Some c, Some d] \<Rightarrow> Some (a, b, c, d)
      | _ \<Rightarrow> None)"

lemma show_nat_no_leading_zero: "0 < n \<Longrightarrow> hd (show_nat n) \<noteq> CHR ''0''"
proof (induction n rule: show_nat.induct)
  case (1 n)
  show ?case
  proof (cases "n < 10")
    case True
    then have "digit_val (digit_char n) = Some n" by simp
    then have "digit_char n \<noteq> CHR ''0''" using 1 by (auto simp: digit_val_def)
    with True show ?thesis by (simp add: show_nat.simps [of n])
  next
    case False
    with 1 show ?thesis by (simp add: show_nat.simps [of n])
  qed
qed

lemma show_nat_length: "n < 1000 \<Longrightarrow> length (show_nat n) \<le> 3"
  by (simp add: show_nat.simps [of n] show_nat.simps [of "n div 10"]
      show_nat.simps [of "n div 10 div 10"])

lemma show_nat_long: "1 < length (show_nat n) \<Longrightarrow> 0 < n"
  by (cases "n = 0") (auto simp: show_nat.simps [of 0])

lemma parse_octet_show_word: "parse_octet (show_word (w :: u8)) = Some w"
proof -
  have "unat w \<le> 255" using unat_le_max [of w] by simp
  then show ?thesis
    using show_nat_no_leading_zero [of "unat w"] show_nat_length [of "unat w"]
      show_nat_long [of "unat w"] parse_digits_show_nat [of "unat w" 255]
    by (auto simp: parse_octet_def show_word_def)
qed

lemma show_word_no_char: "\<not> is_digit c \<Longrightarrow> c \<notin> set (show_word w)"
  using show_nat_digits by (auto simp: show_word_def)

lemma dot_not_digit: "\<not> is_digit CHR ''.''"
  by (simp add: is_digit_def digit_val_def)

lemma parse_ipv4_show_ipv4: "parse_ipv4 (show_ipv4 o4) = Some o4"
proof (cases o4)
  case (fields a b c d)
  have "split_on CHR ''.'' (show_ipv4 o4) = [show_word a, show_word b, show_word c, show_word d]"
    unfolding show_ipv4_def fields prod.case
    by (rule split_on_join) (auto simp: show_word_no_char dot_not_digit)
  then show ?thesis by (simp add: parse_ipv4_def fields parse_octet_show_word)
qed

end
