(* ===== verification/Utf8.thy ===== *)
theory Utf8
  imports RustStr
begin

text \<open>
  UTF-8 on byte strings: \<open>String::from_utf8_lossy\<close> and the validity test behind \<open>read_to_string\<close>
  and \<open>lines\<close>. Both walk the input by the chunks of the decoder.
\<close>

section \<open>Lossy UTF-8 decoding\<close>

definition in_range :: "nat \<Rightarrow> nat \<Rightarrow> char \<Rightarrow> bool" where
  "in_range lo hi c \<longleftrightarrow> lo \<le> of_char c \<and> of_char c \<le> hi"

definition is_cont :: "char \<Rightarrow> bool" where
  "is_cont = in_range 0x80 0xBF"

text \<open>The bytes that may follow a given lead byte of a three or four byte sequence.\<close>

definition second_ok :: "char \<Rightarrow> char \<Rightarrow> bool" where
  "second_ok c d \<longleftrightarrow>
     (if of_char c = (0xE0 :: nat) then in_range 0xA0 0xBF d
      else if of_char c = (0xED :: nat) then in_range 0x80 0x9F d
      else if of_char c = (0xF0 :: nat) then in_range 0x90 0xBF d
      else if of_char c = (0xF4 :: nat) then in_range 0x80 0x8F d
      else is_cont d)"

definition REPLACEMENT :: string where
  "REPLACEMENT = [CHR 0xEF, CHR 0xBF, CHR 0xBD]"

text \<open>Length of the sequence at the front, and whether it is well formed; an ill-formed one is
  replaced as a whole.\<close>

definition utf8_chunk :: "char \<Rightarrow> string \<Rightarrow> nat \<times> bool" where
  "utf8_chunk c r =
     (if of_char c < (0x80 :: nat) then (0, True)
      else if in_range 0xC2 0xDF c then
        (case r of d # _ \<Rightarrow> if is_cont d then (1, True) else (0, False) | [] \<Rightarrow> (0, False))
      else if in_range 0xE0 0xEF c then
        (case r of
           d # r2 \<Rightarrow> if second_ok c d then
               (case r2 of e # _ \<Rightarrow> if is_cont e then (2, True) else (1, False) | [] \<Rightarrow> (1, False))
             else (0, False)
         | [] \<Rightarrow> (0, False))
      else if in_range 0xF0 0xF4 c then
        (case r of
           d # r2 \<Rightarrow> if second_ok c d then
               (case r2 of
                  e # r3 \<Rightarrow> if is_cont e then
                      (case r3 of g # _ \<Rightarrow> if is_cont g then (3, True) else (2, False) | [] \<Rightarrow> (2, False))
                    else (1, False)
                | [] \<Rightarrow> (1, False))
             else (0, False)
         | [] \<Rightarrow> (0, False))
      else (0, False))"

function utf8_lossy :: "string \<Rightarrow> string" where
  "utf8_lossy [] = []"
| "utf8_lossy (c # r) =
     (let (n, ok) = utf8_chunk c r
      in (if ok then c # take n r else REPLACEMENT) @ utf8_lossy (drop n r))"
  by pat_completeness auto
termination
  by (relation "measure length") auto

function utf8_valid :: "string \<Rightarrow> bool" where
  "utf8_valid [] = True"
| "utf8_valid (c # r) = (let (n, ok) = utf8_chunk c r in ok \<and> utf8_valid (drop n r))"
  by pat_completeness auto
termination
  by (relation "measure length") auto

abbreviation ascii :: "char \<Rightarrow> bool" where
  "ascii c \<equiv> of_char c < (0x80 :: nat)"

lemma utf8_chunk_ascii: "ascii c \<Longrightarrow> utf8_chunk c r = (0, True)"
  by (simp add: utf8_chunk_def)

lemma utf8_valid_cons_ascii [simp]: "ascii c \<Longrightarrow> utf8_valid (c # r) = utf8_valid r"
  by (simp add: utf8_chunk_ascii)

lemma utf8_valid_append_ascii: "(\<And>c. c \<in> set a \<Longrightarrow> ascii c) \<Longrightarrow> utf8_valid (a @ b) = utf8_valid b"
  by (induction a) (simp_all del: utf8_valid.simps)

lemma utf8_valid_ascii: "(\<And>c. c \<in> set a \<Longrightarrow> ascii c) \<Longrightarrow> utf8_valid a"
  using utf8_valid_append_ascii [of a "[]"] by simp

lemma utf8_lossy_valid: "utf8_valid s \<Longrightarrow> utf8_lossy s = s"
proof (induction s rule: utf8_valid.induct)
  case (2 c r)
  then show ?case by (auto simp: append_take_drop_id split: prod.splits)
qed simp

lemma utf8_chunk_append:
  "utf8_chunk c r = (n, True) \<Longrightarrow> utf8_chunk c (r @ b) = (n, True) \<and> n \<le> length r"
  by (auto simp: utf8_chunk_def split: list.splits if_splits)

lemma utf8_valid_append: "utf8_valid a \<Longrightarrow> utf8_valid b \<Longrightarrow> utf8_valid (a @ b)"
proof (induction a rule: utf8_valid.induct)
  case (2 c r)
  obtain n ok where n: "utf8_chunk c r = (n, ok)" by fastforce
  with 2 show ?case using utf8_chunk_append [of c r n b] by (auto simp: utf8_valid.simps(2))
qed simp

lemma plain_ascii: "plain c \<Longrightarrow> ascii c"
  by (simp add: plain_def)

declare utf8_valid.simps(2) [simp del]

end
