(* ===== verification/Fs.thy ===== *)
theory Fs
  imports Utf8
begin

text \<open>
  The filesystem calls of the standard library that the daemon uses. The state holds the regular
  files with their contents and permission bits, and says which operations return an error:
  \<open>fails\<close> is consulted by every call, so an I/O failure at any point of a routine is a value of
  the model. Paths are strings in normal form (no trailing or doubled slash).
\<close>

type_synonym path = string

datatype io_error = NotFound | AlreadyExists | InvalidData | OtherError string

datatype fs_op =
    CreateDirAll path
  | OpenNew path
  | OpenTruncate path
  | OpenAppend path
  | WriteAll path
  | SyncAll path
  | RenameTo path path
  | SetPermissions path
  | ReadFile path
  | ReadDir path
  | Metadata path
  | RemoveFile path
  | BindSocket path

record fs =
  files :: "(path \<times> string) list"
  modes :: "(path \<times> nat) list"
  fails :: "fs_op \<Rightarrow> bool"

type_synonym 'a io = "(io_error + 'a) \<times> fs"

definition no_faults :: "fs \<Rightarrow> bool" where
  "no_faults s \<longleftrightarrow> fails s = (\<lambda>_. False)"

definition io_fault :: io_error where
  "io_fault = OtherError ''i/o error''"

section \<open>Paths\<close>

text \<open>\<open>Path::parent\<close> and \<open>Path::join\<close>.\<close>

definition path_parent :: "path \<Rightarrow> path option" where
  "path_parent p =
     (if p = [] \<or> p = ''/'' then None
      else case rsplit_once CHR ''/'' p of
             None \<Rightarrow> Some []
           | Some (d, f) \<Rightarrow> Some (if d = [] then ''/'' else d))"

definition path_join :: "path \<Rightarrow> string \<Rightarrow> path" where
  "path_join d f = (if d = [] then f else if last d = CHR ''/'' then d @ f else d @ ''/'' @ f)"

section \<open>Operations\<close>

definition path_exists :: "fs \<Rightarrow> path \<Rightarrow> bool" where
  "path_exists s p \<longleftrightarrow> map_of (files s) p \<noteq> None"

definition fs_create_dir_all :: "path \<Rightarrow> fs \<Rightarrow> unit io" where
  "fs_create_dir_all p s = (if fails s (CreateDirAll p) then Inl io_fault else Inr (), s)"

definition fs_read_to_string :: "path \<Rightarrow> fs \<Rightarrow> io_error + string" where
  "fs_read_to_string p s =
     (if fails s (ReadFile p) then Inl io_fault
      else case map_of (files s) p of
             None \<Rightarrow> Inl NotFound
           | Some c \<Rightarrow> if utf8_valid c then Inr c else Inl InvalidData)"

text \<open>\<open>metadata().map_or(0, |m| m.len())\<close>.\<close>

definition fs_len :: "path \<Rightarrow> fs \<Rightarrow> nat" where
  "fs_len p s =
     (if fails s (Metadata p) then 0
      else case map_of (files s) p of None \<Rightarrow> 0 | Some c \<Rightarrow> length c)"

text \<open>\<open>OpenOptions::new().write(true).create_new(true).mode(m)\<close>.\<close>

definition fs_open_new :: "path \<Rightarrow> nat \<Rightarrow> fs \<Rightarrow> unit io" where
  "fs_open_new p md s =
     (if fails s (OpenNew p) then (Inl io_fault, s)
      else if path_exists s p then (Inl AlreadyExists, s)
      else (Inr (), s\<lparr>files := AList.update p [] (files s), modes := AList.update p md (modes s)\<rparr>))"

text \<open>\<open>create(true).truncate(true)\<close>: the mode applies to a file that is created.\<close>

definition fs_open_truncate :: "path \<Rightarrow> nat \<Rightarrow> fs \<Rightarrow> unit io" where
  "fs_open_truncate p md s =
     (if fails s (OpenTruncate p) then (Inl io_fault, s)
      else (Inr (), s\<lparr>files := AList.update p [] (files s),
              modes := (if path_exists s p then modes s else AList.update p md (modes s))\<rparr>))"

text \<open>\<open>create(true).append(true)\<close>.\<close>

definition fs_open_append :: "path \<Rightarrow> nat \<Rightarrow> fs \<Rightarrow> unit io" where
  "fs_open_append p md s =
     (if fails s (OpenAppend p) then (Inl io_fault, s)
      else if path_exists s p then (Inr (), s)
      else (Inr (), s\<lparr>files := AList.update p [] (files s), modes := AList.update p md (modes s)\<rparr>))"

text \<open>\<open>write_all\<close> at the end of an open file; a failed write adds nothing.\<close>

definition fs_write_all :: "path \<Rightarrow> string \<Rightarrow> fs \<Rightarrow> unit io" where
  "fs_write_all p d s =
     (if fails s (WriteAll p) then (Inl io_fault, s)
      else (Inr (), s\<lparr>files := AList.update p
              ((case map_of (files s) p of None \<Rightarrow> [] | Some c \<Rightarrow> c) @ d) (files s)\<rparr>))"

definition fs_sync_all :: "path \<Rightarrow> fs \<Rightarrow> unit io" where
  "fs_sync_all p s = (if fails s (SyncAll p) then Inl io_fault else Inr (), s)"

definition fs_rename :: "path \<Rightarrow> path \<Rightarrow> fs \<Rightarrow> unit io" where
  "fs_rename a b s =
     (if fails s (RenameTo a b) then (Inl io_fault, s)
      else case map_of (files s) a of
             None \<Rightarrow> (Inl NotFound, s)
           | Some c \<Rightarrow> (Inr (), s\<lparr>files := AList.update b c (AList.delete a (files s)),
               modes := (case map_of (modes s) a of
                           None \<Rightarrow> modes s
                         | Some md \<Rightarrow> AList.update b md (AList.delete a (modes s)))\<rparr>))"

definition fs_set_permissions :: "path \<Rightarrow> nat \<Rightarrow> fs \<Rightarrow> unit io" where
  "fs_set_permissions p md s =
     (if fails s (SetPermissions p) then (Inl io_fault, s)
      else if path_exists s p then (Inr (), s\<lparr>modes := AList.update p md (modes s)\<rparr>)
      else (Inl NotFound, s))"

definition fs_remove_file :: "path \<Rightarrow> fs \<Rightarrow> unit io" where
  "fs_remove_file p s =
     (if fails s (RemoveFile p) then (Inl io_fault, s)
      else if path_exists s p then (Inr (), s\<lparr>files := AList.delete p (files s)\<rparr>)
      else (Inl NotFound, s))"

text \<open>\<open>UnixListener::bind\<close>: a new name in the filesystem, refused when the name is taken.\<close>

definition fs_bind :: "path \<Rightarrow> fs \<Rightarrow> unit io" where
  "fs_bind p s =
     (if fails s (BindSocket p) then (Inl io_fault, s)
      else if path_exists s p then (Inl (OtherError ''address in use''), s)
      else (Inr (), s\<lparr>files := AList.update p [] (files s)\<rparr>))"

text \<open>\<open>fs::write\<close>: create or truncate, then write.\<close>

definition fs_write :: "path \<Rightarrow> string \<Rightarrow> fs \<Rightarrow> unit io" where
  "fs_write p d s =
     (case fs_open_truncate p 0x1A4 s of
        (Inl e, s') \<Rightarrow> (Inl e, s')
      | (Inr _, s') \<Rightarrow> fs_write_all p d s')"

text \<open>\<open>fs::read_dir(d)\<close>: the names of the regular files directly under \<open>d\<close>.\<close>

definition fs_read_dir :: "path \<Rightarrow> fs \<Rightarrow> io_error + string list" where
  "fs_read_dir d s =
     (if fails s (ReadDir d) then Inl io_fault
      else Inr (List.map_filter (\<lambda>p. if path_parent p = Some d \<or> path_parent p = Some [] \<and> d = ''.''
             then Some (case rsplit_once CHR ''/'' p of None \<Rightarrow> p | Some (_, f) \<Rightarrow> f) else None)
           (map fst (files s))))"

text \<open>Sequencing: an error stops the routine and keeps the state reached.\<close>

definition io_then :: "'a io \<Rightarrow> ('a \<Rightarrow> fs \<Rightarrow> 'b io) \<Rightarrow> 'b io" where
  "io_then r f = (case r of (Inl e, s) \<Rightarrow> (Inl e, s) | (Inr x, s) \<Rightarrow> f x s)"

lemma io_then_simps [simp]:
  "io_then (Inl e, s) f = (Inl e, s)" "io_then (Inr x, s) f = f x s"
  by (simp_all add: io_then_def)

lemma io_then_Inr_iff:
  "io_then r f = (Inr y, s') \<longleftrightarrow> (\<exists>x s. r = (Inr x, s) \<and> f x s = (Inr y, s'))"
  by (cases r; cases "fst r") auto

lemmas fs_defs = fs_create_dir_all_def fs_read_to_string_def fs_open_new_def fs_open_truncate_def
  fs_open_append_def fs_write_all_def fs_sync_all_def fs_rename_def fs_set_permissions_def
  fs_write_def path_exists_def

lemma fails_preserved:
  "fails (snd (fs_create_dir_all p s)) = fails s"
  "fails (snd (fs_open_new p md s)) = fails s"
  "fails (snd (fs_open_truncate p md s)) = fails s"
  "fails (snd (fs_open_append p md s)) = fails s"
  "fails (snd (fs_write_all p d s)) = fails s"
  "fails (snd (fs_sync_all p s)) = fails s"
  "fails (snd (fs_rename a b s)) = fails s"
  "fails (snd (fs_set_permissions p md s)) = fails s"
  by (auto simp: fs_defs split: option.splits)

lemma fs_write_fails: "fails (snd (fs_write p d s)) = fails s"
  using fails_preserved(3) [of p "0x1A4" s] fails_preserved(5) [of p d "snd (fs_open_truncate p 0x1A4 s)"]
  by (auto simp: fs_write_def split: prod.split sum.split)

lemma io_then_fails:
  "(\<And>x s'. fails (snd (f x s')) = fails s') \<Longrightarrow> fails (snd (io_then r f)) = fails (snd r)"
  by (cases r; cases "fst r") auto

end
