(* ===== verification/Proto.thy ===== *)
theory Proto
  imports Fs
begin

text \<open>
  The crate \<open>interfire-proto\<close>: the line-oriented \<open>v1\<close> protocol between the daemon and its clients.
  Requests are parsed from a frame, responses are encoded into one, and clients parse responses
  back into rows. Strings are UTF-8 byte strings; numbers are words of the width the code uses.
\<close>

section \<open>Constants\<close>

definition IPC_VERSION :: u16 where
  "IPC_VERSION = 1"

definition MAX_FRAME_BYTES :: usize where
  "MAX_FRAME_BYTES = 8 * 1024"

definition MAX_LOG_RECORDS_PER_SUBSCRIBER :: usize where
  "MAX_LOG_RECORDS_PER_SUBSCRIBER = 2000"

definition MAX_AUDIT_FILE_BYTES :: nat where
  "MAX_AUDIT_FILE_BYTES = 1048576"

definition DEFAULT_SOCKET_PATH :: path where
  "DEFAULT_SOCKET_PATH = ''/run/interfire/interfired.sock''"

definition DEFAULT_RULES_PATH :: path where
  "DEFAULT_RULES_PATH = ''/etc/interfire/rules.toml''"

definition DEFAULT_AUDIT_PATH :: path where
  "DEFAULT_AUDIT_PATH = ''/var/lib/interfire/audit.log''"

definition NFT_TABLE :: string where
  "NFT_TABLE = ''interfire''"

definition NFT_CHAIN :: string where
  "NFT_CHAIN = ''output''"

definition NFQUEUE_NUM :: u16 where
  "NFQUEUE_NUM = 4242"

datatype protocol_error = Malformed | UnsupportedVersion

section \<open>Requests\<close>

datatype request =
    Ping
  | Status
  | RuleList
  | RuleAdd u64 string string u16
  | RuleDelete u64
  | PromptList
  | PromptAnswer u64 string string
  | DnsList
  | DnsNote string string "u64 option"
  | AuditTail usize
  | AuditSubscribe string u64
  | ProcessList
  | NetworkStatusReq
  | NetworkInstall
  | NetworkRemove
  | Pause
  | Resume
  | TrafficBlock string string
  | TrafficUnblock string
  | StatsSummaryReq
  | StatsHosts
  | StatsProcs
  | StatsAddrs
  | StatsPorts
  | StatsUsers

text \<open>The \<open>n\<close>-th call of \<open>next()\<close> on a fused iterator over the remaining fields.\<close>

definition field :: "nat \<Rightarrow> string list \<Rightarrow> string option" where
  "field n fds = (if n < length fds then Some (fds ! n) else None)"

fun traffic_block_fields ::
    "string list \<Rightarrow> string option \<Rightarrow> string option \<Rightarrow> protocol_error + string option \<times> string option" where
  "traffic_block_fields [] scope direction = Inr (scope, direction)"
| "traffic_block_fields (f # fds) scope direction =
     (case strip_prefix ''scope='' f of
        Some value \<Rightarrow> traffic_block_fields fds (Some value) direction
      | None \<Rightarrow>
          (case strip_prefix ''direction='' f of
             Some value \<Rightarrow> traffic_block_fields fds scope (Some value)
           | None \<Rightarrow> Inl Malformed))"

definition parse_traffic_block :: "string list \<Rightarrow> protocol_error + request" where
  "parse_traffic_block fds =
     and_then (traffic_block_fields fds None None) (\<lambda>r.
       case r of
         (Some scope, Some direction) \<Rightarrow>
           if (scope = ''user'' \<or> scope = ''machine'') \<and>
              (direction = ''out'' \<or> direction = ''in'' \<or> direction = ''all'')
           then Inr (TrafficBlock scope direction) else Inl Malformed
       | _ \<Rightarrow> Inl Malformed)"

fun traffic_unblock_fields :: "string list \<Rightarrow> string option \<Rightarrow> protocol_error + string option" where
  "traffic_unblock_fields [] scope = Inr scope"
| "traffic_unblock_fields (f # fds) scope =
     (case strip_prefix ''scope='' f of
        Some value \<Rightarrow> traffic_unblock_fields fds (Some value)
      | None \<Rightarrow> Inl Malformed)"

definition parse_traffic_unblock :: "string list \<Rightarrow> protocol_error + request" where
  "parse_traffic_unblock fds =
     and_then (traffic_unblock_fields fds None) (\<lambda>r.
       case r of
         Some scope \<Rightarrow>
           if scope = ''user'' \<or> scope = ''machine'' then Inr (TrafficUnblock scope) else Inl Malformed
       | None \<Rightarrow> Inl Malformed)"

definition parse_rule_delete :: "string list \<Rightarrow> protocol_error + request" where
  "parse_rule_delete fds =
     (let i = Option.bind (field 0 fds) parse_word
      in if field 1 fds = None then ok_or Malformed (map_option RuleDelete i) else Inl Malformed)"

definition parse_rule_add :: "string list \<Rightarrow> protocol_error + request" where
  "parse_rule_add fds =
     (let i = Option.bind (field 0 fds) parse_word;
          executable = field 1 fds;
          verdict = field 2 fds;
          port = Option.bind (field 3 fds) parse_word
      in if field 4 fds \<noteq> None then Inl Malformed
         else case (i, executable, verdict, port) of
                (Some i, Some executable, Some verdict, Some port) \<Rightarrow>
                  Inr (RuleAdd i executable verdict port)
              | _ \<Rightarrow> Inl Malformed)"

definition parse_prompt_answer :: "string list \<Rightarrow> protocol_error + request" where
  "parse_prompt_answer fds =
     (let i = Option.bind (field 0 fds) parse_word;
          verdict = field 1 fds;
          scope = field 2 fds
      in if field 3 fds \<noteq> None then Inl Malformed
         else case (i, verdict, scope) of
                (Some i, Some verdict, Some scope) \<Rightarrow> Inr (PromptAnswer i verdict scope)
              | _ \<Rightarrow> Inl Malformed)"

definition parse_dns_note :: "string list \<Rightarrow> protocol_error + request" where
  "parse_dns_note fds =
     (let hostname = field 0 fds;
          ipv4 = field 1 fds
      in and_then (case field 2 fds of
                     Some value \<Rightarrow> and_then (ok_or Malformed (parse_word value)) (\<lambda>v. Inr (Some v))
                   | None \<Rightarrow> Inr None) (\<lambda>ttl_secs.
         if field 3 fds \<noteq> None then Inl Malformed
         else case (hostname, ipv4) of
                (Some hostname, Some ipv4) \<Rightarrow> Inr (DnsNote hostname ipv4 ttl_secs)
              | _ \<Rightarrow> Inl Malformed))"

definition parse_audit_tail :: "string list \<Rightarrow> protocol_error + request" where
  "parse_audit_tail fds =
     and_then (case field 0 fds of
                 Some value \<Rightarrow> ok_or Malformed (parse_usize value)
               | None \<Rightarrow> Inr MAX_LOG_RECORDS_PER_SUBSCRIBER) (\<lambda>limit.
     if field 1 fds \<noteq> None then Inl Malformed else Inr (AuditTail limit))"

definition parse_audit_subscribe :: "string list \<Rightarrow> protocol_error + request" where
  "parse_audit_subscribe fds =
     (let i = field 0 fds
      in and_then (case field 1 fds of
                     Some value \<Rightarrow> ok_or Malformed (Option.bind (strip_prefix ''since='' value) parse_word)
                   | None \<Rightarrow> Inr 0) (\<lambda>since.
         if field 2 fds \<noteq> None then Inl Malformed
         else ok_or Malformed (map_option (\<lambda>i. AuditSubscribe i since) i)))"

definition Request_parse :: "string \<Rightarrow> protocol_error + request" where
  "Request_parse frame =
     (case split_whitespace frame of
        [] \<Rightarrow> Inl Malformed
      | version # rest \<Rightarrow>
          if version \<noteq> ''v1'' then Inl UnsupportedVersion
          else case rest of
                 [] \<Rightarrow> Inl Malformed
               | cmd # fds \<Rightarrow>
                   if cmd = ''ping'' \<and> fds = [] then Inr Ping
                   else if cmd = ''status'' \<and> fds = [] then Inr Status
                   else if cmd = ''rule-list'' \<and> fds = [] then Inr RuleList
                   else if cmd = ''rule-delete'' then parse_rule_delete fds
                   else if cmd = ''rule-add'' then parse_rule_add fds
                   else if cmd = ''prompt-list'' \<and> fds = [] then Inr PromptList
                   else if cmd = ''prompt-answer'' then parse_prompt_answer fds
                   else if cmd = ''dns-list'' \<and> fds = [] then Inr DnsList
                   else if cmd = ''dns-note'' then parse_dns_note fds
                   else if cmd = ''audit-tail'' then parse_audit_tail fds
                   else if cmd = ''audit-subscribe'' then parse_audit_subscribe fds
                   else if cmd = ''process-list'' \<and> fds = [] then Inr ProcessList
                   else if cmd = ''network-status'' \<and> fds = [] then Inr NetworkStatusReq
                   else if cmd = ''network-install'' \<and> fds = [] then Inr NetworkInstall
                   else if cmd = ''network-remove'' \<and> fds = [] then Inr NetworkRemove
                   else if cmd = ''pause'' \<and> fds = [] then Inr Pause
                   else if cmd = ''resume'' \<and> fds = [] then Inr Resume
                   else if cmd = ''traffic-block'' then parse_traffic_block fds
                   else if cmd = ''traffic-unblock'' then parse_traffic_unblock fds
                   else if cmd = ''stats-summary'' \<and> fds = [] then Inr StatsSummaryReq
                   else if cmd = ''stats-hosts'' \<and> fds = [] then Inr StatsHosts
                   else if cmd = ''stats-procs'' \<and> fds = [] then Inr StatsProcs
                   else if cmd = ''stats-addrs'' \<and> fds = [] then Inr StatsAddrs
                   else if cmd = ''stats-ports'' \<and> fds = [] then Inr StatsPorts
                   else if cmd = ''stats-users'' \<and> fds = [] then Inr StatsUsers
                   else Inl Malformed)"

section \<open>Responses\<close>

datatype network_table_state = NtMissing | NtInstalled | NtIncomplete

fun NetworkTableState_as_str :: "network_table_state \<Rightarrow> string" where
  "NetworkTableState_as_str NtMissing = ''missing''"
| "NetworkTableState_as_str NtInstalled = ''installed''"
| "NetworkTableState_as_str NtIncomplete = ''incomplete''"

definition NetworkTableState_parse :: "string \<Rightarrow> protocol_error + network_table_state" where
  "NetworkTableState_parse value =
     (if value = ''missing'' then Inr NtMissing
      else if value = ''installed'' then Inr NtInstalled
      else if value = ''incomplete'' then Inr NtIncomplete
      else Inl Malformed)"

record network_status_body =
  ns_table :: string
  ns_queue :: u16
  ns_state :: network_table_state
  ns_rule :: string

record status_body =
  sb_enforcement :: string
  sb_observation :: string
  sb_traffic :: string
  sb_traffic_machine :: string
  sb_traffic_user :: string
  sb_traffic_effective :: string
  sb_ipc_version :: u16
  sb_pid :: u32
  sb_rss_kib :: u64
  sb_cpu_jiffies :: u64

record stats_summary_body =
  su_connections :: u64
  su_denied :: u64
  su_uptime_secs :: u64
  su_rules :: u64
  su_version :: string
  su_git :: string

datatype response =
    RPong
  | RStatus status_body
  | RError string
  | RRules string
  | RPrompts string
  | RDns string
  | RAudit string
  | RSubscribed string
  | RProcesses string
  | RNetwork network_status_body
  | RStatsSummary stats_summary_body
  | RStatsHosts string
  | RStatsProcs string
  | RStatsAddrs string
  | RStatsPorts string
  | RStatsUsers string

fun Response_encode :: "response \<Rightarrow> string" where
  "Response_encode RPong = ''v1 pong'' @ [NL]"
| "Response_encode (RStatus b) =
     ''v1 status enforcement='' @ sb_enforcement b @ '' observation='' @ sb_observation b @
     '' traffic='' @ sb_traffic b @ '' traffic_machine='' @ sb_traffic_machine b @
     '' traffic_user='' @ sb_traffic_user b @ '' traffic_effective='' @ sb_traffic_effective b @
     '' ipc_version='' @ show_word (sb_ipc_version b) @ '' pid='' @ show_word (sb_pid b) @
     '' rss_kib='' @ show_word (sb_rss_kib b) @ '' cpu_jiffies='' @ show_word (sb_cpu_jiffies b) @ [NL]"
| "Response_encode (RError message) = ''v1 error '' @ message @ [NL]"
| "Response_encode (RRules value) = ''v1 rules '' @ value @ [NL]"
| "Response_encode (RPrompts value) = ''v1 prompts '' @ value @ [NL]"
| "Response_encode (RDns value) = ''v1 dns '' @ value @ [NL]"
| "Response_encode (RAudit value) = ''v1 audit-tail '' @ value @ [NL]"
| "Response_encode (RSubscribed i) = ''v1 subscribed '' @ i @ [NL]"
| "Response_encode (RProcesses value) = ''v1 processes '' @ value @ [NL]"
| "Response_encode (RNetwork b) =
     ''v1 network table='' @ ns_table b @ '' queue='' @ show_word (ns_queue b) @
     '' state='' @ NetworkTableState_as_str (ns_state b) @ '' rule='' @ ns_rule b @ [NL]"
| "Response_encode (RStatsSummary b) =
     ''v1 stats-summary connections='' @ show_word (su_connections b) @
     '' denied='' @ show_word (su_denied b) @ '' uptime_secs='' @ show_word (su_uptime_secs b) @
     '' rules='' @ show_word (su_rules b) @ '' version='' @ su_version b @ '' git='' @ su_git b @ [NL]"
| "Response_encode (RStatsHosts value) = ''v1 stats-hosts '' @ value @ [NL]"
| "Response_encode (RStatsProcs value) = ''v1 stats-procs '' @ value @ [NL]"
| "Response_encode (RStatsAddrs value) = ''v1 stats-addrs '' @ value @ [NL]"
| "Response_encode (RStatsPorts value) = ''v1 stats-ports '' @ value @ [NL]"
| "Response_encode (RStatsUsers value) = ''v1 stats-users '' @ value @ [NL]"

definition network_rule_token :: "u16 \<Rightarrow> string" where
  "network_rule_token queue = (if queue = 4242 then ''tcp_new_queue_4242'' else ''tcp_new_queue'')"

end
