(* ===== verification/ProtoRows.thy ===== *)
theory ProtoRows
  imports Proto
begin

text \<open>
  The client side of \<open>interfire-proto\<close>: parsing of response frames into status records and rows,
  the row encodings that the daemon uses for them, and the round trips between the two.
\<close>

section \<open>Frames\<close>

definition check_version :: "string option \<Rightarrow> protocol_error + unit" where
  "check_version f =
     (case f of
        Some tok \<Rightarrow>
          if tok = ''v1'' then Inr ()
          else if starts_with ''v'' tok then Inl UnsupportedVersion
          else Inl Malformed
      | None \<Rightarrow> Inl Malformed)"

text \<open>The header of a \<open>key=value\<close> frame: the fields after version and label.\<close>

definition kv_fields :: "string \<Rightarrow> string \<Rightarrow> protocol_error + string list" where
  "kv_fields label frame =
     (let fds = split_whitespace (trim_crlf frame)
      in and_then (check_version (field 0 fds)) (\<lambda>_.
         if field 1 fds \<noteq> Some label then Inl Malformed else Inr (drop 2 fds)))"

text \<open>The header of a list frame: the payload after version and label, empty when absent.\<close>

definition list_payload :: "string \<Rightarrow> string \<Rightarrow> protocol_error + string" where
  "list_payload label frame =
     (let fds = splitn 3 SP (trim_crlf frame)
      in and_then (check_version (field 0 fds)) (\<lambda>_.
         if field 1 fds \<noteq> Some label then Inl Malformed
         else Inr (case field 2 fds of Some p \<Rightarrow> p | None \<Rightarrow> [])))"

fun fold_fields :: "(string \<Rightarrow> 's \<Rightarrow> protocol_error + 's) \<Rightarrow> string list \<Rightarrow> 's \<Rightarrow> protocol_error + 's" where
  "fold_fields step [] st = Inr st"
| "fold_fields step (f # fds) st = and_then (step f st) (fold_fields step fds)"

definition num :: "string \<Rightarrow> protocol_error + 'a::len word" where
  "num value = ok_or Malformed (parse_word value)"

text \<open>One arm of an \<open>if let Some(value) = field.strip_prefix(..)\<close> chain.\<close>

definition on_key :: "string \<Rightarrow> string \<Rightarrow> (string \<Rightarrow> 'a) \<Rightarrow> 'a \<Rightarrow> 'a" where
  "on_key p f hit otherwise = (case strip_prefix p f of Some v \<Rightarrow> hit v | None \<Rightarrow> otherwise)"

section \<open>Stats summary\<close>

record stats_summary_row =
  sr_connections :: "u64 option"
  sr_denied :: "u64 option"
  sr_uptime_secs :: "u64 option"
  sr_rules :: "u64 option"
  sr_version :: "string option"
  sr_git :: "string option"

definition stats_summary_field :: "string \<Rightarrow> stats_summary_row \<Rightarrow> protocol_error + stats_summary_row" where
  "stats_summary_field f st =
     on_key ''connections='' f (\<lambda>v. and_then (num v) (\<lambda>n. Inr (st\<lparr>sr_connections := Some n\<rparr>))) (
     on_key ''denied='' f (\<lambda>v. and_then (num v) (\<lambda>n. Inr (st\<lparr>sr_denied := Some n\<rparr>))) (
     on_key ''uptime_secs='' f (\<lambda>v. and_then (num v) (\<lambda>n. Inr (st\<lparr>sr_uptime_secs := Some n\<rparr>))) (
     on_key ''rules='' f (\<lambda>v. and_then (num v) (\<lambda>n. Inr (st\<lparr>sr_rules := Some n\<rparr>))) (
     on_key ''version='' f (\<lambda>v. Inr (st\<lparr>sr_version := Some v\<rparr>)) (
     on_key ''git='' f (\<lambda>v. Inr (st\<lparr>sr_git := Some v\<rparr>)) (
     if CHR ''='' \<in> set f then Inr st else Inl Malformed))))))"

definition StatsSummary_parse :: "string \<Rightarrow> protocol_error + stats_summary_body" where
  "StatsSummary_parse frame =
     and_then (kv_fields ''stats-summary'' frame) (\<lambda>fds.
     and_then (fold_fields stats_summary_field fds
       \<lparr>sr_connections = None, sr_denied = None, sr_uptime_secs = None, sr_rules = None,
        sr_version = None, sr_git = None\<rparr>) (\<lambda>st.
     and_then (ok_or Malformed (sr_connections st)) (\<lambda>connections.
     and_then (ok_or Malformed (sr_denied st)) (\<lambda>denied.
     and_then (ok_or Malformed (sr_uptime_secs st)) (\<lambda>uptime_secs.
     and_then (ok_or Malformed (sr_rules st)) (\<lambda>rules.
     Inr \<lparr>su_connections = connections, su_denied = denied, su_uptime_secs = uptime_secs,
       su_rules = rules, su_version = (case sr_version st of Some v \<Rightarrow> v | None \<Rightarrow> []),
       su_git = (case sr_git st of Some v \<Rightarrow> v | None \<Rightarrow> [])\<rparr>))))))"

section \<open>Escaping\<close>

definition escape_field :: "string \<Rightarrow> string" where
  "escape_field value =
     replace_char CHR '';'' ''%3B'' (replace_char CHR ''|'' ''%7C'' (replace_char CHR ''%'' ''%25'' value))"

definition unescape_field :: "string \<Rightarrow> string" where
  "unescape_field value =
     replace3 CHR ''%'' CHR ''2'' CHR ''5'' CHR ''%''
       (replace3 CHR ''%'' CHR ''7'' CHR ''C'' CHR ''|''
         (replace3 CHR ''%'' CHR ''3'' CHR ''B'' CHR '';'' value))"

section \<open>Stats rows\<close>

record stats_row =
  row_key :: string
  row_hits :: u64
  row_allow :: u64
  row_deny :: u64
  row_prompt :: u64

definition num_field :: "nat \<Rightarrow> string list \<Rightarrow> protocol_error + 'a::len word" where
  "num_field n parts = ok_or Malformed (Option.bind (field n parts) parse_word)"

definition text_field :: "nat \<Rightarrow> string list \<Rightarrow> protocol_error + string" where
  "text_field n parts = ok_or Malformed (field n parts)"

definition StatsRow_parse_row :: "string \<Rightarrow> protocol_error + stats_row" where
  "StatsRow_parse_row row =
     (let parts = splitn 5 CHR ''|'' row
      in and_then (text_field 0 parts) (\<lambda>key.
         and_then (num_field 1 parts) (\<lambda>hits.
         and_then (num_field 2 parts) (\<lambda>allow.
         and_then (num_field 3 parts) (\<lambda>deny.
         and_then (num_field 4 parts) (\<lambda>prompt.
         Inr \<lparr>row_key = unescape_field key, row_hits = hits, row_allow = allow, row_deny = deny,
           row_prompt = prompt\<rparr>))))))"

definition StatsRow_parse_frame :: "string \<Rightarrow> string \<Rightarrow> protocol_error + stats_row list" where
  "StatsRow_parse_frame frame label =
     and_then (list_payload label frame) (\<lambda>payload.
     if payload = [] then Inr [] else collect_results StatsRow_parse_row (split_on CHR '';'' payload))"

definition StatsRow_encode_row :: "stats_row \<Rightarrow> string" where
  "StatsRow_encode_row r =
     escape_field (row_key r) @ ''|'' @ show_word (row_hits r) @ ''|'' @ show_word (row_allow r) @
     ''|'' @ show_word (row_deny r) @ ''|'' @ show_word (row_prompt r)"

section \<open>Network status\<close>

record network_row =
  nr_table :: "string option"
  nr_queue :: "u16 option"
  nr_state :: "network_table_state option"
  nr_rule :: "string option"

definition network_field :: "string \<Rightarrow> network_row \<Rightarrow> protocol_error + network_row" where
  "network_field f st =
     on_key ''table='' f (\<lambda>v. Inr (st\<lparr>nr_table := Some v\<rparr>)) (
     on_key ''queue='' f (\<lambda>v. and_then (num v) (\<lambda>n. Inr (st\<lparr>nr_queue := Some n\<rparr>))) (
     on_key ''state='' f (\<lambda>v. and_then (NetworkTableState_parse v) (\<lambda>x. Inr (st\<lparr>nr_state := Some x\<rparr>))) (
     on_key ''rule='' f (\<lambda>v. Inr (st\<lparr>nr_rule := Some v\<rparr>)) (
     if CHR ''='' \<in> set f then Inr st else Inl Malformed))))"

definition NetworkStatus_parse :: "string \<Rightarrow> protocol_error + network_status_body" where
  "NetworkStatus_parse frame =
     and_then (kv_fields ''network'' frame) (\<lambda>fds.
     and_then (fold_fields network_field fds
       \<lparr>nr_table = None, nr_queue = None, nr_state = None, nr_rule = None\<rparr>) (\<lambda>st.
     and_then (ok_or Malformed (nr_table st)) (\<lambda>table.
     and_then (ok_or Malformed (nr_queue st)) (\<lambda>queue.
     and_then (ok_or Malformed (nr_state st)) (\<lambda>state.
     and_then (ok_or Malformed (nr_rule st)) (\<lambda>rule.
     Inr \<lparr>ns_table = table, ns_queue = queue, ns_state = state, ns_rule = rule\<rparr>))))))"

definition NetworkStatus_summary :: "network_status_body \<Rightarrow> string" where
  "NetworkStatus_summary b =
     ''table '' @ ns_table b @ ''  queue '' @ show_word (ns_queue b) @ ''  '' @
     NetworkTableState_as_str (ns_state b) @ ''  rule '' @ ns_rule b"

section \<open>Daemon status\<close>

record daemon_status =
  ds_enforcement :: string
  ds_observation :: string
  ds_traffic :: string
  ds_traffic_machine :: string
  ds_traffic_user :: string
  ds_traffic_effective :: string
  ds_ipc_version :: u16
  ds_pid :: "u32 option"
  ds_rss_kib :: "u64 option"
  ds_cpu_jiffies :: "u64 option"

record status_row =
  rw_enforcement :: "string option"
  rw_observation :: "string option"
  rw_traffic :: "string option"
  rw_traffic_machine :: "string option"
  rw_traffic_user :: "string option"
  rw_traffic_effective :: "string option"
  rw_ipc_version :: "u16 option"
  rw_pid :: "u32 option"
  rw_rss_kib :: "u64 option"
  rw_cpu_jiffies :: "u64 option"

definition status_field :: "string \<Rightarrow> status_row \<Rightarrow> protocol_error + status_row" where
  "status_field f st =
     on_key ''enforcement='' f (\<lambda>v. Inr (st\<lparr>rw_enforcement := Some v\<rparr>)) (
     on_key ''observation='' f (\<lambda>v. Inr (st\<lparr>rw_observation := Some v\<rparr>)) (
     on_key ''traffic_machine='' f (\<lambda>v. Inr (st\<lparr>rw_traffic_machine := Some v\<rparr>)) (
     on_key ''traffic_user='' f (\<lambda>v. Inr (st\<lparr>rw_traffic_user := Some v\<rparr>)) (
     on_key ''traffic_effective='' f (\<lambda>v. Inr (st\<lparr>rw_traffic_effective := Some v\<rparr>)) (
     on_key ''traffic='' f (\<lambda>v. Inr (st\<lparr>rw_traffic := Some v\<rparr>)) (
     on_key ''ipc_version='' f (\<lambda>v. and_then (num v) (\<lambda>n. Inr (st\<lparr>rw_ipc_version := Some n\<rparr>))) (
     on_key ''pid='' f (\<lambda>v. and_then (num v) (\<lambda>n. Inr (st\<lparr>rw_pid := Some n\<rparr>))) (
     on_key ''rss_kib='' f (\<lambda>v. and_then (num v) (\<lambda>n. Inr (st\<lparr>rw_rss_kib := Some n\<rparr>))) (
     on_key ''cpu_jiffies='' f (\<lambda>v. and_then (num v) (\<lambda>n. Inr (st\<lparr>rw_cpu_jiffies := Some n\<rparr>))) (
     if CHR ''='' \<in> set f then Inr st else Inl Malformed))))))))))"

definition status_row_empty :: status_row where
  "status_row_empty = \<lparr>rw_enforcement = None, rw_observation = None, rw_traffic = None,
     rw_traffic_machine = None, rw_traffic_user = None, rw_traffic_effective = None,
     rw_ipc_version = None, rw_pid = None, rw_rss_kib = None, rw_cpu_jiffies = None\<rparr>"

definition unwrap_or :: "'a \<Rightarrow> 'a option \<Rightarrow> 'a" where
  "unwrap_or d x = (case x of Some v \<Rightarrow> v | None \<Rightarrow> d)"

definition DaemonStatus_parse :: "string \<Rightarrow> protocol_error + daemon_status" where
  "DaemonStatus_parse frame =
     and_then (kv_fields ''status'' frame) (\<lambda>fds.
     and_then (fold_fields status_field fds status_row_empty) (\<lambda>st.
     let traffic = unwrap_or ''open'' (rw_traffic st) in
     and_then (ok_or Malformed (rw_enforcement st)) (\<lambda>enforcement.
     and_then (ok_or Malformed (rw_observation st)) (\<lambda>observation.
     and_then (ok_or Malformed (rw_ipc_version st)) (\<lambda>ipc_version.
     Inr \<lparr>ds_enforcement = enforcement, ds_observation = observation, ds_traffic = traffic,
       ds_traffic_machine = unwrap_or ''open'' (rw_traffic_machine st),
       ds_traffic_user = unwrap_or ''open'' (rw_traffic_user st),
       ds_traffic_effective = unwrap_or traffic (rw_traffic_effective st),
       ds_ipc_version = ipc_version, ds_pid = rw_pid st, ds_rss_kib = rw_rss_kib st,
       ds_cpu_jiffies = rw_cpu_jiffies st\<rparr>)))))"

section \<open>Audit records, rules, prompts, processes\<close>

record audit_stream_record =
  asr_sequence :: u64
  asr_message :: string

definition AuditStreamRecord_parse :: "string \<Rightarrow> protocol_error + audit_stream_record" where
  "AuditStreamRecord_parse frame =
     (let fds = splitn 3 SP (trim_crlf frame)
      in and_then (check_version (field 0 fds)) (\<lambda>_.
         if field 1 fds \<noteq> Some ''audit'' then Inl Malformed
         else
           and_then (ok_or Malformed (field 2 fds)) (\<lambda>payload.
           and_then (ok_or Malformed (split_once CHR ''|'' payload)) (\<lambda>(sequence, message).
           and_then (num sequence) (\<lambda>n.
           Inr \<lparr>asr_sequence = n, asr_message = message\<rparr>)))))"

record rule_row =
  rr_id :: u64
  rr_executable :: string
  rr_verdict :: string
  rr_port :: u16

definition RuleRow_parse_row :: "string \<Rightarrow> protocol_error + rule_row" where
  "RuleRow_parse_row row =
     (let parts = splitn 4 CHR ''|'' row
      in and_then (num_field 0 parts) (\<lambda>i.
         and_then (text_field 1 parts) (\<lambda>executable.
         and_then (text_field 2 parts) (\<lambda>verdict.
         and_then (num_field 3 parts) (\<lambda>port.
         Inr \<lparr>rr_id = i, rr_executable = executable, rr_verdict = verdict, rr_port = port\<rparr>)))))"

definition RuleRow_parse_frame :: "string \<Rightarrow> protocol_error + rule_row list" where
  "RuleRow_parse_frame frame =
     and_then (list_payload ''rules'' frame) (\<lambda>payload.
     if payload = [] then Inr [] else collect_results RuleRow_parse_row (split_on CHR '','' payload))"

definition RuleRow_list_label :: "rule_row \<Rightarrow> string" where
  "RuleRow_list_label r =
     show_word (rr_id r) @ ''  '' @ rr_executable r @ ''  '' @ rr_verdict r @ ''  :'' @ show_word (rr_port r)"

record prompt_row =
  pw_id :: u64
  pw_executable :: string
  pw_destination :: string
  pw_port :: u16
  pw_protocol :: string
  pw_remaining_secs :: u64

definition PromptRow_parse_row :: "string \<Rightarrow> protocol_error + prompt_row" where
  "PromptRow_parse_row row =
     (let parts = split_on CHR ''|'' row
      in if length parts < 4 then Inl Malformed
         else
           and_then (num (parts ! 0)) (\<lambda>i.
           and_then (num (parts ! 3)) (\<lambda>port.
           Inr \<lparr>pw_id = i, pw_executable = parts ! 1, pw_destination = parts ! 2, pw_port = port,
             pw_protocol = unwrap_or ''tcp'' (field 4 parts),
             pw_remaining_secs = unwrap_or 0 (Option.bind (field 5 parts) parse_word)\<rparr>)))"

definition PromptRow_parse_frame :: "string \<Rightarrow> protocol_error + prompt_row list" where
  "PromptRow_parse_frame frame =
     and_then (list_payload ''prompts'' frame) (\<lambda>payload.
     if payload = [] then Inr [] else collect_results PromptRow_parse_row (split_on CHR '','' payload))"

definition PromptRow_list_label :: "prompt_row \<Rightarrow> string" where
  "PromptRow_list_label r =
     show_word (pw_id r) @ ''  '' @ pw_executable r @ ''  '' @ pw_destination r @ '':'' @
     show_word (pw_port r) @ '' '' @ pw_protocol r @ ''  '' @ show_word (pw_remaining_secs r) @ ''s''"

definition PromptRow_can_answer :: "prompt_row \<Rightarrow> bool" where
  "PromptRow_can_answer r \<longleftrightarrow> 0 < pw_remaining_secs r"

record process_row =
  pr_pid :: u32
  pr_start_ticks :: u64
  pr_uid :: u32
  pr_executable :: string
  pr_cmdline :: string
  pr_verdict :: string
  pr_ports :: string

definition ProcessRow_parse_row :: "string \<Rightarrow> protocol_error + process_row" where
  "ProcessRow_parse_row row =
     (let parts = splitn 7 CHR ''|'' row
      in and_then (num_field 0 parts) (\<lambda>pid.
         and_then (num_field 1 parts) (\<lambda>start_ticks.
         and_then (num_field 2 parts) (\<lambda>uid.
         and_then (text_field 3 parts) (\<lambda>verdict.
         and_then (text_field 4 parts) (\<lambda>recent_ports.
         and_then (text_field 5 parts) (\<lambda>executable.
         and_then (text_field 6 parts) (\<lambda>cmdline.
         Inr \<lparr>pr_pid = pid, pr_start_ticks = start_ticks, pr_uid = uid,
           pr_executable = unescape_field executable, pr_cmdline = unescape_field cmdline,
           pr_verdict = verdict, pr_ports = recent_ports\<rparr>))))))))"

definition ProcessRow_parse_frame :: "string \<Rightarrow> protocol_error + process_row list" where
  "ProcessRow_parse_frame frame =
     and_then (list_payload ''processes'' frame) (\<lambda>payload.
     if payload = [] then Inr [] else collect_results ProcessRow_parse_row (split_on CHR '';'' payload))"

definition ProcessRow_encode_row :: "process_row \<Rightarrow> string" where
  "ProcessRow_encode_row r =
     show_word (pr_pid r) @ ''|'' @ show_word (pr_start_ticks r) @ ''|'' @ show_word (pr_uid r) @
     ''|'' @ pr_verdict r @ ''|'' @ pr_ports r @ ''|'' @ escape_field (pr_executable r) @ ''|'' @
     escape_field (pr_cmdline r)"

definition ProcessRow_list_label :: "process_row \<Rightarrow> string" where
  "ProcessRow_list_label r =
     show_word (pr_pid r) @ ''  '' @ pr_executable r @ ''  '' @ pr_verdict r @ ''  '' @ pr_ports r"

definition parse_error_message :: "string \<Rightarrow> string option" where
  "parse_error_message frame = strip_prefix ''v1 error '' (trim_crlf frame)"

section \<open>Escaping is lossless\<close>

text \<open>The escaped text, one character at a time.\<close>

definition esc :: "char \<Rightarrow> string" where
  "esc c = (if c = CHR ''%'' then ''%25'' else if c = CHR ''|'' then ''%7C''
            else if c = CHR '';'' then ''%3B'' else [c])"

lemma escape_field_eq: "escape_field v = concat (map esc v)"
  by (induction v) (auto simp: escape_field_def replace_char_def esc_def)

lemma replace3_other: "a \<noteq> p \<Longrightarrow> replace3 p q r t (a # s) = a # replace3 p q r t s"
  by (cases s; cases "tl s") auto

text \<open>The three replacements undo the escapes from the last to the first.\<close>

lemma unescape_step1:
  "replace3 CHR ''%'' CHR ''3'' CHR ''B'' CHR '';'' (concat (map esc v)) =
     concat (map (\<lambda>c. if c = CHR '';'' then [c] else esc c) v)"
  by (induction v) (auto simp: esc_def replace3_other)

lemma unescape_step2:
  "replace3 CHR ''%'' CHR ''7'' CHR ''C'' CHR ''|'' (concat (map (\<lambda>c. if c = CHR '';'' then [c] else esc c) v)) =
     concat (map (\<lambda>c. if c = CHR '';'' \<or> c = CHR ''|'' then [c] else esc c) v)"
  by (induction v) (auto simp: esc_def replace3_other)

lemma unescape_step3:
  "replace3 CHR ''%'' CHR ''2'' CHR ''5'' CHR ''%''
     (concat (map (\<lambda>c. if c = CHR '';'' \<or> c = CHR ''|'' then [c] else esc c) v)) = v"
  by (induction v) (auto simp: esc_def replace3_other)

lemma unescape_escape [simp]: "unescape_field (escape_field v) = v"
  by (simp add: unescape_field_def escape_field_eq unescape_step1 unescape_step2 unescape_step3)

lemma escape_field_clean: "CHR ''|'' \<notin> set (escape_field v)" "CHR '';'' \<notin> set (escape_field v)"
  by (induction v) (auto simp: escape_field_eq esc_def)

lemma escape_field_last:
  "v = [] \<or> last v \<noteq> CR \<and> last v \<noteq> NL \<Longrightarrow>
     escape_field v = [] \<or> last (escape_field v) \<noteq> CR \<and> last (escape_field v) \<noteq> NL"
  by (cases v rule: rev_cases) (auto simp: escape_field_eq esc_def split: if_splits)

section \<open>Frames read back\<close>

abbreviation no_eol :: "string \<Rightarrow> bool" where
  "no_eol s \<equiv> s = [] \<or> last s \<noteq> CR \<and> last s \<noteq> NL"

lemma list_payload_encode:
  assumes "SP \<notin> set label" "no_eol payload"
  shows "list_payload label (''v1 '' @ label @ '' '' @ payload @ [NL]) = Inr payload"
proof -
  let ?line = "''v1'' @ SP # label @ SP # payload"
  have "no_eol ?line" using assms(2) by (auto simp: last_append)
  then have "trim_crlf (?line @ [NL]) = ?line" by (rule trim_crlf_append_NL)
  moreover have "splitn 3 SP ?line = [''v1'', label, payload]"
    using assms(1) splitn_append [of 3 SP "''v1''" "label @ SP # payload"]
      splitn_append [of 2 SP label payload] by simp
  ultimately show ?thesis
    by (simp add: list_payload_def Let_def field_def check_version_def)
qed

lemma list_frame_round_trip:
  assumes "\<And>r. r \<in> set rows \<Longrightarrow> dec (enc r) = Inr r \<and> enc r \<noteq> [] \<and> c \<notin> set (enc r) \<and> no_eol (enc r)"
    and "SP \<notin> set label"
  shows "and_then (list_payload label (''v1 '' @ label @ '' '' @ join [c] (map enc rows) @ [NL])) (\<lambda>payload.
    if payload = [] then Inr [] else collect_results dec (split_on c payload)) = Inr rows"
proof (cases "rows = []")
  case True
  have "list_payload label (''v1 '' @ label @ '' '' @ [] @ [NL]) = Inr []"
    by (rule list_payload_encode [OF assms(2)]) simp
  with True show ?thesis by (simp del: and_then_Inr_iff)
next
  case False
  let ?p = "join [c] (map enc rows)"
  have ne: "?p \<noteq> [] \<and> last ?p = last (enc (last rows))"
    using False assms(1) join_last [of "map enc rows" "[c]"] by (simp add: last_map)
  have "no_eol ?p" using ne assms(1) [of "last rows"] False by auto
  then have "list_payload label (''v1 '' @ label @ '' '' @ ?p @ [NL]) = Inr ?p"
    by (rule list_payload_encode [OF assms(2)])
  moreover have "split_on c ?p = map enc rows"
    using False assms(1) by (intro split_on_join) auto
  moreover have "collect_results dec (map enc rows) = Inr rows"
    using assms(1) by (intro collect_results_map) auto
  ultimately show ?thesis using ne by (simp del: and_then_Inr_iff)
qed

lemma show_word_last: "no_eol (show_word w)"
proof -
  have "NL \<notin> set (show_word w)" "CR \<notin> set (show_word w)"
    by (auto simp: show_word_no_char is_digit_def digit_val_def)
  then show ?thesis by (metis last_in_set)
qed

lemma bar_semi_not_digit [simp]: "CHR ''|'' \<notin> set (show_word w)" "CHR '';'' \<notin> set (show_word w)"
  by (auto simp: show_word_no_char is_digit_def digit_val_def)

lemma StatsRow_row_round_trip: "StatsRow_parse_row (StatsRow_encode_row r) = Inr r"
proof -
  have "splitn 5 CHR ''|'' (StatsRow_encode_row r) =
      [escape_field (row_key r), show_word (row_hits r), show_word (row_allow r), show_word (row_deny r),
       show_word (row_prompt r)]"
    by (simp add: StatsRow_encode_row_def splitn_append escape_field_clean)
  then show ?thesis
    by (simp add: StatsRow_parse_row_def Let_def text_field_def num_field_def field_def)
qed

lemma StatsRow_row_clean:
  "StatsRow_encode_row r \<noteq> []" "CHR '';'' \<notin> set (StatsRow_encode_row r)" "no_eol (StatsRow_encode_row r)"
  using show_word_last [of "row_prompt r"] token_show_word [of "row_prompt r"]
  by (auto simp: StatsRow_encode_row_def escape_field_clean last_append token_def)

lemma ProcessRow_row_round_trip:
  assumes "CHR ''|'' \<notin> set (pr_verdict r)" "CHR ''|'' \<notin> set (pr_ports r)"
  shows "ProcessRow_parse_row (ProcessRow_encode_row r) = Inr r"
proof -
  have "splitn 7 CHR ''|'' (ProcessRow_encode_row r) =
      [show_word (pr_pid r), show_word (pr_start_ticks r), show_word (pr_uid r), pr_verdict r, pr_ports r,
       escape_field (pr_executable r), escape_field (pr_cmdline r)]"
    using assms by (simp add: ProcessRow_encode_row_def splitn_append escape_field_clean)
  then show ?thesis
    by (simp add: ProcessRow_parse_row_def Let_def text_field_def num_field_def field_def)
qed

lemma ProcessRow_row_clean:
  assumes "set (pr_verdict r @ pr_ports r) \<inter> {CHR ''|'', CHR '';''} = {}" "no_eol (pr_cmdline r)"
  shows "CHR ''|'' \<notin> set (pr_verdict r)" "CHR ''|'' \<notin> set (pr_ports r)"
    "ProcessRow_encode_row r \<noteq> []" "CHR '';'' \<notin> set (ProcessRow_encode_row r)"
    "no_eol (ProcessRow_encode_row r)"
  using assms(1) escape_field_last [OF assms(2)]
  by (auto simp: ProcessRow_encode_row_def escape_field_clean last_append)

text \<open>A frame of \<open>key=value\<close> fields splits into its fields.\<close>

lemma token_last: "token s \<Longrightarrow> no_eol s"
proof -
  assume "token s"
  have "no_ws (a @ [c]) \<Longrightarrow> \<not> is_ws1 c" for a c
    by (induction a) auto
  then show ?thesis using \<open>token s\<close>
    by (cases s rule: rev_cases) (auto simp: token_def is_ws1_def)
qed

lemma kv_fields_join:
  assumes "\<And>t. t \<in> set fds \<Longrightarrow> token t" "token label"
  shows "kv_fields label (join [SP] (''v1'' # label # fds) @ [NL]) = Inr fds"
proof -
  have tok: "token t" if "t \<in> set (''v1'' # label # fds)" for t
    using that assms by (auto simp: token_def is_ws1_def is_ws2_def)
  have ne: "last (''v1'' # label # fds) \<noteq> []" using tok [of "last (''v1'' # label # fds)"]
    by (metis last_in_set list.distinct(1) token_def)
  have "no_eol (join [SP] (''v1'' # label # fds))"
    using join_last [OF _ ne, of "[SP]"] token_last [OF tok, of "last (''v1'' # label # fds)"] ne
    by (metis last_in_set list.distinct(1))
  then have "trim_crlf (join [SP] (''v1'' # label # fds) @ [NL]) = join [SP] (''v1'' # label # fds)"
    by (rule trim_crlf_append_NL)
  moreover have "split_whitespace (join [SP] (''v1'' # label # fds)) = ''v1'' # label # fds"
    by (rule split_whitespace_join_plain [OF tok])
  ultimately have "split_whitespace (trim_crlf (join [SP] (''v1'' # label # fds) @ [NL])) =
      ''v1'' # label # fds" by metis
  then show ?thesis unfolding kv_fields_def Let_def by (simp add: field_def check_version_def)
qed

lemma token_kv: "no_ws v \<Longrightarrow> (\<And>c. c \<in> set k \<Longrightarrow> plain c) \<Longrightarrow> token (k @ ''='' @ v)"
proof -
  assume v: "no_ws v" and k: "\<And>c. c \<in> set k \<Longrightarrow> plain c"
  have "plain c" if "c \<in> set (k @ ''='')" for c using that k by (auto simp: plain_def)
  then have "token ((k @ ''='') @ v)" by (rule token_key_value) (simp_all add: v)
  then show ?thesis by simp
qed

lemma no_ws_show_word [simp]: "no_ws (show_word w)"
  using token_show_word [of w] by (simp add: token_def)

lemma num_show_word [simp]: "num (show_word w) = Inr w"
  by (simp add: num_def)

lemma state_round_trip [simp]: "NetworkTableState_parse (NetworkTableState_as_str st) = Inr st"
  by (cases st) (simp_all add: NetworkTableState_parse_def)

lemma no_ws_state [simp]: "no_ws (NetworkTableState_as_str st)"
  by (cases st) (auto intro!: plain_no_ws simp: plain_def simp del: no_ws.simps)

definition status_words :: "status_body \<Rightarrow> string list" where
  "status_words b =
     [''enforcement'' @ ''='' @ sb_enforcement b, ''observation'' @ ''='' @ sb_observation b,
      ''traffic'' @ ''='' @ sb_traffic b, ''traffic_machine'' @ ''='' @ sb_traffic_machine b,
      ''traffic_user'' @ ''='' @ sb_traffic_user b,
      ''traffic_effective'' @ ''='' @ sb_traffic_effective b,
      ''ipc_version'' @ ''='' @ show_word (sb_ipc_version b), ''pid'' @ ''='' @ show_word (sb_pid b),
      ''rss_kib'' @ ''='' @ show_word (sb_rss_kib b), ''cpu_jiffies'' @ ''='' @ show_word (sb_cpu_jiffies b)]"

lemma status_encode: "Response_encode (RStatus b) = join [SP] (''v1'' # ''status'' # status_words b) @ [NL]"
  by (simp add: status_words_def)

lemma status_fold:
  "fold_fields status_field (status_words b) status_row_empty =
     Inr \<lparr>rw_enforcement = Some (sb_enforcement b), rw_observation = Some (sb_observation b),
       rw_traffic = Some (sb_traffic b), rw_traffic_machine = Some (sb_traffic_machine b),
       rw_traffic_user = Some (sb_traffic_user b), rw_traffic_effective = Some (sb_traffic_effective b),
       rw_ipc_version = Some (sb_ipc_version b), rw_pid = Some (sb_pid b),
       rw_rss_kib = Some (sb_rss_kib b), rw_cpu_jiffies = Some (sb_cpu_jiffies b)\<rparr>"
  by (simp add: status_words_def status_field_def on_key_def status_row_empty_def)

definition network_words :: "network_status_body \<Rightarrow> string list" where
  "network_words b =
     [''table'' @ ''='' @ ns_table b, ''queue'' @ ''='' @ show_word (ns_queue b),
      ''state'' @ ''='' @ NetworkTableState_as_str (ns_state b), ''rule'' @ ''='' @ ns_rule b]"

lemma network_encode: "Response_encode (RNetwork b) = join [SP] (''v1'' # ''network'' # network_words b) @ [NL]"
  by (simp add: network_words_def)

definition summary_words :: "stats_summary_body \<Rightarrow> string list" where
  "summary_words b =
     [''connections'' @ ''='' @ show_word (su_connections b), ''denied'' @ ''='' @ show_word (su_denied b),
      ''uptime_secs'' @ ''='' @ show_word (su_uptime_secs b), ''rules'' @ ''='' @ show_word (su_rules b),
      ''version'' @ ''='' @ su_version b, ''git'' @ ''='' @ su_git b]"

lemma summary_encode:
  "Response_encode (RStatsSummary b) = join [SP] (''v1'' # ''stats-summary'' # summary_words b) @ [NL]"
  by (simp add: summary_words_def)

lemma word_tokens:
  "no_ws (sb_enforcement b) \<Longrightarrow> no_ws (sb_observation b) \<Longrightarrow> no_ws (sb_traffic b) \<Longrightarrow>
     no_ws (sb_traffic_machine b) \<Longrightarrow> no_ws (sb_traffic_user b) \<Longrightarrow> no_ws (sb_traffic_effective b) \<Longrightarrow>
     list_all token (status_words b)"
  "no_ws (ns_table n) \<Longrightarrow> no_ws (ns_rule n) \<Longrightarrow> list_all token (network_words n)"
  "no_ws (su_version u) \<Longrightarrow> no_ws (su_git u) \<Longrightarrow> list_all token (summary_words u)"
  unfolding status_words_def network_words_def summary_words_def list.pred_inject
  by (intro conjI TrueI token_kv; (simp; fail | auto simp: plain_def))+

section \<open>Properties\<close>

text \<open>
  The statistics tables arrive as they were sent. For every list of rows, with any bytes in the
  keys (separators and percent signs included), the client parser reads the encoded frame back.
\<close>

theorem stats_frame_round_trip:
  "StatsRow_parse_frame
     (Response_encode (RStatsHosts (join '';'' (map StatsRow_encode_row rows)))) ''stats-hosts'' = Inr rows"
proof -
  have row: "StatsRow_parse_row (StatsRow_encode_row r) = Inr r \<and> StatsRow_encode_row r \<noteq> [] \<and>
      CHR '';'' \<notin> set (StatsRow_encode_row r) \<and> no_eol (StatsRow_encode_row r)" for r
    using StatsRow_row_round_trip StatsRow_row_clean by blast
  show ?thesis
    using list_frame_round_trip [where label = "''stats-hosts''" and rows = rows, OF row]
    by (simp add: StatsRow_parse_frame_def del: and_then_Inr_iff)
qed

text \<open>
  The process list arrives as it was sent, whatever the executable paths and command lines
  contain, provided the verdict and port columns are free of separators (the daemon builds them
  from fixed words, digits and dots) and no command line ends in a line break.
\<close>

theorem process_frame_round_trip:
  assumes "\<And>r. r \<in> set rows \<Longrightarrow> set (pr_verdict r @ pr_ports r) \<inter> {CHR ''|'', CHR '';''} = {} \<and>
      no_eol (pr_cmdline r)"
  shows "ProcessRow_parse_frame
     (Response_encode (RProcesses (join '';'' (map ProcessRow_encode_row rows)))) = Inr rows"
proof -
  have row: "ProcessRow_parse_row (ProcessRow_encode_row r) = Inr r \<and> ProcessRow_encode_row r \<noteq> [] \<and>
      CHR '';'' \<notin> set (ProcessRow_encode_row r) \<and> no_eol (ProcessRow_encode_row r)" if "r \<in> set rows" for r
    using assms [OF that] ProcessRow_row_round_trip [of r] ProcessRow_row_clean [of r] by blast
  show ?thesis
    using list_frame_round_trip [where label = "''processes''" and rows = rows, OF row]
    by (simp add: ProcessRow_parse_frame_def del: and_then_Inr_iff)
qed

text \<open>
  Status, network and summary frames arrive as they were sent, as long as the text fields hold
  no white space (the daemon fills them with fixed words, mode names and version strings).
\<close>

theorem kv_frames_round_trip:
  assumes "no_ws (sb_enforcement b)" "no_ws (sb_observation b)" "no_ws (sb_traffic b)"
      "no_ws (sb_traffic_machine b)" "no_ws (sb_traffic_user b)" "no_ws (sb_traffic_effective b)"
    and "no_ws (ns_table n)" "no_ws (ns_rule n)" "no_ws (su_version u)" "no_ws (su_git u)"
  shows "DaemonStatus_parse (Response_encode (RStatus b)) =
      Inr \<lparr>ds_enforcement = sb_enforcement b, ds_observation = sb_observation b,
        ds_traffic = sb_traffic b, ds_traffic_machine = sb_traffic_machine b,
        ds_traffic_user = sb_traffic_user b, ds_traffic_effective = sb_traffic_effective b,
        ds_ipc_version = sb_ipc_version b, ds_pid = Some (sb_pid b), ds_rss_kib = Some (sb_rss_kib b),
        ds_cpu_jiffies = Some (sb_cpu_jiffies b)\<rparr> \<and>
    NetworkStatus_parse (Response_encode (RNetwork n)) = Inr n \<and>
    StatsSummary_parse (Response_encode (RStatsSummary u)) = Inr u"
proof (intro conjI)
  have label: "token l" if "l \<in> {''status'', ''network'', ''stats-summary''}" for l
    using that by (auto simp: token_def intro!: plain_no_ws simp: plain_def simp del: no_ws.simps)
  have "kv_fields ''status'' (Response_encode (RStatus b)) = Inr (status_words b)"
    unfolding status_encode by (rule kv_fields_join) (use word_tokens(1) assms label in \<open>auto simp: list_all_iff\<close>)
  then show "DaemonStatus_parse (Response_encode (RStatus b)) =
      Inr \<lparr>ds_enforcement = sb_enforcement b, ds_observation = sb_observation b,
        ds_traffic = sb_traffic b, ds_traffic_machine = sb_traffic_machine b,
        ds_traffic_user = sb_traffic_user b, ds_traffic_effective = sb_traffic_effective b,
        ds_ipc_version = sb_ipc_version b, ds_pid = Some (sb_pid b), ds_rss_kib = Some (sb_rss_kib b),
        ds_cpu_jiffies = Some (sb_cpu_jiffies b)\<rparr>"
    unfolding DaemonStatus_parse_def Let_def by (simp add: status_fold unwrap_or_def del: Response_encode.simps)
  have "kv_fields ''network'' (Response_encode (RNetwork n)) = Inr (network_words n)"
    unfolding network_encode by (rule kv_fields_join) (use word_tokens(2) assms label in \<open>auto simp: list_all_iff\<close>)
  then show "NetworkStatus_parse (Response_encode (RNetwork n)) = Inr n"
    unfolding NetworkStatus_parse_def
    by (simp add: network_words_def network_field_def on_key_def del: Response_encode.simps)
  have "kv_fields ''stats-summary'' (Response_encode (RStatsSummary u)) = Inr (summary_words u)"
    unfolding summary_encode by (rule kv_fields_join) (use word_tokens(3) assms label in \<open>auto simp: list_all_iff\<close>)
  then show "StatsSummary_parse (Response_encode (RStatsSummary u)) = Inr u"
    unfolding StatsSummary_parse_def
    by (simp add: summary_words_def stats_summary_field_def on_key_def del: Response_encode.simps)
qed

definition process_row_demo :: process_row where
  "process_row_demo = \<lparr>pr_pid = 7, pr_start_ticks = 9, pr_uid = 0, pr_executable = ''/opt/a;b|c%3B'',
     pr_cmdline = ''x -y;'', pr_verdict = ''allow'', pr_ports = ''1.2.3.4:443/allow''\<rparr>"

theorem process_frame_round_trip_witness:
  "ProcessRow_parse_frame (Response_encode (RProcesses (join '';''
     (map ProcessRow_encode_row [process_row_demo, process_row_demo])))) =
   Inr [process_row_demo, process_row_demo]"
  by (rule process_frame_round_trip) (simp add: process_row_demo_def)

lemma no_ws_words: "list_all plain s \<Longrightarrow> no_ws s"
  by (rule plain_no_ws) (simp add: list_all_iff)

theorem kv_frames_round_trip_witness:
  "NetworkStatus_parse (Response_encode (RNetwork \<lparr>ns_table = ''interfire'', ns_queue = 4242,
     ns_state = NtInstalled, ns_rule = ''none''\<rparr>)) =
   Inr \<lparr>ns_table = ''interfire'', ns_queue = 4242, ns_state = NtInstalled, ns_rule = ''none''\<rparr>"
proof -
  let ?n = "\<lparr>ns_table = ''interfire'', ns_queue = 4242, ns_state = NtInstalled, ns_rule = ''none''\<rparr>"
  let ?b = "\<lparr>sb_enforcement = ''nfqueue'', sb_observation = ''attached'', sb_traffic = ''open'',
    sb_traffic_machine = ''open'', sb_traffic_user = ''out'', sb_traffic_effective = ''user:7:out'',
    sb_ipc_version = 1, sb_pid = 42, sb_rss_kib = 6400, sb_cpu_jiffies = 12\<rparr>"
  let ?u = "\<lparr>su_connections = 3, su_denied = 1, su_uptime_secs = 9, su_rules = 2,
    su_version = ''0.1.0'', su_git = ''abc''\<rparr>"
  show ?thesis
    by (rule kv_frames_round_trip [of ?b ?n ?u, THEN conjunct2, THEN conjunct1];
        rule no_ws_words; simp add: plain_def)
qed

end
