(* ===== verification/Fifo.thy ===== *)
theory Fifo
  imports Prelude
begin

text \<open>
  The bounded first-in first-out store that the daemon repeats in five places: a \<open>HashMap\<close> of
  entries, a \<open>VecDeque\<close> with the insertion order of its keys, and an eviction loop that runs
  before a fresh key is inserted. The loop is translated once, here; the component theories use
  it inside their own operations. The interface of such a store is the locale
  \<open>bounded_cache\<close>; the store satisfies it, and it refines a plain list of key-value pairs.
\<close>

section \<open>The eviction loop\<close>

text \<open>
  \<^verbatim>\<open>while entries.len() >= capacity { if let Some(oldest) = order.pop_front()
  { entries.remove(&oldest); } else { entries.clear(); break; } }\<close>
\<close>

fun evict :: "nat \<Rightarrow> 'k list \<Rightarrow> ('k \<times> 'v) list \<Rightarrow> 'k list \<times> ('k \<times> 'v) list" where
  "evict cap [] m = (if cap \<le> length m then ([], []) else ([], m))"
| "evict cap (k # ks) m =
     (if cap \<le> length m then evict cap ks (AList.delete k m) else (k # ks, m))"

text \<open>Evict, then append the fresh key.\<close>

definition fifo_add :: "nat \<Rightarrow> 'k \<Rightarrow> 'v \<Rightarrow> 'k list \<times> ('k \<times> 'v) list \<Rightarrow> 'k list \<times> ('k \<times> 'v) list" where
  "fifo_add cap k v s =
     (let (ord, m) = evict cap (fst s) (snd s) in (ord @ [k], AList.update k v m))"

text \<open>Replace the entry of a known key in place, or add a fresh one.\<close>

definition fifo_put :: "nat \<Rightarrow> 'k \<Rightarrow> 'v \<Rightarrow> 'k list \<times> ('k \<times> 'v) list \<Rightarrow> 'k list \<times> ('k \<times> 'v) list" where
  "fifo_put cap k v s =
     (if map_of (snd s) k \<noteq> None then (fst s, AList.update k v (snd s)) else fifo_add cap k v s)"

definition fifo_wf :: "nat \<Rightarrow> 'k list \<times> ('k \<times> 'v) list \<Rightarrow> bool" where
  "fifo_wf cap s \<longleftrightarrow>
     0 < cap \<and> distinct (fst s) \<and> hm_wf (snd s) \<and> set (fst s) = keys (snd s) \<and> length (snd s) \<le> cap"

lemma fifo_wf_empty: "0 < cap \<Longrightarrow> fifo_wf cap ([], [])"
  by (simp add: fifo_wf_def)

lemma fifo_wf_length: "fifo_wf cap (ord, m) \<Longrightarrow> length ord = length m"
  by (metis distinct_card fifo_wf_def fst_conv hm_len snd_conv)

lemma length_delete_key: "hm_wf m \<Longrightarrow> k \<in> keys m \<Longrightarrow> Suc (length (AList.delete k m)) = length m"
  by (metis card_Suc_Diff1 finite_imageI finite_set hm_len hm_wf_delete keys_delete)

text \<open>On a well-formed store the loop runs at most once and drops the oldest key.\<close>

lemma evict_wf:
  assumes "fifo_wf cap (ord, m)"
  shows "evict cap ord m =
    (if length m < cap then (ord, m) else (tl ord, AList.delete (hd ord) m))"
proof (cases ord)
  case Nil
  with assms show ?thesis by (auto simp: fifo_wf_def)
next
  case (Cons k ks)
  with assms have "hm_wf m" "k \<in> keys m" by (auto simp: fifo_wf_def)
  then have del: "length m = cap \<Longrightarrow> length (AList.delete k m) < cap"
    using length_delete_key [of m k] by linarith
  have "evict cap ks (AList.delete k m) = (ks, AList.delete k m)" if "length m = cap"
    using del [OF that] by (cases ks) auto
  with Cons assms show ?thesis by (auto simp: fifo_wf_def)
qed

lemma fifo_add_eq:
  assumes "fifo_wf cap (ord, m)"
  shows "fifo_add cap k v (ord, m) =
    (if length m < cap then (ord @ [k], AList.update k v m)
     else (tl ord @ [k], AList.update k v (AList.delete (hd ord) m)))"
  using assms by (simp add: fifo_add_def evict_wf)

lemma evict_wf_keep:
  assumes "fifo_wf cap (ord, m)" and "evict cap ord m = (ord', m')"
  shows "distinct ord'" "hm_wf m'" "set ord' = keys m'" "length m' < cap" "keys m' \<subseteq> keys m"
    "\<And>x. x \<in> keys m' \<Longrightarrow> map_of m' x = map_of m x"
proof -
  have step: "distinct ord' \<and> hm_wf m' \<and> set ord' = keys m' \<and> length m' < cap \<and> keys m' \<subseteq> keys m
    \<and> (\<forall>x \<in> keys m'. map_of m' x = map_of m x)"
  proof (cases "length m < cap")
    case True
    with assms show ?thesis by (auto simp: evict_wf fifo_wf_def)
  next
    case False
    with assms have full: "length m = cap" and eq: "ord' = tl ord" "m' = AList.delete (hd ord) m"
      by (auto simp: evict_wf fifo_wf_def)
    with assms obtain k ks where ord: "ord = k # ks"
      by (cases ord) (auto simp: fifo_wf_def)
    with assms have "hm_wf m" "k \<in> keys m" by (auto simp: fifo_wf_def)
    then have "length m' < cap" using length_delete_key [of m k] full eq ord by simp
    with assms eq ord show ?thesis
      by (auto simp: fifo_wf_def hm_wf_delete keys_delete map_of_delete_eq)
  qed
  then show "distinct ord'" "hm_wf m'" "set ord' = keys m'" "length m' < cap" "keys m' \<subseteq> keys m"
    "\<And>x. x \<in> keys m' \<Longrightarrow> map_of m' x = map_of m x"
    by blast+
qed

lemma fifo_add_wf [wf_intros]:
  assumes wf: "fifo_wf cap s" and fresh: "k \<notin> keys (snd s)"
  shows "fifo_wf cap (fifo_add cap k v s)"
proof -
  obtain ord m where s: "s = (ord, m)" by (cases s)
  obtain ord' m' where ev: "evict cap ord m = (ord', m')" by (cases "evict cap ord m")
  note keep = evict_wf_keep [OF wf [unfolded s] ev]
  have "k \<notin> keys m'" using keep(5) fresh s by auto
  with keep wf show ?thesis
    by (auto simp: fifo_wf_def fifo_add_def s ev hm_wf_update keys_update hm_len_update_fresh)
qed

lemma fifo_put_old: "k \<in> keys (snd s) \<Longrightarrow> fifo_put cap k v s = (fst s, AList.update k v (snd s))"
  by (auto simp: fifo_put_def in_keys_iff)

lemma fifo_put_new: "k \<notin> keys (snd s) \<Longrightarrow> fifo_put cap k v s = fifo_add cap k v s"
  by (auto simp: fifo_put_def in_keys_iff)

lemma fifo_put_wf [wf_intros]: "fifo_wf cap s \<Longrightarrow> fifo_wf cap (fifo_put cap k v s)"
proof (cases "k \<in> keys (snd s)")
  case True
  assume "fifo_wf cap s"
  with True show ?thesis
    by (simp add: fifo_put_old fifo_wf_def hm_wf_update keys_update insert_absorb hm_len_update_old)
qed (simp add: fifo_put_new fifo_add_wf)

lemma fifo_put_same: "map_of (snd (fifo_put cap k v s)) k = Some v"
  by (auto simp: fifo_put_def fifo_add_def map_of_update_eq split: prod.splits)

lemma fifo_put_other:
  assumes wf: "fifo_wf cap s" and neq: "k' \<noteq> k"
  shows "map_of (snd (fifo_put cap k v s)) k' = map_of (snd s) k' \<or>
    map_of (snd (fifo_put cap k v s)) k' = None"
proof -
  obtain ord m where s: "s = (ord, m)" by (cases s)
  obtain ord' m' where ev: "evict cap ord m = (ord', m')" by (cases "evict cap ord m")
  have "map_of m' k' = map_of m k' \<or> map_of m' k' = None"
    using evict_wf_keep(6) [OF wf [unfolded s] ev, of k'] in_keys_iff [of k' m'] by blast
  with neq show ?thesis by (auto simp: fifo_put_def fifo_add_def s ev map_of_update_eq)
qed

section \<open>The abstract store: pairs in insertion order\<close>

definition fifo_abs :: "'k list \<times> ('k \<times> 'v) list \<Rightarrow> ('k \<times> 'v) list" where
  "fifo_abs s = map (\<lambda>k. (k, the (map_of (snd s) k))) (fst s)"

definition spec_put :: "nat \<Rightarrow> 'k \<Rightarrow> 'v \<Rightarrow> ('k \<times> 'v) list \<Rightarrow> ('k \<times> 'v) list" where
  "spec_put cap k v xs =
     (if k \<in> keys xs then map (\<lambda>(k', w). (k', if k' = k then v else w)) xs
      else (if length xs < cap then xs else tl xs) @ [(k, v)])"

lemma fifo_abs_keys: "keys (fifo_abs s) = set (fst s)"
  by (simp add: fifo_abs_def image_image)

lemma fifo_put_refines:
  assumes wf: "fifo_wf cap s"
  shows "fifo_abs (fifo_put cap k v s) = spec_put cap k v (fifo_abs s)"
proof -
  obtain ord m where s: "s = (ord, m)" by (cases s)
  have len: "length ord = length m" using fifo_wf_length wf s by blast
  have set_ord: "set ord = keys m" using wf s by (simp add: fifo_wf_def)
  show ?thesis
  proof (cases "k \<in> keys m")
    case True
    then show ?thesis
      by (simp add: fifo_put_old spec_put_def fifo_abs_keys s set_ord)
        (simp add: fifo_abs_def map_of_update_eq)
  next
    case fresh: False
    then have put: "fifo_put cap k v s = fifo_add cap k v (ord, m)" by (simp add: fifo_put_new s)
    have spec: "spec_put cap k v (fifo_abs s) =
      (if length m < cap then fifo_abs s else tl (fifo_abs s)) @ [(k, v)]"
      using fresh by (simp add: spec_put_def fifo_abs_keys s set_ord) (simp add: fifo_abs_def len)
    show ?thesis
    proof (cases "length m < cap")
      case True
      with fresh wf show ?thesis
        unfolding put spec
        by (auto simp: fifo_add_eq s fifo_abs_def map_of_update_eq set_ord)
    next
      case False
      with wf s obtain o1 os where ord: "ord = o1 # os" by (cases ord) (auto simp: fifo_wf_def)
      with wf s have "o1 \<notin> set os" by (auto simp: fifo_wf_def)
      moreover have "k \<notin> set os" using fresh set_ord ord by auto
      ultimately show ?thesis
        using False wf ord unfolding put spec
        by (auto simp: fifo_add_eq s fifo_abs_def map_of_update_eq map_of_delete_eq)
    qed
  qed
qed

section \<open>The interface of a bounded machine\<close>

text \<open>
  What every table of the daemon promises: each operation keeps it well formed; where it has a
  capacity, operations leave that alone, and a well-formed table is within it. Then it is so after
  any run.
\<close>

locale kept_machine =
  fixes step :: "'op \<Rightarrow> 's \<Rightarrow> 's"
    and wf :: "'s \<Rightarrow> bool"
  assumes step_wf: "wf s \<Longrightarrow> wf (step x s)"
begin

lemma run_wf: "wf s \<Longrightarrow> wf (fold step xs s)"
  by (induction xs arbitrary: s) (simp_all add: step_wf)

end

locale bounded_machine = kept_machine step wf
  for step :: "'op \<Rightarrow> 's \<Rightarrow> 's" and wf :: "'s \<Rightarrow> bool" +
  fixes capacity :: "'s \<Rightarrow> nat"
    and size_of :: "'s \<Rightarrow> nat"
  assumes step_capacity: "wf s \<Longrightarrow> capacity (step x s) = capacity s"
    and wf_bounded: "wf s \<Longrightarrow> size_of s \<le> capacity s"
begin

lemma run_capacity: "wf s \<Longrightarrow> capacity (fold step xs s) = capacity s"
  by (induction xs arbitrary: s) (simp_all add: step_wf step_capacity)

lemma run_bounded: "wf s \<Longrightarrow> size_of (fold step xs s) \<le> capacity s"
  using wf_bounded [OF run_wf] run_capacity by simp

end

section \<open>The interface of a bounded cache\<close>

text \<open>
  What the policy engine relies on: a bounded cache never holds more than its capacity, returns
  the value that was put last, and after a put a different key has its old value or none.
\<close>

locale bounded_cache =
  fixes wf :: "'s \<Rightarrow> bool"
    and capacity :: "'s \<Rightarrow> nat"
    and size_of :: "'s \<Rightarrow> nat"
    and look :: "'s \<Rightarrow> 'k \<Rightarrow> 'v option"
    and put :: "'k \<Rightarrow> 'v \<Rightarrow> 's \<Rightarrow> 's"
  assumes put_wf: "wf s \<Longrightarrow> wf (put k v s)"
    and size_bound: "wf s \<Longrightarrow> size_of s \<le> capacity s"
    and capacity_put: "wf s \<Longrightarrow> capacity (put k v s) = capacity s"
    and look_same: "wf s \<Longrightarrow> look (put k v s) k = Some v"
    and look_other: "wf s \<Longrightarrow> k' \<noteq> k \<Longrightarrow> look (put k v s) k' = look s k' \<or> look (put k v s) k' = None"
begin

definition puts :: "('k \<times> 'v) list \<Rightarrow> 's \<Rightarrow> 's" where
  "puts kvs s = fold (\<lambda>(k, v). put k v) kvs s"

text \<open>No stale value: a lookup after any puts gives the last value put, or what was there.\<close>

lemma puts_look:
  assumes "wf s" and "look (puts kvs s) k = Some v"
  shows "map_of (rev kvs) k = Some v \<or> k \<notin> keys kvs \<and> look s k = Some v"
  using assms
proof (induction kvs arbitrary: s)
  case Nil
  then show ?case by (simp add: puts_def)
next
  case (Cons p kvs)
  obtain k1 v1 where p: "p = (k1, v1)" by (cases p)
  have wf1: "wf (put k1 v1 s)" using Cons.prems(1) by (rule put_wf)
  have "look (puts kvs (put k1 v1 s)) k = Some v" using Cons.prems(2) by (simp add: puts_def p)
  from Cons.IH [OF wf1 this] show ?case
  proof
    assume "map_of (rev kvs) k = Some v"
    then show ?thesis by (simp add: p map_add_def)
  next
    assume a: "k \<notin> keys kvs \<and> look (put k1 v1 s) k = Some v"
    then have none: "map_of (rev kvs) k = None" by (simp add: map_of_eq_None_iff image_image)
    show ?thesis
      using a none look_same [OF Cons.prems(1), of k1 v1] look_other [OF Cons.prems(1), of k k1 v1]
      by (cases "k = k1") (auto simp: p map_add_def)
  qed
qed

end

text \<open>A cache whose operations are its puts is a bounded machine.\<close>

sublocale bounded_cache \<subseteq> machine: bounded_machine "\<lambda>kv. put (fst kv) (snd kv)" wf capacity size_of
  by unfold_locales (auto simp: put_wf capacity_put size_bound)

text \<open>The store with its capacity paired in front is a bounded cache.\<close>

interpretation fifo: bounded_cache
  "\<lambda>s. fifo_wf (fst s) (snd s)" fst "\<lambda>s. length (snd (snd s))" "\<lambda>s. map_of (snd (snd s))"
  "\<lambda>k v s. (fst s, fifo_put (fst s) k v (snd s))"
proof (unfold_locales, goal_cases)
  case (1 s k v)
  then show ?case by (simp add: fifo_put_wf)
next
  case (2 s)
  then show ?case by (simp add: fifo_wf_def)
next
  case (3 s k v)
  then show ?case by simp
next
  case (4 s k v)
  then show ?case by (simp add: fifo_put_same)
next
  case (5 s k' k v)
  then show ?case by (simp add: fifo_put_other)
qed

end
