(* ===== verification/Process.thy ===== *)
theory Process
  imports Fifo Fs
begin

text \<open>
  \<open>interfire-daemon/src/process.rs\<close>: attribution of a pid through \<open>/proc\<close> and the bounded cache
  of process identities. The kernel's \<open>/proc\<close> is a parameter: three functions that answer the
  reads the code makes.
\<close>

section \<open>Attribution\<close>

record process_identity =
  pi_pid :: u32
  pi_start_ticks :: u64
  pi_executable :: path
  pi_command_line :: "string list"
  pi_uid :: u32
  pi_cgroup :: string

datatype attribution_error =
    AttrIo io_error
  | MalformedStat
  | PidReused u64 u64

record procfs =
  proc_read_to_string :: "path \<Rightarrow> io_error + string"
  proc_read_link :: "path \<Rightarrow> io_error + path"
  proc_read :: "path \<Rightarrow> io_error + string"

fun lift_io :: "io_error + 'a \<Rightarrow> attribution_error + 'a" where
  "lift_io (Inl e) = Inl (AttrIo e)"
| "lift_io (Inr x) = Inr x"

definition nth_opt :: "nat \<Rightarrow> 'a list \<Rightarrow> 'a option" where
  "nth_opt n xs = (if n < length xs then Some (xs ! n) else None)"

definition parse_start_ticks :: "string \<Rightarrow> attribution_error + u64" where
  "parse_start_ticks stat =
     ok_or MalformedStat
       (Option.bind (rsplit_once (CHR '')'') stat) (\<lambda>(_, fields).
        Option.bind (nth_opt 19 (split_whitespace fields)) parse_word))"

fun find_map :: "('a \<Rightarrow> 'b option) \<Rightarrow> 'a list \<Rightarrow> 'b option" where
  "find_map f [] = None"
| "find_map f (x # xs) = (case f x of Some y \<Rightarrow> Some y | None \<Rightarrow> find_map f xs)"

definition parse_uid :: "string \<Rightarrow> attribution_error + u32" where
  "parse_uid status =
     ok_or MalformedStat
       (Option.bind (find_map (strip_prefix (''Uid:'' @ [TAB])) (str_lines status)) (\<lambda>line.
        Option.bind (nth_opt 0 (split_whitespace line)) parse_word))"

definition resolve :: "procfs \<Rightarrow> u32 \<Rightarrow> u64 \<Rightarrow> attribution_error + process_identity" where
  "resolve P pid expected =
     (let root = path_join ''/proc'' (show_word pid)
      in and_then (lift_io (proc_read_to_string P (path_join root ''stat''))) (\<lambda>stat.
         and_then (parse_start_ticks stat) (\<lambda>start_ticks.
         if expected \<noteq> 0 \<and> start_ticks \<noteq> expected then Inl (PidReused expected start_ticks)
         else
         and_then (lift_io (proc_read_link P (path_join root ''exe''))) (\<lambda>executable.
         and_then (lift_io (proc_read P (path_join root ''cmdline''))) (\<lambda>raw.
         let command_line = map utf8_lossy (filter (\<lambda>part. part \<noteq> []) (split_on (CHR 0x00) raw))
         in and_then (lift_io (proc_read_to_string P (path_join root ''status''))) (\<lambda>status.
         and_then (parse_uid status) (\<lambda>uid.
         and_then (lift_io (proc_read_to_string P (path_join root ''cgroup''))) (\<lambda>cgroup.
         Inr \<lparr>pi_pid = pid, pi_start_ticks = start_ticks, pi_executable = executable,
              pi_command_line = command_line, pi_uid = uid, pi_cgroup = cgroup\<rparr>))))))))"

section \<open>The identity cache\<close>

record process_cache =
  pc_capacity :: usize
  pc_entries :: "((u32 \<times> u64) \<times> process_identity) list"
  pc_order :: "(u32 \<times> u64) list"

definition ProcessCache_new :: "usize \<Rightarrow> process_cache option" where
  "ProcessCache_new capacity =
     (if 0 < capacity then Some \<lparr>pc_capacity = capacity, pc_entries = [], pc_order = []\<rparr> else None)"

definition ProcessCache_insert :: "process_identity \<Rightarrow> process_cache \<Rightarrow> process_cache" where
  "ProcessCache_insert identity c =
     (let key = (pi_pid identity, pi_start_ticks identity)
      in if map_of (pc_entries c) key \<noteq> None then c
         else
           let c = (if length (pc_entries c) = pc_capacity c then
                      (case pc_order c of
                         oldest # rest \<Rightarrow>
                           c\<lparr>pc_order := rest, pc_entries := AList.delete oldest (pc_entries c)\<rparr>
                       | [] \<Rightarrow> c)
                    else c)
           in c\<lparr>pc_order := pc_order c @ [key],
                pc_entries := AList.update key identity (pc_entries c)\<rparr>)"

definition ProcessCache_list :: "process_cache \<Rightarrow> process_identity list" where
  "ProcessCache_list c = List.map_filter (map_of (pc_entries c)) (pc_order c)"

definition ProcessCache_get :: "u32 \<Rightarrow> u64 \<Rightarrow> process_cache \<Rightarrow> process_identity option" where
  "ProcessCache_get pid start_ticks c = map_of (pc_entries c) (pid, start_ticks)"

section \<open>Invariant\<close>

text \<open>The cache is a bounded store whose entries carry their own key.\<close>

definition process_wf :: "process_cache \<Rightarrow> bool" where
  "process_wf c \<longleftrightarrow> fifo_wf (pc_capacity c) (pc_order c, pc_entries c) \<and>
     (\<forall>k idt. map_of (pc_entries c) k = Some idt \<longrightarrow> k = (pi_pid idt, pi_start_ticks idt))"

abbreviation identity_key :: "process_identity \<Rightarrow> u32 \<times> u64" where
  "identity_key idt \<equiv> (pi_pid idt, pi_start_ticks idt)"

lemma ProcessCache_new_wf: "ProcessCache_new cap = Some c \<Longrightarrow> process_wf c"
  by (auto simp: ProcessCache_new_def process_wf_def fifo_wf_def split: if_splits)

lemma insert_known: "map_of (pc_entries c) (identity_key idt) \<noteq> None \<Longrightarrow> ProcessCache_insert idt c = c"
  by (simp add: ProcessCache_insert_def)

lemma process_insert_fields [simp]: "pc_capacity (ProcessCache_insert idt c) = pc_capacity c"
  by (auto simp: ProcessCache_insert_def Let_def split: list.split)

text \<open>The single \<open>if len == capacity\<close> does the work of the eviction loop on a well-formed cache.\<close>

lemma insert_fresh:
  assumes "process_wf c" "map_of (pc_entries c) (identity_key idt) = None"
  shows "(pc_order (ProcessCache_insert idt c), pc_entries (ProcessCache_insert idt c)) =
    fifo_put (pc_capacity c) (identity_key idt) idt (pc_order c, pc_entries c)"
proof -
  have wf: "fifo_wf (pc_capacity c) (pc_order c, pc_entries c)"
    using assms(1) by (simp add: process_wf_def)
  have new: "identity_key idt \<notin> keys (snd (pc_order c, pc_entries c))"
    using assms(2) by (simp add: map_of_eq_None_iff)
  have "pc_order c \<noteq> []" if "length (pc_entries c) = pc_capacity c"
    using that wf fifo_wf_length [OF wf] by (auto simp: fifo_wf_def)
  then show ?thesis
    using assms(2) wf
    by (auto simp: fifo_put_new [OF new] fifo_add_eq [OF wf] ProcessCache_insert_def Let_def fifo_wf_def
        split: list.split)
qed

lemma process_insert_wf [wf_intros]:
  assumes "process_wf c"
  shows "process_wf (ProcessCache_insert idt c)"
proof (cases "map_of (pc_entries c) (identity_key idt)")
  case None
  have wf: "fifo_wf (pc_capacity c) (pc_order c, pc_entries c)"
    and key: "\<And>k i. map_of (pc_entries c) k = Some i \<Longrightarrow> k = identity_key i"
    using assms by (auto simp: process_wf_def)
  let ?s = "fifo_put (pc_capacity c) (identity_key idt) idt (pc_order c, pc_entries c)"
  have eq: "pc_order (ProcessCache_insert idt c) = fst ?s" "pc_entries (ProcessCache_insert idt c) = snd ?s"
    by (simp_all add: insert_fresh [OF assms None, symmetric])
  have "k = identity_key i" if "map_of (snd ?s) k = Some i" for k i
    using that key fifo_put_same [of "pc_capacity c" "identity_key idt" idt]
      fifo_put_other [OF wf, of k "identity_key idt" idt]
    by (cases "k = identity_key idt") auto
  moreover have "fifo_wf (pc_capacity c) (fst ?s, snd ?s)" using fifo_put_wf [OF wf] by simp
  ultimately show ?thesis unfolding process_wf_def eq process_insert_fields by blast
qed (simp add: insert_known assms)

lemma process_insert_get:
  assumes "process_wf c"
    and "map_of (pc_entries (ProcessCache_insert idt c)) k = Some i"
  shows "map_of (pc_entries c) k = Some i \<or> k = identity_key idt \<and> i = idt \<and> map_of (pc_entries c) k = None"
proof (cases "map_of (pc_entries c) (identity_key idt)")
  case None
  have wf: "fifo_wf (pc_capacity c) (pc_order c, pc_entries c)" using assms(1) by (simp add: process_wf_def)
  have "map_of (snd (fifo_put (pc_capacity c) (identity_key idt) idt (pc_order c, pc_entries c))) k = Some i"
    using assms(2) by (simp add: insert_fresh [OF assms(1) None, symmetric])
  then show ?thesis
    using None fifo_put_same [of "pc_capacity c" "identity_key idt" idt]
      fifo_put_other [OF wf, of k "identity_key idt" idt]
    by (cases "k = identity_key idt") auto
qed (use assms insert_known in auto)

definition process_run :: "process_identity list \<Rightarrow> process_cache \<Rightarrow> process_cache" where
  "process_run ids c = fold ProcessCache_insert ids c"

lemma process_wf_size: "process_wf c \<Longrightarrow> length (pc_entries c) \<le> pc_capacity c"
  by (simp add: process_wf_def fifo_wf_def)

interpretation process_inserts: bounded_machine
  ProcessCache_insert process_wf pc_capacity "\<lambda>c. length (pc_entries c)"
  by unfold_locales (simp_all add: process_insert_wf process_wf_size)

lemma process_run_wf: "process_wf c \<Longrightarrow> process_wf (process_run ids c)"
  unfolding process_run_def by (rule process_inserts.run_wf)

lemma process_run_capacity [simp]: "pc_capacity (process_run ids c) = pc_capacity c"
  by (induction ids arbitrary: c) (auto simp: process_run_def)

lemma process_run_get:
  "process_wf c \<Longrightarrow> map_of (pc_entries (process_run ids c)) k = Some i \<Longrightarrow>
     map_of (pc_entries c) k = Some i \<or> i \<in> set ids"
proof (induction ids arbitrary: c)
  case (Cons idt ids)
  then show ?case
    using Cons.IH [OF process_insert_wf [OF Cons.prems(1), of idt]] process_insert_get [OF Cons.prems(1)]
    by (fastforce simp: process_run_def)
qed (simp add: process_run_def)

section \<open>Properties\<close>

text \<open>
  A process cannot forge its start time through its name. Whatever bytes the command name
  holds (spaces, closing parentheses, digits), the start time read from a \<open>stat\<close> record is the
  twentieth field after the name.
\<close>

theorem start_ticks_not_spoofable:
  assumes "\<And>f. f \<in> set fs \<Longrightarrow> token f \<and> CHR '')'' \<notin> set f" "19 < length fs"
    and "fs ! 19 = show_word t"
  shows "parse_start_ticks (show_word pid @ '' ('' @ comm @ '') '' @ join [SP] fs @ [NL]) = Inr t"
proof -
  have "CHR '')'' \<notin> set (join [SP] fs)"
    using assms(1) by (induction "[SP]" fs rule: join.induct) auto
  then have "rsplit_once (CHR '')'') ((show_word pid @ '' ('' @ comm) @ CHR '')'' # SP # join [SP] fs @ [NL]) =
      Some (show_word pid @ '' ('' @ comm, SP # join [SP] fs @ [NL])"
    by (intro rsplit_once_append) simp
  moreover have "split_whitespace (SP # join [SP] fs @ [NL]) = fs"
    using assms(1) by (simp add: split_whitespace_ws1 split_whitespace_join)
  ultimately show ?thesis
    using assms(2,3) by (simp add: parse_start_ticks_def nth_opt_def)
qed

text \<open>
  The identity cache is bounded and never mixes processes. After any insertions into an empty
  cache, an identity found under a pid and start time carries exactly that pid and start time and
  is one of those inserted, and the listing holds at most the capacity.
\<close>

theorem process_cache_sound:
  assumes "ProcessCache_new cap = Some c0"
  shows "(\<forall>idt. ProcessCache_get pid ticks (process_run ids c0) = Some idt \<longrightarrow>
      pi_pid idt = pid \<and> pi_start_ticks idt = ticks \<and> idt \<in> set ids) \<and>
    length (ProcessCache_list (process_run ids c0)) \<le> cap"
proof -
  let ?c = "process_run ids c0"
  have c0: "process_wf c0" "pc_entries c0 = []" "pc_capacity c0 = cap"
    using assms by (auto simp: ProcessCache_new_wf ProcessCache_new_def split: if_splits)
  note wf = process_run_wf [OF c0(1), of ids]
  have fifo: "fifo_wf cap (pc_order ?c, pc_entries ?c)" using wf c0(3) by (simp add: process_wf_def)
  have "length (ProcessCache_list ?c) \<le> length (pc_order ?c)"
    unfolding ProcessCache_list_def by (simp add: List.map_filter_def)
  also have "\<dots> \<le> cap" using fifo_wf_length [OF fifo] fifo by (simp add: fifo_wf_def)
  finally show ?thesis
    using wf process_run_get [OF c0(1), of ids] c0(2) by (auto simp: ProcessCache_get_def process_wf_def)
qed

theorem start_ticks_not_spoofable_witness:
  "parse_start_ticks (show_word (7 :: u32) @ '' ('' @ ''a) R 1 1 1) x'' @ '') '' @
     join [SP] (replicate 19 (show_word (0 :: u64)) @ [show_word (42 :: u64), show_word (5 :: u64)]) @ [NL])
   = Inr 42"
  by (rule start_ticks_not_spoofable)
    (auto simp: nth_append show_word_no_char is_digit_def digit_val_def)

definition identity_demo :: "u32 \<Rightarrow> process_identity" where
  "identity_demo pid = \<lparr>pi_pid = pid, pi_start_ticks = 9, pi_executable = ''/bin/x'',
     pi_command_line = [], pi_uid = 0, pi_cgroup = []\<rparr>"

theorem process_cache_sound_witness:
  "ProcessCache_get 2 9 (process_run [identity_demo 1, identity_demo 2]
      \<lparr>pc_capacity = 1, pc_entries = [], pc_order = []\<rparr>) = Some (identity_demo 2) \<and>
   length (ProcessCache_list (process_run [identity_demo 1, identity_demo 2]
      \<lparr>pc_capacity = 1, pc_entries = [], pc_order = []\<rparr>)) \<le> 1"
  using process_cache_sound [of 1 "\<lparr>pc_capacity = 1, pc_entries = [], pc_order = []\<rparr>" 2 9
      "[identity_demo 1, identity_demo 2]"]
  by (simp add: ProcessCache_new_def ProcessCache_get_def process_run_def ProcessCache_insert_def
      identity_demo_def Let_def)

end
