(* ===== verification/Modes.thy ===== *)
theory Modes
  imports Fs
begin

text \<open>
  \<open>interfire-daemon/src/enforcement_mode.rs\<close> and \<open>traffic_mode.rs\<close>: the persisted operator
  preferences (rules paused or active; kill switch for the machine and for each user). A store
  writes a sibling file and renames it over the target. The counter \<open>STORE_TMP_SEQ\<close> of each module
  is the argument \<open>seq\<close>; its owner increments it.
\<close>

section \<open>Paths and replacement\<close>

text \<open>\<open>Path::with_extension\<close>: the file stem, a dot, the new extension.\<close>

definition file_stem :: "string \<Rightarrow> string" where
  "file_stem f =
     (if f = ''..'' then f
      else case rsplit_once CHR ''.'' f of
             None \<Rightarrow> f
           | Some (before, _) \<Rightarrow> if before = [] then f else before)"

definition with_extension :: "path \<Rightarrow> string \<Rightarrow> path" where
  "with_extension p ext =
     (case rsplit_once CHR ''/'' p of
        None \<Rightarrow> if p = [] \<or> p = ''..'' then p else file_stem p @ ''.'' @ ext
      | Some (d, f) \<Rightarrow> if f = [] \<or> f = ''..'' then p else d @ ''/'' @ file_stem f @ ''.'' @ ext)"

definition ensure_parent :: "path \<Rightarrow> fs \<Rightarrow> unit io" where
  "ensure_parent p s =
     (case path_parent p of
        Some parent \<Rightarrow> if parent \<noteq> [] then fs_create_dir_all parent s else (Inr (), s)
      | None \<Rightarrow> (Inr (), s))"

text \<open>The common tail of both \<open>store\<close> functions.\<close>

definition write_replace :: "path \<Rightarrow> u64 \<Rightarrow> string \<Rightarrow> fs \<Rightarrow> unit io" where
  "write_replace p seq text s =
     io_then (ensure_parent p s) (\<lambda>_ s.
     let temporary = with_extension p (''tmp.'' @ show_word seq) in
     io_then (fs_write temporary text s) (\<lambda>_ s.
     fs_rename temporary p s))"

section \<open>Enforcement mode\<close>

datatype enforcement_mode = Paused | Active

definition DEFAULT_MODE_PATH :: path where
  "DEFAULT_MODE_PATH = ''/var/lib/interfire/enforcement.mode''"

fun EnforcementMode_as_str :: "enforcement_mode \<Rightarrow> string" where
  "EnforcementMode_as_str Paused = ''paused''"
| "EnforcementMode_as_str Active = ''active''"

definition EnforcementMode_parse :: "string \<Rightarrow> enforcement_mode option" where
  "EnforcementMode_parse raw =
     (let r = trim raw
      in if r = ''paused'' then Some Paused else if r = ''active'' then Some Active else None)"

definition enforcement_load :: "path \<Rightarrow> fs \<Rightarrow> enforcement_mode" where
  "enforcement_load p s =
     (case fs_read_to_string p s of
        Inr raw \<Rightarrow> (case EnforcementMode_parse raw of Some m \<Rightarrow> m | None \<Rightarrow> Paused)
      | Inl _ \<Rightarrow> Paused)"

definition enforcement_store :: "path \<Rightarrow> u64 \<Rightarrow> enforcement_mode \<Rightarrow> fs \<Rightarrow> unit io" where
  "enforcement_store p seq mode s = write_replace p seq (EnforcementMode_as_str mode @ [NL]) s"

definition resolve_mode_path :: "path option \<Rightarrow> path" where
  "resolve_mode_path override_path = (case override_path of Some p \<Rightarrow> p | None \<Rightarrow> DEFAULT_MODE_PATH)"

section \<open>Traffic preferences\<close>

datatype traffic_preference = TOpen | TOut | TIn | TAll

definition DEFAULT_MACHINE_PATH :: path where
  "DEFAULT_MACHINE_PATH = ''/var/lib/interfire/traffic.machine''"

fun TrafficPreference_as_str :: "traffic_preference \<Rightarrow> string" where
  "TrafficPreference_as_str TOpen = ''open''"
| "TrafficPreference_as_str TOut = ''out''"
| "TrafficPreference_as_str TIn = ''in''"
| "TrafficPreference_as_str TAll = ''all''"

definition TrafficPreference_parse :: "string \<Rightarrow> traffic_preference option" where
  "TrafficPreference_parse raw =
     (let r = trim raw
      in if r = ''open'' then Some TOpen else if r = ''out'' then Some TOut
         else if r = ''in'' then Some TIn else if r = ''all'' then Some TAll else None)"

definition is_blocked :: "traffic_preference \<Rightarrow> bool" where
  "is_blocked p \<longleftrightarrow> p \<noteq> TOpen"

definition wants_out :: "traffic_preference \<Rightarrow> bool" where
  "wants_out p \<longleftrightarrow> p = TOut \<or> p = TAll"

definition wants_in :: "traffic_preference \<Rightarrow> bool" where
  "wants_in p \<longleftrightarrow> p = TIn \<or> p = TAll"

datatype effective_traffic = EOpen | EMachine traffic_preference | EUser u32 traffic_preference

fun EffectiveTraffic_label :: "effective_traffic \<Rightarrow> string" where
  "EffectiveTraffic_label EOpen = ''open''"
| "EffectiveTraffic_label (EMachine pref) = ''machine:'' @ TrafficPreference_as_str pref"
| "EffectiveTraffic_label (EUser uid pref) =
     ''user:'' @ show_word uid @ '':'' @ TrafficPreference_as_str pref"

definition effective :: "traffic_preference \<Rightarrow> traffic_preference \<Rightarrow> u32 \<Rightarrow> effective_traffic" where
  "effective machine user uid =
     (if is_blocked machine then EMachine machine
      else if is_blocked user then EUser uid user
      else EOpen)"

definition traffic_load :: "path \<Rightarrow> fs \<Rightarrow> traffic_preference" where
  "traffic_load p s =
     (case fs_read_to_string p s of
        Inr raw \<Rightarrow> (case TrafficPreference_parse raw of Some pref \<Rightarrow> pref | None \<Rightarrow> TOpen)
      | Inl _ \<Rightarrow> TOpen)"

definition traffic_store :: "path \<Rightarrow> u64 \<Rightarrow> traffic_preference \<Rightarrow> fs \<Rightarrow> unit io" where
  "traffic_store p seq pref s = write_replace p seq (TrafficPreference_as_str pref @ [NL]) s"

definition state_dir :: "path \<Rightarrow> path" where
  "state_dir machine_path =
     (case path_parent machine_path of
        Some parent \<Rightarrow> if parent \<noteq> [] then parent else ''.''
      | None \<Rightarrow> ''.'')"

definition user_path :: "path \<Rightarrow> u32 \<Rightarrow> path" where
  "user_path machine_path uid = path_join (state_dir machine_path) (''traffic.user.'' @ show_word uid)"

text \<open>A name that is not valid UTF-8 never passes the prefix and number tests below.\<close>

definition user_block :: "path \<Rightarrow> fs \<Rightarrow> string \<Rightarrow> (u32 \<times> traffic_preference) option" where
  "user_block dir s name =
     (case strip_prefix ''traffic.user.'' name of
        None \<Rightarrow> None
      | Some uid_str \<Rightarrow>
          (case parse_word uid_str of
             None \<Rightarrow> None
           | Some uid \<Rightarrow>
               let preference = traffic_load (path_join dir name) s
               in if is_blocked preference then Some (uid, preference) else None))"

definition load_user_blocks :: "path \<Rightarrow> fs \<Rightarrow> (u32 \<times> traffic_preference) list" where
  "load_user_blocks machine_path s =
     (let dir = state_dir machine_path
      in case fs_read_dir dir s of
           Inl _ \<Rightarrow> []
         | Inr names \<Rightarrow> sort_key fst (List.map_filter (user_block dir s) names))"

definition any_block_active :: "path \<Rightarrow> fs \<Rightarrow> bool" where
  "any_block_active machine_path s \<longleftrightarrow>
     is_blocked (traffic_load machine_path s) \<or> load_user_blocks machine_path s \<noteq> []"

definition resolve_machine_path :: "path option \<Rightarrow> path" where
  "resolve_machine_path override_path =
     (case override_path of Some p \<Rightarrow> p | None \<Rightarrow> DEFAULT_MACHINE_PATH)"

section \<open>What a store leaves behind\<close>

text \<open>The last component is a proper file name, so the sibling differs from the target.\<close>

definition has_file_name :: "path \<Rightarrow> bool" where
  "has_file_name p \<longleftrightarrow>
     (let f = (case rsplit_once CHR ''/'' p of None \<Rightarrow> p | Some (_, f) \<Rightarrow> f) in f \<noteq> [] \<and> f \<noteq> ''..'')"

lemma file_stem_neq:
  assumes "CHR ''.'' \<in> set ext"
  shows "file_stem f @ ''.'' @ ext \<noteq> f"
proof (cases "rsplit_once CHR ''.'' f")
  case None
  then show ?thesis by (auto simp: file_stem_def)
next
  case (Some ba)
  obtain b a where ba: "ba = (b, a)" by (cases ba)
  from rsplit_once_Some [OF Some [unfolded ba]] have "f = b @ CHR ''.'' # a" "CHR ''.'' \<notin> set a" by auto
  with assms show ?thesis by (auto simp: file_stem_def rsplit_once_append)
qed

lemma with_extension_neq:
  assumes "has_file_name p"
  shows "with_extension p (''tmp.'' @ t) \<noteq> p"
proof (cases "rsplit_once CHR ''/'' p")
  case None
  then show ?thesis
    using assms file_stem_neq [of "''tmp.'' @ t" p] by (auto simp: with_extension_def has_file_name_def)
next
  case (Some df)
  obtain d f where df: "df = (d, f)" by (cases df)
  have "p = d @ CHR ''/'' # f" using rsplit_once_Some [OF Some [unfolded df]] by simp
  then show ?thesis
    using assms Some file_stem_neq [of "''tmp.'' @ t" f]
    by (auto simp: with_extension_def has_file_name_def df)
qed

lemma ensure_parent_snd [simp]: "snd (ensure_parent p s) = s"
  by (simp add: ensure_parent_def fs_create_dir_all_def split: option.split)

lemma write_replace_fails: "fails (snd (write_replace p seq text s)) = fails s"
  unfolding write_replace_def Let_def
  by (simp add: io_then_fails fails_preserved fs_write_fails)

lemma write_replace_ok:
  assumes "write_replace p seq text s = (Inr u, s')"
  shows "map_of (files s') p = Some text"
    "\<And>q. q \<noteq> p \<Longrightarrow> q \<noteq> with_extension p (''tmp.'' @ show_word seq) \<Longrightarrow> map_of (files s') q = map_of (files s) q"
  using assms
  by (auto simp: write_replace_def ensure_parent_def fs_defs Let_def hm_simps
      split: option.splits if_splits)

lemma write_replace_failed:
  assumes "write_replace p seq text s = (Inl e, s')" "has_file_name p"
  shows "map_of (files s') p = map_of (files s) p"
  using assms(1) with_extension_neq [OF assms(2), of "show_word seq"]
  by (auto simp: write_replace_def ensure_parent_def fs_defs Let_def hm_simps
      split: option.splits if_splits)

lemma stored_valid:
  "utf8_valid (TrafficPreference_as_str pref @ [NL])" "utf8_valid (EnforcementMode_as_str mode @ [NL])"
  by (rule utf8_valid_ascii; cases pref; cases mode; auto)+

lemma load_stored:
  "TrafficPreference_parse (TrafficPreference_as_str pref @ [NL]) = Some pref"
  "EnforcementMode_parse (EnforcementMode_as_str mode @ [NL]) = Some mode"
proof -
  have "plain c" if "c \<in> set (TrafficPreference_as_str pref)" for c
    using that by (cases pref) (auto simp: plain_def)
  then show "TrafficPreference_parse (TrafficPreference_as_str pref @ [NL]) = Some pref"
    by (cases pref) (simp_all only: TrafficPreference_parse_def trim_plain_NL, simp_all add: Let_def)
  have "plain c" if "c \<in> set (EnforcementMode_as_str mode)" for c
    using that by (cases mode) (auto simp: plain_def)
  then show "EnforcementMode_parse (EnforcementMode_as_str mode @ [NL]) = Some mode"
    by (cases mode) (simp_all only: EnforcementMode_parse_def trim_plain_NL, simp_all add: Let_def)
qed

text \<open>A stored user preference is seen by the directory scan.\<close>

lemma user_file_name: "CHR ''/'' \<notin> set (''traffic.user.'' @ show_word uid)"
  by (auto simp: show_word_no_char is_digit_def digit_val_def)

lemma user_path_split:
  assumes "state_dir mp = ''/'' \<or> last (state_dir mp) \<noteq> CHR ''/''" "state_dir mp \<noteq> []"
  shows "path_parent (user_path mp uid) = Some (state_dir mp)"
    "rsplit_once CHR ''/'' (user_path mp uid) =
       Some (if state_dir mp = ''/'' then [] else state_dir mp, ''traffic.user.'' @ show_word uid)"
proof -
  let ?f = "''traffic.user.'' @ show_word uid"
  have split: "rsplit_once CHR ''/'' (d @ CHR ''/'' # ?f) = Some (d, ?f)" for d
    using rsplit_once_append [OF user_file_name, of d uid] by simp
  show "rsplit_once CHR ''/'' (user_path mp uid) =
      Some (if state_dir mp = ''/'' then [] else state_dir mp, ?f)"
    using assms split [of "[]"] split [of "state_dir mp"] by (auto simp: user_path_def path_join_def)
  moreover have "user_path mp uid \<noteq> [] \<and> user_path mp uid \<noteq> ''/''"
    using assms by (auto simp: user_path_def path_join_def)
  ultimately show "path_parent (user_path mp uid) = Some (state_dir mp)"
    using assms(2) by (auto simp: path_parent_def)
qed

lemma user_block_listed:
  assumes "state_dir mp = ''/'' \<or> last (state_dir mp) \<noteq> CHR ''/''" "state_dir mp \<noteq> []"
    and "map_of (files s) (user_path mp uid) = Some (TrafficPreference_as_str pref @ [NL])"
    and "\<not> fails s (ReadFile (user_path mp uid))" "\<not> fails s (ReadDir (state_dir mp))"
    and "is_blocked pref"
  shows "(uid, pref) \<in> set (load_user_blocks mp s)"
proof -
  let ?f = "''traffic.user.'' @ show_word uid"
  have mem: "user_path mp uid \<in> set (map fst (files s))"
    using assms(3) by (metis map_of_SomeD image_eqI fst_conv list.set_map)
  have "traffic_load (path_join (state_dir mp) ?f) s = pref"
    using assms(3,4) by (simp add: traffic_load_def fs_read_to_string_def user_path_def load_stored stored_valid)
  then have "user_block (state_dir mp) s ?f = Some (uid, pref)"
    using assms(6) by (simp add: user_block_def strip_prefix_append)
  moreover obtain names where names: "fs_read_dir (state_dir mp) s = Inr names" "?f \<in> set names"
    using mem user_path_split [OF assms(1,2)] assms(5)
    by (force simp: fs_read_dir_def set_map_filter)
  ultimately show ?thesis
    by (auto simp: load_user_blocks_def set_map_filter)
qed

section \<open>The interface of a stored setting\<close>

text \<open>
  What the shared state relies on: a setting whose store succeeded is read back as written, a
  failed store leaves the old value in force, and storing does not change which reads fail.
\<close>

locale durable_setting =
  fixes store :: "path \<Rightarrow> u64 \<Rightarrow> 'a \<Rightarrow> fs \<Rightarrow> unit io"
    and load :: "path \<Rightarrow> fs \<Rightarrow> 'a"
  assumes store_ok: "has_file_name p \<Longrightarrow> \<not> fails s (ReadFile p) \<Longrightarrow> store p q x s = (Inr u, s') \<Longrightarrow> load p s' = x"
    and store_failed: "has_file_name p \<Longrightarrow> store p q x s = (Inl e, s') \<Longrightarrow> \<not> fails s (ReadFile p) \<Longrightarrow> load p s' = load p s"
    and store_fails: "fails (snd (store p q x s)) = fails s"
begin

lemma store_outcome:
  assumes "has_file_name p" "\<not> fails s (ReadFile p)" "store p q x s = (r, s')"
  shows "load p s' = (case r of Inr _ \<Rightarrow> x | Inl _ \<Rightarrow> load p s)"
  using assms store_ok store_failed by (cases r) auto

text \<open>After any sequence of stores the setting is the last one stored with success.\<close>

fun stores :: "path \<Rightarrow> (u64 \<times> 'a) list \<Rightarrow> fs \<Rightarrow> 'a option \<times> fs" where
  "stores p [] s = (None, s)"
| "stores p ((q, x) # rest) s =
     (case store p q x s of
        (Inl _, s) \<Rightarrow> stores p rest s
      | (Inr _, s) \<Rightarrow> (case stores p rest s of (None, s) \<Rightarrow> (Some x, s) | r \<Rightarrow> r))"

lemma stores_last:
  assumes "has_file_name p" "\<not> fails s (ReadFile p)" "stores p xs s = (r, s')"
  shows "load p s' = (case r of Some x \<Rightarrow> x | None \<Rightarrow> load p s)"
  using assms(2,3)
proof (induction xs arbitrary: s r)
  case (Cons qx xs)
  obtain q x where qx: "qx = (q, x)" by (cases qx)
  obtain r1 s1 where one: "store p q x s = (r1, s1)" by fastforce
  have "\<not> fails s1 (ReadFile p)" using store_fails [of p q x s] one Cons.prems(1) by simp
  note IH = Cons.IH [OF this]
  show ?case
    using Cons.prems(2) store_outcome [OF assms(1) Cons.prems(1) one] IH
    by (auto simp: qx one split: sum.splits prod.splits option.splits)
qed simp

end

interpretation mode: durable_setting enforcement_store enforcement_load
proof (unfold_locales, goal_cases)
  case (1 p s q x u s')
  then show ?case
    using write_replace_fails [of p q "EnforcementMode_as_str x @ [NL]" s] write_replace_ok(1)
    by (auto simp: enforcement_store_def enforcement_load_def fs_read_to_string_def load_stored stored_valid)
next
  case (2 p q x s e s')
  then show ?case
    using write_replace_fails [of p q "EnforcementMode_as_str x @ [NL]" s] write_replace_failed
    by (auto simp: enforcement_store_def enforcement_load_def fs_read_to_string_def)
qed (simp add: enforcement_store_def write_replace_fails)

interpretation traffic: durable_setting traffic_store traffic_load
proof (unfold_locales, goal_cases)
  case (1 p s q x u s')
  then show ?case
    using write_replace_fails [of p q "TrafficPreference_as_str x @ [NL]" s] write_replace_ok(1)
    by (auto simp: traffic_store_def traffic_load_def fs_read_to_string_def load_stored stored_valid)
next
  case (2 p q x s e s')
  then show ?case
    using write_replace_fails [of p q "TrafficPreference_as_str x @ [NL]" s] write_replace_failed
    by (auto simp: traffic_store_def traffic_load_def fs_read_to_string_def)
qed (simp add: traffic_store_def write_replace_fails)

section \<open>Properties\<close>

text \<open>
  The operator's preferences survive a restart. On a readable state file, a successful store
  is read back as written and a failed store leaves the previous preference in force, for the
  enforcement mode and for the kill switch alike.
\<close>

theorem preferences_durable:
  assumes "has_file_name p" "\<not> fails s (ReadFile p)"
  shows "(case enforcement_store p seq mode s of
      (Inr _, s') \<Rightarrow> enforcement_load p s' = mode
    | (Inl _, s') \<Rightarrow> enforcement_load p s' = enforcement_load p s) \<and>
    (case traffic_store p seq pref s of
      (Inr _, s') \<Rightarrow> traffic_load p s' = pref
    | (Inl _, s') \<Rightarrow> traffic_load p s' = traffic_load p s)"
  using mode.store_outcome [OF assms, of seq mode] traffic.store_outcome [OF assms, of seq pref]
  by (auto split: prod.split sum.split)

theorem preferences_durable_witness:
  "traffic_load ''/v/t.m'' (snd (traffic_store ''/v/t.m'' 0 TAll \<lparr>files = [], modes = [], fails = \<lambda>_. False\<rparr>)) = TAll"
proof -
  let ?s = "\<lparr>files = [], modes = [], fails = \<lambda>_. False\<rparr> :: fs"
  have name: "has_file_name ''/v/t.m''" by (simp add: has_file_name_def rsplit_once_def)
  have "fst (traffic_store ''/v/t.m'' 0 TAll ?s) = Inr ()"
    by (simp add: traffic_store_def write_replace_def ensure_parent_def fs_defs Let_def with_extension_def
        file_stem_def rsplit_once_def path_parent_def)
  then show ?thesis
    using preferences_durable [where s = ?s and seq = 0 and mode = Paused and pref = TAll, OF name] by (auto split: prod.splits)
qed

end
