(* ===== verification/Nft.thy ===== *)
theory Nft
  imports ProtoRows Process Modes
begin

text \<open>
  \<open>interfire-daemon/src/nft.rs\<close>: composition of the owned nftables table from the traffic
  preferences and the rules mode, and its installation and removal through the \<open>nft\<close> program.
  The program is a parameter: a record of the three invocations the code makes, over an abstract
  kernel state. The outcomes that tests force are in \<open>NftDouble\<close>.
\<close>

section \<open>The nft program\<close>

record nft_output =
  no_success :: bool
  no_stdout :: string
  no_stderr :: string

text \<open>How \<open>nft -f -\<close> can end for its caller.\<close>

datatype load_outcome =
    SpawnFailed string
  | StdinUnavailable
  | WriteFailed io_error
  | WaitFailed string
  | Exited nft_output

record 'k nft_program =
  nft_delete :: "'k \<Rightarrow> (string + nft_output) \<times> 'k"
  nft_load :: "string \<Rightarrow> 'k \<Rightarrow> load_outcome \<times> 'k"
  nft_list :: "'k \<Rightarrow> string + nft_output"

section \<open>Removal and installation\<close>

definition stderr_indicates_missing :: "string \<Rightarrow> bool" where
  "stderr_indicates_missing stderr =
     (let lower = to_ascii_lowercase stderr
      in contains_str ''no such file'' lower \<or> contains_str ''does not exist'' lower \<or>
         contains_str ''not found'' lower)"

definition finish_remove :: "nft_output \<Rightarrow> io_error + unit" where
  "finish_remove output =
     (if no_success output then Inr ()
      else
        let stderr = utf8_lossy (no_stderr output)
        in if stderr_indicates_missing stderr then Inr ()
           else Inl (OtherError (''nft remove failed: '' @ trim stderr)))"

definition nft_remove :: "'k nft_program \<Rightarrow> 'k \<Rightarrow> (io_error + unit) \<times> 'k" where
  "nft_remove N k =
     (case nft_delete N k of
        (Inl error, k') \<Rightarrow> (Inl (OtherError (''nft spawn failed: '' @ error)), k')
      | (Inr output, k') \<Rightarrow> (finish_remove output, k'))"

abbreviation DQ :: char where "DQ \<equiv> CHR 0x22"

text \<open>A line continuation in a Rust string literal drops the indentation of the next line.\<close>

definition owned_table_script :: string where
  "owned_table_script =
     ''table inet '' @ NFT_TABLE @ '' {'' @ [NL] @
     ''chain '' @ NFT_CHAIN @ '' {'' @ [NL] @
     ''type filter hook output priority filter; policy accept;'' @ [NL] @
     ''oifname '' @ [DQ] @ ''lo'' @ [DQ] @ '' accept'' @ [NL] @
     ''meta l4proto tcp ct state new queue num '' @ show_word NFQUEUE_NUM @ [NL] @
     ''}'' @ [NL] @ ''}'' @ [NL]"

definition load_script :: "string \<Rightarrow> (nft_output \<Rightarrow> io_error + unit) \<Rightarrow> 'k nft_program \<Rightarrow> 'k
    \<Rightarrow> (io_error + unit) \<times> 'k" where
  "load_script script finish N k =
     (case nft_load N script k of
        (SpawnFailed error, k') \<Rightarrow> (Inl (OtherError (''nft spawn failed: '' @ error)), k')
      | (StdinUnavailable, k') \<Rightarrow> (Inl (OtherError ''nft stdin unavailable''), k')
      | (WriteFailed e, k') \<Rightarrow> (Inl e, k')
      | (WaitFailed error, k') \<Rightarrow> (Inl (OtherError (''nft wait failed: '' @ error)), k')
      | (Exited output, k') \<Rightarrow> (finish output, k'))"

definition finish_install :: "nft_output \<Rightarrow> io_error + unit" where
  "finish_install output =
     (if \<not> no_success output
      then Inl (OtherError (''nft install failed: '' @ trim (utf8_lossy (no_stderr output))))
      else Inr ())"

definition nft_install :: "'k nft_program \<Rightarrow> 'k \<Rightarrow> (io_error + unit) \<times> 'k" where
  "nft_install N k = load_script owned_table_script finish_install N (snd (nft_remove N k))"

section \<open>Composition\<close>

record traffic_compose =
  tc_machine :: traffic_preference
  tc_users :: "(u32 \<times> traffic_preference) list"
  tc_rules_active :: bool
  tc_queue_bound :: bool

definition drop_line :: string where
  "drop_line = ''    meta l4proto tcp ct state new drop'' @ [NL]"

definition user_drop_line :: "u32 \<Rightarrow> string" where
  "user_drop_line uid = ''    meta skuid '' @ show_word uid @ '' meta l4proto tcp ct state new drop'' @ [NL]"

definition queue_line :: string where
  "queue_line = ''    meta l4proto tcp ct state new queue num '' @ show_word NFQUEUE_NUM @ [NL]"

definition prologue :: "string \<Rightarrow> string" where
  "prologue ifname = ''    '' @ ifname @ '' '' @ [DQ] @ ''lo'' @ [DQ] @ '' accept'' @ [NL] @
     ''ct state established,related accept'' @ [NL]"

text \<open>The rules of a chain as text, and whether the chain is needed.\<close>

definition output_part :: "traffic_compose \<Rightarrow> bool \<times> string" where
  "output_part compose =
     (let rules = prologue ''oifname''
      in if wants_out (tc_machine compose) then (True, rules @ drop_line)
         else
           let blocked = filter (\<lambda>u. wants_out (snd u)) (tc_users compose);
               rules = rules @ concat (map (\<lambda>u. user_drop_line (fst u)) blocked)
           in if tc_rules_active compose \<and> tc_queue_bound compose
              then (True, rules @ queue_line)
              else (blocked \<noteq> [], rules))"

definition input_part :: "traffic_compose \<Rightarrow> bool \<times> string" where
  "input_part compose =
     (let rules = prologue ''iifname''
      in if wants_in (tc_machine compose) then (True, rules @ drop_line)
         else
           let blocked = filter (\<lambda>u. wants_in (snd u)) (tc_users compose)
           in (blocked \<noteq> [], rules @ concat (map (\<lambda>u. user_drop_line (fst u)) blocked)))"

definition compose_traffic_script :: "traffic_compose \<Rightarrow> string" where
  "compose_traffic_script compose =
     (let (need_output, output_rules) = output_part compose;
          (need_input, input_rules) = input_part compose
      in if \<not> need_output \<and> \<not> need_input then []
         else
           ''table inet '' @ NFT_TABLE @ '' {'' @ [NL] @
           (if need_output then
              ''  chain '' @ NFT_CHAIN @ '' {'' @ [NL] @
              ''type filter hook output priority filter; policy accept;'' @ [NL] @
              output_rules @ ''  }'' @ [NL]
            else []) @
           (if need_input then
              ''  chain input {'' @ [NL] @
              ''type filter hook input priority filter; policy accept;'' @ [NL] @
              input_rules @ ''  }'' @ [NL]
            else []) @
           ''}'' @ [NL])"

definition finish_traffic_install :: "nft_output \<Rightarrow> io_error + unit" where
  "finish_traffic_install output =
     (if \<not> no_success output
      then Inl (OtherError (''nft traffic install failed: '' @ trim (utf8_lossy (no_stderr output))))
      else Inr ())"

definition install_composed :: "'k nft_program \<Rightarrow> traffic_compose \<Rightarrow> 'k \<Rightarrow> (io_error + unit) \<times> 'k" where
  "install_composed N compose k =
     (let script = compose_traffic_script compose
      in if script = [] then nft_remove N k
         else load_script script finish_traffic_install N (snd (nft_remove N k)))"

definition install_block :: "'k nft_program \<Rightarrow> 'k \<Rightarrow> (io_error + unit) \<times> 'k" where
  "install_block N k =
     install_composed N \<lparr>tc_machine = TOut, tc_users = [], tc_rules_active = False,
       tc_queue_bound = False\<rparr> k"

definition apply_modes ::
    "'k nft_program \<Rightarrow> traffic_preference \<Rightarrow> (u32 \<times> traffic_preference) list \<Rightarrow> enforcement_mode \<Rightarrow> bool
       \<Rightarrow> 'k \<Rightarrow> 'k" where
  "apply_modes N machine users rules queue_bound k =
     (let rules_active = (rules = Active);
          machine_blocks = is_blocked machine;
          users_block = list_ex (\<lambda>u. is_blocked (snd u)) users
      in if \<not> machine_blocks \<and> \<not> users_block \<and> \<not> rules_active then snd (nft_remove N k)
         else if \<not> machine_blocks \<and> \<not> users_block \<and> rules_active then
           (if queue_bound then snd (nft_install N k) else snd (nft_remove N k))
         else
           let compose = \<lparr>tc_machine = machine, tc_users = users,
                 tc_rules_active = (rules_active \<and> \<not> wants_out machine), tc_queue_bound = queue_bound\<rparr>
           in if machine = TOut \<and> users = [] then snd (install_block N k)
              else snd (install_composed N compose k))"

section \<open>Status\<close>

datatype list_error = ListMissing | ListFailed string

definition interpret_list_output :: "nft_output \<Rightarrow> list_error + string" where
  "interpret_list_output output =
     (if no_success output then Inr (utf8_lossy (no_stdout output))
      else
        let stderr = utf8_lossy (no_stderr output)
        in if stderr_indicates_missing stderr then Inl ListMissing else Inl (ListFailed (trim stderr)))"

definition list_owned_table :: "'k nft_program \<Rightarrow> 'k \<Rightarrow> list_error + string" where
  "list_owned_table N k =
     (case nft_list N k of
        Inl error \<Rightarrow> Inl (ListFailed (''nft spawn failed: '' @ error))
      | Inr output \<Rightarrow> interpret_list_output output)"

definition body :: "network_table_state \<Rightarrow> string \<Rightarrow> network_status_body" where
  "body state rule = \<lparr>ns_table = NFT_TABLE, ns_queue = NFQUEUE_NUM, ns_state = state, ns_rule = rule\<rparr>"

definition ends_with :: "string \<Rightarrow> string \<Rightarrow> bool" where
  "ends_with p s \<longleftrightarrow> starts_with (rev p) (rev s)"

text \<open>Replacing white space by blanks before splitting at white space changes nothing.\<close>

definition classify_list_output :: "string \<Rightarrow> network_status_body" where
  "classify_list_output stdout =
     (let flattened = join [SP] (split_whitespace stdout);
          has_table = contains_str (''table inet '' @ NFT_TABLE) flattened
      in if \<not> has_table then body NtMissing ''none''
         else
           let has_queue = contains_str (''queue num '' @ show_word NFQUEUE_NUM) flattened;
               has_tcp_new = (contains_str ''meta l4proto tcp'' flattened \<and>
                 (contains_str ''ct state new'' flattened \<or> contains_str ''ct state'' flattened));
               has_drop = (contains_str '' drop'' flattened \<or> ends_with ''drop'' flattened);
               has_lo = (contains_str (''oifname '' @ [DQ] @ ''lo'' @ [DQ]) flattened \<or>
                 contains_str ''oifname lo'' flattened)
           in if has_queue \<and> has_tcp_new then body NtInstalled (network_rule_token NFQUEUE_NUM)
              else if has_drop \<and> has_tcp_new \<and> has_lo then body NtInstalled ''tcp_new_drop''
              else body NtIncomplete ''none'')"

definition nft_status :: "'k nft_program \<Rightarrow> 'k \<Rightarrow> network_status_body" where
  "nft_status N k =
     (case list_owned_table N k of
        Inr stdout \<Rightarrow> classify_list_output stdout
      | Inl ListMissing \<Rightarrow> body NtMissing ''none''
      | Inl (ListFailed _) \<Rightarrow> body NtMissing ''none'')"

section \<open>The ruleset behind the script\<close>

text \<open>
  The script is the rendering of two rule lists. Their meaning is the documented one: rules are
  tried in order, the first that matches and has a verdict decides, and the chain policy accepts.
\<close>

datatype nft_rule = AcceptLoopback | AcceptEstablished | DropNewTcp | DropUserNewTcp u32 | QueueNewTcp

datatype ct_state = CtNew | CtEstablished | CtOther

record flow =
  fl_loopback :: bool
  fl_tcp :: bool
  fl_state :: ct_state
  fl_uid :: u32

datatype nft_verdict = NAccept | NDrop | NQueue

fun rule_verdict_nft :: "nft_rule \<Rightarrow> flow \<Rightarrow> nft_verdict option" where
  "rule_verdict_nft AcceptLoopback f = (if fl_loopback f then Some NAccept else None)"
| "rule_verdict_nft AcceptEstablished f = (if fl_state f = CtEstablished then Some NAccept else None)"
| "rule_verdict_nft DropNewTcp f = (if fl_tcp f \<and> fl_state f = CtNew then Some NDrop else None)"
| "rule_verdict_nft (DropUserNewTcp uid) f =
     (if fl_uid f = uid \<and> fl_tcp f \<and> fl_state f = CtNew then Some NDrop else None)"
| "rule_verdict_nft QueueNewTcp f = (if fl_tcp f \<and> fl_state f = CtNew then Some NQueue else None)"

fun chain_verdict :: "nft_rule list \<Rightarrow> flow \<Rightarrow> nft_verdict" where
  "chain_verdict [] f = NAccept"
| "chain_verdict (r # rs) f = (case rule_verdict_nft r f of Some v \<Rightarrow> v | None \<Rightarrow> chain_verdict rs f)"

definition output_chain :: "traffic_compose \<Rightarrow> nft_rule list option" where
  "output_chain c =
     (let tail = (if wants_out (tc_machine c) then [DropNewTcp]
                  else map (\<lambda>u. DropUserNewTcp (fst u)) (filter (\<lambda>u. wants_out (snd u)) (tc_users c)) @
                    (if tc_rules_active c \<and> tc_queue_bound c then [QueueNewTcp] else []))
      in if tail = [] then None else Some ([AcceptLoopback, AcceptEstablished] @ tail))"

definition input_chain :: "traffic_compose \<Rightarrow> nft_rule list option" where
  "input_chain c =
     (let tail = (if wants_in (tc_machine c) then [DropNewTcp]
                  else map (\<lambda>u. DropUserNewTcp (fst u)) (filter (\<lambda>u. wants_in (snd u)) (tc_users c)))
      in if tail = [] then None else Some ([AcceptLoopback, AcceptEstablished] @ tail))"

fun render_rule :: "string \<Rightarrow> nft_rule \<Rightarrow> string" where
  "render_rule ifname AcceptLoopback =
     ''    '' @ ifname @ '' '' @ [DQ] @ ''lo'' @ [DQ] @ '' accept'' @ [NL]"
| "render_rule ifname AcceptEstablished = ''ct state established,related accept'' @ [NL]"
| "render_rule ifname DropNewTcp = drop_line"
| "render_rule ifname (DropUserNewTcp uid) = user_drop_line uid"
| "render_rule ifname QueueNewTcp = queue_line"

definition render_chain :: "string \<Rightarrow> string \<Rightarrow> string \<Rightarrow> nft_rule list option \<Rightarrow> string" where
  "render_chain name hook ifname chain =
     (case chain of
        None \<Rightarrow> []
      | Some rules \<Rightarrow>
          ''  chain '' @ name @ '' {'' @ [NL] @
          ''type filter hook '' @ hook @ '' priority filter; policy accept;'' @ [NL] @
          concat (map (render_rule ifname) rules) @ ''  }'' @ [NL])"

definition render_table :: "nft_rule list option \<Rightarrow> nft_rule list option \<Rightarrow> string" where
  "render_table out inp =
     (if out = None \<and> inp = None then []
      else ''table inet interfire {'' @ [NL] @ render_chain ''output'' ''output'' ''oifname'' out @
        render_chain ''input'' ''input'' ''iifname'' inp @ ''}'' @ [NL])"

definition table_verdict :: "nft_rule list option \<Rightarrow> flow \<Rightarrow> nft_verdict" where
  "table_verdict chain f = (case chain of None \<Rightarrow> NAccept | Some rules \<Rightarrow> chain_verdict rules f)"

lemma render_users: "concat (map (render_rule i) (map (\<lambda>u. DropUserNewTcp (fst u)) us)) =
    concat (map (\<lambda>u. user_drop_line (fst u)) us)"
  by (induction us) auto

lemma output_part_render:
  "fst (output_part c) \<longleftrightarrow> output_chain c \<noteq> None"
  "output_chain c = Some rules \<Longrightarrow> snd (output_part c) = concat (map (render_rule ''oifname'') rules)"
  by (auto simp: output_part_def output_chain_def Let_def prologue_def render_users [unfolded map_map]
      split: if_splits)

lemma input_part_render:
  "fst (input_part c) \<longleftrightarrow> input_chain c \<noteq> None"
  "input_chain c = Some rules \<Longrightarrow> snd (input_part c) = concat (map (render_rule ''iifname'') rules)"
  by (auto simp: input_part_def input_chain_def Let_def prologue_def render_users [unfolded map_map]
      split: if_splits)

lemma compose_renders: "compose_traffic_script c = render_table (output_chain c) (input_chain c)"
  using output_part_render [of c] input_part_render [of c]
  by (cases "output_chain c"; cases "input_chain c")
    (auto simp: compose_traffic_script_def render_table_def render_chain_def NFT_TABLE_def NFT_CHAIN_def
      split: prod.split)

lemma chain_verdict_prologue:
  "chain_verdict (AcceptLoopback # AcceptEstablished # tail) f =
     (if fl_loopback f \<or> fl_state f = CtEstablished then NAccept else chain_verdict tail f)"
  by simp

text \<open>A chain that is left out decides like its prologue alone.\<close>

lemma table_verdict_chain:
  "table_verdict (if tail = [] then None else Some ([AcceptLoopback, AcceptEstablished] @ tail)) f =
     (if fl_loopback f \<or> fl_state f = CtEstablished then NAccept else chain_verdict tail f)"
  by (simp add: table_verdict_def)

lemma chain_verdict_users:
  "chain_verdict (map (\<lambda>u. DropUserNewTcp (fst u)) (filter (\<lambda>u. P (snd u)) us) @ rest) f =
     (if fl_tcp f \<and> fl_state f = CtNew \<and> (\<exists>u \<in> set us. fst u = fl_uid f \<and> P (snd u)) then NDrop
      else chain_verdict rest f)"
  by (induction us) auto

lemma chain_verdict_users_only:
  "chain_verdict (map (\<lambda>u. DropUserNewTcp (fst u)) (filter (\<lambda>u. P (snd u)) us)) f =
     (if fl_tcp f \<and> fl_state f = CtNew \<and> (\<exists>u \<in> set us. fst u = fl_uid f \<and> P (snd u)) then NDrop
      else NAccept)"
  using chain_verdict_users [of P us "[]" f] by simp

lemma chain_verdict_one:
  "chain_verdict [DropNewTcp] f = (if fl_tcp f \<and> fl_state f = CtNew then NDrop else NAccept)"
  "chain_verdict [QueueNewTcp] f = (if fl_tcp f \<and> fl_state f = CtNew then NQueue else NAccept)"
  "chain_verdict [] f = NAccept"
  by simp_all

text \<open>The case analysis on a flow, for any blocked-user condition \<open>u\<close>.\<close>

lemma flow_cases_out:
  "(if l \<or> s = CtEstablished then NAccept else if w then (if t \<and> s = CtNew then NDrop else NAccept)
    else if t \<and> s = CtNew \<and> u then NDrop
    else if a then (if t \<and> s = CtNew then NQueue else NAccept) else NAccept) =
   (if l \<or> \<not> t \<or> s \<noteq> CtNew then NAccept else if w \<or> u then NDrop else if a then NQueue else NAccept)"
  by (cases s; cases t; simp)

lemma flow_cases_in:
  "(if l \<or> s = CtEstablished then NAccept else if w then (if t \<and> s = CtNew then NDrop else NAccept)
    else if t \<and> s = CtNew \<and> u then NDrop else NAccept) =
   (if l \<or> \<not> t \<or> s \<noteq> CtNew then NAccept else if w \<or> u then NDrop else NAccept)"
  by (cases s; cases t; simp)

text \<open>
  What the \<open>nft\<close> manual promises of the invocations, with \<open>owned\<close> reading the script of the table
  \<open>inet interfire\<close> from the kernel state: a successful delete removes the table, an unsuccessful one
  changes nothing, and loading a file is a transaction.
\<close>

definition nft_lawful :: "'k nft_program \<Rightarrow> ('k \<Rightarrow> string option) \<Rightarrow> bool" where
  "nft_lawful N owned \<longleftrightarrow>
     (\<forall>k out k'. nft_delete N k = (Inr out, k') \<longrightarrow>
        owned k' = (if no_success out then None else owned k)) \<and>
     (\<forall>k e k'. nft_delete N k = (Inl e, k') \<longrightarrow> owned k' = owned k) \<and>
     (\<forall>k s out k'. nft_load N s k = (Exited out, k') \<and> (no_success out \<longrightarrow> owned k = None) \<longrightarrow>
        owned k' = (if no_success out then Some s else owned k))"

lemma nft_remove_owned:
  assumes "nft_lawful N owned" "nft_delete N k = (Inr out, k')" "no_success out"
  shows "nft_remove N k = (Inr (), k')" "owned k' = None"
  using assms by (auto simp: nft_lawful_def nft_remove_def finish_remove_def)

section \<open>Properties\<close>

lemma if_swap_new: "(if a \<and> b \<and> \<not> c then x else y) = (if c \<or> \<not> a \<or> \<not> b then y else x)"
  by auto

lemma output_verdict:
  "table_verdict (output_chain c) f =
     (if fl_loopback f \<or> \<not> fl_tcp f \<or> fl_state f \<noteq> CtNew then NAccept
      else if wants_out (tc_machine c) \<or> (\<exists>u \<in> set (tc_users c). fst u = fl_uid f \<and> wants_out (snd u)) then NDrop
      else if tc_rules_active c \<and> tc_queue_bound c then NQueue else NAccept)"
proof -
  have "table_verdict (output_chain c) f =
     (if fl_loopback f \<or> fl_state f = CtEstablished then NAccept
      else if wants_out (tc_machine c) then chain_verdict [DropNewTcp] f
      else chain_verdict (map (\<lambda>u. DropUserNewTcp (fst u)) (filter (\<lambda>u. wants_out (snd u)) (tc_users c)) @
        (if tc_rules_active c \<and> tc_queue_bound c then [QueueNewTcp] else [])) f)"
    unfolding output_chain_def Let_def table_verdict_chain by (simp only: if_distrib [of "\<lambda>t. chain_verdict t f"])
  then show ?thesis
    unfolding chain_verdict_users if_distrib [of "\<lambda>t. chain_verdict t f"] chain_verdict_one
    by (rule trans) (rule flow_cases_out)
qed

lemma input_verdict:
  "table_verdict (input_chain c) f =
     (if fl_loopback f \<or> \<not> fl_tcp f \<or> fl_state f \<noteq> CtNew then NAccept
      else if wants_in (tc_machine c) \<or> (\<exists>u \<in> set (tc_users c). fst u = fl_uid f \<and> wants_in (snd u)) then NDrop
      else NAccept)"
proof -
  have "table_verdict (input_chain c) f =
     (if fl_loopback f \<or> fl_state f = CtEstablished then NAccept
      else if wants_in (tc_machine c) then chain_verdict [DropNewTcp] f
      else chain_verdict (map (\<lambda>u. DropUserNewTcp (fst u)) (filter (\<lambda>u. wants_in (snd u)) (tc_users c))) f)"
    unfolding input_chain_def Let_def table_verdict_chain by (simp only: if_distrib [of "\<lambda>t. chain_verdict t f"])
  then show ?thesis
    unfolding chain_verdict_users_only chain_verdict_one
    by (rule trans) (rule flow_cases_in)
qed


text \<open>
  C21: replacing the table is not atomic. When the old table was deleted and \<open>nft\<close> then rejects the
  new script, the call reports an error and the owned table is gone, so a kill switch that was in
  force is no longer; when \<open>nft\<close> accepts the script, exactly this script is in force.
\<close>

theorem install_replaces_or_opens:
  assumes "nft_lawful N owned" "compose_traffic_script c \<noteq> []"
    and "nft_delete N k = (Inr out1, k1)" "no_success out1"
    and "nft_load N (compose_traffic_script c) k1 = (Exited out2, k2)"
  shows "install_composed N c k = (finish_traffic_install out2, k2) \<and>
    (if no_success out2
     then fst (install_composed N c k) = Inr () \<and> owned k2 = Some (compose_traffic_script c)
     else (\<exists>e. fst (install_composed N c k) = Inl e) \<and> owned k2 = None)"
proof -
  note rm = nft_remove_owned [OF assms(1,3,4)]
  have "install_composed N c k = (finish_traffic_install out2, k2)"
    using assms(2,5) rm(1) by (simp add: install_composed_def load_script_def)
  moreover have "owned k2 = (if no_success out2 then Some (compose_traffic_script c) else None)"
    using assms(1,5) rm(2) unfolding nft_lawful_def by metis
  ultimately show ?thesis by (simp add: finish_traffic_install_def)
qed

text \<open>The two scripts as \<open>classify_list_output\<close> sees them after flattening.\<close>

lemma flattened_out:
  "join [SP] (split_whitespace (compose_traffic_script \<lparr>tc_machine = TOut, tc_users = [],
     tc_rules_active = False, tc_queue_bound = False\<rparr>)) =
   ''table inet interfire { chain output { type filter hook output priority filter; policy accept; oifname '' @
   [DQ] @ ''lo'' @ [DQ] @ '' accept ct state established,related accept meta l4proto tcp ct state new drop } }''"
  by code_simp

lemma flattened_in:
  "join [SP] (split_whitespace (compose_traffic_script \<lparr>tc_machine = TIn, tc_users = [],
     tc_rules_active = False, tc_queue_bound = False\<rparr>)) =
   ''table inet interfire { chain input { type filter hook input priority filter; policy accept; iifname '' @
   [DQ] @ ''lo'' @ [DQ] @ '' accept ct state established,related accept meta l4proto tcp ct state new drop } }''"
  by code_simp

text \<open>
  What \<open>network-status\<close> says of a freshly written kill switch. An outbound block is recognised
  as installed; an inbound-only block is reported as incomplete, because the classifier looks for the
  loopback rule of the output chain.
\<close>

theorem status_of_composed_block:
  "classify_list_output (compose_traffic_script \<lparr>tc_machine = TOut, tc_users = [],
      tc_rules_active = False, tc_queue_bound = False\<rparr>) = body NtInstalled ''tcp_new_drop'' \<and>
   classify_list_output (compose_traffic_script \<lparr>tc_machine = TIn, tc_users = [],
      tc_rules_active = False, tc_queue_bound = False\<rparr>) = body NtIncomplete ''none''"
  unfolding classify_list_output_def flattened_out flattened_in
  by (simp add: starts_with_def NFT_TABLE_def NFQUEUE_NUM_def)

text \<open>An \<open>nft\<close> over a kernel state that is just the owned script, which rejects what it is told to.\<close>

definition nft_demo :: "(string \<Rightarrow> bool) \<Rightarrow> (string option) nft_program" where
  "nft_demo reject =
     \<lparr>nft_delete = \<lambda>k. (Inr \<lparr>no_success = k \<noteq> None, no_stdout = [],
         no_stderr = ''Error: No such file or directory''\<rparr>, None),
      nft_load = \<lambda>s k. if reject s then (Exited \<lparr>no_success = False, no_stdout = [], no_stderr = ''rejected''\<rparr>, k)
         else (Exited \<lparr>no_success = True, no_stdout = [], no_stderr = []\<rparr>, Some s),
      nft_list = \<lambda>k. case k of None \<Rightarrow> Inl ''none'' | Some s \<Rightarrow> Inr \<lparr>no_success = True, no_stdout = s, no_stderr = []\<rparr>\<rparr>"

lemma nft_demo_lawful: "nft_lawful (nft_demo reject) (\<lambda>k. k)"
  by (auto simp: nft_lawful_def nft_demo_def split: if_splits)

theorem install_replaces_or_opens_witness:
  "\<exists>e. install_composed (nft_demo (\<lambda>_. True)) \<lparr>tc_machine = TAll, tc_users = [], tc_rules_active = False,
      tc_queue_bound = True\<rparr> (Some ''old block'') = (Inl e, None)"
proof -
  let ?c = "\<lparr>tc_machine = TAll, tc_users = [], tc_rules_active = False, tc_queue_bound = True\<rparr>"
  have ne: "compose_traffic_script ?c \<noteq> []"
    by (simp add: compose_traffic_script_def output_part_def wants_out_def Let_def split: prod.split)
  have del: "nft_delete (nft_demo (\<lambda>_. True)) (Some ''old block'') = (Inr \<lparr>no_success = True,
      no_stdout = [], no_stderr = ''Error: No such file or directory''\<rparr>, None)"
    by (simp add: nft_demo_def)
  have load: "nft_load (nft_demo (\<lambda>_. True)) (compose_traffic_script ?c) None =
      (Exited \<lparr>no_success = False, no_stdout = [], no_stderr = ''rejected''\<rparr>, None)"
    by (simp add: nft_demo_def)
  have "install_composed (nft_demo (\<lambda>_. True)) ?c (Some ''old block'') =
      (finish_traffic_install \<lparr>no_success = False, no_stdout = [], no_stderr = ''rejected''\<rparr>, None)"
    by (rule conjunct1 [OF install_replaces_or_opens [OF nft_demo_lawful ne del _ load]])
      (simp only: nft_output.simps)
  then show ?thesis unfolding finish_traffic_install_def by simp
qed

end
