(* ===== verification/Ebpf.thy ===== *)
theory Ebpf
  imports RustStr
begin

text \<open>
  The crates \<open>interfire-ebpf\<close> and \<open>interfire-ebpf-programs\<close>: the kernel probe that observes
  \<open>tcp_v4_connect\<close>, the record it writes to the ring buffer, and the userspace parser of that
  record. The supported target is \<open>x86_64\<close> with a \<open>bpfel\<close> object, so native byte order is
  little-endian: \<open>to_ne_bytes\<close> and \<open>from_ne_bytes\<close> are the little-endian conversions.
\<close>

section \<open>Byte order\<close>

definition to_le_bytes :: "nat \<Rightarrow> 'a::len word \<Rightarrow> u8 list" where
  "to_le_bytes n w = map (\<lambda>i. word_of_nat (unat w div 256 ^ i mod 256)) [0..<n]"

fun le_value :: "u8 list \<Rightarrow> nat" where
  "le_value [] = 0"
| "le_value (b # bs) = unat b + 256 * le_value bs"

definition from_le_bytes :: "u8 list \<Rightarrow> 'a::len word" where
  "from_le_bytes bs = word_of_nat (le_value bs)"

definition from_be_bytes :: "u8 list \<Rightarrow> 'a::len word" where
  "from_be_bytes bs = from_le_bytes (rev bs)"

definition to_be_bytes :: "nat \<Rightarrow> 'a::len word \<Rightarrow> u8 list" where
  "to_be_bytes n w = rev (to_le_bytes n w)"

text \<open>Native order of the target.\<close>

definition to_ne_bytes :: "nat \<Rightarrow> 'a::len word \<Rightarrow> u8 list" where
  "to_ne_bytes n w = to_le_bytes n w"

definition from_ne_bytes :: "u8 list \<Rightarrow> 'a::len word" where
  "from_ne_bytes bs = from_le_bytes bs"

text \<open>\<open>u32::from_be\<close> and \<open>u16::from_be\<close>: reinterpret the native bytes as big-endian.\<close>

definition u32_from_be :: "u32 \<Rightarrow> u32" where
  "u32_from_be w = from_be_bytes (to_ne_bytes 4 w)"

definition u16_from_be :: "u16 \<Rightarrow> u16" where
  "u16_from_be w = from_be_bytes (to_ne_bytes 2 w)"

section \<open>The event record\<close>

record tcp_connect_event =
  ev_pid :: u32
  ev_process_start_ticks :: u64
  ev_destination_ipv4 :: u32
  ev_destination_port :: u16
  ev_reserved :: u16

definition destination_octets :: "tcp_connect_event \<Rightarrow> u8 list" where
  "destination_octets e = to_ne_bytes 4 (ev_destination_ipv4 e)"

definition try_from_bytes :: "u8 list \<Rightarrow> tcp_connect_event option" where
  "try_from_bytes bytes =
     (if length bytes < 24 then None
      else Some \<lparr>ev_pid = from_ne_bytes (take 4 bytes),
        ev_process_start_ticks = from_ne_bytes (take 8 (drop 8 bytes)),
        ev_destination_ipv4 = from_ne_bytes (take 4 (drop 16 bytes)),
        ev_destination_port = from_ne_bytes (take 2 (drop 20 bytes)),
        ev_reserved = from_ne_bytes (take 2 (drop 22 bytes))\<rparr>)"

text \<open>The \<open>repr(C)\<close> image that the probe writes: four padding bytes follow the pid.\<close>

definition event_bytes :: "u8 list \<Rightarrow> tcp_connect_event \<Rightarrow> u8 list" where
  "event_bytes pad e =
     to_ne_bytes 4 (ev_pid e) @ pad @ to_ne_bytes 8 (ev_process_start_ticks e) @
     to_ne_bytes 4 (ev_destination_ipv4 e) @ to_ne_bytes 2 (ev_destination_port e) @
     to_ne_bytes 2 (ev_reserved e)"

section \<open>The probe\<close>

record sock_addr_in =
  sin_family :: u16
  sin_port :: u16
  sin_addr :: u32

definition AF_INET :: u16 where
  "AF_INET = 2"

text \<open>
  \<open>arg1\<close> is the second argument of the probed call, \<open>probe_read\<close> what reading the user
  memory gives, \<open>room\<close> whether the ring buffer had room. The result is the program's return
  value and the record submitted, if any.
\<close>

definition try_tcp_connect ::
    "'p option \<Rightarrow> ('p \<Rightarrow> sock_addr_in option) \<Rightarrow> u64 \<Rightarrow> bool
       \<Rightarrow> (u32 + u32) \<times> tcp_connect_event option" where
  "try_tcp_connect arg1 probe_read pid_tgid room =
     (case arg1 of
        None \<Rightarrow> (Inl 1, None)
      | Some addr \<Rightarrow>
          (case probe_read addr of
             None \<Rightarrow> (Inl 1, None)
           | Some sockaddr \<Rightarrow>
               if sin_family sockaddr \<noteq> AF_INET then (Inr 0, None)
               else
                 let tgid = ucast (drop_bit 32 pid_tgid);
                     event = \<lparr>ev_pid = tgid, ev_process_start_ticks = 0,
                       ev_destination_ipv4 = u32_from_be (sin_addr sockaddr),
                       ev_destination_port = u16_from_be (sin_port sockaddr),
                       ev_reserved = 0\<rparr>
                 in (Inr 0, if room then Some event else None)))"

definition interfire_tcp_connect ::
    "'p option \<Rightarrow> ('p \<Rightarrow> sock_addr_in option) \<Rightarrow> u64 \<Rightarrow> bool
       \<Rightarrow> u32 \<times> tcp_connect_event option" where
  "interfire_tcp_connect arg1 probe_read pid_tgid room =
     (case try_tcp_connect arg1 probe_read pid_tgid room of
        (Inl v, e) \<Rightarrow> (v, e) | (Inr v, e) \<Rightarrow> (v, e))"

section \<open>Facts about byte conversions\<close>

lemma length_to_le_bytes [simp]: "length (to_le_bytes n w) = n"
  by (simp add: to_le_bytes_def)

lemma length_to_ne_bytes [simp]: "length (to_ne_bytes n w) = n"
  by (simp add: to_ne_bytes_def)

lemma le_value_bound: "le_value bs < 256 ^ length bs"
proof (induction bs)
  case (Cons b bs)
  have "unat b < 256" using unsigned_less [of b, where ?'a = nat] by simp
  with Cons show ?case by simp
qed simp

lemma le_value_digits:
  "le_value (map (\<lambda>i. word_of_nat (m div 256 ^ i mod 256)) [0..<n]) = m mod 256 ^ n"
proof (induction n arbitrary: m)
  case (Suc n)
  have split: "[0..<Suc n] = 0 # map Suc [0..<n]"
    by (simp add: map_Suc_upt upt_conv_Cons)
  have shift: "map (\<lambda>i. word_of_nat (m div 256 ^ i mod 256) :: u8) (map Suc [0..<n]) =
      map (\<lambda>i. word_of_nat (m div 256 div 256 ^ i mod 256)) [0..<n]"
    by (simp add: div_mult2_eq)
  have "le_value (map (\<lambda>i. word_of_nat (m div 256 ^ i mod 256)) [0..<Suc n]) =
      unat (word_of_nat (m mod 256) :: u8) + 256 * (m div 256 mod 256 ^ n)"
    unfolding split list.map shift le_value.simps Suc.IH by simp
  also have "unat (word_of_nat (m mod 256) :: u8) = m mod 256"
    by (simp add: unat_of_nat)
  also have "m mod 256 + 256 * (m div 256 mod 256 ^ n) = m mod 256 ^ Suc n"
    by (simp add: mod_mult2_eq)
  finally show ?case .
qed simp

lemma le_value_to_le_bytes: "le_value (to_le_bytes n w) = unat w mod 256 ^ n"
  by (simp add: to_le_bytes_def le_value_digits)

lemma pow256: "256 ^ n = (2::nat) ^ (8 * n)"
  by (simp add: power_mult)

lemma from_le_to_le:
  "LENGTH('a) = 8 * n \<Longrightarrow> from_le_bytes (to_le_bytes n (w :: 'a::len word)) = w"
  using unsigned_less [of w, where ?'a = nat]
  by (simp add: from_le_bytes_def le_value_to_le_bytes pow256)

lemma le_value_digit:
  "i < length bs \<Longrightarrow> le_value bs div 256 ^ i mod 256 = unat (bs ! i)"
proof (induction bs arbitrary: i)
  case (Cons b bs)
  have b: "unat b < 256" using unsigned_less [of b, where ?'a = nat] by simp
  show ?case
  proof (cases i)
    case 0
    with b show ?thesis by simp
  next
    case (Suc j)
    have "(unat b + 256 * le_value bs) div 256 = le_value bs" using b by simp
    with Suc Cons show ?thesis by (simp add: div_mult2_eq)
  qed
qed simp

lemma to_le_from_le:
  assumes "LENGTH('a) = 8 * n" "length bs = n"
  shows "to_le_bytes n (from_le_bytes bs :: 'a::len word) = bs"
proof -
  have "unat (from_le_bytes bs :: 'a word) = le_value bs"
    using le_value_bound [of bs] assms by (simp add: from_le_bytes_def unat_of_nat pow256)
  then show ?thesis
    using assms(2) by (intro nth_equalityI) (auto simp: to_le_bytes_def le_value_digit)
qed

lemma from_ne_to_ne:
  "LENGTH('a) = 8 * n \<Longrightarrow> from_ne_bytes (to_ne_bytes n (w :: 'a::len word)) = w"
  by (simp add: from_ne_bytes_def to_ne_bytes_def from_le_to_le)

lemma to_ne_from_ne:
  "LENGTH('a) = 8 * n \<Longrightarrow> length bs = n \<Longrightarrow> to_ne_bytes n (from_ne_bytes bs :: 'a::len word) = bs"
  by (simp add: from_ne_bytes_def to_ne_bytes_def to_le_from_le)

lemma to_ne_from_be:
  "LENGTH('a) = 8 * n \<Longrightarrow> length bs = n \<Longrightarrow> to_ne_bytes n (from_be_bytes bs :: 'a::len word) = rev bs"
  by (simp add: from_be_bytes_def to_ne_bytes_def to_le_from_le)

lemma u32_from_be_bytes: "length bs = 4 \<Longrightarrow> u32_from_be (from_ne_bytes bs) = from_be_bytes bs"
  by (simp add: u32_from_be_def to_ne_from_ne)

lemma u16_from_be_bytes: "length bs = 2 \<Longrightarrow> u16_from_be (from_ne_bytes bs) = from_be_bytes bs"
  by (simp add: u16_from_be_def to_ne_from_ne)

section \<open>Properties\<close>

text \<open>
  C26: the userspace parser reads back every record the probe writes, whatever the padding
  bytes hold, and rejects every buffer shorter than the 24-byte layout.
\<close>

theorem event_record_round_trip:
  "(length pad = 4 \<longrightarrow> try_from_bytes (event_bytes pad e) = Some e) \<and>
   (length short < 24 \<longrightarrow> try_from_bytes short = None)"
  by (cases e) (simp add: try_from_bytes_def event_bytes_def from_ne_to_ne)

theorem event_record_round_trip_witness:
  "try_from_bytes (event_bytes [9, 9, 9, 9] \<lparr>ev_pid = 42, ev_process_start_ticks = 0,
     ev_destination_ipv4 = 0x7F000001, ev_destination_port = 443, ev_reserved = 0\<rparr>) =
     Some \<lparr>ev_pid = 42, ev_process_start_ticks = 0,
     ev_destination_ipv4 = 0x7F000001, ev_destination_port = 443, ev_reserved = 0\<rparr> \<and>
   try_from_bytes [0, 0] = None"
  using event_record_round_trip [of "[9, 9, 9, 9]"
      "\<lparr>ev_pid = 42, ev_process_start_ticks = 0, ev_destination_ipv4 = 0x7F000001,
        ev_destination_port = 443, ev_reserved = 0\<rparr>" "[0, 0]"]
  by simp

end
