(* ===== verification/Pending.thy ===== *)
theory Pending
  imports Fifo
begin

text \<open>
  \<open>interfire-daemon/src/pending.rs\<close>: the table that joins connect observations with queued
  packets. Keys are destinations, values are packet verdicts with their insertion time; an entry
  is dropped when it is older than the TTL, when the table is full, or when it is taken. Each
  operation receives the clock readings it makes, in order.
\<close>

text \<open>The two verdicts of the crate \<open>nfq\<close> that the daemon uses.\<close>

datatype packet_verdict = Accept | Drop

record dest_key =
  dk_ipv4 :: u32
  dk_port :: u16

record pending_entry =
  pe_verdict :: packet_verdict
  pe_inserted_at :: instant

record pending_table =
  pt_capacity :: usize
  pt_ttl :: duration
  pt_entries :: "(dest_key \<times> pending_entry) list"
  pt_order :: "dest_key list"

section \<open>Operations\<close>

text \<open>The constructor panics on capacity zero.\<close>

definition PendingTable_new :: "usize \<Rightarrow> duration \<Rightarrow> pending_table option" where
  "PendingTable_new capacity ttl =
     (if 0 < capacity
      then Some \<lparr>pt_capacity = capacity, pt_ttl = ttl, pt_entries = [], pt_order = []\<rparr> else None)"

text \<open>\<open>order.retain\<close> with its closure, which removes expired entries as it goes.\<close>

fun expire_loop ::
    "instant \<Rightarrow> duration \<Rightarrow> dest_key list \<Rightarrow> (dest_key \<times> pending_entry) list
       \<Rightarrow> dest_key list \<times> (dest_key \<times> pending_entry) list" where
  "expire_loop now ttl [] m = ([], m)"
| "expire_loop now ttl (k # ks) m =
     (case map_of m k of
        None \<Rightarrow> expire_loop now ttl ks m
      | Some entry \<Rightarrow>
          if ttl < now - pe_inserted_at entry then expire_loop now ttl ks (AList.delete k m)
          else (case expire_loop now ttl ks m of (ord, m') \<Rightarrow> (k # ord, m')))"

definition PendingTable_expire :: "instant \<Rightarrow> pending_table \<Rightarrow> pending_table" where
  "PendingTable_expire now t =
     (case expire_loop now (pt_ttl t) (pt_order t) (pt_entries t) of
        (ord, m) \<Rightarrow> t\<lparr>pt_order := ord, pt_entries := m\<rparr>)"

definition PendingTable_insert ::
    "instant \<Rightarrow> instant \<Rightarrow> dest_key \<Rightarrow> packet_verdict \<Rightarrow> pending_table \<Rightarrow> pending_table" where
  "PendingTable_insert now1 now2 key verdict t =
     (let t = PendingTable_expire now1 t;
          fresh = \<lparr>pe_verdict = verdict, pe_inserted_at = now2\<rparr>
      in if map_of (pt_entries t) key \<noteq> None
         then t\<lparr>pt_entries := AList.update key fresh (pt_entries t)\<rparr>
         else (case evict (pt_capacity t) (pt_order t) (pt_entries t) of
                 (ord, m) \<Rightarrow> t\<lparr>pt_order := ord @ [key], pt_entries := AList.update key fresh m\<rparr>))"

definition PendingTable_take ::
    "instant \<Rightarrow> dest_key \<Rightarrow> pending_table \<Rightarrow> packet_verdict option \<times> pending_table" where
  "PendingTable_take now key t =
     (let t = PendingTable_expire now t
      in (map_option pe_verdict (map_of (pt_entries t) key),
          t\<lparr>pt_entries := AList.delete key (pt_entries t)\<rparr>))"

section \<open>Well-formedness\<close>

text \<open>
  \<open>take\<close> removes an entry and leaves its key in the order queue, so between operations the
  queue may hold keys without an entry; \<open>expire\<close> cleans them.
\<close>

definition pending_wf :: "pending_table \<Rightarrow> bool" where
  "pending_wf t \<longleftrightarrow> 0 < pt_capacity t \<and> distinct (pt_order t) \<and> hm_wf (pt_entries t) \<and>
     keys (pt_entries t) \<subseteq> set (pt_order t) \<and> length (pt_entries t) \<le> pt_capacity t"

definition entry_fresh :: "instant \<Rightarrow> duration \<Rightarrow> pending_entry \<Rightarrow> bool" where
  "entry_fresh now ttl e \<longleftrightarrow> now - pe_inserted_at e \<le> ttl"

lemma PendingTable_new_wf: "PendingTable_new c ttl = Some t \<Longrightarrow> pending_wf t"
  by (auto simp: PendingTable_new_def pending_wf_def split: if_splits)

lemma expire_loop_lookup:
  assumes "expire_loop now ttl ord m = (ord', m')" "distinct ord"
  shows "map_of m' k =
    (case map_of m k of
       None \<Rightarrow> None
     | Some e \<Rightarrow> if k \<in> set ord \<and> \<not> entry_fresh now ttl e then None else Some e)"
  using assms
proof (induction ord arbitrary: m ord' m')
  case (Cons x ord)
  show ?case
  proof (cases "map_of m x")
    case None
    with Cons show ?thesis by (auto split: option.splits)
  next
    case (Some e)
    show ?thesis
    proof (cases "entry_fresh now ttl e")
      case True
      with Cons Some show ?thesis
        by (auto simp: entry_fresh_def split: prod.splits option.splits)
    next
      case False
      then have "ttl < now - pe_inserted_at e" by (simp add: entry_fresh_def)
      with Cons.prems Some have "expire_loop now ttl ord (AList.delete x m) = (ord', m')" by simp
      from Cons.IH [OF this] Cons.prems False Some show ?thesis
        by (auto simp: map_of_delete_eq split: option.splits)
    qed
  qed
qed (simp split: option.split)

lemma expire_loop_wf:
  assumes "expire_loop now ttl ord m = (ord', m')" "distinct ord" "hm_wf m"
  shows "hm_wf m' \<and> distinct ord' \<and> set ord' = set ord \<inter> keys m' \<and> length m' \<le> length m"
  using assms
proof (induction ord arbitrary: m ord' m')
  case (Cons x ord)
  show ?case
  proof (cases "map_of m x")
    case None
    with Cons have IH: "hm_wf m' \<and> distinct ord' \<and> set ord' = set ord \<inter> keys m' \<and> length m' \<le> length m"
      and run: "expire_loop now ttl ord m = (ord', m')" by simp_all
    have "x \<notin> keys m'"
      using expire_loop_lookup [OF run, of x] Cons.prems None by (simp add: in_keys_iff)
    with IH show ?thesis by auto
  next
    case (Some e)
    show ?thesis
    proof (cases "ttl < now - pe_inserted_at e")
      case True
      with Cons.prems Some have run: "expire_loop now ttl ord (AList.delete x m) = (ord', m')" by simp
      have "length (AList.delete x m) \<le> length m" by (rule AList.length_delete_le)
      moreover have "x \<notin> keys m'"
        using expire_loop_lookup [OF run, of x] Cons.prems by (simp add: in_keys_iff map_of_delete_eq)
      ultimately show ?thesis
        using Cons.IH [OF run] Cons.prems by (auto simp: hm_wf_delete)
    next
      case False
      obtain o1 where run: "expire_loop now ttl ord m = (o1, m')" and o1: "ord' = x # o1"
        using Cons.prems Some False by (auto split: prod.splits)
      have "x \<in> keys m'"
        using expire_loop_lookup [OF run, of x] Cons.prems Some
        by (simp add: in_keys_iff)
      with Cons.IH [OF run] Cons.prems o1 show ?thesis by auto
    qed
  qed
qed simp

lemma expire_fields [simp]:
  "pt_capacity (PendingTable_expire now t) = pt_capacity t"
  "pt_ttl (PendingTable_expire now t) = pt_ttl t"
  by (simp_all add: PendingTable_expire_def split: prod.splits)

text \<open>What \<open>expire\<close> leaves: exactly the fresh entries, and the two structures agree.\<close>

lemma expire_lookup:
  assumes "pending_wf t"
  shows "map_of (pt_entries (PendingTable_expire now t)) k =
    (case map_of (pt_entries t) k of
       None \<Rightarrow> None
     | Some e \<Rightarrow> if entry_fresh now (pt_ttl t) e then Some e else None)"
proof -
  obtain ord m where run: "expire_loop now (pt_ttl t) (pt_order t) (pt_entries t) = (ord, m)"
    by (cases "expire_loop now (pt_ttl t) (pt_order t) (pt_entries t)")
  have d: "distinct (pt_order t)" and sub: "keys (pt_entries t) \<subseteq> set (pt_order t)"
    using assms by (auto simp: pending_wf_def)
  have "k \<in> set (pt_order t)" if "map_of (pt_entries t) k = Some e" for e
    using that sub in_keys_iff [of k "pt_entries t"] by auto
  then show ?thesis
    using expire_loop_lookup [OF run d, of k]
    by (auto simp: PendingTable_expire_def run split: option.splits)
qed

lemma expire_fifo_wf:
  assumes "pending_wf t"
  shows "fifo_wf (pt_capacity t)
    (pt_order (PendingTable_expire now t), pt_entries (PendingTable_expire now t))"
proof -
  obtain ord m where run: "expire_loop now (pt_ttl t) (pt_order t) (pt_entries t) = (ord, m)"
    by (cases "expire_loop now (pt_ttl t) (pt_order t) (pt_entries t)")
  have w: "distinct (pt_order t)" "hm_wf (pt_entries t)" "0 < pt_capacity t"
      "length (pt_entries t) \<le> pt_capacity t" "keys (pt_entries t) \<subseteq> set (pt_order t)"
    using assms by (auto simp: pending_wf_def)
  have "keys m \<subseteq> keys (pt_entries t)"
  proof
    fix k assume "k \<in> keys m"
    then show "k \<in> keys (pt_entries t)"
      unfolding in_keys_iff using expire_loop_lookup [OF run w(1), of k] by (cases "map_of (pt_entries t) k") auto
  qed
  moreover from this w have "set (pt_order t) \<inter> keys m = keys m" by blast
  ultimately show ?thesis
    using expire_loop_wf [OF run w(1,2)] w by (simp add: fifo_wf_def PendingTable_expire_def run)
qed

lemma fifo_wf_pending_wf:
  "fifo_wf (pt_capacity t) (pt_order t, pt_entries t) \<Longrightarrow> pending_wf t"
  by (auto simp: fifo_wf_def pending_wf_def)

lemma expire_wf [wf_intros]: "pending_wf t \<Longrightarrow> pending_wf (PendingTable_expire now t)"
  using expire_fifo_wf fifo_wf_pending_wf by fastforce

lemma insert_as_fifo_put:
  "PendingTable_insert now1 now2 k v t =
     (let t' = PendingTable_expire now1 t;
          s = fifo_put (pt_capacity t) k \<lparr>pe_verdict = v, pe_inserted_at = now2\<rparr>
                (pt_order t', pt_entries t')
      in t'\<lparr>pt_order := fst s, pt_entries := snd s\<rparr>)"
  by (auto simp: PendingTable_insert_def fifo_put_def fifo_add_def Let_def split: prod.splits)

lemma insert_fields [simp]:
  "pt_capacity (PendingTable_insert now1 now2 k v t) = pt_capacity t"
  "pt_ttl (PendingTable_insert now1 now2 k v t) = pt_ttl t"
  by (simp_all add: insert_as_fifo_put Let_def)

lemma insert_wf [wf_intros]:
  "pending_wf t \<Longrightarrow> pending_wf (PendingTable_insert now1 now2 k v t)"
  using fifo_put_wf [OF expire_fifo_wf [of t now1]]
  by (intro fifo_wf_pending_wf) (simp add: insert_as_fifo_put Let_def)

lemma insert_lookup_same:
  "map_of (pt_entries (PendingTable_insert now1 now2 k v t)) k =
     Some \<lparr>pe_verdict = v, pe_inserted_at = now2\<rparr>"
  by (simp add: insert_as_fifo_put Let_def fifo_put_same)

lemma insert_lookup_other:
  assumes "pending_wf t" "k' \<noteq> k" "map_of (pt_entries (PendingTable_insert now1 now2 k v t)) k' = Some e"
  shows "map_of (pt_entries t) k' = Some e"
proof -
  let ?t = "PendingTable_expire now1 t"
  have "map_of (pt_entries ?t) k' = Some e"
    using assms(3) fifo_put_other [OF expire_fifo_wf [OF assms(1), of now1] assms(2),
        of "\<lparr>pe_verdict = v, pe_inserted_at = now2\<rparr>"]
    by (auto simp: insert_as_fifo_put Let_def)
  then show ?thesis
    using expire_lookup [OF assms(1), of now1 k'] by (auto split: option.splits if_splits)
qed

lemma take_fields [simp]:
  "pt_capacity (snd (PendingTable_take now k t)) = pt_capacity t"
  "pt_ttl (snd (PendingTable_take now k t)) = pt_ttl t"
  by (simp_all add: PendingTable_take_def Let_def)

lemma take_wf [wf_intros]: "pending_wf t \<Longrightarrow> pending_wf (snd (PendingTable_take now k t))"
  using expire_wf [of t now] AList.length_delete_le [of k "pt_entries (PendingTable_expire now t)"]
  by (auto simp: PendingTable_take_def pending_wf_def Let_def keys_delete hm_wf_delete)

lemma take_lookup:
  assumes "pending_wf t" "map_of (pt_entries (snd (PendingTable_take now k t))) k' = Some e"
  shows "k' \<noteq> k \<and> map_of (pt_entries t) k' = Some e"
  using assms(2) expire_lookup [OF assms(1), of now k']
  by (auto simp: PendingTable_take_def Let_def map_of_delete_eq split: option.splits if_splits)

lemma take_Some:
  assumes "pending_wf t" "fst (PendingTable_take now k t) = Some v"
  shows "\<exists>e. map_of (pt_entries t) k = Some e \<and> pe_verdict e = v \<and> entry_fresh now (pt_ttl t) e"
  using assms(2) expire_lookup [OF assms(1), of now k]
  by (auto simp: PendingTable_take_def Let_def split: option.splits if_splits)

text \<open>At one instant the table is a bounded cache of verdicts.\<close>

definition pending_peek :: "instant \<Rightarrow> pending_table \<Rightarrow> dest_key \<Rightarrow> packet_verdict option" where
  "pending_peek now t k = fst (PendingTable_take now k t)"

lemma pending_peek_eq:
  assumes "pending_wf t"
  shows "pending_peek now t k =
    (case map_of (pt_entries t) k of
       None \<Rightarrow> None
     | Some e \<Rightarrow> if entry_fresh now (pt_ttl t) e then Some (pe_verdict e) else None)"
  by (auto simp: pending_peek_def PendingTable_take_def Let_def expire_lookup [OF assms]
      split: option.splits)

interpretation pending: bounded_cache
  pending_wf pt_capacity "\<lambda>t. length (pt_entries t)" "pending_peek now" "PendingTable_insert now now"
  for now
proof (unfold_locales, goal_cases)
  case (1 s k v)
  then show ?case by (rule insert_wf)
next
  case (2 s)
  then show ?case by (simp add: pending_wf_def)
next
  case (3 s k v)
  then show ?case by simp
next
  case (4 s k v)
  then show ?case
    by (simp add: pending_peek_eq insert_wf insert_lookup_same entry_fresh_def)
next
  case (5 s k' k v)
  then show ?case
    using insert_lookup_other [of s k' k now now v]
    by (auto simp: pending_peek_eq insert_wf split: option.splits)
qed

section \<open>Runs\<close>

datatype pending_op =
    PInsert instant instant dest_key packet_verdict
  | PTake instant dest_key

fun op_key :: "pending_op \<Rightarrow> dest_key" where
  "op_key (PInsert now1 now2 k v) = k"
| "op_key (PTake now k) = k"

fun pending_step :: "pending_op \<Rightarrow> pending_table \<Rightarrow> pending_table" where
  "pending_step (PInsert now1 now2 k v) t = PendingTable_insert now1 now2 k v t"
| "pending_step (PTake now k) t = snd (PendingTable_take now k t)"

definition pending_run :: "pending_op list \<Rightarrow> pending_table \<Rightarrow> pending_table" where
  "pending_run ops t = fold pending_step ops t"

lemma pending_step_wf [wf_intros]: "pending_wf t \<Longrightarrow> pending_wf (pending_step x t)"
  by (cases x) (auto intro: wf_intros)

lemma pending_step_fields [simp]:
  "pt_ttl (pending_step x t) = pt_ttl t" "pt_capacity (pending_step x t) = pt_capacity t"
  by (cases x; simp)+

lemma pending_wf_size: "pending_wf t \<Longrightarrow> length (pt_entries t) \<le> pt_capacity t"
  by (simp add: pending_wf_def)

interpretation pending_ops: bounded_machine
  pending_step pending_wf pt_capacity "\<lambda>t. length (pt_entries t)"
  by unfold_locales (simp_all add: pending_step_wf pending_wf_size)

lemma pending_run_wf: "pending_wf t \<Longrightarrow> pending_wf (pending_run ops t)"
  unfolding pending_run_def by (rule pending_ops.run_wf)

lemma pending_run_fields [simp]:
  "pt_ttl (pending_run ops t) = pt_ttl t" "pt_capacity (pending_run ops t) = pt_capacity t"
  by (induction ops arbitrary: t) (auto simp: pending_run_def)

text \<open>Every entry comes from the last operation of the run on its key, an insertion.\<close>

lemma pending_run_entry:
  assumes "pending_wf t0" "pt_entries t0 = []"
    and "map_of (pt_entries (pending_run ops t0)) k = Some e"
  shows "\<exists>pre n1 post. ops = pre @ PInsert n1 (pe_inserted_at e) k (pe_verdict e) # post \<and>
    (\<forall>x \<in> set post. op_key x \<noteq> k)"
  using assms(3)
proof (induction ops arbitrary: e rule: rev_induct)
  case Nil
  then show ?case by (simp add: pending_run_def assms)
next
  case (snoc x ops)
  let ?t = "pending_run ops t0"
  have wf: "pending_wf ?t" by (rule pending_run_wf [OF assms(1)])
  have step: "map_of (pt_entries (pending_step x ?t)) k = Some e"
    using snoc.prems by (simp add: pending_run_def)
  show ?case
  proof (cases "op_key x = k \<and> (\<exists>n1 n2 v. x = PInsert n1 n2 k v)")
    case True
    then obtain n1 n2 v where x: "x = PInsert n1 n2 k v" by blast
    with step have "e = \<lparr>pe_verdict = v, pe_inserted_at = n2\<rparr>" by (simp add: insert_lookup_same)
    with x show ?thesis by (intro exI [of _ ops] exI [of _ n1] exI [of _ "[]"]) simp
  next
    case False
    then have "op_key x \<noteq> k \<and> map_of (pt_entries ?t) k = Some e"
      using step wf by (cases x) (auto dest: insert_lookup_other [OF _ not_sym] take_lookup)
    with snoc.IH obtain pre n1 post
      where "ops = pre @ PInsert n1 (pe_inserted_at e) k (pe_verdict e) # post"
        "\<forall>y \<in> set (post @ [x]). op_key y \<noteq> k"
      by fastforce
    then show ?thesis by (intro exI [of _ pre] exI [of _ n1] exI [of _ "post @ [x]"]) simp
  qed
qed

section \<open>Properties\<close>

text \<open>
  C12: a verdict taken from the table is never stale, foreign or replayed. Whatever sequence of
  insertions and takes ran before, the verdict was stored for this very destination, at most the
  TTL ago, by an insertion after which nothing else touched the destination.
\<close>

theorem pending_take_sound:
  assumes "PendingTable_new cap ttl = Some t0"
    and "fst (PendingTable_take now k (pending_run ops t0)) = Some v"
  shows "\<exists>pre n1 n2 post. ops = pre @ PInsert n1 n2 k v # post \<and> now - n2 \<le> ttl \<and>
    (\<forall>x \<in> set post. op_key x \<noteq> k)"
proof -
  have t0: "pending_wf t0" "pt_entries t0 = []" "pt_ttl t0 = ttl"
    using assms(1) by (auto simp: PendingTable_new_wf PendingTable_new_def split: if_splits)
  from take_Some [OF pending_run_wf [OF t0(1)] assms(2)] obtain e
    where e: "map_of (pt_entries (pending_run ops t0)) k = Some e" "pe_verdict e = v"
      "entry_fresh now ttl e"
    using t0(3) by auto
  from pending_run_entry [OF t0(1,2) e(1)] e(2,3) show ?thesis
    unfolding entry_fresh_def by blast
qed

text \<open>
  The table stays within its capacity in every run from an empty table, the observation of
  a destination can be taken as long as it is fresh, and a second take finds nothing.
\<close>

theorem pending_bounded_single_use:
  assumes "PendingTable_new cap ttl = Some t0"
  shows "length (pt_entries (pending_run ops t0)) \<le> cap \<and>
    (now - n2 \<le> ttl \<longrightarrow>
       fst (PendingTable_take now k (PendingTable_insert n1 n2 k v (pending_run ops t0))) = Some v) \<and>
    fst (PendingTable_take now' k (snd (PendingTable_take now k (pending_run ops t0)))) = None"
proof -
  have t0: "pending_wf t0" "pt_capacity t0 = cap" "pt_ttl t0 = ttl"
    using assms by (auto simp: PendingTable_new_wf PendingTable_new_def split: if_splits)
  let ?t = "pending_run ops t0"
  have wf: "pending_wf ?t" by (rule pending_run_wf [OF t0(1)])
  have "length (pt_entries ?t) \<le> cap"
    using pending_ops.run_bounded [OF t0(1)] t0 by (simp add: pending_run_def)
  moreover have "now - n2 \<le> ttl \<longrightarrow>
      fst (PendingTable_take now k (PendingTable_insert n1 n2 k v ?t)) = Some v"
    using pending_peek_eq [OF insert_wf [OF wf, of n1 n2 k v], of now k] t0
    by (simp add: pending_peek_def insert_lookup_same entry_fresh_def)
  moreover have "fst (PendingTable_take now' k (snd (PendingTable_take now k ?t))) = None"
    using pending_peek_eq [OF take_wf [OF wf, of now k], of now' k]
      take_lookup [OF wf, of now k k]
    by (auto simp: pending_peek_def split: option.splits)
  ultimately show ?thesis by blast
qed

definition dest_local :: "u16 \<Rightarrow> dest_key" where
  "dest_local p = \<lparr>dk_ipv4 = 0x7F000001, dk_port = p\<rparr>"

definition pending_two :: pending_table where
  "pending_two = \<lparr>pt_capacity = 2, pt_ttl = 5, pt_entries = [], pt_order = []\<rparr>"

lemmas pending_eval = pending_two_def dest_local_def PendingTable_new_def PendingTable_insert_def
  PendingTable_take_def PendingTable_expire_def pending_run_def

theorem pending_take_sound_witness:
  "fst (PendingTable_take 7 (dest_local 443) (pending_run
      [PInsert 1 1 (dest_local 80) Drop, PInsert 2 3 (dest_local 443) Accept] pending_two)) = Some Accept \<and>
   (\<exists>pre n1 n2 post. [PInsert 1 1 (dest_local 80) Drop, PInsert 2 3 (dest_local 443) Accept] =
      pre @ PInsert n1 n2 (dest_local 443) Accept # post \<and> 7 - n2 \<le> 5 \<and>
      (\<forall>x \<in> set post. op_key x \<noteq> dest_local 443))"
proof -
  have new: "PendingTable_new 2 5 = Some pending_two" by (simp add: pending_eval)
  have tk: "fst (PendingTable_take 7 (dest_local 443) (pending_run
      [PInsert 1 1 (dest_local 80) Drop, PInsert 2 3 (dest_local 443) Accept] pending_two)) = Some Accept"
    by (simp add: pending_eval)
  from pending_take_sound [OF new tk] tk show ?thesis by blast
qed

theorem pending_bounded_single_use_witness:
  "length (pt_entries (pending_run [PInsert 1 1 (dest_local 1) Drop, PInsert 2 2 (dest_local 2) Drop,
      PInsert 3 3 (dest_local 3) Accept] pending_two)) \<le> 2 \<and>
   fst (PendingTable_take 9 (dest_local 9) (PendingTable_insert 6 6 (dest_local 9) Accept
     (pending_run [] pending_two))) = Some Accept"
proof -
  have new: "PendingTable_new 2 5 = Some pending_two" by (simp add: pending_eval)
  show ?thesis
    using pending_bounded_single_use [OF new] by (simp add: diff_le_self)
qed

end
