(* ===== verification/Packet.thy ===== *)
theory Packet
  imports Ebpf Pending
begin

unbundle bit_operations_syntax

text \<open>
  \<open>interfire-daemon/src/packet.rs\<close>: the destination of a queued packet. The theory also relates
  the two byte-order conventions that meet in the pending table: the key of an observed connect
  and the key of its packet.
\<close>

definition IPPROTO_TCP :: u8 where
  "IPPROTO_TCP = 6"

definition tcp_destination :: "u8 list \<Rightarrow> dest_key option" where
  "tcp_destination payload =
     (if length payload < 20 then None
      else
        let version_ihl = payload ! 0
        in if drop_bit 4 version_ihl \<noteq> 4 then None
        else
          let ihl = unat (version_ihl AND 0x0F) * 4
          in if ihl < 20 \<or> length payload < ihl + 4 then None
          else if payload ! 9 \<noteq> IPPROTO_TCP then None
          else Some \<lparr>dk_ipv4 = from_be_bytes (take 4 (drop 16 payload)),
                     dk_port = from_be_bytes (take 2 (drop (ihl + 2) payload))\<rparr>)"

text \<open>The key under which the daemon files a connect event (\<open>policy::decide\<close>).\<close>

definition event_key :: "tcp_connect_event \<Rightarrow> dest_key" where
  "event_key e = \<lparr>dk_ipv4 = ev_destination_ipv4 e, dk_port = ev_destination_port e\<rparr>"

text \<open>
  An IPv4 header without options: version and length byte, eight bytes, the protocol, six bytes,
  the destination; then the TCP ports.
\<close>

definition tcp_packet :: "u8 list \<Rightarrow> u8 list \<Rightarrow> u8 list \<Rightarrow> u8 list \<Rightarrow> u8 list \<Rightarrow> u8 list \<Rightarrow> u8 list" where
  "tcp_packet h1 h2 dest src_port dst_port rest =
     [0x45] @ h1 @ [IPPROTO_TCP] @ h2 @ dest @ src_port @ dst_port @ rest"

lemma tcp_packet_destination:
  assumes "length h1 = 8" "length h2 = 6" "length dest = 4" "length src_port = 2" "length dst_port = 2"
  shows "tcp_destination (tcp_packet h1 h2 dest src_port dst_port rest) =
    Some \<lparr>dk_ipv4 = from_be_bytes dest, dk_port = from_be_bytes dst_port\<rparr>"
proof -
  have nth9: "tcp_packet h1 h2 dest src_port dst_port rest ! 9 = IPPROTO_TCP"
    using assms by (simp add: tcp_packet_def nth_append)
  have nth0: "tcp_packet h1 h2 dest src_port dst_port rest ! 0 = 0x45" by (simp add: tcp_packet_def)
  have ihl: "unat ((0x45 :: u8) AND 0x0F) * 4 = 20" by simp
  have ver: "drop_bit 4 (0x45 :: u8) = 4" by simp
  have "take 4 (drop 16 (tcp_packet h1 h2 dest src_port dst_port rest)) = dest"
    "take 2 (drop 22 (tcp_packet h1 h2 dest src_port dst_port rest)) = dst_port"
    "\<not> length (tcp_packet h1 h2 dest src_port dst_port rest) < 24"
    using assms by (simp_all add: tcp_packet_def)
  then show ?thesis
    by (simp add: tcp_destination_def Let_def nth0 nth9 ihl ver)
qed

text \<open>The event of a connect to \<open>dest\<close> (four bytes in network order) and \<open>port\<close>.\<close>

definition connect_event :: "u64 \<Rightarrow> u8 list \<Rightarrow> u8 list \<Rightarrow> tcp_connect_event option" where
  "connect_event pid_tgid dest port =
     snd (interfire_tcp_connect (Some ())
       (\<lambda>_. Some \<lparr>sin_family = AF_INET, sin_port = from_ne_bytes port, sin_addr = from_ne_bytes dest\<rparr>)
       pid_tgid True)"

lemma connect_event_fields:
  assumes "length dest = 4" "length port = 2"
  shows "connect_event pid_tgid dest port =
    Some \<lparr>ev_pid = ucast (drop_bit 32 pid_tgid), ev_process_start_ticks = 0,
      ev_destination_ipv4 = from_be_bytes dest, ev_destination_port = from_be_bytes port,
      ev_reserved = 0\<rparr>"
  using assms
  by (simp add: connect_event_def interfire_tcp_connect_def try_tcp_connect_def Let_def
      u32_from_be_bytes u16_from_be_bytes)

section \<open>Properties\<close>


text \<open>
  The join between observation and enforcement is right. The probe's event for a connect and
  the queued packet of that connect (same destination bytes, same port bytes) have the same key
  in the pending table.
\<close>

theorem packet_joins_its_event:
  assumes "length dest = 4" "length port = 2"
    and "length h1 = 8" "length h2 = 6" "length src_port = 2"
  shows "\<exists>e. connect_event pid_tgid dest port = Some e \<and>
    tcp_destination (tcp_packet h1 h2 dest src_port port rest) = Some (event_key e)"
  using assms by (simp add: connect_event_fields tcp_packet_destination event_key_def)

text \<open>
  The octets that userspace derives from the probe's event are the destination's octets in
  reverse order: the probe converts the address to a host-order integer, while
  \<open>destination_octets\<close> takes its native bytes.
\<close>

theorem destination_octets_reversed:
  assumes "length dest = 4" "length port = 2"
  shows "\<exists>e. connect_event pid_tgid dest port = Some e \<and> destination_octets e = rev dest"
  using assms by (simp add: connect_event_fields destination_octets_def to_ne_from_be)

theorem packet_joins_its_event_witness:
  "\<exists>e. connect_event 0x2A00000000 [127, 0, 0, 1] [1, 187] = Some e \<and>
     tcp_destination (tcp_packet (replicate 8 0) (replicate 6 0) [127, 0, 0, 1] [0, 0] [1, 187] []) =
       Some (event_key e)"
  by (rule packet_joins_its_event) simp_all

theorem destination_octets_reversed_witness:
  "\<exists>e. connect_event 0x2A00000000 [127, 0, 0, 1] [1, 187] = Some e \<and>
     destination_octets e = [1, 0, 0, 127]"
  using destination_octets_reversed [of "[127, 0, 0, 1]" "[1, 187]"] by simp

end
