(* ===== verification/Rules.thy ===== *)
theory Rules
  imports Fs "HOL-Library.Product_Lexorder"
begin

text \<open>
  The crate \<open>interfire-rules\<close>: application rules, their matching and precedence, the rule set
  with its validated insertion, and the TOML store with its atomic replacement. The TOML
  serialiser and parser of the third-party crate \<open>toml\<close> are the parameters \<open>to_toml\<close> and
  \<open>from_toml\<close>; the round trip of a document is a hypothesis where it is needed.
\<close>

section \<open>Data\<close>

datatype protocol = Tcp | Udp

datatype direction = Outbound | Inbound

datatype verdict = Allow | Deny | Prompt

datatype scope = Once | Session | Permanent

datatype ip_addr = V4 octets | V6 "128 word"

text \<open>\<open>Protocol\<close> and \<open>Direction\<close> derive \<open>Ord\<close>: variants are ordered as they are declared.\<close>

instantiation protocol :: linorder
begin

definition less_eq_protocol :: "protocol \<Rightarrow> protocol \<Rightarrow> bool" where
  "p \<le> q \<longleftrightarrow> p = Tcp \<or> q = Udp"

definition less_protocol :: "protocol \<Rightarrow> protocol \<Rightarrow> bool" where
  "p < q \<longleftrightarrow> p = Tcp \<and> q = Udp"

instance
proof
  fix p q r :: protocol
  show "p < q \<longleftrightarrow> p \<le> q \<and> \<not> q \<le> p"
    by (cases p; cases q) (simp_all add: less_eq_protocol_def less_protocol_def)
  show "p \<le> p" by (cases p) (simp_all add: less_eq_protocol_def)
  show "p \<le> r" if "p \<le> q" "q \<le> r" using that by (cases q) (auto simp: less_eq_protocol_def)
  show "p = q" if "p \<le> q" "q \<le> p" using that by (auto simp: less_eq_protocol_def)
  show "p \<le> q \<or> q \<le> p" by (cases p; cases q) (simp_all add: less_eq_protocol_def)
qed

end

instantiation direction :: linorder
begin

definition less_eq_direction :: "direction \<Rightarrow> direction \<Rightarrow> bool" where
  "d \<le> e \<longleftrightarrow> d = Outbound \<or> e = Inbound"

definition less_direction :: "direction \<Rightarrow> direction \<Rightarrow> bool" where
  "d < e \<longleftrightarrow> d = Outbound \<and> e = Inbound"

instance
proof
  fix d e f :: direction
  show "d < e \<longleftrightarrow> d \<le> e \<and> \<not> e \<le> d"
    by (cases d; cases e) (simp_all add: less_eq_direction_def less_direction_def)
  show "d \<le> d" by (cases d) (simp_all add: less_eq_direction_def)
  show "d \<le> f" if "d \<le> e" "e \<le> f" using that by (cases e) (auto simp: less_eq_direction_def)
  show "d = e" if "d \<le> e" "e \<le> d" using that by (auto simp: less_eq_direction_def)
  show "d \<le> e \<or> e \<le> d" by (cases d; cases e) (simp_all add: less_eq_direction_def)
qed

end

record connection =
  conn_executable :: string
  conn_protocol :: protocol
  conn_direction :: direction
  conn_address :: ip_addr
  conn_hostname :: "string option"
  conn_port :: u16

record rule =
  rule_id :: u64
  rule_executable :: string
  rule_protocol :: "protocol option"
  rule_direction :: "direction option"
  rule_address :: "ip_addr option"
  rule_hostname :: "string option"
  rule_port :: "u16 option"
  rule_verdict :: verdict
  rule_scope :: scope

datatype rule_error = DuplicateId u64 | ExecutableMustBeAbsolute

record rule_set =
  rs_rules :: "rule list"

section \<open>Matching and precedence\<close>

fun is_none_or :: "('a \<Rightarrow> bool) \<Rightarrow> 'a option \<Rightarrow> bool" where
  "is_none_or P None = True"
| "is_none_or P (Some x) = P x"

fun is_some_and :: "('a \<Rightarrow> bool) \<Rightarrow> 'a option \<Rightarrow> bool" where
  "is_some_and P None = False"
| "is_some_and P (Some x) = P x"

definition Rule_matches :: "rule \<Rightarrow> connection \<Rightarrow> bool" where
  "Rule_matches r c \<longleftrightarrow>
     rule_executable r = conn_executable c
     \<and> is_none_or (\<lambda>v. v = conn_protocol c) (rule_protocol r)
     \<and> is_none_or (\<lambda>v. v = conn_direction c) (rule_direction r)
     \<and> is_none_or (\<lambda>v. v = conn_address c) (rule_address r)
     \<and> is_none_or (\<lambda>v. v = conn_port c) (rule_port r)
     \<and> is_none_or (\<lambda>name. is_some_and (\<lambda>host. host = name) (conn_hostname c)) (rule_hostname r)"

definition is_some :: "'a option \<Rightarrow> bool" where
  "is_some x \<longleftrightarrow> x \<noteq> None"

definition Rule_precedence :: "rule \<Rightarrow> u8 \<times> u64" where
  "Rule_precedence r =
     (let constrained = length (filter (\<lambda>v. v)
            [is_some (rule_protocol r), is_some (rule_direction r), is_some (rule_address r),
             is_some (rule_hostname r), is_some (rule_port r)])
      in (if constrained < 256 then word_of_nat constrained else 255, rule_id r))"

text \<open>\<open>Iterator::max_by_key\<close>: the last of the elements with the greatest key.\<close>

fun max_by_key_from :: "('a \<Rightarrow> 'k::linorder) \<Rightarrow> 'a \<Rightarrow> 'a list \<Rightarrow> 'a" where
  "max_by_key_from f best [] = best"
| "max_by_key_from f best (x # xs) = max_by_key_from f (if f x < f best then best else x) xs"

definition max_by_key :: "('a \<Rightarrow> 'k::linorder) \<Rightarrow> 'a list \<Rightarrow> 'a option" where
  "max_by_key f xs = (case xs of [] \<Rightarrow> None | x # ys \<Rightarrow> Some (max_by_key_from f x ys))"

section \<open>The rule set\<close>

definition RuleSet_default :: rule_set where
  "RuleSet_default = \<lparr>rs_rules = []\<rparr>"

definition RuleSet_insert :: "rule \<Rightarrow> rule_set \<Rightarrow> rule_error + rule_set" where
  "RuleSet_insert r rs =
     (if rule_executable r = [] \<or> \<not> starts_with ''/'' (rule_executable r) then
        Inl ExecutableMustBeAbsolute
      else if \<exists>e \<in> set (rs_rules rs). rule_id e = rule_id r then Inl (DuplicateId (rule_id r))
      else Inr (rs\<lparr>rs_rules := rs_rules rs @ [r]\<rparr>))"

definition RuleSet_remove :: "u64 \<Rightarrow> rule_set \<Rightarrow> bool \<times> rule_set" where
  "RuleSet_remove i rs =
     (let kept = filter (\<lambda>r. rule_id r \<noteq> i) (rs_rules rs)
      in (length (rs_rules rs) \<noteq> length kept, rs\<lparr>rs_rules := kept\<rparr>))"

definition RuleSet_verdict_for :: "rule_set \<Rightarrow> connection \<Rightarrow> verdict" where
  "RuleSet_verdict_for rs c =
     (case max_by_key Rule_precedence (filter (\<lambda>r. Rule_matches r c) (rs_rules rs)) of
        None \<Rightarrow> Prompt
      | Some r \<Rightarrow> rule_verdict r)"

section \<open>The store\<close>

record rules_document =
  doc_schema_version :: u32
  doc_rules :: "rule list"

datatype persistence_error =
    PIo io_error
  | PParse
  | PSerialize
  | UnsupportedSchema u32
  | InvalidRule rule_error

definition SCHEMA_VERSION :: u32 where
  "SCHEMA_VERSION = 1"

fun insert_all :: "rule list \<Rightarrow> rule_set \<Rightarrow> persistence_error + rule_set" where
  "insert_all [] rs = Inr rs"
| "insert_all (r # rest) rs =
     (case RuleSet_insert r rs of Inl e \<Rightarrow> Inl (InvalidRule e) | Inr rs' \<Rightarrow> insert_all rest rs')"

definition RulesStore_load ::
    "(string \<Rightarrow> rules_document option) \<Rightarrow> path \<Rightarrow> fs \<Rightarrow> persistence_error + rule_set" where
  "RulesStore_load from_toml p s =
     (if \<not> path_exists s p then Inr RuleSet_default
      else case fs_read_to_string p s of
             Inl e \<Rightarrow> Inl (PIo e)
           | Inr text \<Rightarrow>
               (case from_toml text of
                  None \<Rightarrow> Inl PParse
                | Some doc \<Rightarrow>
                    if doc_schema_version doc \<noteq> SCHEMA_VERSION
                    then Inl (UnsupportedSchema (doc_schema_version doc))
                    else insert_all (doc_rules doc) RuleSet_default))"

definition mode_0600 :: nat where
  "mode_0600 = 0x180"

definition rules_temporary :: "nat \<Rightarrow> path \<Rightarrow> path" where
  "rules_temporary pid parent = path_join parent (''.rules-'' @ show_nat pid @ ''.tmp'')"

definition rules_to_document :: "rule_set \<Rightarrow> rules_document" where
  "rules_to_document rs = \<lparr>doc_schema_version = SCHEMA_VERSION, doc_rules = rs_rules rs\<rparr>"

text \<open>The filesystem part of \<open>save\<close>, from \<open>create_dir_all\<close> on.\<close>

definition replace_file :: "path \<Rightarrow> path \<Rightarrow> path \<Rightarrow> string \<Rightarrow> fs \<Rightarrow> unit io" where
  "replace_file parent temporary p data s =
     io_then (fs_create_dir_all parent s) (\<lambda>_ s.
     io_then (fs_open_new temporary mode_0600 s) (\<lambda>_ s.
     io_then (fs_write_all temporary data s) (\<lambda>_ s.
     io_then (fs_sync_all temporary s) (\<lambda>_ s.
     io_then (fs_rename temporary p s) (\<lambda>_ s.
     fs_set_permissions p mode_0600 s)))))"

definition RulesStore_save ::
    "(rules_document \<Rightarrow> string option) \<Rightarrow> nat \<Rightarrow> path \<Rightarrow> rule_set \<Rightarrow> fs
       \<Rightarrow> (persistence_error + unit) \<times> fs" where
  "RulesStore_save to_toml pid p rs s =
     (case to_toml (rules_to_document rs) of
        None \<Rightarrow> (Inl PSerialize, s)
      | Some data \<Rightarrow>
          (case path_parent p of
             None \<Rightarrow> (Inl (PIo (OtherError ''rules path has no parent'')), s)
           | Some parent \<Rightarrow>
               (case replace_file parent (rules_temporary pid parent) p data s of
                  (Inl e, s') \<Rightarrow> (Inl (PIo e), s')
                | (Inr _, s') \<Rightarrow> (Inr (), s'))))"

section \<open>Matching: the greatest precedence decides\<close>

lemma max_by_key_from_in: "max_by_key_from f b xs \<in> insert b (set xs)"
  by (induction xs arbitrary: b) (auto split: if_splits)

lemma max_by_key_from_ge: "x \<in> insert b (set xs) \<Longrightarrow> f x \<le> f (max_by_key_from f b xs)"
proof (induction xs arbitrary: b x)
  case (Cons y ys)
  let ?b = "if f y < f b then b else y"
  have "f ?b \<le> f (max_by_key_from f ?b ys)" using Cons.IH by blast
  then show ?case
    using Cons.IH [of x ?b] Cons.prems by (auto split: if_splits intro: order_trans)
qed simp

lemma max_by_key_Some:
  assumes "max_by_key f xs = Some x"
  shows "x \<in> set xs" "\<And>y. y \<in> set xs \<Longrightarrow> f y \<le> f x"
  using assms max_by_key_from_in [of f] max_by_key_from_ge [of _ _ _ f]
  by (auto simp: max_by_key_def split: list.splits)

lemma max_by_key_None [simp]: "max_by_key f xs = None \<longleftrightarrow> xs = []"
  by (simp add: max_by_key_def split: list.splits)

lemma max_by_key_Nil [simp]: "max_by_key f [] = None"
  by simp

lemma Rule_precedence_id: "snd (Rule_precedence r) = rule_id r"
  by (simp add: Rule_precedence_def Let_def)

definition rules_wf :: "rule_set \<Rightarrow> bool" where
  "rules_wf rs \<longleftrightarrow> distinct (map rule_id (rs_rules rs)) \<and>
     (\<forall>r \<in> set (rs_rules rs). starts_with ''/'' (rule_executable r))"

lemma rules_wf_default: "rules_wf RuleSet_default"
  by (simp add: rules_wf_def RuleSet_default_def)

lemma RuleSet_insert_wf [wf_intros]:
  "rules_wf rs \<Longrightarrow> RuleSet_insert r rs = Inr rs' \<Longrightarrow> rules_wf rs'"
  by (fastforce simp: rules_wf_def RuleSet_insert_def split: if_splits)

lemma RuleSet_remove_wf [wf_intros]: "rules_wf rs \<Longrightarrow> rules_wf (snd (RuleSet_remove i rs))"
  by (auto simp: rules_wf_def RuleSet_remove_def Let_def intro: distinct_map_filter)

lemma insert_all_wf: "rules_wf rs \<Longrightarrow> insert_all xs rs = Inr rs' \<Longrightarrow> rules_wf rs'"
  by (induction xs arbitrary: rs) (auto split: sum.splits intro: RuleSet_insert_wf)

lemma rule_set_eqI: "rs_rules a = rs_rules b \<Longrightarrow> a = (b :: rule_set)"
  by simp

lemma insert_all_append:
  assumes "rules_wf (rs\<lparr>rs_rules := rs_rules rs @ xs\<rparr>)"
  shows "insert_all xs rs = Inr (rs\<lparr>rs_rules := rs_rules rs @ xs\<rparr>)"
  using assms
proof (induction xs arbitrary: rs)
  case (Cons r xs)
  let ?rs = "rs\<lparr>rs_rules := rs_rules rs @ [r]\<rparr>"
  have "rule_executable r \<noteq> []" "starts_with ''/'' (rule_executable r)"
    using Cons.prems by (auto simp: rules_wf_def starts_with_def)
  moreover have "\<forall>e \<in> set (rs_rules rs). rule_id e \<noteq> rule_id r"
  proof -
    have "rule_id r \<notin> rule_id ` set (rs_rules rs)" using Cons.prems by (auto simp: rules_wf_def)
    then show ?thesis by (metis imageI)
  qed
  ultimately have "RuleSet_insert r rs = Inr ?rs"
    by (auto simp: RuleSet_insert_def)
  moreover have "insert_all xs ?rs = Inr (?rs\<lparr>rs_rules := rs_rules ?rs @ xs\<rparr>)"
    by (rule Cons.IH) (use Cons.prems in simp)
  ultimately show ?case by simp
qed simp

text \<open>A rule set that went through \<open>insert\<close> is rebuilt from its rules as it was.\<close>

lemma insert_all_rebuild: "rules_wf rs \<Longrightarrow> insert_all (rs_rules rs) RuleSet_default = Inr rs"
  using insert_all_append [of RuleSet_default "rs_rules rs"]
  by (cases rs) (simp add: RuleSet_default_def)

lemma verdict_for_decided:
  assumes "r \<in> set (rs_rules rs)" "Rule_matches r c"
    and "\<And>r'. r' \<in> set (rs_rules rs) \<Longrightarrow> Rule_matches r' c \<Longrightarrow> r' \<noteq> r \<Longrightarrow>
           Rule_precedence r' < Rule_precedence r"
  shows "RuleSet_verdict_for rs c = rule_verdict r"
proof -
  let ?ms = "filter (\<lambda>r. Rule_matches r c) (rs_rules rs)"
  obtain m where m: "max_by_key Rule_precedence ?ms = Some m"
    using assms(1,2) by (cases "max_by_key Rule_precedence ?ms") (auto simp: filter_empty_conv)
  have "m \<in> set ?ms" "Rule_precedence r \<le> Rule_precedence m"
    using max_by_key_Some [OF m] assms(1,2) by auto
  then have "m = r" using assms(3) [of m] leD by fastforce
  with m show ?thesis by (simp add: RuleSet_verdict_for_def)
qed

lemma verdict_for_cases:
  obtains (unmatched) "\<And>r. r \<in> set (rs_rules rs) \<Longrightarrow> \<not> Rule_matches r c"
      "RuleSet_verdict_for rs c = Prompt"
  | (matched) r where "r \<in> set (rs_rules rs)" "Rule_matches r c"
      "\<And>r'. r' \<in> set (rs_rules rs) \<Longrightarrow> Rule_matches r' c \<Longrightarrow> Rule_precedence r' \<le> Rule_precedence r"
      "RuleSet_verdict_for rs c = rule_verdict r"
proof (cases "max_by_key Rule_precedence (filter (\<lambda>r. Rule_matches r c) (rs_rules rs))")
  case None
  then show ?thesis by (intro unmatched) (auto simp: RuleSet_verdict_for_def filter_empty_conv)
next
  case (Some r)
  from max_by_key_Some [OF Some] show ?thesis
    by (intro matched [of r]) (auto simp: RuleSet_verdict_for_def Some)
qed

section \<open>Properties\<close>


text \<open>
  Matching is deterministic in the sense of the crate: two rule sets with the same rules in
  any order give the same verdict for every connection.
\<close>

theorem verdict_for_order_independent:
  assumes "rules_wf a" and "rules_wf b" and "set (rs_rules a) = set (rs_rules b)"
  shows "RuleSet_verdict_for a c = RuleSet_verdict_for b c"
proof (cases a c rule: verdict_for_cases)
  case unmatched
  then show ?thesis using assms(3) by (cases b c rule: verdict_for_cases) auto
next
  case (matched r)
  have inj: "inj_on rule_id (set (rs_rules b))"
    using assms by (simp add: rules_wf_def distinct_map)
  have "RuleSet_verdict_for b c = rule_verdict r"
  proof (rule verdict_for_decided)
    fix r' assume r': "r' \<in> set (rs_rules b)" "Rule_matches r' c" "r' \<noteq> r"
    then have "rule_id r' \<noteq> rule_id r" using inj matched assms by (auto dest: inj_onD)
    then have "Rule_precedence r' \<noteq> Rule_precedence r" by (metis Rule_precedence_id)
    with r' matched(3) [of r'] assms(3) show "Rule_precedence r' < Rule_precedence r"
      by (simp add: order_less_le)
  qed (use matched assms(3) in auto)
  then show ?thesis by (simp add: matched)
qed

definition rule_any :: "u64 \<Rightarrow> verdict \<Rightarrow> u16 option \<Rightarrow> rule" where
  "rule_any i v port = \<lparr>rule_id = i, rule_executable = ''/usr/bin/curl'', rule_protocol = None,
     rule_direction = Some Outbound, rule_address = None, rule_hostname = None, rule_port = port,
     rule_verdict = v, rule_scope = Permanent\<rparr>"

definition conn_curl :: connection where
  "conn_curl = \<lparr>conn_executable = ''/usr/bin/curl'', conn_protocol = Tcp,
     conn_direction = Outbound, conn_address = V4 (203, 0, 113, 42),
     conn_hostname = Some ''example.test'', conn_port = 443\<rparr>"

lemmas rule_eval = rule_any_def conn_curl_def Rule_matches_def Rule_precedence_def is_some_def
  rules_wf_def starts_with_def RuleSet_verdict_for_def max_by_key_def


theorem verdict_for_order_independent_witness:
  "RuleSet_verdict_for \<lparr>rs_rules = [rule_any 1 Deny None, rule_any 2 Allow (Some 443)]\<rparr> conn_curl
   = RuleSet_verdict_for \<lparr>rs_rules = [rule_any 2 Allow (Some 443), rule_any 1 Deny None]\<rparr> conn_curl"
  by (rule verdict_for_order_independent) (auto simp: rule_eval)

section \<open>Properties of the store\<close>

lemma replace_file_ok:
  assumes "no_faults s" "\<not> path_exists s t" "t \<noteq> p"
  shows "\<exists>s'. replace_file d t p data s = (Inr (), s') \<and> map_of (files s') p = Some data \<and>
    map_of (files s') t = None \<and> map_of (modes s') p = Some mode_0600 \<and> no_faults s'"
  using assms
  by (simp add: replace_file_def fs_defs no_faults_def hm_simps)

lemma replace_file_failed:
  assumes "replace_file d t p data s = (Inl e, s')" "t \<noteq> p"
  shows "map_of (files s') p = map_of (files s) p \<or>
    fails s (SetPermissions p) \<and> map_of (files s') p = Some data"
  using assms
  by (auto simp: replace_file_def fs_defs hm_simps split: if_splits)

lemma replace_file_rename_fails:
  assumes "fails s (RenameTo t p)" "\<not> path_exists s t" "t \<noteq> p"
    and "\<not> fails s (CreateDirAll d)" "\<not> fails s (OpenNew t)" "\<not> fails s (WriteAll t)"
      "\<not> fails s (SyncAll t)"
  shows "\<exists>s'. replace_file d t p data s = (Inl io_fault, s') \<and> path_exists s' t"
  using assms by (simp add: replace_file_def fs_defs hm_simps)

text \<open>
  When nothing fails, saving a rule set and loading it again gives the same rule set, the
  file has mode 0600 and no temporary file is left. The TOML crate is assumed to read back the
  document it wrote, and to write it as UTF-8 (its result is a Rust \<open>String\<close>).
\<close>

theorem rules_store_round_trip:
  assumes "no_faults s" "path_parent p = Some d"
    and "\<not> path_exists s (rules_temporary pid d)" "rules_temporary pid d \<noteq> p"
    and "to_toml (rules_to_document rs) = Some data"
    and "from_toml data = Some (rules_to_document rs)"
    and "rules_wf rs" "utf8_valid data"
  shows "\<exists>s'. RulesStore_save to_toml pid p rs s = (Inr (), s') \<and>
    RulesStore_load from_toml p s' = Inr rs \<and> map_of (modes s') p = Some mode_0600 \<and>
    \<not> path_exists s' (rules_temporary pid d)"
proof -
  obtain s' where s': "replace_file d (rules_temporary pid d) p data s = (Inr (), s')"
      "map_of (files s') p = Some data" "map_of (files s') (rules_temporary pid d) = None"
      "map_of (modes s') p = Some mode_0600" "no_faults s'"
    using replace_file_ok [OF assms(1,3,4)] by blast
  have "RulesStore_load from_toml p s' = Inr rs"
    using s' assms(6,8) insert_all_rebuild [OF assms(7)]
    by (simp add: RulesStore_load_def path_exists_def fs_read_to_string_def no_faults_def
        rules_to_document_def)
  with s' assms(2,5) show ?thesis by (simp add: RulesStore_save_def path_exists_def)
qed

text \<open>
  A failed save never leaves a damaged rules file. Either the file is what it was, or the
  only failure was the final permission change and the file holds the whole new document.
\<close>

theorem rules_store_save_atomic:
  assumes "RulesStore_save to_toml pid p rs s = (Inl e, s')"
    and "\<And>d. path_parent p = Some d \<Longrightarrow> rules_temporary pid d \<noteq> p"
  shows "map_of (files s') p = map_of (files s) p \<or>
    fails s (SetPermissions p) \<and> map_of (files s') p = to_toml (rules_to_document rs)"
  using assms
  by (auto simp: RulesStore_save_def split: option.splits prod.splits sum.splits
      dest!: replace_file_failed)

text \<open>
  After one failed rename the temporary file stays behind, and because it is opened with
  \<open>create_new\<close> every later save of the same process fails, even on a healthy filesystem.
\<close>

theorem rules_store_stuck_after_failed_rename:
  assumes "path_parent p = Some d" "rules_temporary pid d \<noteq> p"
    and "fails s (RenameTo (rules_temporary pid d) p)" "\<not> path_exists s (rules_temporary pid d)"
    and "\<not> fails s (CreateDirAll d)" "\<not> fails s (OpenNew (rules_temporary pid d))"
      "\<not> fails s (WriteAll (rules_temporary pid d))" "\<not> fails s (SyncAll (rules_temporary pid d))"
    and "to_toml (rules_to_document rs) = Some data" "to_toml (rules_to_document rsn) = Some newdata"
  shows "\<exists>s1. RulesStore_save to_toml pid p rs s = (Inl (PIo io_fault), s1) \<and>
    RulesStore_save to_toml pid p rsn (s1\<lparr>fails := \<lambda>_. False\<rparr>) =
      (Inl (PIo AlreadyExists), s1\<lparr>fails := \<lambda>_. False\<rparr>)"
proof -
  obtain s1 where s1: "replace_file d (rules_temporary pid d) p data s = (Inl io_fault, s1)"
      "path_exists s1 (rules_temporary pid d)"
    using replace_file_rename_fails [OF assms(3,4,2,5,6,7,8)] by blast
  have "replace_file d (rules_temporary pid d) p newdata (s1\<lparr>fails := \<lambda>_. False\<rparr>) =
      (Inl AlreadyExists, s1\<lparr>fails := \<lambda>_. False\<rparr>)"
    using s1(2) by (simp add: replace_file_def fs_defs)
  with s1 assms(1,9,10) show ?thesis by (simp add: RulesStore_save_def)
qed

text \<open>A store under \<open>/etc\<close> with a stand-in serialiser that reads back what it wrote.\<close>

definition toml_one :: "rules_document \<Rightarrow> string option" where
  "toml_one doc = Some ''doc''"

definition fs_empty :: "(fs_op \<Rightarrow> bool) \<Rightarrow> fs" where
  "fs_empty f = \<lparr>files = [], modes = [], fails = f\<rparr>"

lemmas store_eval = path_parent_def rsplit_once_def rules_temporary_def path_join_def
  toml_one_def fs_empty_def path_exists_def no_faults_def show_nat.simps

theorem rules_store_round_trip_witness:
  "\<exists>s'. RulesStore_save toml_one 7 ''/etc/r'' \<lparr>rs_rules = [rule_any 1 Deny None]\<rparr>
      (fs_empty (\<lambda>_. False)) = (Inr (), s') \<and>
    RulesStore_load (\<lambda>_. Some (rules_to_document \<lparr>rs_rules = [rule_any 1 Deny None]\<rparr>))
      ''/etc/r'' s' = Inr \<lparr>rs_rules = [rule_any 1 Deny None]\<rparr>"
  using rules_store_round_trip [of "fs_empty (\<lambda>_. False)" "''/etc/r''" "''/etc''" 7 toml_one
      "\<lparr>rs_rules = [rule_any 1 Deny None]\<rparr>" "''doc''"
      "\<lambda>_. Some (rules_to_document \<lparr>rs_rules = [rule_any 1 Deny None]\<rparr>)"]
  by (force simp: store_eval rules_wf_def rule_any_def starts_with_def digit_char_def
      intro!: utf8_valid_ascii)

theorem rules_store_save_atomic_witness:
  "fst (RulesStore_save toml_one 7 ''/etc/r'' RuleSet_default (fs_empty (\<lambda>_. True)))
     = Inl (PIo io_fault) \<and>
   (map_of (files (snd (RulesStore_save toml_one 7 ''/etc/r'' RuleSet_default
      (fs_empty (\<lambda>_. True))))) ''/etc/r'' = None \<or>
    map_of (files (snd (RulesStore_save toml_one 7 ''/etc/r'' RuleSet_default
      (fs_empty (\<lambda>_. True))))) ''/etc/r'' = Some ''doc'')"
proof -
  let ?r = "RulesStore_save toml_one 7 ''/etc/r'' RuleSet_default (fs_empty (\<lambda>_. True))"
  have eq: "?r = (Inl (PIo io_fault), snd ?r)"
    by (simp add: RulesStore_save_def replace_file_def fs_defs store_eval)
  have neq: "rules_temporary 7 d \<noteq> ''/etc/r''" if "path_parent ''/etc/r'' = Some d" for d
    using that by (auto simp: store_eval digit_char_def)
  have "fst ?r = Inl (PIo io_fault)" by (metis eq fst_conv)
  then show ?thesis
    using rules_store_save_atomic [OF eq neq] by (auto simp: fs_empty_def toml_one_def)
qed

theorem rules_store_stuck_after_failed_rename_witness:
  "\<exists>s1. RulesStore_save toml_one 7 ''/etc/r'' RuleSet_default
      (fs_empty (\<lambda>x. case x of RenameTo _ _ \<Rightarrow> True | _ \<Rightarrow> False)) = (Inl (PIo io_fault), s1) \<and>
    RulesStore_save toml_one 7 ''/etc/r'' RuleSet_default (s1\<lparr>fails := \<lambda>_. False\<rparr>) =
      (Inl (PIo AlreadyExists), s1\<lparr>fails := \<lambda>_. False\<rparr>)"
  by (rule rules_store_stuck_after_failed_rename [where d = "''/etc''" and data = "''doc''"
        and newdata = "''doc''"])
    (auto simp: store_eval digit_char_def)

end
