(* ===== verification/Prompts.thy ===== *)
theory Prompts
  imports Rules
begin

text \<open>
  \<open>interfire-daemon/src/prompts.rs\<close>: the prompt queue. A connection without a matching rule gets
  one pending prompt per (executable, address, port); an operator answers it once, or it expires;
  an answer with scope \<open>once\<close> leaves a single-use token that the policy engine consumes.
  Operations receive the clock readings they make, in order.
\<close>

section \<open>Data\<close>

datatype rule_scope = RsOnce | RsSession | RsPermanent

datatype prompt_state = StPending | StAnswered | StExpired

record prompt_key =
  pk_executable :: string
  pk_ipv4 :: u32
  pk_port :: u16

record prompt =
  pr_id :: u64
  pr_key :: prompt_key
  pr_state :: prompt_state
  pr_created_at :: instant
  pr_expires_at :: instant
  pr_answer_verdict :: "verdict option"
  pr_answer_scope :: "rule_scope option"

datatype enqueue_outcome = Created u64 | Deduped u64 | Full

record answered =
  an_id :: u64
  an_key :: prompt_key
  an_verdict :: verdict
  an_scope :: rule_scope
  an_duplicate :: bool

datatype answer_error = AnswerNotFound | AnswerExpired

record prompt_queue =
  pq_capacity :: usize
  pq_ttl :: duration
  pq_next_id :: u64
  pq_order :: "u64 list"
  pq_prompts :: "(u64 \<times> prompt) list"
  pq_pending_by_key :: "(prompt_key \<times> u64) list"
  pq_once_allows :: "(prompt_key \<times> instant) list"
  pq_once_denies :: "prompt_key list"

definition MAX_PENDING_PROMPTS :: usize where
  "MAX_PENDING_PROMPTS = 100"

section \<open>Operations\<close>

definition PromptQueue_new :: "usize \<Rightarrow> duration \<Rightarrow> prompt_queue option" where
  "PromptQueue_new capacity ttl =
     (if 0 < capacity
      then Some \<lparr>pq_capacity = capacity, pq_ttl = ttl, pq_next_id = 1, pq_order = [],
        pq_prompts = [], pq_pending_by_key = [], pq_once_allows = [], pq_once_denies = []\<rparr>
      else None)"

definition PromptQueue_with_defaults :: "prompt_queue option" where
  "PromptQueue_with_defaults = PromptQueue_new MAX_PENDING_PROMPTS (from_secs 60)"

definition prompt_is_expired :: "instant \<Rightarrow> prompt \<Rightarrow> bool" where
  "prompt_is_expired now p \<longleftrightarrow> pr_state p = StPending \<and> pr_expires_at p < now"

definition expired_prompts :: "instant \<Rightarrow> prompt_queue \<Rightarrow> (u64 \<times> prompt_key) list" where
  "expired_prompts now q =
     map (\<lambda>e. (pr_id (snd e), pr_key (snd e)))
       (filter (\<lambda>e. prompt_is_expired now (snd e)) (pq_prompts q))"

fun mark_expired :: "(u64 \<times> prompt_key) list \<Rightarrow> prompt_queue \<Rightarrow> prompt_queue" where
  "mark_expired [] q = q"
| "mark_expired ((i, key) # rest) q =
     (let q = (case map_of (pq_prompts q) i of
                 Some p \<Rightarrow> q\<lparr>pq_prompts := AList.update i (p\<lparr>pr_state := StExpired\<rparr>) (pq_prompts q)\<rparr>
               | None \<Rightarrow> q)
      in mark_expired rest (q\<lparr>pq_pending_by_key := AList.delete key (pq_pending_by_key q)\<rparr>))"

definition is_pending :: "prompt_queue \<Rightarrow> u64 \<Rightarrow> bool" where
  "is_pending q i \<longleftrightarrow> is_some_and (\<lambda>p. pr_state p = StPending) (map_of (pq_prompts q) i)"

definition PromptQueue_expire :: "instant \<Rightarrow> prompt_queue \<Rightarrow> prompt_queue" where
  "PromptQueue_expire now q =
     (let q = mark_expired (expired_prompts now q) q
      in q\<lparr>pq_order := filter (is_pending q) (pq_order q),
           pq_once_allows := filter (\<lambda>e. now \<le> snd e + pq_ttl q) (pq_once_allows q),
           pq_once_denies := (if pq_capacity q < length (pq_once_denies q) then []
                              else pq_once_denies q)\<rparr>)"

definition take_once_allow ::
    "instant \<Rightarrow> instant \<Rightarrow> prompt_key \<Rightarrow> prompt_queue \<Rightarrow> bool \<times> prompt_queue" where
  "take_once_allow now1 now2 key q =
     (let q = PromptQueue_expire now1 q
      in (is_some_and (\<lambda>inserted. now2 \<le> inserted + pq_ttl q) (map_of (pq_once_allows q) key),
          q\<lparr>pq_once_allows := AList.delete key (pq_once_allows q)\<rparr>))"

definition consume_once_deny :: "instant \<Rightarrow> prompt_key \<Rightarrow> prompt_queue \<Rightarrow> bool \<times> prompt_queue" where
  "consume_once_deny now key q =
     (let q = PromptQueue_expire now q
      in (key \<in> set (pq_once_denies q),
          q\<lparr>pq_once_denies := removeAll key (pq_once_denies q)\<rparr>))"

definition PromptQueue_enqueue ::
    "instant \<Rightarrow> instant \<Rightarrow> prompt_key \<Rightarrow> prompt_queue \<Rightarrow> enqueue_outcome \<times> prompt_queue" where
  "PromptQueue_enqueue now1 now2 key q =
     (let q = PromptQueue_expire now1 q
      in case map_of (pq_pending_by_key q) key of
           Some i \<Rightarrow> (Deduped i, q)
         | None \<Rightarrow>
             if pq_capacity q \<le> length (pq_pending_by_key q) then (Full, q)
             else
               let i = pq_next_id q
               in (Created i,
                   q\<lparr>pq_next_id := saturating_add i 1,
                     pq_prompts := AList.update i
                       \<lparr>pr_id = i, pr_key = key, pr_state = StPending, pr_created_at = now2,
                        pr_expires_at = now2 + pq_ttl q, pr_answer_verdict = None,
                        pr_answer_scope = None\<rparr> (pq_prompts q),
                     pq_order := pq_order q @ [i],
                     pq_pending_by_key := AList.update key i (pq_pending_by_key q)\<rparr>))"

definition list_pending :: "instant \<Rightarrow> prompt_queue \<Rightarrow> prompt list \<times> prompt_queue" where
  "list_pending now q =
     (let q = PromptQueue_expire now q
      in (List.map_filter (\<lambda>i. case map_of (pq_prompts q) i of
                                 None \<Rightarrow> None
                               | Some p \<Rightarrow> if pr_state p = StPending then Some p else None)
            (pq_order q), q))"

definition PromptQueue_answer ::
    "instant \<Rightarrow> instant \<Rightarrow> u64 \<Rightarrow> verdict \<Rightarrow> rule_scope \<Rightarrow> prompt_queue
       \<Rightarrow> (answer_error + answered) \<times> prompt_queue" where
  "PromptQueue_answer now1 now2 i verdict scope q =
     (let q = PromptQueue_expire now1 q
      in case map_of (pq_prompts q) i of
           None \<Rightarrow> (Inl AnswerNotFound, q)
         | Some p \<Rightarrow>
             if pr_state p = StExpired then (Inl AnswerExpired, q)
             else if pr_state p = StAnswered then
               (Inr \<lparr>an_id = i, an_key = pr_key p,
                  an_verdict = (case pr_answer_verdict p of None \<Rightarrow> verdict | Some v \<Rightarrow> v),
                  an_scope = (case pr_answer_scope p of None \<Rightarrow> scope | Some sc \<Rightarrow> sc),
                  an_duplicate = True\<rparr>, q)
             else
               let key = pr_key p;
                   q = q\<lparr>pq_prompts := AList.update i
                           (p\<lparr>pr_state := StAnswered, pr_answer_verdict := Some verdict,
                              pr_answer_scope := Some scope\<rparr>) (pq_prompts q),
                         pq_pending_by_key := AList.delete key (pq_pending_by_key q)\<rparr>;
                   q = (if verdict = Allow \<and> scope = RsOnce then
                          q\<lparr>pq_once_allows := AList.update key now2 (pq_once_allows q)\<rparr>
                        else if verdict = Deny \<and> scope = RsOnce then
                          q\<lparr>pq_once_denies := List.insert key (pq_once_denies q)\<rparr>
                        else q)
               in (Inr \<lparr>an_id = i, an_key = key, an_verdict = verdict, an_scope = scope,
                      an_duplicate = False\<rparr>, q))"

section \<open>What expiry does\<close>

lemma mark_expired_prompts:
  "map_of (pq_prompts (mark_expired l q)) i =
     (if i \<in> fst ` set l then map_option (pr_state_update (\<lambda>_. StExpired)) (map_of (pq_prompts q) i)
      else map_of (pq_prompts q) i)"
proof (induction l arbitrary: q)
  case (Cons e l)
  obtain j key where e: "e = (j, key)" by (cases e)
  show ?case
    by (cases "map_of (pq_prompts q) j"; cases "map_of (pq_prompts q) i")
      (auto simp: e Let_def Cons.IH map_of_update_eq split: if_splits)
qed simp

lemma mark_expired_by_key:
  "map_of (pq_pending_by_key (mark_expired l q)) k =
     (if k \<in> snd ` set l then None else map_of (pq_pending_by_key q) k)"
proof (induction l arbitrary: q)
  case (Cons e l)
  obtain j key where e: "e = (j, key)" by (cases e)
  show ?case
    by (auto simp: e Let_def Cons.IH map_of_delete_eq split: option.split)
qed simp

lemma mark_expired_fields [simp]:
  "pq_capacity (mark_expired l q) = pq_capacity q"
  "pq_ttl (mark_expired l q) = pq_ttl q"
  "pq_next_id (mark_expired l q) = pq_next_id q"
  "pq_order (mark_expired l q) = pq_order q"
  "pq_once_allows (mark_expired l q) = pq_once_allows q"
  "pq_once_denies (mark_expired l q) = pq_once_denies q"
  by (induction l q rule: mark_expired.induct; simp add: Let_def split: option.splits)+

lemma mark_expired_hm_wf:
  "hm_wf (pq_prompts q) \<Longrightarrow> hm_wf (pq_prompts (mark_expired l q))"
  "hm_wf (pq_pending_by_key q) \<Longrightarrow> hm_wf (pq_pending_by_key (mark_expired l q))"
  by (induction l q rule: mark_expired.induct;
      simp add: Let_def hm_wf_update hm_wf_delete split: option.splits)+

lemma mark_expired_lengths:
  "length (pq_prompts (mark_expired l q)) = length (pq_prompts q)"
  "length (pq_pending_by_key (mark_expired l q)) \<le> length (pq_pending_by_key q)"
proof (induction l q rule: mark_expired.induct)
  case (2 i key rest q)
  {
    case 1
    with 2 show ?case
      by (auto simp: Let_def hm_len_update_old in_keys_iff split: option.splits)
  next
    case 2
    have "length (AList.delete key (pq_pending_by_key q)) \<le> length (pq_pending_by_key q)"
      by (rule AList.length_delete_le)
    with "2.IH" show ?case
      by (auto simp: Let_def split: option.splits intro: order_trans)
  }
qed simp_all

section \<open>The invariant\<close>

text \<open>
  Ids are those of the stored prompts and below the counter, the index maps exactly the keys of
  pending prompts to their ids, the order lists every pending id once and in creation order, and
  the number of pending prompts is bounded.
\<close>

definition prompts_wf :: "prompt_queue \<Rightarrow> bool" where
  "prompts_wf q \<longleftrightarrow> 0 < pq_capacity q \<and> hm_wf (pq_prompts q) \<and> hm_wf (pq_pending_by_key q) \<and>
     (\<forall>i p. map_of (pq_prompts q) i = Some p \<longrightarrow> pr_id p = i \<and> i < pq_next_id q) \<and>
     (\<forall>k i. map_of (pq_pending_by_key q) k = Some i \<longleftrightarrow>
        (\<exists>p. map_of (pq_prompts q) i = Some p \<and> pr_key p = k \<and> pr_state p = StPending)) \<and>
     sorted_wrt (<) (pq_order q) \<and> (\<forall>i \<in> set (pq_order q). i < pq_next_id q) \<and>
     (\<forall>i. is_pending q i \<longrightarrow> i \<in> set (pq_order q)) \<and>
     length (pq_pending_by_key q) \<le> pq_capacity q"

lemma prompts_wfD:
  assumes "prompts_wf q"
  shows "0 < pq_capacity q" "hm_wf (pq_prompts q)" "hm_wf (pq_pending_by_key q)"
    "\<And>i p. map_of (pq_prompts q) i = Some p \<Longrightarrow> pr_id p = i \<and> i < pq_next_id q"
    "\<And>k i. map_of (pq_pending_by_key q) k = Some i \<longleftrightarrow>
        (\<exists>p. map_of (pq_prompts q) i = Some p \<and> pr_key p = k \<and> pr_state p = StPending)"
    "sorted_wrt (<) (pq_order q)" "\<And>i. i \<in> set (pq_order q) \<Longrightarrow> i < pq_next_id q"
    "\<And>i. is_pending q i \<Longrightarrow> i \<in> set (pq_order q)"
    "length (pq_pending_by_key q) \<le> pq_capacity q"
  using assms unfolding prompts_wf_def by blast+

lemma is_pending_iff: "is_pending q i \<longleftrightarrow> (\<exists>p. map_of (pq_prompts q) i = Some p \<and> pr_state p = StPending)"
  by (cases "map_of (pq_prompts q) i") (auto simp: is_pending_def)

lemma new_wf: "PromptQueue_new cap ttl = Some q \<Longrightarrow> prompts_wf q"
  by (auto simp: PromptQueue_new_def prompts_wf_def is_pending_def split: if_splits)

text \<open>What \<open>expire\<close> does to one prompt.\<close>

definition expire_prompt :: "instant \<Rightarrow> prompt \<Rightarrow> prompt" where
  "expire_prompt now p = (if prompt_is_expired now p then p\<lparr>pr_state := StExpired\<rparr> else p)"

lemma expire_prompt_fields [simp]:
  "pr_id (expire_prompt now p) = pr_id p" "pr_key (expire_prompt now p) = pr_key p"
  "pr_created_at (expire_prompt now p) = pr_created_at p"
  "pr_expires_at (expire_prompt now p) = pr_expires_at p"
  "pr_answer_verdict (expire_prompt now p) = pr_answer_verdict p"
  "pr_answer_scope (expire_prompt now p) = pr_answer_scope p"
  by (simp_all add: expire_prompt_def)

lemma expire_prompt_pending [simp]:
  "pr_state (expire_prompt now p) = StPending \<longleftrightarrow> pr_state p = StPending \<and> now \<le> pr_expires_at p"
  by (auto simp: expire_prompt_def prompt_is_expired_def)

lemma expire_prompt_terminal: "pr_state p \<noteq> StPending \<Longrightarrow> expire_prompt now p = p"
  by (simp add: expire_prompt_def prompt_is_expired_def)

lemma expire_prompt_keep:
  "pr_state p = StPending \<Longrightarrow> now \<le> pr_expires_at p \<Longrightarrow> expire_prompt now p = p"
  by (simp add: expire_prompt_def prompt_is_expired_def)

lemma expired_prompts_iff:
  assumes "prompts_wf q"
  shows "(i, k) \<in> set (expired_prompts now q) \<longleftrightarrow>
    (\<exists>p. map_of (pq_prompts q) i = Some p \<and> prompt_is_expired now p \<and> pr_key p = k)"
proof -
  note w = prompts_wfD [OF assms]
  have "(j, p) \<in> set (pq_prompts q) \<longleftrightarrow> map_of (pq_prompts q) j = Some p" for j p
    by (rule map_of_eq_Some_iff [OF w(2), symmetric])
  with w(4) show ?thesis by (force simp: expired_prompts_def image_iff)
qed

lemma prompts_expire_fields [simp]:
  "pq_capacity (PromptQueue_expire now q) = pq_capacity q"
  "pq_ttl (PromptQueue_expire now q) = pq_ttl q"
  "pq_next_id (PromptQueue_expire now q) = pq_next_id q"
  by (simp_all add: PromptQueue_expire_def Let_def)

lemma expire_prompts_lookup:
  assumes "prompts_wf q"
  shows "map_of (pq_prompts (PromptQueue_expire now q)) i =
    map_option (expire_prompt now) (map_of (pq_prompts q) i)"
proof -
  have "i \<in> fst ` set (expired_prompts now q) \<longleftrightarrow>
      (\<exists>p. map_of (pq_prompts q) i = Some p \<and> prompt_is_expired now p)"
    using expired_prompts_iff [OF assms] by force
  then show ?thesis
    by (cases "map_of (pq_prompts q) i")
      (auto simp: PromptQueue_expire_def Let_def mark_expired_prompts expire_prompt_def)
qed

lemma expire_by_key_lookup:
  assumes "prompts_wf q"
  shows "map_of (pq_pending_by_key (PromptQueue_expire now q)) k = Some i \<longleftrightarrow>
    (\<exists>p. map_of (pq_prompts q) i = Some p \<and> pr_key p = k \<and> pr_state p = StPending \<and>
       now \<le> pr_expires_at p)"
proof -
  note idx = prompts_wfD(5) [OF assms]
  have gone: "k \<in> snd ` set (expired_prompts now q) \<longleftrightarrow>
      (\<exists>j p. map_of (pq_prompts q) j = Some p \<and> prompt_is_expired now p \<and> pr_key p = k)"
    using expired_prompts_iff [OF assms] by force
  have clash: False if "map_of (pq_prompts q) j = Some p" "map_of (pq_prompts q) i = Some p'"
      "pr_key p' = pr_key p" "pr_state p = StPending" "pr_state p' = StPending"
      "pr_expires_at p < now" "now \<le> pr_expires_at p'" for j p p'
    using idx [of "pr_key p" i] idx [of "pr_key p" j] that by auto
  show ?thesis
    by (auto simp: PromptQueue_expire_def Let_def mark_expired_by_key gone idx
        prompt_is_expired_def not_less dest: clash)
qed

lemma prompts_expire_wf [wf_intros]:
  assumes "prompts_wf q"
  shows "prompts_wf (PromptQueue_expire now q)"
proof -
  let ?q = "PromptQueue_expire now q"
  note w = prompts_wfD [OF assms]
  have pend: "is_pending ?q i \<longleftrightarrow> (\<exists>p. map_of (pq_prompts q) i = Some p \<and> pr_state p = StPending \<and>
      now \<le> pr_expires_at p)" for i
    by (auto simp: is_pending_iff expire_prompts_lookup [OF assms])
  have ord: "pq_order ?q = filter (is_pending ?q) (pq_order q)"
    by (simp add: PromptQueue_expire_def Let_def is_pending_def [abs_def])
  have len: "length (pq_pending_by_key ?q) \<le> pq_capacity ?q"
    using order_trans [OF mark_expired_lengths(2) w(9)] by (simp add: PromptQueue_expire_def Let_def)
  have hm: "hm_wf (pq_prompts ?q)" "hm_wf (pq_pending_by_key ?q)"
    using mark_expired_hm_wf w(2,3) by (simp_all add: PromptQueue_expire_def Let_def)
  have idx: "map_of (pq_pending_by_key ?q) k = Some i \<longleftrightarrow>
      (\<exists>p. map_of (pq_prompts ?q) i = Some p \<and> pr_key p = k \<and> pr_state p = StPending)" for k i
    by (auto simp: expire_by_key_lookup [OF assms] expire_prompts_lookup [OF assms])
  have ids: "pr_id p = i \<and> i < pq_next_id ?q" if "map_of (pq_prompts ?q) i = Some p" for i p
    using that w(4) by (auto simp: expire_prompts_lookup [OF assms])
  have "i \<in> set (pq_order ?q)" if "is_pending ?q i" for i
    using that w(8) [of i] is_pending_iff [of q i] pend [of i] by (auto simp: ord)
  then show ?thesis
    using w(1,7) len hm idx ids sorted_wrt_filter [OF w(6)] unfolding prompts_wf_def
    by (auto simp: ord)
qed

section \<open>Operations keep the invariant\<close>

text \<open>Tokens are not part of the invariant: changing them keeps it.\<close>

lemma tokens_wf [simp]:
  "prompts_wf (q\<lparr>pq_once_allows := a\<rparr>) = prompts_wf q"
  "prompts_wf (q\<lparr>pq_once_denies := d\<rparr>) = prompts_wf q"
  by (simp_all add: prompts_wf_def is_pending_def)

lemma take_once_allow_wf [wf_intros]: "prompts_wf q \<Longrightarrow> prompts_wf (snd (take_once_allow n1 n2 k q))"
  by (simp add: take_once_allow_def Let_def prompts_expire_wf)

lemma consume_once_deny_wf [wf_intros]: "prompts_wf q \<Longrightarrow> prompts_wf (snd (consume_once_deny n k q))"
  by (simp add: consume_once_deny_def Let_def prompts_expire_wf)

lemma list_pending_wf [wf_intros]: "prompts_wf q \<Longrightarrow> prompts_wf (snd (list_pending n q))"
  by (simp add: list_pending_def Let_def prompts_expire_wf)

text \<open>The part of \<open>enqueue\<close> that stores a fresh prompt, on an expired queue.\<close>

definition push_prompt :: "instant \<Rightarrow> prompt_key \<Rightarrow> prompt_queue \<Rightarrow> prompt_queue" where
  "push_prompt now key q =
     (let i = pq_next_id q
      in q\<lparr>pq_next_id := saturating_add i 1,
           pq_prompts := AList.update i
             \<lparr>pr_id = i, pr_key = key, pr_state = StPending, pr_created_at = now,
              pr_expires_at = now + pq_ttl q, pr_answer_verdict = None,
              pr_answer_scope = None\<rparr> (pq_prompts q),
           pq_order := pq_order q @ [i],
           pq_pending_by_key := AList.update key i (pq_pending_by_key q)\<rparr>)"

lemma push_prompt_wf:
  assumes wf: "prompts_wf q" and fresh: "key \<notin> keys (pq_pending_by_key q)"
    and room: "length (pq_pending_by_key q) < pq_capacity q" and i: "pq_next_id q \<noteq> - 1"
  shows "prompts_wf (push_prompt now key q)"
proof -
  let ?i = "pq_next_id q" and ?q = "push_prompt now key q"
  note w = prompts_wfD [OF wf]
  have next_id: "pq_next_id ?q = saturating_add ?i 1" by (simp add: push_prompt_def Let_def)
  have less: "j < saturating_add ?i 1" if "j \<le> ?i" for j
    using that saturating_add_one [OF i] by (simp add: word_less_nat_alt word_le_nat_alt)
  have new: "map_of (pq_prompts q) ?i = None"
    using w(4) by (metis less_irrefl not_Some_eq)
  have nokey: "map_of (pq_pending_by_key q) key = None"
    using fresh in_keys_iff by metis
  have look: "map_of (pq_prompts ?q) j = (if j = ?i then Some
      \<lparr>pr_id = ?i, pr_key = key, pr_state = StPending, pr_created_at = now,
       pr_expires_at = now + pq_ttl q, pr_answer_verdict = None, pr_answer_scope = None\<rparr>
      else map_of (pq_prompts q) j)" for j
    by (simp add: push_prompt_def Let_def map_of_update_eq)
  have idx: "map_of (pq_pending_by_key ?q) k = Some j \<longleftrightarrow>
      (\<exists>p. map_of (pq_prompts ?q) j = Some p \<and> pr_key p = k \<and> pr_state p = StPending)" for k j
  proof (cases "j = ?i")
    case True
    then show ?thesis using w(5) [of k j] new
      by (auto simp: look push_prompt_def Let_def map_of_update_eq)
  next
    case False
    then show ?thesis using w(5) [of k j] nokey
      by (auto simp: look push_prompt_def Let_def map_of_update_eq)
  qed
  have ord: "pq_order ?q = pq_order q @ [?i]" by (simp add: push_prompt_def Let_def)
  have "j \<in> set (pq_order ?q)" if "is_pending ?q j" for j
    using that w(8) [of j] by (auto simp: ord is_pending_def look split: if_splits)
  moreover have "pr_id p = j \<and> j < pq_next_id ?q" if "map_of (pq_prompts ?q) j = Some p" for j p
    using that w(4) [of j p] less by (auto simp: next_id look split: if_splits)
  moreover have "sorted_wrt (<) (pq_order ?q)" "\<forall>j \<in> set (pq_order ?q). j < pq_next_id ?q"
    using w(6,7) less by (auto simp: ord next_id sorted_wrt_append intro: less_imp_le)
  ultimately show ?thesis
    using w(1-3) idx room fresh unfolding prompts_wf_def
    by (auto simp: push_prompt_def Let_def hm_wf_update hm_len_update_fresh)
qed

lemma enqueue_eq:
  "PromptQueue_enqueue n1 n2 key q =
     (let q = PromptQueue_expire n1 q
      in case map_of (pq_pending_by_key q) key of
           Some i \<Rightarrow> (Deduped i, q)
         | None \<Rightarrow> if pq_capacity q \<le> length (pq_pending_by_key q) then (Full, q)
                   else (Created (pq_next_id q), push_prompt n2 key q))"
  by (simp add: PromptQueue_enqueue_def push_prompt_def Let_def split: option.split)

lemma enqueue_wf [wf_intros]:
  assumes "prompts_wf q" "pq_next_id q \<noteq> - 1"
  shows "prompts_wf (snd (PromptQueue_enqueue n1 n2 key q))"
proof -
  let ?q = "PromptQueue_expire n1 q"
  have "prompts_wf (push_prompt n2 key ?q)"
    if "map_of (pq_pending_by_key ?q) key = None" "length (pq_pending_by_key ?q) < pq_capacity ?q"
    using that assms by (intro push_prompt_wf prompts_expire_wf) (auto simp: map_of_eq_None_iff)
  then show ?thesis
    using prompts_expire_wf [OF assms(1), of n1] by (simp add: enqueue_eq Let_def split: option.split)
qed

lemma push_prompt_get:
  "map_of (pq_prompts (push_prompt now key q)) (pq_next_id q) =
     Some \<lparr>pr_id = pq_next_id q, pr_key = key, pr_state = StPending, pr_created_at = now,
       pr_expires_at = now + pq_ttl q, pr_answer_verdict = None, pr_answer_scope = None\<rparr>"
  by (simp add: push_prompt_def Let_def map_of_update_eq)

fun outcome_id :: "enqueue_outcome \<Rightarrow> u64 option" where
  "outcome_id (Created i) = Some i"
| "outcome_id (Deduped i) = Some i"
| "outcome_id Full = None"

text \<open>What a caller of \<open>enqueue\<close> may rely on.\<close>

lemma enqueue_result:
  assumes "prompts_wf q"
  shows "case outcome_id (fst (PromptQueue_enqueue n1 n2 key q)) of
      Some i \<Rightarrow> \<exists>p. map_of (pq_prompts (snd (PromptQueue_enqueue n1 n2 key q))) i = Some p \<and>
        pr_key p = key \<and> pr_state p = StPending
    | None \<Rightarrow> length (pq_pending_by_key (snd (PromptQueue_enqueue n1 n2 key q))) = pq_capacity q"
proof (cases "map_of (pq_pending_by_key (PromptQueue_expire n1 q)) key")
  case None
  then show ?thesis
    using prompts_wfD(9) [OF prompts_expire_wf [OF assms, of n1]] push_prompt_get [of n2 key "PromptQueue_expire n1 q"]
    by (simp add: enqueue_eq Let_def)
next
  case (Some i)
  then have "PromptQueue_enqueue n1 n2 key q = (Deduped i, PromptQueue_expire n1 q)"
    by (simp add: enqueue_eq Let_def)
  with Some show ?thesis using prompts_wfD(5) [OF prompts_expire_wf [OF assms, of n1]] by simp
qed

text \<open>The part of \<open>answer\<close> that settles a pending prompt, on an expired queue.\<close>

definition settle_prompt :: "u64 \<Rightarrow> prompt \<Rightarrow> verdict \<Rightarrow> rule_scope \<Rightarrow> prompt_queue \<Rightarrow> prompt_queue" where
  "settle_prompt i p verdict scope q =
     q\<lparr>pq_prompts := AList.update i
         (p\<lparr>pr_state := StAnswered, pr_answer_verdict := Some verdict,
            pr_answer_scope := Some scope\<rparr>) (pq_prompts q),
       pq_pending_by_key := AList.delete (pr_key p) (pq_pending_by_key q)\<rparr>"

lemma settle_prompt_wf:
  assumes wf: "prompts_wf q" and p: "map_of (pq_prompts q) i = Some p" "pr_state p = StPending"
  shows "prompts_wf (settle_prompt i p v sc q)"
proof -
  let ?q = "settle_prompt i p v sc q"
  note w = prompts_wfD [OF wf]
  have look: "map_of (pq_prompts ?q) j = (if j = i then Some (p\<lparr>pr_state := StAnswered,
      pr_answer_verdict := Some v, pr_answer_scope := Some sc\<rparr>) else map_of (pq_prompts q) j)" for j
    by (simp add: settle_prompt_def map_of_update_eq)
  have by_key: "map_of (pq_pending_by_key q) (pr_key p) = Some i" using w(5) p by blast
  have keep: "pq_order ?q = pq_order q" "pq_next_id ?q = pq_next_id q"
    by (simp_all add: settle_prompt_def)
  have del: "map_of (pq_pending_by_key ?q) k =
      (if k = pr_key p then None else map_of (pq_pending_by_key q) k)" for k
    by (simp add: settle_prompt_def map_of_delete_eq)
  have idx: "map_of (pq_pending_by_key ?q) k = Some j \<longleftrightarrow>
      (\<exists>p. map_of (pq_prompts ?q) j = Some p \<and> pr_key p = k \<and> pr_state p = StPending)" for k j
  proof (cases "j = i")
    case True
    then show ?thesis using by_key w(5) [of k i] p
      by (auto simp: look del)
  next
    case False
    then show ?thesis using by_key w(5) [of k j]
      by (auto simp: look del)
  qed
  have "j \<in> set (pq_order ?q)" if "is_pending ?q j" for j
    using that w(8) [of j] by (auto simp: is_pending_def look keep split: if_splits)
  moreover have "pr_id p' = j \<and> j < pq_next_id ?q" if "map_of (pq_prompts ?q) j = Some p'" for j p'
    using that w(4) p by (auto simp: look keep split: if_splits)
  moreover have "length (pq_pending_by_key ?q) \<le> pq_capacity ?q"
    using order_trans [OF AList.length_delete_le w(9)] by (simp add: settle_prompt_def)
  ultimately show ?thesis
    using w(1-3,6,7) idx unfolding prompts_wf_def
    by (auto simp: settle_prompt_def hm_wf_update hm_wf_delete)
qed

lemma answer_eq:
  "PromptQueue_answer n1 n2 i verdict scope q =
     (let q = PromptQueue_expire n1 q
      in case map_of (pq_prompts q) i of
           None \<Rightarrow> (Inl AnswerNotFound, q)
         | Some p \<Rightarrow>
             if pr_state p = StExpired then (Inl AnswerExpired, q)
             else if pr_state p = StAnswered then
               (Inr \<lparr>an_id = i, an_key = pr_key p,
                  an_verdict = (case pr_answer_verdict p of None \<Rightarrow> verdict | Some v \<Rightarrow> v),
                  an_scope = (case pr_answer_scope p of None \<Rightarrow> scope | Some sc \<Rightarrow> sc),
                  an_duplicate = True\<rparr>, q)
             else
               (Inr \<lparr>an_id = i, an_key = pr_key p, an_verdict = verdict, an_scope = scope,
                  an_duplicate = False\<rparr>,
                (settle_prompt i p verdict scope q)
                  \<lparr>pq_once_allows := (if verdict = Allow \<and> scope = RsOnce
                     then AList.update (pr_key p) n2 (pq_once_allows q) else pq_once_allows q),
                   pq_once_denies := (if verdict = Deny \<and> scope = RsOnce
                     then List.insert (pr_key p) (pq_once_denies q) else pq_once_denies q)\<rparr>))"
  by (auto simp: PromptQueue_answer_def settle_prompt_def Let_def split: option.split)

lemma answer_wf [wf_intros]:
  assumes "prompts_wf q"
  shows "prompts_wf (snd (PromptQueue_answer n1 n2 i v sc q))"
  using prompts_expire_wf [OF assms, of n1]
  by (auto simp: answer_eq Let_def split: option.split intro!: settle_prompt_wf
      intro: prompt_state.exhaust)

section \<open>The life of a prompt\<close>

text \<open>A pending prompt expires after its deadline or is answered; nothing else ever happens to it.\<close>

inductive lifecycle :: "prompt \<Rightarrow> prompt \<Rightarrow> bool" where
  stay: "lifecycle p p"
| expire: "pr_state p = StPending \<Longrightarrow> pr_expires_at p < now \<Longrightarrow> lifecycle p (p\<lparr>pr_state := StExpired\<rparr>)"
| answer: "pr_state p = StPending \<Longrightarrow>
    lifecycle p (p\<lparr>pr_state := StAnswered, pr_answer_verdict := Some v, pr_answer_scope := Some sc\<rparr>)"

inductive_cases lifecycleE: "lifecycle p p'"

lemma lifecycle_terminal: "lifecycle p p' \<Longrightarrow> pr_state p \<noteq> StPending \<Longrightarrow> p' = p"
  by (auto elim: lifecycleE)

lemma lifecycle_fixed:
  "lifecycle p p' \<Longrightarrow> pr_id p' = pr_id p \<and> pr_key p' = pr_key p \<and> pr_created_at p' = pr_created_at p \<and>
     pr_expires_at p' = pr_expires_at p"
  by (auto elim: lifecycleE)

lemma lifecycles_fixed:
  "lifecycle\<^sup>*\<^sup>* p p' \<Longrightarrow> pr_id p' = pr_id p \<and> pr_key p' = pr_key p \<and> pr_created_at p' = pr_created_at p \<and>
     pr_expires_at p' = pr_expires_at p \<and> (pr_state p \<noteq> StPending \<longrightarrow> p' = p)"
  by (induction rule: rtranclp_induct) (auto dest: lifecycle_fixed lifecycle_terminal)

lemma lifecycle_expire_prompt: "lifecycle p (expire_prompt now p)"
  by (auto simp: expire_prompt_def prompt_is_expired_def intro: lifecycle.intros)

definition answer_recorded :: "prompt \<Rightarrow> bool" where
  "answer_recorded p \<longleftrightarrow>
     (pr_state p = StAnswered \<longrightarrow> pr_answer_verdict p \<noteq> None \<and> pr_answer_scope p \<noteq> None)"

lemma lifecycle_recorded: "lifecycle p p' \<Longrightarrow> answer_recorded p \<Longrightarrow> answer_recorded p'"
  by (auto simp: answer_recorded_def elim: lifecycleE)

datatype prompt_op =
    QEnqueue instant instant prompt_key
  | QAnswer instant instant u64 verdict rule_scope
  | QTakeAllow instant instant prompt_key
  | QTakeDeny instant prompt_key
  | QList instant

fun prompt_step :: "prompt_op \<Rightarrow> prompt_queue \<Rightarrow> prompt_queue" where
  "prompt_step (QEnqueue n1 n2 key) q = snd (PromptQueue_enqueue n1 n2 key q)"
| "prompt_step (QAnswer n1 n2 i v sc) q = snd (PromptQueue_answer n1 n2 i v sc q)"
| "prompt_step (QTakeAllow n1 n2 key) q = snd (take_once_allow n1 n2 key q)"
| "prompt_step (QTakeDeny now key) q = snd (consume_once_deny now key q)"
| "prompt_step (QList now) q = snd (list_pending now q)"

definition prompt_run :: "prompt_op list \<Rightarrow> prompt_queue \<Rightarrow> prompt_queue" where
  "prompt_run ops q = fold prompt_step ops q"

lemma prompt_run_simps [simp]:
  "prompt_run [] q = q" "prompt_run (x # ops) q = prompt_run ops (prompt_step x q)"
  "prompt_run (xs @ ys) q = prompt_run ys (prompt_run xs q)"
  by (simp_all add: prompt_run_def)

lemma push_prompt_fields [simp]:
  "pq_capacity (push_prompt now key q) = pq_capacity q" "pq_ttl (push_prompt now key q) = pq_ttl q"
  "pq_next_id (push_prompt now key q) = saturating_add (pq_next_id q) 1"
  "pq_once_allows (push_prompt now key q) = pq_once_allows q"
  by (simp_all add: push_prompt_def Let_def)

lemma settle_prompt_fields [simp]:
  "pq_capacity (settle_prompt i p v sc q) = pq_capacity q" "pq_ttl (settle_prompt i p v sc q) = pq_ttl q"
  "pq_next_id (settle_prompt i p v sc q) = pq_next_id q"
  "pq_once_allows (settle_prompt i p v sc q) = pq_once_allows q"
  by (simp_all add: settle_prompt_def)

lemmas prompt_op_defs = enqueue_eq answer_eq take_once_allow_def consume_once_deny_def list_pending_def

lemma prompt_step_fields [simp]:
  "pq_capacity (prompt_step x q) = pq_capacity q" "pq_ttl (prompt_step x q) = pq_ttl q"
  by (cases x; simp add: prompt_op_defs Let_def split: option.split)+

lemma prompt_step_next_id: "unat (pq_next_id (prompt_step x q)) \<le> Suc (unat (pq_next_id q))"
  by (cases x) (simp_all add: prompt_op_defs Let_def saturating_add_unat split: option.split)

lemma prompt_step_wf:
  "prompts_wf q \<Longrightarrow> pq_next_id q \<noteq> - 1 \<Longrightarrow> prompts_wf (prompt_step x q)"
  by (cases x) (auto intro: wf_intros)

lemma prompt_run_fields [simp]:
  "pq_capacity (prompt_run ops q) = pq_capacity q" "pq_ttl (prompt_run ops q) = pq_ttl q"
  by (induction ops arbitrary: q) auto

text \<open>The 64-bit counter does not saturate before \<open>2 ^ 64 - 2\<close> operations.\<close>

definition ids_left :: "nat \<Rightarrow> prompt_queue \<Rightarrow> bool" where
  "ids_left n q \<longleftrightarrow> unat (pq_next_id q) + n < 2 ^ 64"

lemma ids_left_step: "ids_left (Suc n) q \<Longrightarrow> ids_left n (prompt_step x q)"
  using prompt_step_next_id [of x q] by (simp add: ids_left_def)

lemma ids_left_next: "ids_left (Suc n) q \<Longrightarrow> pq_next_id q \<noteq> - 1"
  using unsigned_minus_1_eq_mask [where 'b = 64 and 'a = nat]
  by (auto simp: ids_left_def mask_eq_exp_minus_1)

lemma prompt_run_wf:
  "prompts_wf q \<Longrightarrow> ids_left (length ops + n) q \<Longrightarrow>
     prompts_wf (prompt_run ops q) \<and> ids_left n (prompt_run ops q)"
proof (induction ops arbitrary: q)
  case (Cons x ops)
  then have "ids_left (Suc (length ops + n)) q" by simp
  then show ?case
    using Cons.IH [of "prompt_step x q"] Cons.prems ids_left_step ids_left_next prompt_step_wf
    by fastforce
qed simp

text \<open>Where the prompt stored under an id comes from.\<close>

lemma push_prompt_lookup:
  "map_of (pq_prompts (push_prompt now key q)) j =
     (if j = pq_next_id q then Some
        \<lparr>pr_id = j, pr_key = key, pr_state = StPending, pr_created_at = now,
         pr_expires_at = now + pq_ttl q, pr_answer_verdict = None, pr_answer_scope = None\<rparr>
      else map_of (pq_prompts q) j)"
  by (simp add: push_prompt_def Let_def map_of_update_eq)

lemma settle_prompt_lookup:
  "map_of (pq_prompts (settle_prompt i p v sc q)) j =
     (if j = i then Some (p\<lparr>pr_state := StAnswered, pr_answer_verdict := Some v,
        pr_answer_scope := Some sc\<rparr>) else map_of (pq_prompts q) j)"
  by (simp add: settle_prompt_def map_of_update_eq)

lemma answer_lookup:
  assumes "prompts_wf q"
  shows "map_of (pq_prompts (snd (PromptQueue_answer n1 n2 i v sc q))) j =
    map_option (\<lambda>p. if j = i \<and> pr_state p = StPending \<and> n1 \<le> pr_expires_at p
        then p\<lparr>pr_state := StAnswered, pr_answer_verdict := Some v, pr_answer_scope := Some sc\<rparr>
        else expire_prompt n1 p) (map_of (pq_prompts q) j)"
proof (cases "map_of (pq_prompts q) i")
  case None
  then show ?thesis
    by (cases "j = i") (simp_all add: answer_eq Let_def expire_prompts_lookup [OF assms] cong: option.map_cong)
next
  case (Some p)
  show ?thesis
  proof (cases "pr_state p = StPending \<and> n1 \<le> pr_expires_at p")
    case True
    with Some show ?thesis
      by (cases "j = i") (simp_all add: expire_prompt_keep answer_eq Let_def settle_prompt_lookup
        expire_prompts_lookup [OF assms] cong: option.map_cong)
  next
    case False
    then have "pr_state (expire_prompt n1 p) \<noteq> StPending" by simp
    then have "snd (PromptQueue_answer n1 n2 i v sc q) = PromptQueue_expire n1 q"
      using Some by (cases "pr_state (expire_prompt n1 p)")
        (simp_all add: answer_eq Let_def expire_prompts_lookup [OF assms])
    with False Some show ?thesis
      by (cases "j = i") (auto simp: expire_prompts_lookup [OF assms] cong: option.map_cong)
  qed
qed

lemma prompt_step_lookup:
  assumes "prompts_wf q"
  shows "(\<exists>p'. map_of (pq_prompts (prompt_step x q)) j = Some p' \<and> answer_recorded p' \<and>
      map_of (pq_prompts q) j = None) \<or>
    (\<exists>p p'. map_of (pq_prompts (prompt_step x q)) j = Some p' \<and>
      map_of (pq_prompts q) j = Some p \<and> lifecycle p p') \<or>
    map_of (pq_prompts (prompt_step x q)) j = None \<and> map_of (pq_prompts q) j = None"
proof (cases x)
  case (QEnqueue n1 n2 key)
  have "map_of (pq_prompts q) (pq_next_id q) = None"
    using prompts_wfD(4) [OF assms] by (metis less_irrefl not_Some_eq)
  then show ?thesis
    by (cases "map_of (pq_prompts q) j")
      (auto simp: QEnqueue enqueue_eq Let_def push_prompt_lookup expire_prompts_lookup [OF assms]
        answer_recorded_def lifecycle_expire_prompt split: option.split)
next
  case (QAnswer n1 n2 i v sc)
  then show ?thesis
    by (cases "map_of (pq_prompts q) j")
      (auto simp: answer_lookup [OF assms] intro: lifecycle_expire_prompt lifecycle.answer)
qed (cases "map_of (pq_prompts q) j";
     simp add: take_once_allow_def consume_once_deny_def list_pending_def Let_def
       expire_prompts_lookup [OF assms] lifecycle_expire_prompt)+

lemma prompt_run_lifecycle:
  "prompts_wf q \<Longrightarrow> ids_left (length ops) q \<Longrightarrow> map_of (pq_prompts q) j = Some p \<Longrightarrow>
     \<exists>p'. map_of (pq_prompts (prompt_run ops q)) j = Some p' \<and> lifecycle\<^sup>*\<^sup>* p p'"
proof (induction ops arbitrary: q p)
  case (Cons x ops)
  from prompt_step_lookup [OF Cons.prems(1), of x j] Cons.prems(3)
  obtain p1 where p1: "map_of (pq_prompts (prompt_step x q)) j = Some p1" "lifecycle p p1" by auto
  have left: "ids_left (Suc (length ops)) q" using Cons.prems(2) by simp
  from Cons.IH [OF prompt_step_wf [OF Cons.prems(1) ids_left_next [OF left]] ids_left_step [OF left] p1(1)]
  show ?case using p1(2) by (auto intro: converse_rtranclp_into_rtranclp)
qed simp

lemma prompt_run_recorded:
  "prompts_wf q \<Longrightarrow> ids_left (length ops) q \<Longrightarrow>
     (\<And>i p. map_of (pq_prompts q) i = Some p \<Longrightarrow> answer_recorded p) \<Longrightarrow>
     map_of (pq_prompts (prompt_run ops q)) j = Some p \<Longrightarrow> answer_recorded p"
proof (induction ops arbitrary: q)
  case (Cons x ops)
  have left: "ids_left (Suc (length ops)) q" using Cons.prems(2) by simp
  have "answer_recorded p'" if "map_of (pq_prompts (prompt_step x q)) i = Some p'" for i p'
    using prompt_step_lookup [OF Cons.prems(1), of x i] Cons.prems(3) that lifecycle_recorded by fastforce
  from Cons.IH [OF prompt_step_wf [OF Cons.prems(1) ids_left_next [OF left]] ids_left_step [OF left] this]
  show ?case using Cons.prems(4) by simp
qed simp

text \<open>Where an allow token comes from.\<close>

lemma expire_once_allows:
  "pq_once_allows (PromptQueue_expire now q) =
     filter (\<lambda>e. now \<le> snd e + pq_ttl q) (pq_once_allows q)"
  by (simp add: PromptQueue_expire_def Let_def)

lemma answer_allows:
  assumes "map_of (pq_once_allows (snd (PromptQueue_answer n1 n2 i v sc q))) key = Some t"
  shows "map_of (filter (\<lambda>e. n1 \<le> snd e + pq_ttl q) (pq_once_allows q)) key = Some t \<or>
    v = Allow \<and> sc = RsOnce \<and> t = n2 \<and> fst (PromptQueue_answer n1 n2 i v sc q) =
      Inr \<lparr>an_id = i, an_key = key, an_verdict = Allow, an_scope = RsOnce, an_duplicate = False\<rparr>"
  using assms
  by (auto simp: answer_eq Let_def expire_once_allows map_of_update_eq split: option.splits if_splits)

lemma prompt_step_allows:
  assumes "map_of (pq_once_allows (prompt_step x q)) key = Some t" "hm_wf (pq_once_allows q)"
  shows "map_of (pq_once_allows q) key = Some t \<and> (\<forall>n1 n2. x \<noteq> QTakeAllow n1 n2 key) \<or>
    (\<exists>n1 i. x = QAnswer n1 t i Allow RsOnce \<and> fst (PromptQueue_answer n1 t i Allow RsOnce q) =
      Inr \<lparr>an_id = i, an_key = key, an_verdict = Allow, an_scope = RsOnce, an_duplicate = False\<rparr>)"
proof -
  have drop: "map_of (pq_once_allows q) key = Some t"
    if "map_of (filter (\<lambda>e. n \<le> snd e + pq_ttl q) (pq_once_allows q)) key = Some t" for n
    using that map_of_filter_val [OF assms(2), of "\<lambda>v. n \<le> v + pq_ttl q" key]
    by (simp split: option.splits if_splits)
  show ?thesis
  proof (cases x)
    case (QAnswer n1 n2 i v sc)
    then show ?thesis using answer_allows assms(1) drop by fastforce
  qed (use assms(1) drop in \<open>auto simp: prompt_op_defs Let_def expire_once_allows map_of_delete_eq
        split: option.splits if_splits\<close>)
qed

lemma prompt_step_allows_hm_wf:
  "hm_wf (pq_once_allows q) \<Longrightarrow> hm_wf (pq_once_allows (prompt_step x q))"
  by (cases x) (auto simp: prompt_op_defs Let_def expire_once_allows hm_wf_filter hm_wf_delete
      hm_wf_update split: option.split)

lemma prompt_run_allows_hm_wf:
  "hm_wf (pq_once_allows q) \<Longrightarrow> hm_wf (pq_once_allows (prompt_run ops q))"
  by (induction ops arbitrary: q) (simp_all add: prompt_step_allows_hm_wf)

lemma prompt_run_allows:
  assumes "pq_once_allows q0 = []" "map_of (pq_once_allows (prompt_run ops q0)) key = Some t"
  shows "\<exists>pre n1 i post. ops = pre @ QAnswer n1 t i Allow RsOnce # post \<and>
    fst (PromptQueue_answer n1 t i Allow RsOnce (prompt_run pre q0)) =
      Inr \<lparr>an_id = i, an_key = key, an_verdict = Allow, an_scope = RsOnce, an_duplicate = False\<rparr> \<and>
    (\<forall>a b. QTakeAllow a b key \<notin> set post)"
  using assms(2)
proof (induction ops rule: rev_induct)
  case Nil
  then show ?case by (simp add: assms(1))
next
  case (snoc x ops)
  have "hm_wf (pq_once_allows (prompt_run ops q0))"
    by (rule prompt_run_allows_hm_wf) (simp add: assms(1))
  moreover have "map_of (pq_once_allows (prompt_step x (prompt_run ops q0))) key = Some t"
    using snoc.prems by simp
  ultimately consider "map_of (pq_once_allows (prompt_run ops q0)) key = Some t"
      "\<forall>n1 n2. x \<noteq> QTakeAllow n1 n2 key"
    | n1 i where "x = QAnswer n1 t i Allow RsOnce"
      "fst (PromptQueue_answer n1 t i Allow RsOnce (prompt_run ops q0)) =
        Inr \<lparr>an_id = i, an_key = key, an_verdict = Allow, an_scope = RsOnce, an_duplicate = False\<rparr>"
    using prompt_step_allows by blast
  then show ?case
  proof cases
    case 1
    with snoc.IH obtain pre n1 i post
      where h: "ops = pre @ QAnswer n1 t i Allow RsOnce # post"
        "fst (PromptQueue_answer n1 t i Allow RsOnce (prompt_run pre q0)) =
          Inr \<lparr>an_id = i, an_key = key, an_verdict = Allow, an_scope = RsOnce, an_duplicate = False\<rparr>"
        "\<forall>a b. QTakeAllow a b key \<notin> set post"
      by blast
    have "ops @ [x] = pre @ QAnswer n1 t i Allow RsOnce # (post @ [x])" by (simp add: h(1))
    moreover have "\<forall>a b. QTakeAllow a b key \<notin> set (post @ [x])" using h(3) 1(2) by auto
    ultimately show ?thesis using h(2) by blast
  next
    case 2
    then show ?thesis by (intro exI [of _ ops] exI [of _ n1] exI [of _ i] exI [of _ "[]"]) simp
  qed
qed

text \<open>The list that the operator is shown, on an expired queue.\<close>

definition pending_prompts :: "prompt_queue \<Rightarrow> prompt list" where
  "pending_prompts q =
     List.map_filter (\<lambda>i. case map_of (pq_prompts q) i of
        None \<Rightarrow> None | Some p \<Rightarrow> if pr_state p = StPending then Some p else None) (pq_order q)"

lemma list_pending_eq: "fst (list_pending now q) = pending_prompts (PromptQueue_expire now q)"
  by (simp add: list_pending_def pending_prompts_def Let_def)

lemma pending_prompts_mem:
  assumes "prompts_wf q"
  shows "p \<in> set (pending_prompts q) \<longleftrightarrow> (\<exists>i. map_of (pq_prompts q) i = Some p \<and> pr_state p = StPending)"
proof -
  have "i \<in> set (pq_order q)" if "map_of (pq_prompts q) i = Some p" "pr_state p = StPending" for i
    using prompts_wfD(8) [OF assms] is_pending_iff that by blast
  then show ?thesis
    unfolding pending_prompts_def set_map_filter
    by (auto split: option.splits if_splits)
qed

lemma pending_prompts_sorted:
  assumes "prompts_wf q"
  shows "sorted_wrt (\<lambda>a b. pr_id a < pr_id b) (pending_prompts q)"
  unfolding pending_prompts_def
  by (rule sorted_wrt_map_filter [OF prompts_wfD(6) [OF assms]])
    (auto split: option.splits if_splits dest!: prompts_wfD(4) [OF assms])

lemma pending_prompts_by_key:
  assumes "prompts_wf q" "p \<in> set (pending_prompts q)"
  shows "map_of (pq_pending_by_key q) (pr_key p) = Some (pr_id p)"
  using assms pending_prompts_mem [OF assms(1)] prompts_wfD(4,5) [OF assms(1)] by auto

lemma pending_prompts_keys:
  assumes "prompts_wf q"
  shows "distinct (map pr_key (pending_prompts q))"
proof -
  have "distinct (pending_prompts q)"
    by (rule sorted_wrt_distinct [OF pending_prompts_sorted [OF assms]]) simp
  moreover have "inj_on pr_key (set (pending_prompts q))"
    using pending_prompts_by_key [OF assms] pending_prompts_mem [OF assms] prompts_wfD(4) [OF assms]
    by (intro inj_onI) (metis option.inject)
  ultimately show ?thesis by (simp add: distinct_map)
qed

lemma pending_prompts_length:
  assumes "prompts_wf q"
  shows "length (pending_prompts q) \<le> pq_capacity q"
proof -
  have "pr_key ` set (pending_prompts q) \<subseteq> keys (pq_pending_by_key q)"
    using pending_prompts_by_key [OF assms] in_keys_iff by fastforce
  then have "card (set (map pr_key (pending_prompts q))) \<le> length (pq_pending_by_key q)"
    by (metis card_length card_mono finite_imageI finite_set le_trans length_map list.set_map)
  then show ?thesis
    using prompts_wfD(9) [OF assms] distinct_card [OF pending_prompts_keys [OF assms]] by simp
qed

lemma expire_pending_lookup:
  assumes "prompts_wf q"
  shows "map_of (pq_prompts (PromptQueue_expire now q)) i = Some p \<and> pr_state p = StPending \<longleftrightarrow>
    map_of (pq_prompts q) i = Some p \<and> pr_state p = StPending \<and> now \<le> pr_expires_at p"
  by (cases "map_of (pq_prompts q) i") (auto simp: expire_prompts_lookup [OF assms] expire_prompt_keep)

section \<open>Properties\<close>

text \<open>
  C17: a decision is final. From any reachable queue, every prompt that exists is still there
  after any further operations, with its key and deadline; once it is answered or expired it never
  changes again.
\<close>

theorem prompt_decision_final:
  assumes "PromptQueue_new cap ttl = Some q0" "length ops + length ops2 < 2 ^ 64 - 1"
    and "map_of (pq_prompts (prompt_run ops q0)) i = Some p"
  shows "\<exists>p'. map_of (pq_prompts (prompt_run (ops @ ops2) q0)) i = Some p' \<and>
    pr_key p' = pr_key p \<and> pr_expires_at p' = pr_expires_at p \<and>
    (pr_state p = StAnswered \<or> pr_state p = StExpired \<longrightarrow> p' = p)"
proof -
  have "ids_left (length ops + length ops2) q0"
    using assms(1,2) by (auto simp: ids_left_def PromptQueue_new_def split: if_splits)
  from prompt_run_wf [OF new_wf [OF assms(1)] this]
  have "prompts_wf (prompt_run ops q0)" "ids_left (length ops2) (prompt_run ops q0)" by auto
  from prompt_run_lifecycle [OF this assms(3)] show ?thesis
    by (auto dest: lifecycles_fixed)
qed

text \<open>
  Answers are idempotent. Once an answer was accepted, any later answer to the same prompt,
  whatever it says and whatever happened in between, returns the first decision, marked duplicate.
\<close>

theorem prompt_answer_idempotent:
  assumes "PromptQueue_new cap ttl = Some q0" "length ops + length ops2 < 2 ^ 64 - 2"
    and "PromptQueue_answer n1 n2 i v sc (prompt_run ops q0) = (Inr a, q1)"
  shows "fst (PromptQueue_answer n3 n4 i v' sc' (prompt_run ops2 q1)) = Inr (a\<lparr>an_duplicate := True\<rparr>)"
proof -
  let ?q = "prompt_run ops q0"
  have "ids_left (length ops + Suc (length ops2)) q0" and rec0: "pq_prompts q0 = []"
    using assms(1,2) by (auto simp: ids_left_def PromptQueue_new_def split: if_splits)
  from prompt_run_wf [OF new_wf [OF assms(1)] this(1)]
  have wf: "prompts_wf ?q" "ids_left (Suc (length ops2)) ?q" by auto
  have q1: "q1 = prompt_step (QAnswer n1 n2 i v sc) ?q" using assms(3) by simp
  have wf1: "prompts_wf q1" "ids_left (length ops2) q1"
    unfolding q1 by (rule prompt_step_wf [OF wf(1) ids_left_next [OF wf(2)]], rule ids_left_step [OF wf(2)])
  have "ids_left (length ops) q0"
    using assms(1,2) by (auto simp: ids_left_def PromptQueue_new_def split: if_splits)
  then have rec: "answer_recorded p" if "map_of (pq_prompts ?q) i = Some p" for p
    using prompt_run_recorded [OF new_wf [OF assms(1)] _ _ that] rec0 by simp
  obtain p where p: "map_of (pq_prompts q1) i = Some p" "pr_state p = StAnswered" "pr_key p = an_key a"
      "pr_answer_verdict p = Some (an_verdict a)" "pr_answer_scope p = Some (an_scope a)" "an_id a = i"
    using assms(3) rec
    by (auto simp: answer_eq Let_def expire_prompts_lookup [OF wf(1)] settle_prompt_lookup
        answer_recorded_def expire_prompt_def split: option.splits if_splits
        intro: prompt_state.exhaust)
  from prompt_run_lifecycle [OF wf1 p(1)] p(2)
  have "map_of (pq_prompts (prompt_run ops2 q1)) i = Some p" by (auto dest: lifecycles_fixed)
  moreover have "prompts_wf (prompt_run ops2 q1)"
    using prompt_run_wf [of q1 ops2 0] wf1 by simp
  ultimately show ?thesis using p
    by (cases a) (simp add: answer_eq Let_def expire_prompts_lookup expire_prompt_terminal)
qed

text \<open>
  What the operator sees is bounded and complete. After any operations, listing gives exactly
  the stored prompts that are pending and not past their deadline, in creation order, at most one
  per executable and destination, and never more than the capacity.
\<close>

theorem prompt_list_exact:
  assumes "PromptQueue_new cap ttl = Some q0" "length ops < 2 ^ 64 - 1"
  shows "let ps = fst (list_pending now (prompt_run ops q0)) in
    set ps = {p. \<exists>i. map_of (pq_prompts (prompt_run ops q0)) i = Some p \<and> pr_state p = StPending \<and>
      now \<le> pr_expires_at p} \<and>
    sorted_wrt (\<lambda>a b. pr_id a < pr_id b) ps \<and> distinct (map pr_key ps) \<and> length ps \<le> cap"
proof -
  have cap: "pq_capacity (prompt_run ops q0) = cap" and left: "ids_left (length ops) q0"
    using assms by (auto simp: ids_left_def PromptQueue_new_def split: if_splits)
  have wf: "prompts_wf (prompt_run ops q0)"
    using prompt_run_wf [OF new_wf [OF assms(1)], of ops 0] left by simp
  note we = prompts_expire_wf [OF wf, of now]
  have "set (fst (list_pending now (prompt_run ops q0))) =
      {p. \<exists>i. map_of (pq_prompts (prompt_run ops q0)) i = Some p \<and> pr_state p = StPending \<and>
        now \<le> pr_expires_at p}"
    using pending_prompts_mem [OF we] expire_pending_lookup [OF wf] by (simp add: list_pending_eq set_eq_iff)
  with pending_prompts_sorted [OF we] pending_prompts_keys [OF we] pending_prompts_length [OF we] cap
  show ?thesis by (simp add: list_pending_eq)
qed

text \<open>
  C16: a once-allow token is never invented or reused. When the token of a key is granted after
  any sequence of operations, an operator answered a prompt for exactly this key with allow and
  scope once, at most the TTL ago, and no token of the key was taken since.
\<close>

theorem once_allow_sound:
  assumes "PromptQueue_new cap ttl = Some q0"
    and "fst (take_once_allow now1 now2 key (prompt_run ops q0))"
  shows "\<exists>pre n1 t i post. ops = pre @ QAnswer n1 t i Allow RsOnce # post \<and>
    fst (PromptQueue_answer n1 t i Allow RsOnce (prompt_run pre q0)) =
      Inr \<lparr>an_id = i, an_key = key, an_verdict = Allow, an_scope = RsOnce, an_duplicate = False\<rparr> \<and>
    now1 \<le> t + ttl \<and> now2 \<le> t + ttl \<and> (\<forall>a b. QTakeAllow a b key \<notin> set post)"
proof -
  have q0: "pq_once_allows q0 = []" "pq_ttl q0 = ttl"
    using assms(1) by (auto simp: PromptQueue_new_def split: if_splits)
  have "hm_wf (pq_once_allows (prompt_run ops q0))"
    by (rule prompt_run_allows_hm_wf) (simp add: q0)
  with assms(2) obtain t where t: "map_of (pq_once_allows (prompt_run ops q0)) key = Some t"
      "now1 \<le> t + ttl" "now2 \<le> t + ttl"
    using map_of_filter_val [of "pq_once_allows (prompt_run ops q0)" "\<lambda>v. now1 \<le> v + ttl" key] q0(2)
    by (auto simp: take_once_allow_def Let_def expire_once_allows split: option.splits if_splits)
  from prompt_run_allows [OF q0(1) t(1)] t(2,3) show ?thesis by blast
qed

definition key_demo :: "u16 \<Rightarrow> prompt_key" where
  "key_demo port = \<lparr>pk_executable = ''/usr/bin/curl'', pk_ipv4 = 0x7F000001, pk_port = port\<rparr>"

definition queue_demo :: prompt_queue where
  "queue_demo = \<lparr>pq_capacity = 2, pq_ttl = 10, pq_next_id = 1, pq_order = [], pq_prompts = [],
     pq_pending_by_key = [], pq_once_allows = [], pq_once_denies = []\<rparr>"

lemma queue_demo_new: "PromptQueue_new 2 10 = Some queue_demo"
  by (simp add: PromptQueue_new_def queue_demo_def)

lemmas prompts_eval = queue_demo_def key_demo_def PromptQueue_enqueue_def PromptQueue_answer_def
  PromptQueue_expire_def take_once_allow_def expired_prompts_def prompt_is_expired_def is_pending_def
  saturating_add_def Let_def list_pending_def List.map_filter_simps

theorem prompt_decision_final_witness:
  "\<exists>p'. map_of (pq_prompts (prompt_run ([QEnqueue 0 1 (key_demo 443), QAnswer 2 3 1 Allow RsOnce] @
      [QAnswer 4 5 1 Deny RsPermanent, QList 50]) queue_demo)) 1 = Some p' \<and>
    pr_state p' = StAnswered \<and> pr_answer_verdict p' = Some Allow"
proof -
  have "map_of (pq_prompts (prompt_run [QEnqueue 0 1 (key_demo 443), QAnswer 2 3 1 Allow RsOnce]
      queue_demo)) 1 = Some \<lparr>pr_id = 1, pr_key = key_demo 443, pr_state = StAnswered,
      pr_created_at = 1, pr_expires_at = 11, pr_answer_verdict = Some Allow,
      pr_answer_scope = Some RsOnce\<rparr>"
    by (simp add: prompts_eval)
  from prompt_decision_final [OF queue_demo_new _ this, of "[QAnswer 4 5 1 Deny RsPermanent, QList 50]"]
  show ?thesis by auto
qed

theorem prompt_answer_idempotent_witness:
  "fst (PromptQueue_answer 7 8 1 Deny RsPermanent (prompt_run [QTakeAllow 4 5 (key_demo 443)]
     (snd (PromptQueue_answer 2 3 1 Allow RsOnce (prompt_run [QEnqueue 0 1 (key_demo 443)] queue_demo))))) =
   Inr \<lparr>an_id = 1, an_key = key_demo 443, an_verdict = Allow, an_scope = RsOnce, an_duplicate = True\<rparr>"
proof -
  let ?q1 = "snd (PromptQueue_answer 2 3 1 Allow RsOnce (prompt_run [QEnqueue 0 1 (key_demo 443)] queue_demo))"
  have "PromptQueue_answer 2 3 1 Allow RsOnce (prompt_run [QEnqueue 0 1 (key_demo 443)] queue_demo) =
      (Inr \<lparr>an_id = 1, an_key = key_demo 443, an_verdict = Allow, an_scope = RsOnce,
        an_duplicate = False\<rparr>, ?q1)"
    by (simp add: prompts_eval)
  from prompt_answer_idempotent [OF queue_demo_new _ this, of "[QTakeAllow 4 5 (key_demo 443)]" 7 8]
  show ?thesis by simp
qed

theorem prompt_list_exact_witness:
  "length (fst (list_pending 5 (prompt_run [QEnqueue 0 1 (key_demo 1), QEnqueue 1 2 (key_demo 2),
      QEnqueue 2 3 (key_demo 3)] queue_demo))) \<le> 2"
  using prompt_list_exact [OF queue_demo_new, of "[QEnqueue 0 1 (key_demo 1),
      QEnqueue 1 2 (key_demo 2), QEnqueue 2 3 (key_demo 3)]" 5]
  by (simp add: Let_def)

theorem once_allow_sound_witness:
  "fst (take_once_allow 4 5 (key_demo 443)
      (prompt_run [QEnqueue 0 1 (key_demo 443), QAnswer 2 3 1 Allow RsOnce] queue_demo)) \<and>
   (\<exists>pre n1 t i post. [QEnqueue 0 1 (key_demo 443), QAnswer 2 3 1 Allow RsOnce] =
      pre @ QAnswer n1 t i Allow RsOnce # post)"
proof -
  have "fst (take_once_allow 4 5 (key_demo 443)
      (prompt_run [QEnqueue 0 1 (key_demo 443), QAnswer 2 3 1 Allow RsOnce] queue_demo))"
    by (simp add: prompts_eval)
  with once_allow_sound [OF queue_demo_new this] show ?thesis by blast
qed

end
