(* ===== verification/Dns.thy ===== *)
theory Dns
  imports Fifo RustStr
begin

text \<open>
  \<open>interfire-daemon/src/dns.rs\<close>: the bounded cache of observed name to address bindings. Names
  expire; an address is bound to the last name observed for it. \<open>observe\<close> adds a caller-chosen
  TTL to the current instant, which panics on overflow: the panic is the left result, with the
  cache as the panic leaves it.
\<close>

record dns_entry =
  de_hostname :: string
  de_expires_at :: instant

record dns_cache =
  dc_capacity :: usize
  dc_default_ttl :: duration
  dc_by_ip :: "(u32 \<times> dns_entry) list"
  dc_order :: "u32 list"

definition MAX_DNS_ENTRIES :: usize where
  "MAX_DNS_ENTRIES = 2048"

section \<open>Operations\<close>

definition DnsCache_new :: "usize \<Rightarrow> duration \<Rightarrow> dns_cache option" where
  "DnsCache_new capacity default_ttl =
     (if 0 < capacity
      then Some \<lparr>dc_capacity = capacity, dc_default_ttl = default_ttl, dc_by_ip = [], dc_order = []\<rparr>
      else None)"

definition DnsCache_with_defaults :: "dns_cache option" where
  "DnsCache_with_defaults = DnsCache_new MAX_DNS_ENTRIES (from_secs 300)"

definition DnsCache_expire :: "instant \<Rightarrow> dns_cache \<Rightarrow> dns_cache" where
  "DnsCache_expire now c =
     (let expired = map fst (filter (\<lambda>e. de_expires_at (snd e) \<le> now) (dc_by_ip c));
          by_ip = fold AList.delete expired (dc_by_ip c)
      in c\<lparr>dc_by_ip := by_ip,
           dc_order := filter (\<lambda>ip. map_of by_ip ip \<noteq> None) (dc_order c)\<rparr>)"

definition DnsCache_observe ::
    "instant \<Rightarrow> instant \<Rightarrow> string \<Rightarrow> u32 \<Rightarrow> duration option \<Rightarrow> dns_cache \<Rightarrow> dns_cache + dns_cache" where
  "DnsCache_observe now1 now2 hostname ipv4 ttl c =
     (let c = DnsCache_expire now1 c;
          hostname = to_ascii_lowercase hostname;
          ttl = (case ttl of None \<Rightarrow> dc_default_ttl c | Some t \<Rightarrow> t)
      in case instant_add now2 ttl of
           None \<Rightarrow> Inl c
         | Some expires_at \<Rightarrow>
             let entry = \<lparr>de_hostname = hostname, de_expires_at = expires_at\<rparr>
             in if map_of (dc_by_ip c) ipv4 \<noteq> None
                then Inr (c\<lparr>dc_by_ip := AList.update ipv4 entry (dc_by_ip c)\<rparr>)
                else
                  let (ord, by_ip) = evict (dc_capacity c) (dc_order c) (dc_by_ip c)
                  in Inr (c\<lparr>dc_order := ord @ [ipv4], dc_by_ip := AList.update ipv4 entry by_ip\<rparr>))"

definition hostname_for :: "instant \<Rightarrow> u32 \<Rightarrow> dns_cache \<Rightarrow> string option \<times> dns_cache" where
  "hostname_for now ipv4 c =
     (let c = DnsCache_expire now c
      in (map_option de_hostname (map_of (dc_by_ip c) ipv4), c))"

definition list_fresh :: "instant \<Rightarrow> instant \<Rightarrow> dns_cache \<Rightarrow> (string \<times> u32 \<times> u64) list \<times> dns_cache" where
  "list_fresh now1 now2 c =
     (let c = DnsCache_expire now1 c
      in (List.map_filter (\<lambda>ip. map_option
            (\<lambda>e. (de_hostname e, ip, word_of_nat (as_secs (de_expires_at e - now2))))
            (map_of (dc_by_ip c) ip)) (dc_order c), c))"

section \<open>Invariant\<close>

definition dns_wf :: "dns_cache \<Rightarrow> bool" where
  "dns_wf c \<longleftrightarrow> fifo_wf (dc_capacity c) (dc_order c, dc_by_ip c)"

lemma new_dns_wf: "DnsCache_new cap ttl = Some c \<Longrightarrow> dns_wf c"
  by (auto simp: DnsCache_new_def dns_wf_def fifo_wf_def split: if_splits)

lemma fold_delete_filter: "fold AList.delete ks m = filter (\<lambda>e. fst e \<notin> set ks) m"
proof (induction ks arbitrary: m)
  case (Cons k ks)
  have "filter (\<lambda>e. fst e \<notin> set ks) (AList.delete k m) = filter (\<lambda>e. fst e \<notin> set (k # ks)) m"
    unfolding AList.delete_eq filter_filter by (rule filter_cong) auto
  with Cons show ?case by simp
qed simp

lemma dns_expire_by_ip:
  assumes "dns_wf c"
  shows "dc_by_ip (DnsCache_expire now c) = filter (\<lambda>e. now < de_expires_at (snd e)) (dc_by_ip c)"
proof -
  have hm: "hm_wf (dc_by_ip c)" using assms by (simp add: dns_wf_def fifo_wf_def)
  have "fst e \<in> fst ` {x \<in> set (dc_by_ip c). de_expires_at (snd x) \<le> now} \<longleftrightarrow> de_expires_at (snd e) \<le> now"
    if "e \<in> set (dc_by_ip c)" for e
  proof
    assume "fst e \<in> fst ` {x \<in> set (dc_by_ip c). de_expires_at (snd x) \<le> now}"
    then obtain x where "x \<in> set (dc_by_ip c)" "de_expires_at (snd x) \<le> now" "fst x = fst e" by auto
    with that hm have "x = e" by (metis eq_key_imp_eq_value prod.collapse)
    with \<open>de_expires_at (snd x) \<le> now\<close> show "de_expires_at (snd e) \<le> now" by simp
  qed (use that in blast)
  then show ?thesis
    by (simp add: DnsCache_expire_def Let_def fold_delete_filter not_le cong: filter_cong)
qed

lemma dns_expire_fields [simp]:
  "dc_capacity (DnsCache_expire now c) = dc_capacity c"
  "dc_default_ttl (DnsCache_expire now c) = dc_default_ttl c"
  by (simp_all add: DnsCache_expire_def Let_def)

lemma dns_expire_order:
  "dc_order (DnsCache_expire now c) =
     filter (\<lambda>ip. map_of (dc_by_ip (DnsCache_expire now c)) ip \<noteq> None) (dc_order c)"
  by (simp add: DnsCache_expire_def Let_def)

lemma dns_expire_wf [wf_intros]:
  assumes "dns_wf c"
  shows "dns_wf (DnsCache_expire now c)"
proof -
  let ?m = "filter (\<lambda>e. now < de_expires_at (snd e)) (dc_by_ip c)"
  have "length ?m \<le> dc_capacity c"
    using assms le_trans [OF length_filter_le] by (auto simp: dns_wf_def fifo_wf_def)
  moreover have "set (filter (\<lambda>ip. map_of ?m ip \<noteq> None) (dc_order c)) = keys ?m"
  proof -
    have "keys ?m \<subseteq> set (dc_order c)" using assms by (auto simp: dns_wf_def fifo_wf_def)
    then show ?thesis using in_keys_iff [of _ ?m] by (simp only: set_filter) blast
  qed
  ultimately show ?thesis
    using assms unfolding dns_wf_def fifo_wf_def
    by (simp add: dns_expire_order dns_expire_by_ip [OF assms] hm_wf_filter)
qed

text \<open>The TTL an observation gets, and the cache it leaves in both cases.\<close>

definition effective_ttl :: "duration option \<Rightarrow> dns_cache \<Rightarrow> duration" where
  "effective_ttl ttl c = (case ttl of None \<Rightarrow> dc_default_ttl c | Some t \<Rightarrow> t)"

definition after_observe :: "dns_cache + dns_cache \<Rightarrow> dns_cache" where
  "after_observe r = (case r of Inl c \<Rightarrow> c | Inr c \<Rightarrow> c)"

lemma observe_eq:
  "DnsCache_observe now1 now2 hostname ipv4 ttl c =
     (let c' = DnsCache_expire now1 c
      in case instant_add now2 (effective_ttl ttl c) of
           None \<Rightarrow> Inl c'
         | Some expires_at \<Rightarrow>
             let s = fifo_put (dc_capacity c) ipv4
                   \<lparr>de_hostname = to_ascii_lowercase hostname, de_expires_at = expires_at\<rparr>
                   (dc_order c', dc_by_ip c')
             in Inr (c'\<lparr>dc_order := fst s, dc_by_ip := snd s\<rparr>))"
  by (auto simp: DnsCache_observe_def effective_ttl_def fifo_put_def fifo_add_def Let_def
      split: option.split prod.split)

lemma observe_fields [simp]:
  "dc_capacity (after_observe (DnsCache_observe n1 n2 h ip ttl c)) = dc_capacity c"
  "dc_default_ttl (after_observe (DnsCache_observe n1 n2 h ip ttl c)) = dc_default_ttl c"
  by (simp_all add: observe_eq after_observe_def Let_def split: option.split)

lemma observe_wf [wf_intros]:
  assumes "dns_wf c"
  shows "dns_wf (after_observe (DnsCache_observe n1 n2 h ip ttl c))"
  using dns_expire_wf [OF assms, of n1] fifo_put_wf
  by (auto simp: observe_eq after_observe_def dns_wf_def Let_def split: option.split)

lemma dns_expire_lookup:
  assumes "dns_wf c"
  shows "map_of (dc_by_ip (DnsCache_expire now c)) ip = Some e \<longleftrightarrow>
    map_of (dc_by_ip c) ip = Some e \<and> now < de_expires_at e"
proof -
  have "hm_wf (dc_by_ip c)" using assms by (simp add: dns_wf_def fifo_wf_def)
  from map_of_filter_val [OF this, of "\<lambda>v. now < de_expires_at v" ip]
  show ?thesis by (auto simp: dns_expire_by_ip [OF assms] split: option.splits)
qed

lemma observe_lookup:
  assumes "dns_wf c"
    and "map_of (dc_by_ip (after_observe (DnsCache_observe n1 n2 h ip ttl c))) ip' = Some e"
  shows "ip' = ip \<and> instant_add n2 (effective_ttl ttl c) = Some (de_expires_at e) \<and>
      de_hostname e = to_ascii_lowercase h \<or>
    map_of (dc_by_ip c) ip' = Some e \<and> (ip' = ip \<longrightarrow> instant_add n2 (effective_ttl ttl c) = None)"
proof (cases "instant_add n2 (effective_ttl ttl c)")
  case None
  then show ?thesis
    using assms(2) dns_expire_lookup [OF assms(1)] by (simp add: observe_eq after_observe_def Let_def)
next
  case (Some t)
  let ?c = "DnsCache_expire n1 c" and ?e = "\<lparr>de_hostname = to_ascii_lowercase h, de_expires_at = t\<rparr>"
  have put: "map_of (snd (fifo_put (dc_capacity c) ip ?e (dc_order ?c, dc_by_ip ?c))) ip' = Some e"
    using assms(2) Some by (simp add: observe_eq after_observe_def Let_def)
  have wf: "fifo_wf (dc_capacity c) (dc_order ?c, dc_by_ip ?c)"
    using dns_expire_wf [OF assms(1), of n1] by (simp add: dns_wf_def)
  show ?thesis
    using put fifo_put_same [of "dc_capacity c" ip ?e] fifo_put_other [OF wf, of ip' ip ?e] Some
      dns_expire_lookup [OF assms(1), of n1 ip' e]
    by (cases "ip' = ip") auto
qed

section \<open>Runs\<close>

datatype dns_op =
    DObserve instant instant string u32 "duration option"
  | DLookup instant u32
  | DList instant instant

fun dns_step :: "dns_op \<Rightarrow> dns_cache \<Rightarrow> dns_cache" where
  "dns_step (DObserve n1 n2 h ip ttl) c = after_observe (DnsCache_observe n1 n2 h ip ttl c)"
| "dns_step (DLookup now ip) c = snd (hostname_for now ip c)"
| "dns_step (DList n1 n2) c = snd (list_fresh n1 n2 c)"

definition dns_run :: "dns_op list \<Rightarrow> dns_cache \<Rightarrow> dns_cache" where
  "dns_run ops c = fold dns_step ops c"

lemma dns_step_wf: "dns_wf c \<Longrightarrow> dns_wf (dns_step x c)"
  by (cases x) (auto simp: hostname_for_def list_fresh_def Let_def intro: wf_intros)

lemma dns_step_fields [simp]:
  "dc_capacity (dns_step x c) = dc_capacity c" "dc_default_ttl (dns_step x c) = dc_default_ttl c"
  by (cases x; simp add: hostname_for_def list_fresh_def Let_def)+

lemma dns_wf_size: "dns_wf c \<Longrightarrow> length (dc_by_ip c) \<le> dc_capacity c"
  by (simp add: dns_wf_def fifo_wf_def)

interpretation dns_ops: bounded_machine dns_step dns_wf dc_capacity "\<lambda>c. length (dc_by_ip c)"
  by unfold_locales (simp_all add: dns_step_wf dns_wf_size)

lemma dns_run_keeps:
  "dns_wf c \<Longrightarrow> dns_wf (dns_run ops c) \<and> dc_capacity (dns_run ops c) = dc_capacity c \<and>
     dc_default_ttl (dns_run ops c) = dc_default_ttl c"
  using dns_ops.run_wf [of c ops] dns_ops.run_capacity [of c ops]
  by (simp add: dns_run_def) (induction ops arbitrary: c, simp_all add: dns_step_wf)

text \<open>The observations of an address that took effect.\<close>

definition binds :: "dns_cache \<Rightarrow> u32 \<Rightarrow> dns_op \<Rightarrow> bool" where
  "binds c ip x \<longleftrightarrow>
     (case x of DObserve n1 n2 h ip' ttl \<Rightarrow> ip' = ip \<and> instant_add n2 (effective_ttl ttl c) \<noteq> None
      | _ \<Rightarrow> False)"

lemma dns_run_entry:
  assumes "dns_wf c0" "dc_by_ip c0 = []" "map_of (dc_by_ip (dns_run ops c0)) ip = Some e"
  shows "\<exists>pre n1 n2 h ttl post. ops = pre @ DObserve n1 n2 h ip ttl # post \<and>
    de_hostname e = to_ascii_lowercase h \<and> de_expires_at e = n2 + effective_ttl ttl c0 \<and>
    (\<forall>x \<in> set post. \<not> binds c0 ip x)"
  using assms(3)
proof (induction ops rule: rev_induct)
  case Nil
  then show ?case by (simp add: dns_run_def assms(2))
next
  case (snoc x ops)
  let ?c = "dns_run ops c0"
  have wf: "dns_wf ?c" and ttl: "effective_ttl t ?c = effective_ttl t c0" for t
    using dns_run_keeps [OF assms(1), of ops] by (auto simp: effective_ttl_def split: option.split)
  have now: "map_of (dc_by_ip (dns_step x ?c)) ip = Some e" using snoc.prems by (simp add: dns_run_def)
  show ?case
  proof (cases "\<exists>n1 n2 h t. x = DObserve n1 n2 h ip t \<and> de_hostname e = to_ascii_lowercase h \<and>
      instant_add n2 (effective_ttl t c0) = Some (de_expires_at e)")
    case True
    then obtain n1 n2 h t where "x = DObserve n1 n2 h ip t" "de_hostname e = to_ascii_lowercase h"
      "instant_add n2 (effective_ttl t c0) = Some (de_expires_at e)" by blast
    then show ?thesis
      by (intro exI [of _ ops] exI [of _ n1] exI [of _ n2] exI [of _ h] exI [of _ t] exI [of _ "[]"])
        (simp add: instant_add_Some_iff)
  next
    case False
    then have "map_of (dc_by_ip ?c) ip = Some e \<and> \<not> binds c0 ip x"
      using now observe_lookup [OF wf] dns_expire_lookup [OF wf] ttl
      by (cases x) (fastforce simp: binds_def hostname_for_def list_fresh_def Let_def)+
    with snoc.IH obtain pre n1 n2 h t post where "ops = pre @ DObserve n1 n2 h ip t # post"
      "de_hostname e = to_ascii_lowercase h" "de_expires_at e = n2 + effective_ttl t c0"
      "\<forall>y \<in> set (post @ [x]). \<not> binds c0 ip y" by auto
    moreover from this(1) have "ops @ [x] = pre @ DObserve n1 n2 h ip t # (post @ [x])" by simp
    ultimately show ?thesis by blast
  qed
qed

section \<open>Properties\<close>

text \<open>
  A name is never stale or misattributed. Whatever was observed, looked up and listed before,
  the name returned for an address is the lower-cased name of the last observation of this address
  that took effect, and its TTL has not run out; the cache never holds more than its capacity.
\<close>

theorem dns_name_sound:
  assumes "DnsCache_new cap ttl0 = Some c0"
    and "fst (hostname_for now ip (dns_run ops c0)) = Some name"
  shows "length (dc_by_ip (dns_run ops c0)) \<le> cap \<and>
    (\<exists>pre n1 n2 h ttl post. ops = pre @ DObserve n1 n2 h ip ttl # post \<and>
       name = to_ascii_lowercase h \<and> now < n2 + effective_ttl ttl c0 \<and>
       (\<forall>x \<in> set post. \<not> binds c0 ip x))"
proof -
  have c0: "dns_wf c0" "dc_by_ip c0 = []" "dc_capacity c0 = cap"
    using assms(1) by (auto simp: new_dns_wf DnsCache_new_def split: if_splits)
  have wf: "dns_wf (dns_run ops c0)" "dc_capacity (dns_run ops c0) = cap"
    using dns_run_keeps [OF c0(1)] c0(3) by auto
  obtain e where e: "map_of (dc_by_ip (dns_run ops c0)) ip = Some e" "now < de_expires_at e"
      "name = de_hostname e"
    using assms(2) dns_expire_lookup [OF wf(1), of now ip] by (auto simp: hostname_for_def Let_def)
  with dns_run_entry [OF c0(1,2) e(1)] wf show ?thesis
    by (fastforce simp: dns_wf_def fifo_wf_def)
qed

definition dns_demo :: dns_cache where
  "dns_demo = \<lparr>dc_capacity = 1, dc_default_ttl = 5, dc_by_ip = [], dc_order = []\<rparr>"

theorem dns_name_sound_witness:
  "fst (hostname_for 4 9 (dns_run [DObserve 0 0 ''A.test'' 8 None, DObserve 1 2 ''B.test'' 9 (Some 3)]
      dns_demo)) = Some ''b.test'' \<and>
   length (dc_by_ip (dns_run [DObserve 0 0 ''A.test'' 8 None, DObserve 1 2 ''B.test'' 9 (Some 3)]
      dns_demo)) \<le> 1"
proof -
  have new: "DnsCache_new 1 5 = Some dns_demo" by (simp add: DnsCache_new_def dns_demo_def)
  have get: "fst (hostname_for 4 9 (dns_run [DObserve 0 0 ''A.test'' 8 None,
      DObserve 1 2 ''B.test'' 9 (Some 3)] dns_demo)) = Some ''b.test''"
    by (simp add: dns_run_def dns_demo_def hostname_for_def DnsCache_observe_def DnsCache_expire_def
        Let_def after_observe_def instant_add_def as_secs_def to_ascii_lowercase_def) code_simp
  from dns_name_sound [OF new get] get show ?thesis by blast
qed

end
