(* ===== verification/Recent.thy ===== *)
theory Recent
  imports Fifo RustStr
begin

text \<open>
  \<open>interfire-daemon/src/recent.rs\<close>: for each process identity (pid and start time) a short ring of
  the destinations it connected to, with the last verdict.
\<close>

record recent_dest =
  rd_ipv4 :: octets
  rd_port :: u16
  rd_verdict :: string

record recent_connects =
  rc_capacity_keys :: usize
  rc_per_key :: usize
  rc_order :: "(u32 \<times> u64) list"
  rc_entries :: "((u32 \<times> u64) \<times> recent_dest list) list"

definition RecentConnects_new :: "usize \<Rightarrow> usize \<Rightarrow> recent_connects option" where
  "RecentConnects_new capacity_keys per_key =
     (if 0 < capacity_keys \<and> 0 < per_key
      then Some \<lparr>rc_capacity_keys = capacity_keys, rc_per_key = per_key, rc_order = [], rc_entries = []\<rparr>
      else None)"

definition same_dest :: "recent_dest \<Rightarrow> recent_dest \<Rightarrow> bool" where
  "same_dest row dest \<longleftrightarrow> rd_ipv4 row = rd_ipv4 dest \<and> rd_port row = rd_port dest"

text \<open>\<open>iter_mut().find(..)\<close> with the verdict overwritten; \<^const>\<open>None\<close> when no row matches.\<close>

fun update_row :: "recent_dest \<Rightarrow> recent_dest list \<Rightarrow> recent_dest list option" where
  "update_row dest [] = None"
| "update_row dest (row # rows) =
     (if same_dest row dest then Some (row\<lparr>rd_verdict := rd_verdict dest\<rparr> # rows)
      else map_option ((#) row) (update_row dest rows))"

text \<open>\<^verbatim>\<open>while queue.len() >= per_key { queue.pop_front(); }\<close>\<close>

fun pop_while_full :: "usize \<Rightarrow> 'a list \<Rightarrow> 'a list" where
  "pop_while_full n [] = []"
| "pop_while_full n (x # xs) = (if n \<le> length (x # xs) then pop_while_full n xs else x # xs)"

definition push_dest :: "usize \<Rightarrow> recent_dest \<Rightarrow> recent_dest list \<Rightarrow> recent_dest list" where
  "push_dest per_key dest queue =
     (case update_row dest queue of
        Some queue' \<Rightarrow> queue'
      | None \<Rightarrow> pop_while_full per_key queue @ [dest])"

text \<open>The \<^const>\<open>None\<close> branch is the \<open>expect("just inserted")\<close>, which the insertion just above rules out.\<close>

definition RecentConnects_record ::
    "u32 \<Rightarrow> u64 \<Rightarrow> recent_dest \<Rightarrow> recent_connects \<Rightarrow> recent_connects" where
  "RecentConnects_record pid start_ticks dest rc =
     (let key = (pid, start_ticks);
          rc = (if map_of (rc_entries rc) key \<noteq> None then rc
                else
                  let (ord, entries) = evict (rc_capacity_keys rc) (rc_order rc) (rc_entries rc)
                  in rc\<lparr>rc_order := ord @ [key], rc_entries := AList.update key [] entries\<rparr>)
      in case map_of (rc_entries rc) key of
           None \<Rightarrow> rc
         | Some queue \<Rightarrow>
             rc\<lparr>rc_entries := AList.update key (push_dest (rc_per_key rc) dest queue) (rc_entries rc)\<rparr>)"

definition for_process :: "u32 \<Rightarrow> u64 \<Rightarrow> recent_connects \<Rightarrow> recent_dest list" where
  "for_process pid start_ticks rc =
     (case map_of (rc_entries rc) (pid, start_ticks) of None \<Rightarrow> [] | Some queue \<Rightarrow> queue)"

section \<open>Invariant\<close>

definition dest_id :: "recent_dest \<Rightarrow> octets \<times> u16" where
  "dest_id d = (rd_ipv4 d, rd_port d)"

definition ring_wf :: "usize \<Rightarrow> recent_dest list \<Rightarrow> bool" where
  "ring_wf per_key rows \<longleftrightarrow> length rows \<le> per_key \<and> distinct (map dest_id rows)"

definition recent_wf :: "recent_connects \<Rightarrow> bool" where
  "recent_wf rc \<longleftrightarrow> 0 < rc_per_key rc \<and> fifo_wf (rc_capacity_keys rc) (rc_order rc, rc_entries rc) \<and>
     (\<forall>k rows. map_of (rc_entries rc) k = Some rows \<longrightarrow> ring_wf (rc_per_key rc) rows)"

lemma RecentConnects_new_wf: "RecentConnects_new n m = Some rc \<Longrightarrow> recent_wf rc"
  by (auto simp: RecentConnects_new_def recent_wf_def fifo_wf_def split: if_splits)

lemma same_dest_id: "same_dest a b \<longleftrightarrow> dest_id a = dest_id b"
  by (auto simp: same_dest_def dest_id_def)

lemma update_row_ids: "update_row d rows = Some rows' \<Longrightarrow> map dest_id rows' = map dest_id rows"
  by (induction rows arbitrary: rows') (auto simp: dest_id_def split: if_splits)

lemma update_row_None: "update_row d rows = None \<longleftrightarrow> dest_id d \<notin> dest_id ` set rows"
  by (induction rows) (auto simp: same_dest_id)

lemma update_row_hit: "update_row d rows = Some rows' \<Longrightarrow> d \<in> set rows'"
proof (induction rows arbitrary: rows')
  case (Cons row rows)
  then show ?case
    by (auto simp: same_dest_def split: if_splits)
qed simp

lemma pop_while_full_suffix: "\<exists>pre. rows = pre @ pop_while_full n rows"
  by (induction rows) (auto, metis append_Cons)

lemma pop_while_full_length: "0 < n \<Longrightarrow> length (pop_while_full n rows) < n"
  by (induction rows) auto

lemma push_dest_wf:
  assumes "0 < n" "ring_wf n rows"
  shows "ring_wf n (push_dest n d rows)"
proof (cases "update_row d rows")
  case None
  obtain pre where pre: "rows = pre @ pop_while_full n rows" using pop_while_full_suffix by blast
  have "distinct (map dest_id (pop_while_full n rows))" "set (pop_while_full n rows) \<subseteq> set rows"
    using assms(2) unfolding ring_wf_def by (subst (asm) pre, simp) (subst (2) pre, simp)
  then show ?thesis
    using None pop_while_full_length [OF assms(1), of rows] update_row_None [of d rows]
    by (auto simp: push_dest_def ring_wf_def)
next
  case (Some rows')
  then show ?thesis
    using assms(2) update_row_ids [OF Some] by (simp add: push_dest_def ring_wf_def) (metis length_map)
qed

lemma push_dest_last: "d \<in> set (push_dest n d rows)"
  by (auto simp: push_dest_def dest: update_row_hit split: option.split)

text \<open>\<open>record\<close> is one insertion into the bounded store.\<close>

lemma record_as_fifo_put:
  "RecentConnects_record pid ticks dest rc =
     (let s = fifo_put (rc_capacity_keys rc) (pid, ticks)
            (push_dest (rc_per_key rc) dest (for_process pid ticks rc)) (rc_order rc, rc_entries rc)
      in rc\<lparr>rc_order := fst s, rc_entries := snd s\<rparr>)"
  by (auto simp: RecentConnects_record_def for_process_def fifo_put_def fifo_add_def Let_def
      map_of_update_eq update_twice split: option.split prod.split)

lemma for_process_record:
  "for_process p t (RecentConnects_record p t d rc) =
     push_dest (rc_per_key rc) d (for_process p t rc)"
  unfolding record_as_fifo_put Let_def
  by (subst for_process_def) (simp add: fifo_put_same)

lemma record_fields [simp]:
  "rc_capacity_keys (RecentConnects_record p t d rc) = rc_capacity_keys rc"
  "rc_per_key (RecentConnects_record p t d rc) = rc_per_key rc"
  by (simp_all add: record_as_fifo_put Let_def)

lemma for_process_wf: "recent_wf rc \<Longrightarrow> ring_wf (rc_per_key rc) (for_process p t rc)"
  by (auto simp: recent_wf_def for_process_def ring_wf_def split: option.split)

lemma record_wf [wf_intros]:
  assumes "recent_wf rc"
  shows "recent_wf (RecentConnects_record p t d rc)"
proof -
  let ?v = "push_dest (rc_per_key rc) d (for_process p t rc)"
  let ?s = "fifo_put (rc_capacity_keys rc) (p, t) ?v (rc_order rc, rc_entries rc)"
  have wf: "fifo_wf (rc_capacity_keys rc) (rc_order rc, rc_entries rc)" and pos: "0 < rc_per_key rc"
    and rings: "\<And>k rows. map_of (rc_entries rc) k = Some rows \<Longrightarrow> ring_wf (rc_per_key rc) rows"
    using assms by (auto simp: recent_wf_def)
  have "ring_wf (rc_per_key rc) rows" if "map_of (snd ?s) k = Some rows" for k rows
    using that rings push_dest_wf [OF pos for_process_wf [OF assms]]
      fifo_put_same [of "rc_capacity_keys rc" "(p, t)" ?v] fifo_put_other [OF wf, of k "(p, t)" ?v]
    by (cases "k = (p, t)") auto
  moreover have "fifo_wf (rc_capacity_keys rc) (fst ?s, snd ?s)" using fifo_put_wf [OF wf] by simp
  ultimately show ?thesis using pos by (simp add: recent_wf_def record_as_fifo_put Let_def)
qed

definition recent_run :: "(u32 \<times> u64 \<times> recent_dest) list \<Rightarrow> recent_connects \<Rightarrow> recent_connects" where
  "recent_run ops rc = fold (\<lambda>(p, t, d). RecentConnects_record p t d) ops rc"

lemma recent_wf_size: "recent_wf rc \<Longrightarrow> length (rc_entries rc) \<le> rc_capacity_keys rc"
  by (simp add: recent_wf_def fifo_wf_def)

interpretation recent_records: bounded_machine
  "\<lambda>(p, t, d). RecentConnects_record p t d" recent_wf rc_capacity_keys "\<lambda>rc. length (rc_entries rc)"
  by unfold_locales (auto simp: record_wf recent_wf_size)

lemma recent_run_wf: "recent_wf rc \<Longrightarrow> recent_wf (recent_run ops rc)"
  unfolding recent_run_def by (rule recent_records.run_wf)

lemma recent_run_fields [simp]:
  "rc_capacity_keys (recent_run ops rc) = rc_capacity_keys rc"
  "rc_per_key (recent_run ops rc) = rc_per_key rc"
  by (induction ops arbitrary: rc) (auto simp: recent_run_def)

section \<open>Properties\<close>

text \<open>
  Recent destinations are bounded and current. After any records, at most the configured
  number of processes is kept, each with at most \<open>per_key\<close> rows and one row per destination; and
  the row just recorded is shown with the verdict it was recorded with.
\<close>

theorem recent_bounded_current:
  assumes "RecentConnects_new cap per_key = Some rc0"
  shows "length (rc_entries (recent_run ops rc0)) \<le> cap \<and>
    length (for_process pid ticks (recent_run ops rc0)) \<le> per_key \<and>
    distinct (map dest_id (for_process pid ticks (recent_run ops rc0))) \<and>
    dest \<in> set (for_process pid ticks (RecentConnects_record pid ticks dest (recent_run ops rc0)))"
proof -
  have rc0: "recent_wf rc0" "rc_capacity_keys rc0 = cap" "rc_per_key rc0 = per_key"
    using assms by (auto simp: RecentConnects_new_wf RecentConnects_new_def split: if_splits)
  note wf = recent_run_wf [OF rc0(1), of ops]
  have "dest \<in> set (for_process pid ticks (RecentConnects_record pid ticks dest (recent_run ops rc0)))"
    by (simp add: for_process_record push_dest_last)
  with for_process_wf [OF wf, of pid ticks] wf rc0(2,3) show ?thesis
    by (simp add: ring_wf_def recent_wf_def fifo_wf_def)
qed

definition recent_demo :: recent_connects where
  "recent_demo = \<lparr>rc_capacity_keys = 1, rc_per_key = 1, rc_order = [], rc_entries = []\<rparr>"

theorem recent_bounded_current_witness:
  "length (for_process 1 9 (recent_run [(1, 9, \<lparr>rd_ipv4 = (1, 2, 3, 4), rd_port = 80, rd_verdict = ''deny''\<rparr>),
      (1, 9, \<lparr>rd_ipv4 = (1, 2, 3, 4), rd_port = 443, rd_verdict = ''allow''\<rparr>)] recent_demo)) \<le> 1"
  using recent_bounded_current [of 1 1 recent_demo] by (simp add: RecentConnects_new_def recent_demo_def)

end
