(* ===== verification/Stats.thy ===== *)
theory Stats
  imports Fifo RustStr
begin

text \<open>
  \<open>interfire-daemon/src/stats.rs\<close>: saturating totals and five bounded tables of per-key counters
  (host, executable, address, port, user).
\<close>

definition MAX_STATS_KEYS :: usize where
  "MAX_STATS_KEYS = 512"

record stats_counters =
  sc_hits :: u64
  sc_allow :: u64
  sc_deny :: u64
  sc_prompt :: u64

definition StatsCounters_default :: stats_counters where
  "StatsCounters_default = \<lparr>sc_hits = 0, sc_allow = 0, sc_deny = 0, sc_prompt = 0\<rparr>"

definition StatsCounters_bump :: "string \<Rightarrow> stats_counters \<Rightarrow> stats_counters" where
  "StatsCounters_bump verdict c =
     (let c = c\<lparr>sc_hits := saturating_add (sc_hits c) 1\<rparr>
      in if verdict = ''allow'' then c\<lparr>sc_allow := saturating_add (sc_allow c) 1\<rparr>
         else if verdict = ''deny'' then c\<lparr>sc_deny := saturating_add (sc_deny c) 1\<rparr>
         else if verdict = ''prompt'' then c\<lparr>sc_prompt := saturating_add (sc_prompt c) 1\<rparr>
         else c)"

record connect_stats =
  cs_executable :: string
  cs_host :: string
  cs_ipv4 :: string
  cs_port :: u16
  cs_uid :: u32
  cs_verdict :: string

record stats_summary =
  ss_connections :: u64
  ss_denied :: u64
  ss_uptime_secs :: u64
  ss_rules :: u64

record stats_store =
  st_started :: instant
  st_connections :: u64
  st_denied :: u64
  st_hosts :: "(string \<times> stats_counters) list"
  st_host_order :: "string list"
  st_procs :: "(string \<times> stats_counters) list"
  st_proc_order :: "string list"
  st_addrs :: "(string \<times> stats_counters) list"
  st_addr_order :: "string list"
  st_ports :: "(u16 \<times> stats_counters) list"
  st_port_order :: "u16 list"
  st_users :: "(u32 \<times> stats_counters) list"
  st_user_order :: "u32 list"

definition StatsStore_new :: "instant \<Rightarrow> stats_store" where
  "StatsStore_new now =
     \<lparr>st_started = now, st_connections = 0, st_denied = 0,
      st_hosts = [], st_host_order = [], st_procs = [], st_proc_order = [],
      st_addrs = [], st_addr_order = [], st_ports = [], st_port_order = [],
      st_users = [], st_user_order = []\<rparr>"

text \<open>The common body of \<open>bump_string\<close>, \<open>bump_port\<close> and \<open>bump_uid\<close>, which differ in the key type.\<close>

definition bump_key ::
    "'k \<Rightarrow> string \<Rightarrow> 'k list \<times> ('k \<times> stats_counters) list \<Rightarrow> 'k list \<times> ('k \<times> stats_counters) list" where
  "bump_key key verdict s =
     (let (ord, m) = (if map_of (snd s) key \<noteq> None then s
                      else
                        let (ord, m) = evict MAX_STATS_KEYS (fst s) (snd s)
                        in (ord @ [key], AList.update key StatsCounters_default m))
      in case map_of m key of
           Some counters \<Rightarrow> (ord, AList.update key (StatsCounters_bump verdict counters) m)
         | None \<Rightarrow> (ord, m))"

definition bump_string ::
    "(string \<times> stats_counters) list \<Rightarrow> string list \<Rightarrow> string \<Rightarrow> string
       \<Rightarrow> string list \<times> (string \<times> stats_counters) list" where
  "bump_string m ord key verdict = bump_key key verdict (ord, m)"

definition bump_port ::
    "(u16 \<times> stats_counters) list \<Rightarrow> u16 list \<Rightarrow> u16 \<Rightarrow> string
       \<Rightarrow> u16 list \<times> (u16 \<times> stats_counters) list" where
  "bump_port m ord key verdict = bump_key key verdict (ord, m)"

definition bump_uid ::
    "(u32 \<times> stats_counters) list \<Rightarrow> u32 list \<Rightarrow> u32 \<Rightarrow> string
       \<Rightarrow> u32 list \<times> (u32 \<times> stats_counters) list" where
  "bump_uid m ord key verdict = bump_key key verdict (ord, m)"

definition StatsStore_record :: "connect_stats \<Rightarrow> stats_store \<Rightarrow> stats_store" where
  "StatsStore_record hit s =
     (let v = cs_verdict hit;
          s = s\<lparr>st_connections := saturating_add (st_connections s) 1\<rparr>;
          s = (if v = ''deny'' then s\<lparr>st_denied := saturating_add (st_denied s) 1\<rparr> else s);
          hosts = bump_string (st_hosts s) (st_host_order s) (cs_host hit) v;
          procs = bump_string (st_procs s) (st_proc_order s) (cs_executable hit) v;
          addrs = bump_string (st_addrs s) (st_addr_order s) (cs_ipv4 hit) v;
          ports = bump_port (st_ports s) (st_port_order s) (cs_port hit) v;
          users = bump_uid (st_users s) (st_user_order s) (cs_uid hit) v
      in s\<lparr>st_host_order := fst hosts, st_hosts := snd hosts,
           st_proc_order := fst procs, st_procs := snd procs,
           st_addr_order := fst addrs, st_addrs := snd addrs,
           st_port_order := fst ports, st_ports := snd ports,
           st_user_order := fst users, st_users := snd users\<rparr>)"

definition record_unattributed_deny :: "stats_store \<Rightarrow> stats_store" where
  "record_unattributed_deny s =
     s\<lparr>st_connections := saturating_add (st_connections s) 1,
       st_denied := saturating_add (st_denied s) 1\<rparr>"

definition StatsStore_summary :: "instant \<Rightarrow> u64 \<Rightarrow> stats_store \<Rightarrow> stats_summary" where
  "StatsStore_summary now rules s =
     \<lparr>ss_connections = st_connections s, ss_denied = st_denied s,
      ss_uptime_secs = word_of_nat (as_secs (now - st_started s)), ss_rules = rules\<rparr>"

definition snapshot_string ::
    "(string \<times> stats_counters) list \<Rightarrow> string list \<Rightarrow> (string \<times> stats_counters) list" where
  "snapshot_string m ord = List.map_filter (\<lambda>k. map_option (\<lambda>c. (k, c)) (map_of m k)) (rev ord)"

definition StatsStore_hosts :: "stats_store \<Rightarrow> (string \<times> stats_counters) list" where
  "StatsStore_hosts s = snapshot_string (st_hosts s) (st_host_order s)"

definition StatsStore_procs :: "stats_store \<Rightarrow> (string \<times> stats_counters) list" where
  "StatsStore_procs s = snapshot_string (st_procs s) (st_proc_order s)"

definition StatsStore_addrs :: "stats_store \<Rightarrow> (string \<times> stats_counters) list" where
  "StatsStore_addrs s = snapshot_string (st_addrs s) (st_addr_order s)"

definition StatsStore_ports :: "stats_store \<Rightarrow> (string \<times> stats_counters) list" where
  "StatsStore_ports s =
     List.map_filter (\<lambda>p. map_option (\<lambda>c. (show_word p, c)) (map_of (st_ports s) p))
       (rev (st_port_order s))"

definition StatsStore_users :: "stats_store \<Rightarrow> (string \<times> stats_counters) list" where
  "StatsStore_users s =
     List.map_filter (\<lambda>u. map_option (\<lambda>c. (show_word u, c)) (map_of (st_users s) u))
       (rev (st_user_order s))"

section \<open>Invariant\<close>

definition stats_wf :: "stats_store \<Rightarrow> bool" where
  "stats_wf s \<longleftrightarrow> fifo_wf MAX_STATS_KEYS (st_host_order s, st_hosts s) \<and>
     fifo_wf MAX_STATS_KEYS (st_proc_order s, st_procs s) \<and>
     fifo_wf MAX_STATS_KEYS (st_addr_order s, st_addrs s) \<and>
     fifo_wf MAX_STATS_KEYS (st_port_order s, st_ports s) \<and>
     fifo_wf MAX_STATS_KEYS (st_user_order s, st_users s)"

lemma StatsStore_new_wf: "stats_wf (StatsStore_new now)"
  by (simp add: stats_wf_def StatsStore_new_def fifo_wf_def MAX_STATS_KEYS_def)

lemma bump_key_eq:
  "bump_key key v s =
     fifo_put MAX_STATS_KEYS key (StatsCounters_bump v
       (case map_of (snd s) key of None \<Rightarrow> StatsCounters_default | Some c \<Rightarrow> c)) s"
  by (auto simp: bump_key_def fifo_put_def fifo_add_def Let_def map_of_update_eq update_twice
      split: option.split prod.split)

lemma bump_key_wf: "fifo_wf MAX_STATS_KEYS s \<Longrightarrow> fifo_wf MAX_STATS_KEYS (bump_key k v s)"
  by (simp add: bump_key_eq fifo_put_wf)

lemmas bump_defs = bump_string_def bump_port_def bump_uid_def

lemma StatsStore_record_wf [wf_intros]: "stats_wf s \<Longrightarrow> stats_wf (StatsStore_record hit s)"
  by (simp add: stats_wf_def StatsStore_record_def Let_def bump_defs bump_key_wf)

lemma record_unattributed_deny_wf [wf_intros]: "stats_wf s \<Longrightarrow> stats_wf (record_unattributed_deny s)"
  by (simp add: stats_wf_def record_unattributed_deny_def)

section \<open>Runs\<close>

datatype stats_event = Attributed connect_stats | Unattributed

fun stats_step :: "stats_event \<Rightarrow> stats_store \<Rightarrow> stats_store" where
  "stats_step (Attributed hit) s = StatsStore_record hit s"
| "stats_step Unattributed s = record_unattributed_deny s"

definition stats_run :: "stats_event list \<Rightarrow> stats_store \<Rightarrow> stats_store" where
  "stats_run evs s = fold stats_step evs s"

fun counts_denied :: "stats_event \<Rightarrow> bool" where
  "counts_denied (Attributed hit) = (cs_verdict hit = ''deny'')"
| "counts_denied Unattributed = True"

lemma stats_step_wf [wf_intros]: "stats_wf s \<Longrightarrow> stats_wf (stats_step e s)"
  by (cases e) (auto intro: wf_intros)

lemma stats_wf_size:
  "stats_wf s \<Longrightarrow> length (st_hosts s) \<le> MAX_STATS_KEYS \<and> length (st_procs s) \<le> MAX_STATS_KEYS"
  by (simp add: stats_wf_def fifo_wf_def)

interpretation stats_events: bounded_machine
  stats_step stats_wf "\<lambda>s. MAX_STATS_KEYS" "\<lambda>s. max (length (st_hosts s)) (length (st_procs s))"
  by unfold_locales (simp_all add: stats_step_wf stats_wf_size)

lemma stats_run_wf: "stats_wf s \<Longrightarrow> stats_wf (stats_run evs s)"
  unfolding stats_run_def by (rule stats_events.run_wf)

lemma stats_step_totals:
  "unat (st_connections (stats_step e s)) = min (Suc (unat (st_connections s))) (2 ^ 64 - 1)"
  "unat (st_denied (stats_step e s)) =
     (if counts_denied e then min (Suc (unat (st_denied s))) (2 ^ 64 - 1) else unat (st_denied s))"
  by (cases e; simp add: StatsStore_record_def record_unattributed_deny_def Let_def saturating_add_unat)+

lemma unat_u64_le: "unat (w :: u64) \<le> 2 ^ 64 - 1"
  using unat_le_max [of w] by simp

lemma stats_run_totals:
  "unat (st_connections (stats_run evs s)) = min (unat (st_connections s) + length evs) (2 ^ 64 - 1)"
  "unat (st_denied (stats_run evs s)) =
     min (unat (st_denied s) + length (filter counts_denied evs)) (2 ^ 64 - 1)"
proof (induction evs arbitrary: s)
  case (Cons e evs)
  {
    case 1
    show ?case
      using Cons.IH(1) [of "stats_step e s"] by (simp add: stats_run_def stats_step_totals min_def)
  next
    case 2
    show ?case
      using Cons.IH(2) [of "stats_step e s"]
      by (simp add: stats_run_def stats_step_totals min_def)
  }
qed (use unat_u64_le in \<open>simp_all add: stats_run_def min_def\<close>)

lemma bump_key_counters:
  assumes "fifo_wf MAX_STATS_KEYS s"
  shows "map_of (snd (bump_key k v s)) k' = Some c \<Longrightarrow>
    k' = k \<and> c = StatsCounters_bump v (case map_of (snd s) k of None \<Rightarrow> StatsCounters_default | Some c \<Rightarrow> c)
    \<or> k' \<noteq> k \<and> map_of (snd s) k' = Some c"
  unfolding bump_key_eq
  using fifo_put_other [OF assms, of k' k "StatsCounters_bump v
      (case map_of (snd s) k of None \<Rightarrow> StatsCounters_default | Some c \<Rightarrow> c)"]
  by (cases "k' = k") (auto simp: fifo_put_same)

text \<open>A row is consistent when its verdict counters add up to its hits, up to saturation.\<close>

definition row_consistent :: "stats_counters \<Rightarrow> bool" where
  "row_consistent c \<longleftrightarrow>
     unat (sc_allow c) + unat (sc_deny c) + unat (sc_prompt c) = unat (sc_hits c) \<or>
     sc_hits c = - 1"

definition policy_verdict :: "string \<Rightarrow> bool" where
  "policy_verdict v \<longleftrightarrow> v = ''allow'' \<or> v = ''deny'' \<or> v = ''prompt''"

lemma saturating_max: "saturating_add (- 1) (1 :: 'a::len word) = - 1"
  by (simp add: saturating_add_def unsigned_minus_1_eq_mask mask_eq_exp_minus_1)

lemma bump_row_consistent:
  assumes "row_consistent c" "policy_verdict v"
  shows "row_consistent (StatsCounters_bump v c)"
proof (cases "sc_hits c = - 1")
  case True
  then show ?thesis by (simp add: row_consistent_def StatsCounters_bump_def Let_def saturating_max)
next
  case False
  then have hits: "unat (saturating_add (sc_hits c) 1) = Suc (unat (sc_hits c))"
    by (rule saturating_add_one)
  have sum: "unat (sc_allow c) + unat (sc_deny c) + unat (sc_prompt c) = unat (sc_hits c)"
    using assms(1) False by (simp add: row_consistent_def)
  have max: "unat (- 1 :: u64) = 2 ^ 64 - 1"
    by (simp add: unsigned_minus_1_eq_mask mask_eq_exp_minus_1)
  have "unat (sc_hits c) < 2 ^ 64 - 1"
    using False unat_u64_le [of "sc_hits c"] max by (metis le_neq_implies_less unsigned_word_eqI)
  then have "unat (saturating_add x 1) = Suc (unat x)"
    if "unat x \<le> unat (sc_hits c)" for x :: u64
    using that by (simp add: saturating_add_unat)
  then show ?thesis
    using assms(2) hits sum
    by (auto simp: row_consistent_def StatsCounters_bump_def Let_def policy_verdict_def)
qed

definition rows_consistent :: "stats_store \<Rightarrow> bool" where
  "rows_consistent s \<longleftrightarrow>
     (\<forall>k c. map_of (st_hosts s) k = Some c \<or> map_of (st_procs s) k = Some c \<or>
        map_of (st_addrs s) k = Some c \<longrightarrow> row_consistent c) \<and>
     (\<forall>k c. map_of (st_ports s) k = Some c \<longrightarrow> row_consistent c) \<and>
     (\<forall>k c. map_of (st_users s) k = Some c \<longrightarrow> row_consistent c)"

lemma bump_key_consistent:
  assumes "fifo_wf MAX_STATS_KEYS s" "policy_verdict v"
    and "\<And>k c. map_of (snd s) k = Some c \<Longrightarrow> row_consistent c"
    and "map_of (snd (bump_key k v s)) k' = Some c"
  shows "row_consistent c"
proof -
  have "row_consistent (case map_of (snd s) k of None \<Rightarrow> StatsCounters_default | Some c \<Rightarrow> c)"
    using assms(3) by (auto simp: row_consistent_def StatsCounters_default_def split: option.split)
  then show ?thesis
    using bump_key_counters [OF assms(1,4)] assms(3) bump_row_consistent [OF _ assms(2)] by auto
qed

lemma record_tables:
  "st_hosts (StatsStore_record hit s) = snd (bump_key (cs_host hit) (cs_verdict hit) (st_host_order s, st_hosts s))"
  "st_procs (StatsStore_record hit s) = snd (bump_key (cs_executable hit) (cs_verdict hit) (st_proc_order s, st_procs s))"
  "st_addrs (StatsStore_record hit s) = snd (bump_key (cs_ipv4 hit) (cs_verdict hit) (st_addr_order s, st_addrs s))"
  "st_ports (StatsStore_record hit s) = snd (bump_key (cs_port hit) (cs_verdict hit) (st_port_order s, st_ports s))"
  "st_users (StatsStore_record hit s) = snd (bump_key (cs_uid hit) (cs_verdict hit) (st_user_order s, st_users s))"
  by (simp_all add: StatsStore_record_def Let_def bump_defs)

lemma record_rows_consistent:
  assumes "stats_wf s" "rows_consistent s" "policy_verdict (cs_verdict hit)"
  shows "rows_consistent (StatsStore_record hit s)"
proof -
  note wf = assms(1) [unfolded stats_wf_def] and old = assms(2) [unfolded rows_consistent_def]
  have table: "row_consistent c"
    if "fifo_wf MAX_STATS_KEYS (ord, m)" "\<forall>k c. map_of m k = Some c \<longrightarrow> row_consistent c"
      "map_of (snd (bump_key key (cs_verdict hit) (ord, m))) k = Some c"
    for ord and m :: "('k \<times> stats_counters) list" and key k c
    using bump_key_consistent [OF that(1) assms(3) _ that(3)] that(2) by simp
  have "\<forall>k c. map_of (st_hosts s) k = Some c \<longrightarrow> row_consistent c"
    "\<forall>k c. map_of (st_procs s) k = Some c \<longrightarrow> row_consistent c"
    "\<forall>k c. map_of (st_addrs s) k = Some c \<longrightarrow> row_consistent c"
    "\<forall>k c. map_of (st_ports s) k = Some c \<longrightarrow> row_consistent c"
    "\<forall>k c. map_of (st_users s) k = Some c \<longrightarrow> row_consistent c"
    using old by blast+
  note t = table [OF _ this(1)] table [OF _ this(2)] table [OF _ this(3)]
    table [OF _ this(4)] table [OF _ this(5)]
  show ?thesis
    unfolding rows_consistent_def record_tables using wf t by blast
qed

lemma stats_run_consistent:
  "stats_wf s \<Longrightarrow> rows_consistent s \<Longrightarrow>
     (\<And>hit. Attributed hit \<in> set evs \<Longrightarrow> policy_verdict (cs_verdict hit)) \<Longrightarrow>
     rows_consistent (stats_run evs s)"
proof (induction evs arbitrary: s)
  case (Cons e evs)
  have "rows_consistent (record_unattributed_deny s) = rows_consistent s"
    by (simp add: rows_consistent_def record_unattributed_deny_def)
  then have "stats_wf (stats_step e s) \<and> rows_consistent (stats_step e s)"
    using Cons.prems by (cases e) (simp_all add: StatsStore_record_wf record_unattributed_deny_wf
        record_rows_consistent)
  with Cons.IH [of "stats_step e s"] Cons.prems(3) show ?case by (simp add: stats_run_def)
qed (simp add: stats_run_def)

lemma snapshot_bounded:
  "fifo_wf MAX_STATS_KEYS (ord, m) \<Longrightarrow> length (List.map_filter f (rev ord)) \<le> 512"
  using length_map_filter_le [of f "rev ord"] fifo_wf_length [of MAX_STATS_KEYS ord m]
  by (simp add: fifo_wf_def MAX_STATS_KEYS_def)

section \<open>Properties\<close>

text \<open>
  C24: the statistics are exact up to saturation and bounded. After any sequence of connects since
  start, the totals are the numbers of connects and of denied connects (unattributed connects
  count as denied), capped at the largest 64-bit value; every table shows at most 512 rows; and in
  each row the verdict counters add up to the hits.
\<close>

theorem stats_exact_and_bounded:
  assumes "\<And>hit. Attributed hit \<in> set evs \<Longrightarrow> policy_verdict (cs_verdict hit)"
  shows "let s = stats_run evs (StatsStore_new t0) in
    unat (ss_connections (StatsStore_summary now r s)) = min (length evs) (2 ^ 64 - 1) \<and>
    unat (ss_denied (StatsStore_summary now r s)) = min (length (filter counts_denied evs)) (2 ^ 64 - 1) \<and>
    (\<forall>rows \<in> {StatsStore_hosts s, StatsStore_procs s, StatsStore_addrs s, StatsStore_ports s,
        StatsStore_users s}. length rows \<le> 512) \<and>
    rows_consistent s"
proof -
  let ?s = "stats_run evs (StatsStore_new t0)"
  have wf: "stats_wf ?s" by (rule stats_run_wf [OF StatsStore_new_wf])
  have "rows_consistent (StatsStore_new t0)" by (simp add: rows_consistent_def StatsStore_new_def)
  from stats_run_consistent [OF StatsStore_new_wf this assms] have "rows_consistent ?s" .
  moreover have "\<forall>rows \<in> {StatsStore_hosts ?s, StatsStore_procs ?s, StatsStore_addrs ?s,
      StatsStore_ports ?s, StatsStore_users ?s}. length rows \<le> 512"
    using wf by (auto simp: stats_wf_def StatsStore_hosts_def StatsStore_procs_def StatsStore_addrs_def
        StatsStore_ports_def StatsStore_users_def snapshot_string_def intro: snapshot_bounded)
  moreover have "st_connections (StatsStore_new t0) = 0" "st_denied (StatsStore_new t0) = 0"
    by (simp_all add: StatsStore_new_def)
  ultimately show ?thesis by (simp add: Let_def StatsStore_summary_def stats_run_totals)
qed

definition hit_demo :: "string \<Rightarrow> connect_stats" where
  "hit_demo v = \<lparr>cs_executable = ''/usr/bin/curl'', cs_host = ''example.com'', cs_ipv4 = ''93.184.216.34'',
     cs_port = 443, cs_uid = 1000, cs_verdict = v\<rparr>"

theorem stats_exact_and_bounded_witness:
  "unat (ss_connections (StatsStore_summary 9 0 (stats_run [Attributed (hit_demo ''deny''), Unattributed,
      Attributed (hit_demo ''allow'')] (StatsStore_new 0)))) = 3 \<and>
   unat (ss_denied (StatsStore_summary 9 0 (stats_run [Attributed (hit_demo ''deny''), Unattributed,
      Attributed (hit_demo ''allow'')] (StatsStore_new 0)))) = 2"
proof -
  let ?evs = "[Attributed (hit_demo ''deny''), Unattributed, Attributed (hit_demo ''allow'')]"
  have "policy_verdict (cs_verdict hit)" if "Attributed hit \<in> set ?evs" for hit
    using that by (auto simp: policy_verdict_def hit_demo_def)
  from stats_exact_and_bounded [of ?evs 0 9 0, OF this] show ?thesis
    by (simp add: Let_def hit_demo_def)
qed

end
