(* ===== verification/Policy.thy ===== *)
theory Policy
  imports Packet Prompts Dns Process Recent Stats
begin

text \<open>
  \<open>interfire-daemon/src/policy.rs\<close>: from a connect event to a packet verdict. The event is
  attributed to a process through the identity cache or \<open>/proc\<close>, single-use tokens come first, then
  the rules decide, and a connection without a rule is dropped and queued for the operator.
  The clock is a function \<open>t\<close> from the position of a reading in the handler to its value.
\<close>

section \<open>Data\<close>

record decision =
  d_key :: dest_key
  d_packet_verdict :: packet_verdict
  d_attributed :: bool
  d_prompt_id :: "u64 option"
  d_stats :: "connect_stats option"

text \<open>The four tables that \<open>decide\<close> borrows mutably.\<close>

record policy_tables =
  tb_cache :: process_cache
  tb_prompts :: prompt_queue
  tb_dns :: dns_cache
  tb_recent :: recent_connects

section \<open>Operations\<close>

text \<open>\<open>Path::display().to_string()\<close>.\<close>

definition display :: "path \<Rightarrow> string" where
  "display p = utf8_lossy p"

definition event_octets :: "tcp_connect_event \<Rightarrow> octets" where
  "event_octets ev = (let o4 = destination_octets ev in (o4 ! 0, o4 ! 1, o4 ! 2, o4 ! 3))"

definition attribute ::
    "procfs \<Rightarrow> tcp_connect_event \<Rightarrow> process_cache
       \<Rightarrow> (attribution_error + process_identity) \<times> process_cache" where
  "attribute P ev cache =
     (case (if ev_process_start_ticks ev \<noteq> 0
            then ProcessCache_get (ev_pid ev) (ev_process_start_ticks ev) cache else None) of
        Some cached \<Rightarrow> (Inr cached, cache)
      | None \<Rightarrow>
          (case resolve P (ev_pid ev) (ev_process_start_ticks ev) of
             Inl e \<Rightarrow> (Inl e, cache)
           | Inr identity \<Rightarrow> (Inr identity, ProcessCache_insert identity cache)))"

definition connection_from ::
    "instant \<Rightarrow> process_identity \<Rightarrow> tcp_connect_event \<Rightarrow> dns_cache \<Rightarrow> connection \<times> dns_cache" where
  "connection_from now identity ev dns =
     (let (hostname, dns) = hostname_for now (ev_destination_ipv4 ev) dns
      in (\<lparr>conn_executable = display (pi_executable identity), conn_protocol = Tcp,
           conn_direction = Outbound, conn_address = V4 (event_octets ev),
           conn_hostname = hostname, conn_port = ev_destination_port ev\<rparr>, dns))"

definition connect_stats_of ::
    "instant \<Rightarrow> process_identity \<Rightarrow> tcp_connect_event \<Rightarrow> dns_cache \<Rightarrow> string
       \<Rightarrow> connect_stats \<times> dns_cache" where
  "connect_stats_of now identity ev dns verdict =
     (let (conn, dns) = connection_from now identity ev dns;
          ipv4 = event_octets ev
      in (\<lparr>cs_executable = display (pi_executable identity),
           cs_host = (case conn_hostname conn of Some h \<Rightarrow> h | None \<Rightarrow> show_ipv4 ipv4),
           cs_ipv4 = show_ipv4 ipv4, cs_port = ev_destination_port ev,
           cs_uid = pi_uid identity, cs_verdict = verdict\<rparr>, dns))"

definition record_recent ::
    "process_identity \<Rightarrow> tcp_connect_event \<Rightarrow> string \<Rightarrow> recent_connects \<Rightarrow> recent_connects" where
  "record_recent identity ev verdict recent =
     RecentConnects_record (pi_pid identity) (pi_start_ticks identity)
       \<lparr>rd_ipv4 = event_octets ev, rd_port = ev_destination_port ev, rd_verdict = verdict\<rparr> recent"

definition prompt_key_of :: "process_identity \<Rightarrow> tcp_connect_event \<Rightarrow> prompt_key" where
  "prompt_key_of identity ev =
     \<lparr>pk_executable = display (pi_executable identity), pk_ipv4 = ev_destination_ipv4 ev,
      pk_port = ev_destination_port ev\<rparr>"

definition decide_attributed ::
    "(nat \<Rightarrow> instant) \<Rightarrow> process_identity \<Rightarrow> tcp_connect_event \<Rightarrow> rule_set \<Rightarrow> dest_key \<Rightarrow> policy_tables
       \<Rightarrow> decision \<times> policy_tables" where
  "decide_attributed t identity ev rules key tb =
     (let pkey = prompt_key_of identity ev;
          (allowed, prompts) = take_once_allow (t 0) (t 1) pkey (tb_prompts tb)
      in if allowed then
           let recent = record_recent identity ev ''allow'' (tb_recent tb);
               (stats, dns) = connect_stats_of (t 2) identity ev (tb_dns tb) ''allow''
           in (\<lparr>d_key = key, d_packet_verdict = Accept, d_attributed = True, d_prompt_id = None,
                d_stats = Some stats\<rparr>,
               tb\<lparr>tb_prompts := prompts, tb_dns := dns, tb_recent := recent\<rparr>)
         else
         let (denied, prompts) = consume_once_deny (t 2) pkey prompts
         in if denied then
              let recent = record_recent identity ev ''deny'' (tb_recent tb);
                  (stats, dns) = connect_stats_of (t 3) identity ev (tb_dns tb) ''deny''
              in (\<lparr>d_key = key, d_packet_verdict = Drop, d_attributed = True, d_prompt_id = None,
                   d_stats = Some stats\<rparr>,
                  tb\<lparr>tb_prompts := prompts, tb_dns := dns, tb_recent := recent\<rparr>)
            else
            let (conn, dns) = connection_from (t 3) identity ev (tb_dns tb);
                (verdict, prompt_id, label, prompts) =
                  (case RuleSet_verdict_for rules conn of
                     Allow \<Rightarrow> (Accept, None, ''allow'', prompts)
                   | Deny \<Rightarrow> (Drop, None, ''deny'', prompts)
                   | Prompt \<Rightarrow>
                       (case PromptQueue_enqueue (t 4) (t 5) pkey prompts of
                          (Created i, prompts) \<Rightarrow> (Drop, Some i, ''prompt'', prompts)
                        | (Deduped i, prompts) \<Rightarrow> (Drop, Some i, ''prompt'', prompts)
                        | (Full, prompts) \<Rightarrow> (Drop, None, ''prompt'', prompts)));
                recent = record_recent identity ev label (tb_recent tb)
            in (\<lparr>d_key = key, d_packet_verdict = verdict, d_attributed = True, d_prompt_id = prompt_id,
                 d_stats = Some \<lparr>cs_executable = display (pi_executable identity),
                   cs_host = (case conn_hostname conn of
                      Some h \<Rightarrow> h | None \<Rightarrow> show_ipv4 (event_octets ev)),
                   cs_ipv4 = show_ipv4 (event_octets ev), cs_port = ev_destination_port ev,
                   cs_uid = pi_uid identity, cs_verdict = label\<rparr>\<rparr>,
                tb\<lparr>tb_prompts := prompts, tb_dns := dns, tb_recent := recent\<rparr>))"

definition decide ::
    "procfs \<Rightarrow> (nat \<Rightarrow> instant) \<Rightarrow> tcp_connect_event \<Rightarrow> rule_set \<Rightarrow> policy_tables
       \<Rightarrow> decision \<times> policy_tables" where
  "decide P t ev rules tb =
     (let key = event_key ev
      in case attribute P ev (tb_cache tb) of
           (Inr identity, cache) \<Rightarrow>
             decide_attributed t identity ev rules key (tb\<lparr>tb_cache := cache\<rparr>)
         | (Inl _, cache) \<Rightarrow>
             (\<lparr>d_key = key, d_packet_verdict = Drop, d_attributed = False, d_prompt_id = None,
               d_stats = None\<rparr>, tb\<lparr>tb_cache := cache\<rparr>))"

section \<open>Attribution\<close>

lemma resolve_sound:
  assumes "resolve P pid expected = Inr idt"
  shows "pi_pid idt = pid" "expected \<noteq> 0 \<Longrightarrow> pi_start_ticks idt = expected"
  using assms by (auto simp: resolve_def Let_def split: if_splits)

lemma attribute_sound:
  assumes "process_wf cache" "attribute P ev cache = (Inr idt, cache')"
  shows "pi_pid idt = ev_pid ev" "ev_process_start_ticks ev \<noteq> 0 \<Longrightarrow> pi_start_ticks idt = ev_process_start_ticks ev"
proof -
  have "pi_pid idt = ev_pid ev \<and> (ev_process_start_ticks ev \<noteq> 0 \<longrightarrow> pi_start_ticks idt = ev_process_start_ticks ev)"
  proof (cases "ev_process_start_ticks ev \<noteq> 0 \<and>
      ProcessCache_get (ev_pid ev) (ev_process_start_ticks ev) cache = Some idt")
    case True
    then show ?thesis using assms(1) by (auto simp: ProcessCache_get_def process_wf_def)
  next
    case False
    then have "resolve P (ev_pid ev) (ev_process_start_ticks ev) = Inr idt"
      using assms(2) by (auto simp: attribute_def split: if_splits option.splits sum.splits)
    then show ?thesis using resolve_sound by blast
  qed
  then show "pi_pid idt = ev_pid ev"
    "ev_process_start_ticks ev \<noteq> 0 \<Longrightarrow> pi_start_ticks idt = ev_process_start_ticks ev" by auto
qed

lemma attribute_wf [wf_intros]: "process_wf cache \<Longrightarrow> process_wf (snd (attribute P ev cache))"
  by (auto simp: attribute_def process_insert_wf split: option.split sum.split)

section \<open>The tables stay well formed\<close>

definition tables_wf :: "policy_tables \<Rightarrow> bool" where
  "tables_wf tb \<longleftrightarrow> process_wf (tb_cache tb) \<and> prompts_wf (tb_prompts tb) \<and> dns_wf (tb_dns tb) \<and>
     recent_wf (tb_recent tb)"

lemma hostname_for_wf [wf_intros]: "dns_wf dns \<Longrightarrow> dns_wf (snd (hostname_for now ip dns))"
  by (simp add: hostname_for_def Let_def dns_expire_wf)

lemma connection_from_dns: "snd (connection_from now idt ev dns) = snd (hostname_for now (ev_destination_ipv4 ev) dns)"
  by (simp add: connection_from_def split: prod.split)

lemma connect_stats_dns: "snd (connect_stats_of now idt ev dns v) = snd (hostname_for now (ev_destination_ipv4 ev) dns)"
  by (simp add: connect_stats_of_def connection_from_def Let_def split: prod.split)

lemma take_once_allow_fields [simp]: "pq_next_id (snd (take_once_allow n1 n2 k q)) = pq_next_id q"
  by (simp add: take_once_allow_def Let_def)

lemma consume_once_deny_fields [simp]: "pq_next_id (snd (consume_once_deny n k q)) = pq_next_id q"
  by (simp add: consume_once_deny_def Let_def)

text \<open>The handler, one case per outcome, in terms of the operations it calls.\<close>

abbreviation allow_step :: "(nat \<Rightarrow> instant) \<Rightarrow> prompt_key \<Rightarrow> prompt_queue \<Rightarrow> bool \<times> prompt_queue" where
  "allow_step t k q \<equiv> take_once_allow (t 0) (t 1) k q"

abbreviation deny_step :: "(nat \<Rightarrow> instant) \<Rightarrow> prompt_key \<Rightarrow> prompt_queue \<Rightarrow> bool \<times> prompt_queue" where
  "deny_step t k q \<equiv> consume_once_deny (t 2) k (snd (allow_step t k q))"

abbreviation rule_step :: "(nat \<Rightarrow> instant) \<Rightarrow> process_identity \<Rightarrow> tcp_connect_event \<Rightarrow> rule_set \<Rightarrow> dns_cache \<Rightarrow> verdict" where
  "rule_step t idt ev rules dns \<equiv> RuleSet_verdict_for rules (fst (connection_from (t 3) idt ev dns))"

abbreviation enqueue_step ::
    "(nat \<Rightarrow> instant) \<Rightarrow> prompt_key \<Rightarrow> prompt_queue \<Rightarrow> enqueue_outcome \<times> prompt_queue" where
  "enqueue_step t k q \<equiv> PromptQueue_enqueue (t 4) (t 5) k (snd (deny_step t k q))"

lemma decide_attributed_prompts:
  "tb_prompts (snd (decide_attributed t idt ev rules key tb)) =
     (let k = prompt_key_of idt ev; q = tb_prompts tb in
      if fst (allow_step t k q) then snd (allow_step t k q)
      else if fst (deny_step t k q) then snd (deny_step t k q)
      else case rule_step t idt ev rules (tb_dns tb) of
             Prompt \<Rightarrow> snd (enqueue_step t k q) | _ \<Rightarrow> snd (deny_step t k q))"
  by (simp add: decide_attributed_def Let_def split: prod.split verdict.split enqueue_outcome.split)

lemma decide_attributed_verdict:
  "d_packet_verdict (fst (decide_attributed t idt ev rules key tb)) =
     (let k = prompt_key_of idt ev; q = tb_prompts tb in
      if fst (allow_step t k q) then Accept
      else if fst (deny_step t k q) then Drop
      else case rule_step t idt ev rules (tb_dns tb) of Allow \<Rightarrow> Accept | _ \<Rightarrow> Drop)"
  by (simp add: decide_attributed_def Let_def split: prod.split verdict.split enqueue_outcome.split)

lemma decide_attributed_prompt_id:
  "d_prompt_id (fst (decide_attributed t idt ev rules key tb)) =
     (let k = prompt_key_of idt ev; q = tb_prompts tb in
      if fst (allow_step t k q) \<or> fst (deny_step t k q) then None
      else case rule_step t idt ev rules (tb_dns tb) of
             Prompt \<Rightarrow> outcome_id (fst (enqueue_step t k q)) | _ \<Rightarrow> None)"
  by (simp add: decide_attributed_def Let_def split: prod.split verdict.split enqueue_outcome.split)

lemma decide_attributed_other:
  "tb_cache (snd (decide_attributed t idt ev rules key tb)) = tb_cache tb"
  "d_key (fst (decide_attributed t idt ev rules key tb)) = key"
  "d_attributed (fst (decide_attributed t idt ev rules key tb))"
  by (simp_all add: decide_attributed_def Let_def case_prod_unfold)

lemma decide_attributed_dns:
  "tb_dns (snd (decide_attributed t idt ev rules key tb)) =
     snd (hostname_for (if fst (allow_step t (prompt_key_of idt ev) (tb_prompts tb)) then t 2 else t 3)
       (ev_destination_ipv4 ev) (tb_dns tb))"
  by (simp add: decide_attributed_def Let_def case_prod_unfold connection_from_dns connect_stats_dns)

lemma decide_attributed_recent:
  "\<exists>label. tb_recent (snd (decide_attributed t idt ev rules key tb)) =
     record_recent idt ev label (tb_recent tb)"
  by (simp add: decide_attributed_def Let_def case_prod_unfold) blast

lemma decide_attributed_wf:
  assumes "tables_wf tb" "pq_next_id (tb_prompts tb) \<noteq> - 1"
  shows "tables_wf (snd (decide_attributed t idt ev rules key tb))"
proof -
  let ?tb = "snd (decide_attributed t idt ev rules key tb)"
  have wf: "process_wf (tb_cache tb)" "prompts_wf (tb_prompts tb)" "dns_wf (tb_dns tb)"
    "recent_wf (tb_recent tb)" using assms(1) by (auto simp: tables_wf_def)
  have "prompts_wf (tb_prompts ?tb)"
    unfolding decide_attributed_prompts Let_def
    using wf(2) assms(2) by (auto intro!: wf_intros split: verdict.split)
  moreover have "recent_wf (tb_recent ?tb)"
    using decide_attributed_recent [of t idt ev rules key tb] wf(4)
    by (auto simp: record_recent_def record_wf)
  ultimately show ?thesis
    using wf by (auto simp: tables_wf_def decide_attributed_other decide_attributed_dns intro: wf_intros)
qed

lemma decide_wf [wf_intros]:
  assumes "tables_wf tb" "pq_next_id (tb_prompts tb) \<noteq> - 1"
  shows "tables_wf (snd (decide P t ev rules tb))"
proof -
  have wf: "tables_wf (tb\<lparr>tb_cache := cache\<rparr>)" if "attribute P ev (tb_cache tb) = (r, cache)" for r cache
    using attribute_wf [of "tb_cache tb" P ev] assms(1) that by (simp add: tables_wf_def)
  then show ?thesis
    using decide_attributed_wf assms(2)
    by (auto simp: decide_def Let_def split: prod.split sum.split)
qed

lemma decide_key [simp]: "d_key (fst (decide P t ev rules tb)) = event_key ev"
  by (auto simp: decide_def Let_def decide_attributed_other split: prod.split sum.split)

section \<open>Properties\<close>


text \<open>
  A recycled pid never inherits another process's policy. An attributed event yields an
  identity with the event's pid, and with the event's start time when the event carries one;
  both for cached and for freshly resolved identities, after any earlier decisions.
\<close>

theorem attribution_matches_event:
  assumes "process_wf cache" "attribute P ev cache = (Inr idt, cache')"
  shows "pi_pid idt = ev_pid ev \<and>
    (ev_process_start_ticks ev \<noteq> 0 \<longrightarrow> pi_start_ticks idt = ev_process_start_ticks ev) \<and> process_wf cache'"
  using attribute_sound [OF assms] attribute_wf [OF assms(1), of P ev] assms(2) by auto

text \<open>
  An undecided connection is dropped and reaches the operator. With no token and no matching
  rule, the packet is dropped and either the returned prompt is pending in the queue for exactly
  this executable and destination, or the queue is full.
\<close>

theorem decide_prompts_operator:
  assumes "tables_wf tb" "pq_next_id (tb_prompts tb) \<noteq> - 1"
    and "attribute P ev (tb_cache tb) = (Inr idt, cache)"
    and "\<not> fst (allow_step t (prompt_key_of idt ev) (tb_prompts tb))"
    and "\<not> fst (deny_step t (prompt_key_of idt ev) (tb_prompts tb))"
    and "RuleSet_verdict_for rules (fst (connection_from (t 3) idt ev (tb_dns tb))) = Prompt"
  shows "d_packet_verdict (fst (decide P t ev rules tb)) = Drop \<and>
    (case d_prompt_id (fst (decide P t ev rules tb)) of
       Some i \<Rightarrow> \<exists>p. map_of (pq_prompts (tb_prompts (snd (decide P t ev rules tb)))) i = Some p \<and>
         pr_key p = prompt_key_of idt ev \<and> pr_state p = StPending
     | None \<Rightarrow> length (pq_pending_by_key (tb_prompts (snd (decide P t ev rules tb)))) =
         pq_capacity (tb_prompts tb))"
proof -
  let ?k = "prompt_key_of idt ev" and ?q = "snd (deny_step t (prompt_key_of idt ev) (tb_prompts tb))"
  have wf: "prompts_wf ?q" using assms(1) by (auto simp: tables_wf_def intro: wf_intros)
  have tb: "decide P t ev rules tb = decide_attributed t idt ev rules (event_key ev) (tb\<lparr>tb_cache := cache\<rparr>)"
    by (simp add: decide_def assms(3))
  have q: "tb_prompts (snd (decide P t ev rules tb)) = snd (PromptQueue_enqueue (t 4) (t 5) ?k ?q)"
    "d_prompt_id (fst (decide P t ev rules tb)) = outcome_id (fst (PromptQueue_enqueue (t 4) (t 5) ?k ?q))"
    "d_packet_verdict (fst (decide P t ev rules tb)) = Drop"
    using assms(4-6) by (simp_all add: tb decide_attributed_prompts decide_attributed_prompt_id
        decide_attributed_verdict Let_def)
  have cap: "pq_capacity ?q = pq_capacity (tb_prompts tb)"
    by (simp add: take_once_allow_def consume_once_deny_def Let_def)
  show ?thesis
    unfolding q cap [symmetric] using enqueue_result [OF wf, of "t 4" "t 5" ?k] by blast
qed

definition event_demo :: tcp_connect_event where
  "event_demo = \<lparr>ev_pid = 2, ev_process_start_ticks = 9, ev_destination_ipv4 = 0x7F000001,
     ev_destination_port = 443, ev_reserved = 0\<rparr>"

definition tables_demo :: policy_tables where
  "tables_demo = \<lparr>tb_cache = \<lparr>pc_capacity = 1, pc_entries = [((2, 9), identity_demo 2)], pc_order = [(2, 9)]\<rparr>,
     tb_prompts = queue_demo, tb_dns = dns_demo, tb_recent = recent_demo\<rparr>"

definition procfs_none :: procfs where
  "procfs_none = \<lparr>proc_read_to_string = \<lambda>_. Inl NotFound, proc_read_link = \<lambda>_. Inl NotFound,
     proc_read = \<lambda>_. Inl NotFound\<rparr>"

lemma tables_demo_wf: "tables_wf tables_demo"
  by (simp add: tables_wf_def tables_demo_def process_wf_def fifo_wf_def identity_demo_def
      new_wf [OF queue_demo_new] new_dns_wf [of 1 5] DnsCache_new_def dns_demo_def
      RecentConnects_new_wf [of 1 1] RecentConnects_new_def recent_demo_def)

lemma attribute_demo:
  "attribute procfs_none event_demo (tb_cache tables_demo) = (Inr (identity_demo 2), tb_cache tables_demo)"
  by (simp add: attribute_def event_demo_def tables_demo_def ProcessCache_get_def)

theorem attribution_matches_event_witness:
  "pi_pid (identity_demo 2) = ev_pid event_demo \<and>
   pi_start_ticks (identity_demo 2) = ev_process_start_ticks event_demo"
proof -
  have "process_wf (tb_cache tables_demo)" using tables_demo_wf by (simp add: tables_wf_def)
  from attribution_matches_event [OF this attribute_demo] show ?thesis by (simp add: event_demo_def)
qed

theorem decide_prompts_operator_witness:
  "d_packet_verdict (fst (decide procfs_none (\<lambda>_. 0) event_demo RuleSet_default tables_demo)) = Drop"
proof -
  have q: "tb_prompts tables_demo = queue_demo" "tb_dns tables_demo = dns_demo"
    by (simp_all add: tables_demo_def)
  have "pq_next_id (tb_prompts tables_demo) \<noteq> - 1"
    by (simp add: q queue_demo_def)
  moreover have "\<not> fst (allow_step (\<lambda>_. 0) (prompt_key_of (identity_demo 2) event_demo) (tb_prompts tables_demo))"
    "\<not> fst (deny_step (\<lambda>_. 0) (prompt_key_of (identity_demo 2) event_demo) (tb_prompts tables_demo))"
    by (simp_all add: q prompts_eval consume_once_deny_def)
  moreover have "RuleSet_verdict_for RuleSet_default
      (fst (connection_from 0 (identity_demo 2) event_demo (tb_dns tables_demo))) = Prompt"
    by (simp add: RuleSet_verdict_for_def RuleSet_default_def)
  ultimately show ?thesis
    using decide_prompts_operator [OF tables_demo_wf _ attribute_demo, of "\<lambda>_. 0" RuleSet_default]
    by blast
qed

end
