(* ===== verification/AuditLog.thy ===== *)
theory AuditLog
  imports Fifo Modes ProtoRows
begin

text \<open>
  The audit log of \<open>audit.rs\<close>: a bounded list of records in memory, a capped file on disk that
  is rewritten from memory when the next line would exceed the cap, and subscribers that receive
  every record through a bounded \<open>mpsc::sync_channel\<close>.

  The channels of all subscribers live in a \<open>hub\<close>; the log's \<open>HashMap<String, SyncSender>\<close>
  maps an id to a channel of the hub. Replacing or removing an entry drops its sender.
\<close>

section \<open>Data\<close>

record log_record =
  lr_sequence :: u64
  lr_message :: string

datatype fanout_event = FRecord log_record | FReplaced

definition DEFAULT_AUDIT_MAX_BYTES :: nat where
  "DEFAULT_AUDIT_MAX_BYTES = MAX_AUDIT_FILE_BYTES"

definition SUBSCRIBER_CHANNEL_CAPACITY :: usize where
  "SUBSCRIBER_CHANNEL_CAPACITY = 256"

record channel =
  ch_queue :: "fanout_event list"
  ch_receiver :: bool
  ch_sender :: bool

record hub =
  hub_channels :: "(nat \<times> channel) list"
  hub_next :: nat

record audit_log =
  al_path :: path
  al_max_bytes :: u64
  al_max_records :: usize
  al_next_seq :: u64
  al_records :: "log_record list"
  al_subscribers :: "(string \<times> nat) list"

section \<open>Channels\<close>

datatype send_result = Sent | SendFull | SendDisconnected

definition sync_channel :: "hub \<Rightarrow> nat \<times> hub" where
  "sync_channel h =
     (hub_next h,
      h\<lparr>hub_channels := AList.update (hub_next h) \<lparr>ch_queue = [], ch_receiver = True, ch_sender = True\<rparr>
          (hub_channels h),
        hub_next := Suc (hub_next h)\<rparr>)"

definition try_send :: "nat \<Rightarrow> fanout_event \<Rightarrow> hub \<Rightarrow> send_result \<times> hub" where
  "try_send c ev h =
     (case map_of (hub_channels h) c of
        None \<Rightarrow> (SendDisconnected, h)
      | Some ch \<Rightarrow>
          if \<not> ch_receiver ch then (SendDisconnected, h)
          else if SUBSCRIBER_CHANNEL_CAPACITY \<le> length (ch_queue ch) then (SendFull, h)
          else (Sent, h\<lparr>hub_channels := AList.update c (ch\<lparr>ch_queue := ch_queue ch @ [ev]\<rparr>)
                  (hub_channels h)\<rparr>))"

definition drop_sender :: "nat \<Rightarrow> hub \<Rightarrow> hub" where
  "drop_sender c h =
     (case map_of (hub_channels h) c of
        None \<Rightarrow> h
      | Some ch \<Rightarrow> h\<lparr>hub_channels := AList.update c (ch\<lparr>ch_sender := False\<rparr>) (hub_channels h)\<rparr>)"

section \<open>Record lines\<close>

definition format_record :: "log_record \<Rightarrow> string" where
  "format_record record =
     (let message = replace_char NL '' '' (lr_message record) in
      show_word (lr_sequence record) @ [TAB] @ message @ [NL])"

definition parse_record :: "string \<Rightarrow> log_record option" where
  "parse_record line =
     (case split_once TAB line of
        None \<Rightarrow> None
      | Some (sequence, message) \<Rightarrow>
          (case parse_word sequence of
             None \<Rightarrow> None
           | Some n \<Rightarrow> Some \<lparr>lr_sequence = n, lr_message = message\<rparr>))"

definition encode_audit_frame :: "log_record \<Rightarrow> string" where
  "encode_audit_frame record =
     ''v1 audit '' @ show_word (lr_sequence record) @ ''|'' @ lr_message record @ [NL]"

section \<open>Disk\<close>

text \<open>\<open>u64::saturating_add\<close> on byte counts.\<close>

definition sat_len :: "nat \<Rightarrow> nat \<Rightarrow> nat" where
  "sat_len a b = min (a + b) (2 ^ 64 - 1)"

definition push_capped :: "nat \<Rightarrow> log_record \<Rightarrow> log_record list \<Rightarrow> log_record list" where
  "push_capped mx r rs = (if length rs = mx then tl rs else rs) @ [r]"

fun load_lines :: "string list \<Rightarrow> audit_log \<Rightarrow> io_error + audit_log" where
  "load_lines [] log = Inr log"
| "load_lines (line # rest) log =
     (if \<not> utf8_valid line then Inl InvalidData
      else case parse_record line of
             None \<Rightarrow> load_lines rest log
           | Some record \<Rightarrow>
               load_lines rest (log\<lparr>al_next_seq := max (al_next_seq log) (saturating_add (lr_sequence record) 1),
                 al_records := push_capped (al_max_records log) record (al_records log)\<rparr>))"

definition load_from_disk :: "audit_log \<Rightarrow> fs \<Rightarrow> io_error + audit_log" where
  "load_from_disk log s =
     (if \<not> path_exists s (al_path log) then Inr log
      else if fails s (ReadFile (al_path log)) then Inl io_fault
      else case map_of (files s) (al_path log) of
             None \<Rightarrow> Inl NotFound
           | Some content \<Rightarrow> load_lines (str_lines content) log)"

text \<open>\<open>None\<close> is the panic of \<open>assert!(max_records > 0)\<close>.\<close>

definition AuditLog_open :: "path \<Rightarrow> u64 \<Rightarrow> usize \<Rightarrow> fs \<Rightarrow> audit_log io option" where
  "AuditLog_open p max_bytes max_records s =
     (if max_records = 0 then None
      else Some (io_then (fs_create_dir_all (case path_parent p of None \<Rightarrow> ''.'' | Some d \<Rightarrow> d) s) (\<lambda>_ s.
        (load_from_disk \<lparr>al_path = p, al_max_bytes = max_bytes, al_max_records = max_records,
           al_next_seq = 1, al_records = [], al_subscribers = []\<rparr> s, s))))"

definition encoded_len :: "log_record list \<Rightarrow> nat" where
  "encoded_len rs = fold (\<lambda>r a. sat_len a (length (format_record r))) rs 0"

fun trim_records :: "nat \<Rightarrow> log_record list \<Rightarrow> log_record list" where
  "trim_records mx [] = []"
| "trim_records mx (r # rs) = (if encoded_len (r # rs) \<le> mx then r # rs else trim_records mx rs)"

definition trim_to_disk_budget :: "audit_log \<Rightarrow> audit_log" where
  "trim_to_disk_budget log =
     log\<lparr>al_records := trim_records (unat (al_max_bytes log)) (al_records log)\<rparr>"

fun write_records :: "path \<Rightarrow> log_record list \<Rightarrow> fs \<Rightarrow> unit io" where
  "write_records p [] s = (Inr (), s)"
| "write_records p (r # rs) s = io_then (fs_write_all p (format_record r) s) (\<lambda>_ s. write_records p rs s)"

definition rewrite_disk_from_memory :: "audit_log \<Rightarrow> fs \<Rightarrow> unit io" where
  "rewrite_disk_from_memory log s =
     (let temporary = with_extension (al_path log) ''tmp'' in
      io_then (fs_open_truncate temporary 0x180 s) (\<lambda>_ s.
      io_then (write_records temporary (al_records log) s) (\<lambda>_ s.
      io_then (fs_sync_all temporary s) (\<lambda>_ s.
      io_then (fs_rename temporary (al_path log) s) (\<lambda>_ s.
      fs_set_permissions (al_path log) 0x180 s)))))"

definition persist_record :: "log_record \<Rightarrow> audit_log \<Rightarrow> fs \<Rightarrow> (io_error + unit) \<times> audit_log \<times> fs" where
  "persist_record record log s =
     (let line = format_record record;
          current = fs_len (al_path log) s in
      if unat (al_max_bytes log) < sat_len current (length line)
      then let log = trim_to_disk_budget log; (r, s) = rewrite_disk_from_memory log s in (r, log, s)
      else
        let (r, s) =
          io_then (fs_open_append (al_path log) 0x180 s) (\<lambda>_ s.
          io_then (fs_write_all (al_path log) line s) (\<lambda>_ s.
          fs_sync_all (al_path log) s))
        in (r, log, s))"

section \<open>Operations\<close>

fun fanout_to :: "fanout_event \<Rightarrow> (string \<times> nat) list \<Rightarrow> hub \<Rightarrow> string list \<times> hub" where
  "fanout_to ev [] h = ([], h)"
| "fanout_to ev ((sid, c) # rest) h =
     (let (r, h) = try_send c ev h; (dead, h) = fanout_to ev rest h
      in (if r = Sent then dead else sid # dead, h))"

definition remove_subscriber :: "string \<Rightarrow> audit_log \<times> hub \<Rightarrow> audit_log \<times> hub" where
  "remove_subscriber sid = (\<lambda>(log, h).
     (log\<lparr>al_subscribers := AList.delete sid (al_subscribers log)\<rparr>,
      case map_of (al_subscribers log) sid of None \<Rightarrow> h | Some c \<Rightarrow> drop_sender c h))"

definition fanout :: "fanout_event \<Rightarrow> audit_log \<times> hub \<Rightarrow> audit_log \<times> hub" where
  "fanout ev = (\<lambda>(log, h).
     let (dead, h) = fanout_to ev (al_subscribers log) h in fold remove_subscriber dead (log, h))"

definition AuditLog_append :: "string \<Rightarrow> audit_log \<times> hub \<times> fs \<Rightarrow> audit_log \<times> hub \<times> fs" where
  "AuditLog_append message = (\<lambda>(log, h, s).
     let record = \<lparr>lr_sequence = al_next_seq log, lr_message = message\<rparr>;
         log = log\<lparr>al_next_seq := saturating_add (al_next_seq log) 1,
           al_records := push_capped (al_max_records log) record (al_records log)\<rparr>;
         (_, log, s) = persist_record record log s;
         (log, h) = fanout (FRecord record) (log, h)
     in (log, h, s))"

definition AuditLog_tail :: "usize \<Rightarrow> audit_log \<Rightarrow> log_record list" where
  "AuditLog_tail limit log =
     (let limit = min limit (length (al_records log)) in rev (take limit (rev (al_records log))))"

definition AuditLog_since :: "u64 \<Rightarrow> audit_log \<Rightarrow> log_record list" where
  "AuditLog_since since log = filter (\<lambda>record. since < lr_sequence record) (al_records log)"

definition subscribe :: "string \<Rightarrow> audit_log \<times> hub \<Rightarrow> nat \<times> audit_log \<times> hub" where
  "subscribe sid = (\<lambda>(log, h).
     let (c, h) = sync_channel h;
         h = (case map_of (al_subscribers log) sid of
                None \<Rightarrow> h
              | Some previous \<Rightarrow> drop_sender previous (snd (try_send previous FReplaced h)))
     in (c, log\<lparr>al_subscribers := AList.update sid c (al_subscribers log)\<rparr>, h))"

text \<open>
  A subscriber thread: the stream is any writer, \<open>events\<close> are the values \<open>recv\<close> returns before
  the channel closes. The result is true when the thread asks for \<open>id\<close> to be removed.
\<close>

type_synonym 'w writer = "string \<Rightarrow> 'w \<Rightarrow> bool \<times> 'w"

fun write_backlog :: "'w writer \<Rightarrow> log_record list \<Rightarrow> 'w \<Rightarrow> bool \<times> 'w" where
  "write_backlog wr [] w = (True, w)"
| "write_backlog wr (r # rs) w =
     (let (ok, w) = wr (encode_audit_frame r) w in if ok then write_backlog wr rs w else (False, w))"

fun receive_loop :: "'w writer \<Rightarrow> fanout_event list \<Rightarrow> 'w \<Rightarrow> bool \<times> 'w" where
  "receive_loop wr [] w = (True, w)"
| "receive_loop wr (FReplaced # evs) w = (False, snd (wr (''v1 audit-replaced'' @ [NL]) w))"
| "receive_loop wr (FRecord r # evs) w =
     (let (ok, w) = wr (encode_audit_frame r) w in if ok then receive_loop wr evs w else (True, w))"

definition run_subscriber ::
  "'w writer \<Rightarrow> fanout_event list \<Rightarrow> log_record list \<Rightarrow> 'w \<Rightarrow> bool \<times> 'w" where
  "run_subscriber wr events backlog w =
     (let (ok, w) = write_backlog wr backlog w in if ok then receive_loop wr events w else (True, w))"

text \<open>
  \<open>attach_subscriber\<close> up to the spawn: the new channel and the backlog the thread starts with.
  \<open>subscriber_exit\<close> is what \<open>spawn_subscriber\<close> does when the thread's loop returns, with the
  \<open>on_exit\<close> callback of \<open>ipc.rs\<close>.
\<close>

definition attach_subscriber ::
  "string \<Rightarrow> u64 \<Rightarrow> audit_log \<times> hub \<Rightarrow> (nat \<times> log_record list) \<times> audit_log \<times> hub" where
  "attach_subscriber sid since = (\<lambda>(log, h).
     let backlog = AuditLog_since since log; (c, log, h) = subscribe sid (log, h)
     in ((c, backlog), log, h))"

definition subscriber_exit :: "string \<Rightarrow> bool \<Rightarrow> audit_log \<times> hub \<Rightarrow> audit_log \<times> hub" where
  "subscriber_exit sid remove st = (if remove then remove_subscriber sid st else st)"

section \<open>The memory and disk bounds\<close>

lemma push_capped_length: "length rs \<le> mx \<Longrightarrow> 0 < mx \<Longrightarrow> length (push_capped mx r rs) \<le> mx"
  by (cases rs) (auto simp: push_capped_def)

lemma trim_records_suffix: "\<exists>n. trim_records mx rs = drop n rs"
proof (induction rs)
  case (Cons r rs)
  then obtain n where "trim_records mx rs = drop n rs" by blast
  then have "trim_records mx (r # rs) = drop (if encoded_len (r # rs) \<le> mx then 0 else Suc n) (r # rs)"
    by simp
  then show ?case ..
qed simp

lemma trim_records_length: "length (trim_records mx rs) \<le> length rs"
  using trim_records_suffix [of mx rs] by auto

lemma trim_records_encoded: "encoded_len (trim_records mx rs) \<le> mx"
  by (induction rs) (auto simp: encoded_len_def)

lemma fold_sat_len:
  "fold (\<lambda>r a. sat_len a (f r)) rs a = (if rs = [] then a else min (a + sum_list (map f rs)) (2 ^ 64 - 1))"
proof (induction rs arbitrary: a)
  case (Cons r rs)
  have "fold (\<lambda>r a. sat_len a (f r)) (r # rs) a = fold (\<lambda>r a. sat_len a (f r)) rs (sat_len a (f r))"
    by simp
  also have "\<dots> = min (a + sum_list (map f (r # rs))) (2 ^ 64 - 1)"
    unfolding Cons.IH by (cases rs) (simp_all add: sat_len_def)
  finally show ?case by simp
qed simp

lemma encoded_len_exact:
  assumes "encoded_len rs \<le> unat (mb :: u64)" "mb \<noteq> - 1"
  shows "length (concat (map format_record rs)) \<le> unat mb"
proof -
  have "unat mb < 2 ^ 64 - 1"
    using saturating_add_one [OF assms(2)] unat_le_max [of "saturating_add mb 1"] by simp
  with assms(1) show ?thesis
    by (auto simp: encoded_len_def fold_sat_len length_concat comp_def split: if_splits)
qed

lemma write_records_files:
  "write_records t rs s = (Inr u, s') \<Longrightarrow> map_of (files s) t = Some c \<Longrightarrow>
     map_of (files s') t = Some (c @ concat (map format_record rs))"
  by (induction rs arbitrary: s c) (auto simp: io_then_Inr_iff fs_write_all_def hm_simps split: if_splits)

lemma write_records_other:
  "p \<noteq> t \<Longrightarrow> map_of (files (snd (write_records t rs s))) p = map_of (files s) p"
  by (induction rs arbitrary: s) (auto simp: fs_write_all_def hm_simps)

lemma write_records_fails: "fails (snd (write_records t rs s)) = fails s"
  by (induction rs arbitrary: s) (auto simp: fs_write_all_def)

lemma rewrite_files:
  assumes "with_extension (al_path log) ''tmp'' \<noteq> al_path log"
  shows "map_of (files (snd (rewrite_disk_from_memory log s))) (al_path log) \<in>
    {map_of (files s) (al_path log), Some (concat (map format_record (al_records log)))}"
proof -
  let ?t = "with_extension (al_path log) ''tmp''" and ?p = "al_path log"
  obtain r1 s1 where o: "fs_open_truncate ?t 0x180 s = (r1, s1)" by fastforce
  obtain r2 s2 where w: "write_records ?t (al_records log) s1 = (r2, s2)" by fastforce
  have p1: "map_of (files s1) ?p = map_of (files s) ?p"
    and t1: "r1 = Inr () \<Longrightarrow> map_of (files s1) ?t = Some []"
    using o assms by (auto simp: fs_open_truncate_def hm_simps split: if_splits)
  have p2: "map_of (files s2) ?p = map_of (files s) ?p"
    using write_records_other [of ?p ?t "al_records log" s1] assms p1 w by simp
  show ?thesis
  proof (cases "r1 = Inr () \<and> r2 = Inr ()")
    case True
    then have "map_of (files s2) ?t = Some (concat (map format_record (al_records log)))"
      using write_records_files [of ?t "al_records log" s1 "()" s2 "[]"] w t1 by simp
    then show ?thesis
      using True p2 assms
      by (simp add: rewrite_disk_from_memory_def Let_def o w fs_sync_all_def fs_rename_def fs_set_permissions_def hm_simps)
  next
    case False
    then show ?thesis
      using p1 p2 by (cases r1; cases r2) (auto simp: rewrite_disk_from_memory_def Let_def o w)
  qed
qed

lemma persist_record_log:
  "al_path (fst (snd (persist_record r log s))) = al_path log"
  "al_max_bytes (fst (snd (persist_record r log s))) = al_max_bytes log"
  "al_max_records (fst (snd (persist_record r log s))) = al_max_records log"
  "al_next_seq (fst (snd (persist_record r log s))) = al_next_seq log"
  "al_subscribers (fst (snd (persist_record r log s))) = al_subscribers log"
  "length (al_records (fst (snd (persist_record r log s)))) \<le> length (al_records log)"
  by (auto simp: persist_record_def Let_def trim_to_disk_budget_def case_prod_unfold trim_records_length)

definition disk_bounded :: "audit_log \<Rightarrow> fs \<Rightarrow> bool" where
  "disk_bounded log s \<longleftrightarrow>
     list_all (\<lambda>c. length c \<le> unat (al_max_bytes log)) (case map_of (files s) (al_path log) of None \<Rightarrow> [] | Some c \<Rightarrow> [c])"

lemma disk_bounded_iff:
  "disk_bounded log s \<longleftrightarrow> (\<forall>c. map_of (files s) (al_path log) = Some c \<longrightarrow> length c \<le> unat (al_max_bytes log))"
  by (simp add: disk_bounded_def split: option.split)

lemma append_line_files:
  "map_of (files (snd (io_then (fs_open_append p md s) (\<lambda>_ s.
      io_then (fs_write_all p line s) (\<lambda>_ s. fs_sync_all p s))))) p \<in>
    {map_of (files s) p, Some [], Some ((case map_of (files s) p of None \<Rightarrow> [] | Some c \<Rightarrow> c) @ line)}"
  by (auto simp: fs_open_append_def fs_write_all_def fs_sync_all_def path_exists_def hm_simps)

lemma persist_record_disk:
  assumes "with_extension (al_path log) ''tmp'' \<noteq> al_path log" "al_max_bytes log \<noteq> - 1"
    and "\<not> fails s (Metadata (al_path log))" "disk_bounded log s"
  shows "disk_bounded log (snd (snd (persist_record r log s)))"
proof (cases "unat (al_max_bytes log) < sat_len (fs_len (al_path log) s) (length (format_record r))")
  case True
  let ?log = "trim_to_disk_budget log"
  have "length (concat (map format_record (al_records ?log))) \<le> unat (al_max_bytes log)"
    by (rule encoded_len_exact [OF _ assms(2)]) (simp add: trim_to_disk_budget_def trim_records_encoded)
  moreover have "al_path ?log = al_path log" by (simp add: trim_to_disk_budget_def)
  ultimately show ?thesis
    using rewrite_files [of ?log s] assms(1,4) True
    by (auto simp: persist_record_def Let_def case_prod_unfold disk_bounded_iff)
next
  case False
  have "unat (al_max_bytes log) < 2 ^ 64 - 1"
    using saturating_add_one [OF assms(2)] unat_le_max [of "saturating_add (al_max_bytes log) 1"] by simp
  then have "fs_len (al_path log) s + length (format_record r) \<le> unat (al_max_bytes log)"
    using False by (auto simp: sat_len_def min_def split: if_splits)
  then have "(case map_of (files s) (al_path log) of None \<Rightarrow> 0 | Some c \<Rightarrow> length c) +
      length (format_record r) \<le> unat (al_max_bytes log)"
    using assms(3) by (simp add: fs_len_def)
  then show ?thesis
    using append_line_files [of "al_path log" "0x180" s "format_record r"] assms(4) False
    by (auto simp: persist_record_def Let_def case_prod_unfold disk_bounded_iff split: option.splits)
qed

lemma fold_remove_subscriber:
  "fst (fold remove_subscriber dead (log, h)) =
     log\<lparr>al_subscribers := filter (\<lambda>p. fst p \<notin> set dead) (al_subscribers log)\<rparr>"
proof (induction dead arbitrary: log h)
  case (Cons d dead)
  have "filter (\<lambda>p. fst p \<notin> set dead) (AList.delete d m) = filter (\<lambda>p. fst p \<notin> set (d # dead)) m" for m :: "(string \<times> nat) list"
    by (induction m) (auto simp: AList.delete_eq)
  moreover have "remove_subscriber d (log, h) =
      (log\<lparr>al_subscribers := AList.delete d (al_subscribers log)\<rparr>, snd (remove_subscriber d (log, h)))"
    by (simp add: remove_subscriber_def)
  ultimately show ?case
    using Cons.IH [of "log\<lparr>al_subscribers := AList.delete d (al_subscribers log)\<rparr>"
        "snd (remove_subscriber d (log, h))"]
    by simp
qed simp

lemma fanout_log:
  "fst (fanout ev (log, h)) = log\<lparr>al_subscribers :=
     filter (\<lambda>p. fst p \<notin> set (fst (fanout_to ev (al_subscribers log) h))) (al_subscribers log)\<rparr>"
  by (simp add: fanout_def case_prod_unfold Let_def fold_remove_subscriber)

lemma append_decompose:
  fixes message log h s
  defines "record \<equiv> \<lparr>lr_sequence = al_next_seq log, lr_message = message\<rparr>"
  defines "pushed \<equiv> log\<lparr>al_next_seq := saturating_add (al_next_seq log) 1,
    al_records := push_capped (al_max_records log) record (al_records log)\<rparr>"
  shows "AuditLog_append message (log, h, s) =
    (fst (fanout (FRecord record) (fst (snd (persist_record record pushed s)), h)),
     snd (fanout (FRecord record) (fst (snd (persist_record record pushed s)), h)),
     snd (snd (persist_record record pushed s)))"
  by (simp add: AuditLog_append_def Let_def case_prod_unfold record_def pushed_def)

lemma append_config:
  assumes "AuditLog_append message (log, h, s) = (log', h', s')"
  shows "al_path log' = al_path log" "al_max_bytes log' = al_max_bytes log"
    "al_max_records log' = al_max_records log"
    "al_next_seq log' = saturating_add (al_next_seq log) 1"
  using assms by (auto simp: append_decompose fanout_log persist_record_log)

lemma persist_fails: "fails (snd (snd (persist_record r log s))) = fails s"
  by (simp add: persist_record_def Let_def case_prod_unfold rewrite_disk_from_memory_def
      io_then_fails fails_preserved write_records_fails)

definition audit_bounded :: "audit_log \<times> hub \<times> fs \<Rightarrow> bool" where
  "audit_bounded = (\<lambda>(log, h, s).
     length (al_records log) \<le> al_max_records log \<and> disk_bounded log s)"

definition audit_ok :: "audit_log \<times> hub \<times> fs \<Rightarrow> bool" where
  "audit_ok = (\<lambda>(log, h, s).
     0 < al_max_records log \<and> al_max_bytes log \<noteq> - 1 \<and>
     with_extension (al_path log) ''tmp'' \<noteq> al_path log \<and> \<not> fails s (Metadata (al_path log)))"

lemma append_bounded:
  assumes "audit_ok st" "audit_bounded st"
  shows "audit_ok (AuditLog_append m st) \<and> audit_bounded (AuditLog_append m st)"
proof -
  obtain log h s where st: "st = (log, h, s)" by (cases st)
  let ?r = "\<lparr>lr_sequence = al_next_seq log, lr_message = m\<rparr>"
  let ?pushed = "log\<lparr>al_next_seq := saturating_add (al_next_seq log) 1,
    al_records := push_capped (al_max_records log) ?r (al_records log)\<rparr>"
  have "length (al_records ?pushed) \<le> al_max_records log"
    using assms by (simp add: st audit_ok_def audit_bounded_def push_capped_length)
  moreover have "disk_bounded ?pushed (snd (snd (persist_record ?r ?pushed s)))"
    using assms by (intro persist_record_disk) (auto simp: st audit_ok_def audit_bounded_def disk_bounded_iff split: option.splits)
  ultimately show ?thesis
    using assms persist_record_log(6) [of ?r ?pushed s]
    by (simp add: st audit_ok_def audit_bounded_def append_decompose fanout_log persist_record_log
        persist_fails disk_bounded_iff)
qed

interpretation audit_appends: bounded_machine
  AuditLog_append "\<lambda>st. audit_ok st \<and> audit_bounded st" "\<lambda>st. al_max_records (fst st)"
  "\<lambda>st. length (al_records (fst st))"
proof (unfold_locales, goal_cases)
  case (1 st m)
  then show ?case using append_bounded by blast
next
  case (2 st m)
  then show ?case by (cases st) (simp add: append_decompose fanout_log persist_record_log)
next
  case (3 st)
  then show ?case by (cases st) (simp add: audit_bounded_def)
qed



section \<open>Reopening\<close>

definition lastn :: "nat \<Rightarrow> 'a list \<Rightarrow> 'a list" where
  "lastn n xs = drop (length xs - n) xs"

lemma push_capped_lastn: "0 < mx \<Longrightarrow> push_capped mx r (lastn mx rs) = lastn mx (rs @ [r])"
  by (auto simp: push_capped_def lastn_def drop_Suc tl_drop Suc_diff_le not_le
      simp flip: drop_Suc)

lemma split_on_append_gen: "split_on c (a @ c # b) = split_on c a @ split_on c b"
  by (induction a) (auto split: list.split)

lemma str_lines_snoc:
  assumes "c = [] \<or> last c = NL" "NL \<notin> set body"
  shows "str_lines (c @ body @ [NL]) = str_lines c @ [strip_cr body]"
proof (cases "c = []")
  case True
  then show ?thesis using assms(2) by (simp add: str_lines_def split_on_append [of NL body "[]"])
next
  case False
  then obtain a where "c = a @ [NL]" using assms(1) by (metis append_butlast_last_id)
  then show ?thesis
    using assms(2) split_on_append_gen [of NL a "body @ [NL]"] split_on_append_gen [of NL a "[]"]
    by (simp add: str_lines_def split_on_append [of NL body "[]"] butlast_append)
qed

definition parse_all :: "string \<Rightarrow> log_record list" where
  "parse_all c = List.map_filter parse_record (str_lines c)"

definition next_of :: "log_record list \<Rightarrow> u64 \<Rightarrow> u64" where
  "next_of rs n = fold (\<lambda>r n. max n (saturating_add (lr_sequence r) 1)) rs n"

lemma load_lines_eq:
  assumes "list_all utf8_valid ls" "0 < al_max_records log" "al_records log = lastn (al_max_records log) rs"
  shows "load_lines ls log = Inr (log\<lparr>
    al_next_seq := next_of (List.map_filter parse_record ls) (al_next_seq log),
    al_records := lastn (al_max_records log) (rs @ List.map_filter parse_record ls)\<rparr>)"
  using assms
proof (induction ls arbitrary: log rs)
  case (Cons l ls)
  show ?case
  proof (cases "parse_record l")
    case None
    then show ?thesis using Cons by (simp add: List.map_filter_simps)
  next
    case (Some r)
    then show ?thesis
      using Cons.prems Cons.IH [of "log\<lparr>al_next_seq := max (al_next_seq log) (saturating_add (lr_sequence r) 1),
          al_records := push_capped (al_max_records log) r (al_records log)\<rparr>" "rs @ [r]"]
      by (simp add: List.map_filter_simps push_capped_lastn next_of_def)
  qed
qed (simp add: next_of_def List.map_filter_simps)

definition clean_message :: "string \<Rightarrow> bool" where
  "clean_message m \<longleftrightarrow> NL \<notin> set m \<and> (m = [] \<or> last m \<noteq> CR) \<and> utf8_valid m"

lemma replace_char_id: "c \<notin> set s \<Longrightarrow> replace_char c r s = s"
  by (induction s) (auto simp: replace_char_def)

lemma TAB_not_digit: "TAB \<notin> set (show_word w)" "NL \<notin> set (show_word w)"
  by (rule show_word_no_char; simp add: is_digit_def digit_val_def)+

lemma clean_line:
  assumes "clean_message (lr_message r)"
  shows "\<exists>body. format_record r = body @ [NL] \<and> NL \<notin> set body \<and> strip_cr body = body \<and>
    utf8_valid body \<and> parse_record body = Some r"
proof -
  let ?body = "show_word (lr_sequence r) @ TAB # lr_message r"
  have "utf8_valid ?body"
    using assms utf8_valid_append_ascii [of "show_word (lr_sequence r)" "TAB # lr_message r"]
      show_nat_digits [of _ "unat (lr_sequence r)"] is_digit_plain plain_ascii
    by (simp add: clean_message_def show_word_def)
  then show ?thesis
    using assms TAB_not_digit [of "lr_sequence r"]
    by (intro exI [of _ ?body])
      (auto simp: format_record_def replace_char_id clean_message_def strip_cr_def parse_record_def
        split_once_append)
qed


text \<open>
  The file holds the lines of a list of records whose last \<open>max_records\<close> are the ones in memory.
\<close>

definition audit_synced :: "audit_log \<Rightarrow> fs \<Rightarrow> bool" where
  "audit_synced log s \<longleftrightarrow>
     (\<exists>c. c = (case map_of (files s) (al_path log) of None \<Rightarrow> [] | Some c \<Rightarrow> c) \<and>
        (c = [] \<or> last c = NL) \<and> list_all utf8_valid (str_lines c) \<and>
        al_records log = lastn (al_max_records log) (parse_all c) \<and>
        list_all (\<lambda>r. clean_message (lr_message r)) (al_records log) \<and>
        list_all (\<lambda>r. saturating_add (lr_sequence r) 1 \<le> al_next_seq log) (parse_all c) \<and>
        (parse_all c \<noteq> [] \<longrightarrow> saturating_add (lr_sequence (last (parse_all c))) 1 = al_next_seq log))"

lemma next_of_exact:
  assumes "list_all (\<lambda>r. saturating_add (lr_sequence r) 1 \<le> m) rs" "n \<le> m"
    and "rs \<noteq> []" "saturating_add (lr_sequence (last rs)) 1 = m"
  shows "next_of rs n = m"
  using assms by (induction rs arbitrary: n) (auto simp: next_of_def max_def split: if_splits)

lemma one_le_saturating: "(1 :: u64) \<le> saturating_add n 1"
  using saturating_add_unat [of n 1] by (simp add: word_le_nat_alt min_def)

lemma reopen_synced:
  assumes "audit_synced log s" "no_faults s" "0 < al_max_records log"
  shows "\<exists>log'. AuditLog_open (al_path log) (al_max_bytes log) (al_max_records log) s = Some (Inr log', s) \<and>
    al_records log' = al_records log \<and>
    (al_records log \<noteq> [] \<longrightarrow> al_next_seq log' = al_next_seq log)"
proof (cases "map_of (files s) (al_path log)")
  case None
  then show ?thesis
    using assms
    by (simp add: AuditLog_open_def audit_synced_def no_faults_def fs_create_dir_all_def
        load_from_disk_def path_exists_def parse_all_def str_lines_def List.map_filter_simps lastn_def)
next
  case (Some c)
  have rs: "al_records log = lastn (al_max_records log) (parse_all c)" "list_all utf8_valid (str_lines c)"
    using assms(1) Some by (auto simp: audit_synced_def)
  have "next_of (parse_all c) 1 = al_next_seq log" if "al_records log \<noteq> []"
  proof (rule next_of_exact)
    show ne: "parse_all c \<noteq> []" using rs that by (auto simp: lastn_def)
    show "saturating_add (lr_sequence (last (parse_all c))) 1 = al_next_seq log"
      using ne assms(1) Some by (simp add: audit_synced_def)
    then show "1 \<le> al_next_seq log" using one_le_saturating by metis
  qed (use assms(1) Some in \<open>simp add: audit_synced_def\<close>)
  then show ?thesis
    using assms(2,3) Some rs
    by (auto simp: AuditLog_open_def no_faults_def fs_create_dir_all_def load_from_disk_def
        path_exists_def load_lines_eq [where rs = "[]"] lastn_def parse_all_def)
qed

lemma concat_lines:
  assumes "list_all (\<lambda>r. clean_message (lr_message r)) rs"
  defines "c \<equiv> concat (map format_record rs)"
  shows "(c = [] \<or> last c = NL) \<and> list_all utf8_valid (str_lines c) \<and> parse_all c = rs"
  using assms(1) unfolding c_def
proof (induction rs rule: rev_induct)
  case (snoc r rs)
  obtain body where body: "format_record r = body @ [NL]" "NL \<notin> set body" "strip_cr body = body"
      "utf8_valid body" "parse_record body = Some r"
    using clean_line [of r] snoc.prems by auto
  then show ?case
    using snoc str_lines_snoc [of "concat (map format_record rs)" body]
    by (simp add: parse_all_def List.map_filter_def)
qed (simp_all add: str_lines_def parse_all_def List.map_filter_simps)


lemma write_records_ok: "no_faults s \<Longrightarrow> fst (write_records t rs s) = Inr ()"
  by (induction rs arbitrary: s) (simp_all add: fs_write_all_def no_faults_def)

lemma rewrite_ok:
  assumes "no_faults s" "with_extension (al_path log) ''tmp'' \<noteq> al_path log"
  shows "map_of (files (snd (rewrite_disk_from_memory log s))) (al_path log) =
    Some (concat (map format_record (al_records log)))"
proof -
  let ?t = "with_extension (al_path log) ''tmp''"
  obtain s1 where o: "fs_open_truncate ?t 0x180 s = (Inr (), s1)" "map_of (files s1) ?t = Some []" "no_faults s1"
    using assms(1) by (simp add: fs_open_truncate_def no_faults_def hm_simps)
  obtain s2 where w: "write_records ?t (al_records log) s1 = (Inr (), s2)"
    using write_records_ok [OF o(3)] by (metis prod.collapse)
  have "map_of (files s2) ?t = Some (concat (map format_record (al_records log)))" "no_faults s2"
    using write_records_files [OF w o(2)] write_records_fails [of ?t "al_records log" s1] o(3) w
    by (simp_all add: no_faults_def)
  then show ?thesis
    by (simp add: rewrite_disk_from_memory_def Let_def o w fs_sync_all_def fs_rename_def
        fs_set_permissions_def no_faults_def path_exists_def hm_simps)
qed

lemma saturating_add_mono: "saturating_add (n :: u64) 1 \<le> m \<Longrightarrow> saturating_add n 1 \<le> saturating_add m 1"
  by (rule order.trans [OF _ saturating_add_le])

lemma push_capped_set: "set (push_capped mx r rs) \<subseteq> insert r (set rs)"
  by (cases rs) (auto simp: push_capped_def)

lemma synced_records_bound:
  "audit_synced log s \<Longrightarrow> list_all (\<lambda>r. saturating_add (lr_sequence r) 1 \<le> al_next_seq log) (al_records log)"
  by (auto simp: audit_synced_def list_all_iff lastn_def dest: in_set_dropD)

text \<open>The log with one more record, as \<open>append\<close> hands it to \<open>persist_record\<close>.\<close>

definition pushed :: "log_record \<Rightarrow> audit_log \<Rightarrow> audit_log" where
  "pushed r log = log\<lparr>al_next_seq := saturating_add (al_next_seq log) 1,
     al_records := push_capped (al_max_records log) r (al_records log)\<rparr>"

lemma pushed_records:
  assumes "audit_synced log s" "clean_message (lr_message r)" "lr_sequence r = al_next_seq log"
  shows "list_all (\<lambda>r. clean_message (lr_message r)) (al_records (pushed r log))"
    and "list_all (\<lambda>x. saturating_add (lr_sequence x) 1 \<le> al_next_seq (pushed r log)) (al_records (pushed r log))"
    and "last (al_records (pushed r log)) = r"
proof -
  have "list_all (\<lambda>r. clean_message (lr_message r)) (al_records log)" using assms(1) by (auto simp: audit_synced_def)
  then show "list_all (\<lambda>r. clean_message (lr_message r)) (al_records (pushed r log))"
    and "list_all (\<lambda>x. saturating_add (lr_sequence x) 1 \<le> al_next_seq (pushed r log)) (al_records (pushed r log))"
    using push_capped_set [of "al_max_records log" r "al_records log"] assms(2,3) synced_records_bound [OF assms(1)]
    by (fastforce simp: pushed_def list_all_iff intro: saturating_add_mono)+
  show "last (al_records (pushed r log)) = r" by (simp add: pushed_def push_capped_def)
qed

text \<open>Rewriting the file from what memory keeps.\<close>

lemma rewrite_synced:
  assumes synced: "audit_synced log s" and nf: "no_faults s" and r: "clean_message (lr_message r)" "lr_sequence r = al_next_seq log"
    and mr: "0 < al_max_records log" and t: "with_extension (al_path log) ''tmp'' \<noteq> al_path log"
    and lg: "lg = trim_to_disk_budget (pushed r log)"
  shows "audit_synced lg (snd (rewrite_disk_from_memory lg s))"
proof -
  note new = pushed_records [OF synced r]
  obtain n where n: "al_records lg = drop n (al_records (pushed r log))"
    using trim_records_suffix by (fastforce simp: lg trim_to_disk_budget_def)
  have disk: "map_of (files (snd (rewrite_disk_from_memory lg s))) (al_path log) =
      Some (concat (map format_record (al_records lg)))"
    using rewrite_ok [OF nf, of lg] t by (simp add: lg trim_to_disk_budget_def pushed_def)
  have "list_all (\<lambda>r. clean_message (lr_message r)) (al_records lg)"
    using new(1) n by (auto simp: list_all_iff dest: in_set_dropD)
  moreover note concat_lines [OF this]
  moreover have "length (al_records lg) \<le> al_max_records log"
    using push_capped_length [OF _ mr, of "al_records log" r] trim_records_length synced
    by (fastforce simp: lg trim_to_disk_budget_def pushed_def audit_synced_def lastn_def intro: order.trans)
  then have "al_records lg = lastn (al_max_records log) (al_records lg)" by (simp add: lastn_def)
  moreover have "lr_sequence (last (al_records lg)) = al_next_seq log" if "al_records lg \<noteq> []"
    using that new(3) unfolding n by (simp add: last_drop r)
  moreover have "list_all (\<lambda>x. saturating_add (lr_sequence x) 1 \<le> al_next_seq (pushed r log)) (al_records lg)"
    using new(2) n by (auto simp: list_all_iff dest: in_set_dropD)
  moreover have "al_path lg = al_path log" "al_max_records lg = al_max_records log"
      "al_next_seq lg = al_next_seq (pushed r log)" "al_next_seq (pushed r log) = saturating_add (al_next_seq log) 1"
    by (simp_all add: lg trim_to_disk_budget_def pushed_def)
  ultimately show ?thesis by (simp add: audit_synced_def disk)
qed

text \<open>Appending one line to the file.\<close>

lemma append_line_synced:
  assumes synced: "audit_synced log s" and nf: "no_faults s" and r: "clean_message (lr_message r)" "lr_sequence r = al_next_seq log"
    and mr: "0 < al_max_records log"
  shows "audit_synced (pushed r log) (snd (io_then (fs_open_append (al_path log) 0x180 s) (\<lambda>_ s.
      io_then (fs_write_all (al_path log) (format_record r) s) (\<lambda>_ s. fs_sync_all (al_path log) s))))"
    (is "audit_synced _ ?s")
proof -
  define c where "c = (case map_of (files s) (al_path log) of None \<Rightarrow> [] | Some c \<Rightarrow> c)"
  have old: "c = [] \<or> last c = NL" "list_all utf8_valid (str_lines c)" "al_records log = lastn (al_max_records log) (parse_all c)"
    "list_all (\<lambda>r. saturating_add (lr_sequence r) 1 \<le> al_next_seq log) (parse_all c)"
    using synced by (auto simp: audit_synced_def c_def)
  obtain body where body: "format_record r = body @ [NL]" "NL \<notin> set body" "strip_cr body = body"
      "utf8_valid body" "parse_record body = Some r"
    using clean_line [of r] r by auto
  have disk: "map_of (files ?s) (al_path log) = Some (c @ body @ [NL])"
    using nf by (auto simp: c_def body fs_open_append_def fs_write_all_def fs_sync_all_def no_faults_def
        path_exists_def hm_simps)
  have lines: "str_lines (c @ body @ [NL]) = str_lines c @ [body]"
    using str_lines_snoc [OF old(1) body(2)] body(3) by simp
  then have "parse_all (c @ body @ [NL]) = parse_all c @ [r]"
    using body(5) by (simp add: parse_all_def List.map_filter_def)
  then show ?thesis
    using old pushed_records(1) [OF synced r] lines body(4) mr r(2)
    by (auto simp: audit_synced_def disk pushed_def push_capped_lastn list_all_iff intro: saturating_add_mono)
qed

lemma persist_synced:
  assumes "audit_synced log s" "no_faults s" "clean_message message" "0 < al_max_records log"
    and "with_extension (al_path log) ''tmp'' \<noteq> al_path log" "r = \<lparr>lr_sequence = al_next_seq log, lr_message = message\<rparr>"
  shows "audit_synced (fst (snd (persist_record r (pushed r log) s))) (snd (snd (persist_record r (pushed r log) s)))"
  using rewrite_synced [OF assms(1,2) _ _ assms(4,5) refl, of r] append_line_synced [OF assms(1,2) _ _ assms(4), of r] assms(3,6)
  by (simp add: persist_record_def Let_def case_prod_unfold) (simp add: pushed_def)

lemma append_synced:
  assumes "audit_synced log s" "no_faults s" "clean_message m" "0 < al_max_records log"
    and "with_extension (al_path log) ''tmp'' \<noteq> al_path log"
    and "AuditLog_append m (log, h, s) = (log', h', s')"
  shows "audit_synced log' s' \<and> no_faults s'"
proof -
  have "audit_synced (l\<lparr>al_subscribers := x\<rparr>) s = audit_synced l s" for l s x
    by (simp add: audit_synced_def)
  then show ?thesis
    using assms(6) persist_synced [OF assms(1-5) refl, unfolded pushed_def] assms(2)
    by (auto simp: append_decompose fanout_log no_faults_def persist_fails)
qed

lemma append_all_synced:
  assumes "audit_synced log s" "no_faults s" "list_all clean_message messages" "0 < al_max_records log"
    and "with_extension (al_path log) ''tmp'' \<noteq> al_path log"
    and "fold AuditLog_append messages (log, h, s) = (log', h', s')"
  shows "audit_synced log' s' \<and> no_faults s' \<and> al_path log' = al_path log \<and>
    al_max_bytes log' = al_max_bytes log \<and> al_max_records log' = al_max_records log"
  using assms
proof (induction messages arbitrary: log h s)
  case (Cons m messages)
  obtain log1 h1 s1 where one: "AuditLog_append m (log, h, s) = (log1, h1, s1)" by (metis prod_cases3)
  show ?case
    using Cons.IH [of log1 s1 h1] Cons.prems append_synced [OF _ _ _ _ _ one] append_config [OF one] one
    by simp
qed simp

text \<open>
  C23: the audit log survives a restart. After any sequence of appends to a fresh log, with no I/O
  failure, opening the file again restores exactly the records that were in memory, and numbering
  continues where it stopped as long as a record is left, however often the byte cap forced a
  rewrite in between. Messages have no line feed and do not end in a carriage return.
\<close>

theorem audit_reopen_restores:
  assumes "AuditLog_open p mb mr s0 = Some (Inr log0, s)" "map_of (files s0) p = None" "no_faults s0"
    and "with_extension p ''tmp'' \<noteq> p" "list_all clean_message messages"
    and "fold AuditLog_append messages (log0, h, s) = (log, h', s')"
  shows "\<exists>log'. AuditLog_open p mb mr s' = Some (Inr log', s') \<and> al_records log' = al_records log \<and>
    (al_records log \<noteq> [] \<longrightarrow> al_next_seq log' = al_next_seq log)"
proof -
  have log0: "s = s0" "0 < mr" "log0 = \<lparr>al_path = p, al_max_bytes = mb, al_max_records = mr,
      al_next_seq = 1, al_records = [], al_subscribers = []\<rparr>"
    using assms(1-3)
    by (auto simp: AuditLog_open_def load_from_disk_def path_exists_def fs_create_dir_all_def
        no_faults_def split: if_splits)
  have "audit_synced log0 s"
    using assms(2)
    by (simp add: audit_synced_def log0 str_lines_def parse_all_def List.map_filter_simps lastn_def)
  then have "audit_synced log s' \<and> no_faults s' \<and> al_path log = p \<and> al_max_bytes log = mb \<and>
      al_max_records log = mr"
    using append_all_synced [OF _ _ assms(5) _ _ assms(6)] assms(3,4) by (simp add: log0)
  then show ?thesis
    using reopen_synced [of log s'] log0(2) by auto
qed


section \<open>Subscribers\<close>

definition queue_of :: "hub \<Rightarrow> nat \<Rightarrow> fanout_event list" where
  "queue_of h c = (case map_of (hub_channels h) c of None \<Rightarrow> [] | Some ch \<Rightarrow> ch_queue ch)"

definition deliverable :: "hub \<Rightarrow> nat \<Rightarrow> bool" where
  "deliverable h c =
     (case map_of (hub_channels h) c of
        None \<Rightarrow> False
      | Some ch \<Rightarrow> ch_receiver ch \<and> length (ch_queue ch) < SUBSCRIBER_CHANNEL_CAPACITY)"

lemma try_send_spec:
  "fst (try_send c ev h) = Sent \<longleftrightarrow> deliverable h c"
  "queue_of (snd (try_send c ev h)) c' =
     (if c' = c \<and> deliverable h c then queue_of h c @ [ev] else queue_of h c')"
  "c' \<noteq> c \<Longrightarrow> deliverable (snd (try_send c ev h)) c' = deliverable h c'"
  by (auto simp: try_send_def deliverable_def queue_of_def hm_simps split: option.split)

lemma drop_sender_queue: "queue_of (drop_sender c h) = queue_of h"
  by (rule ext) (auto simp: drop_sender_def queue_of_def hm_simps split: option.split)

lemma fanout_to_queue:
  "distinct (map snd subs) \<Longrightarrow> queue_of (snd (fanout_to ev subs h)) c =
     (if c \<in> snd ` set subs \<and> deliverable h c then queue_of h c @ [ev] else queue_of h c)"
proof (induction subs arbitrary: h)
  case (Cons p subs)
  then show ?case
    by (cases p; cases "c = snd p") (auto simp: case_prod_unfold Let_def try_send_spec image_iff)
qed simp

lemma fanout_to_dead:
  "distinct (map snd subs) \<Longrightarrow>
     set (fst (fanout_to ev subs h)) = fst ` {p \<in> set subs. \<not> deliverable h (snd p)}"
proof (induction subs arbitrary: h)
  case (Cons p subs)
  obtain sid d where p: "p = (sid, d)" by (cases p)
  have "{q \<in> set subs. \<not> deliverable (snd (try_send d ev h)) (snd q)} = {q \<in> set subs. \<not> deliverable h (snd q)}"
    using Cons.prems by (auto simp: p try_send_spec(3) image_iff)
  moreover have "{q \<in> set ((sid, d) # subs). \<not> deliverable h (snd q)} =
      (if deliverable h d then {} else {(sid, d)}) \<union> {q \<in> set subs. \<not> deliverable h (snd q)}"
    by auto
  ultimately show ?case
    using Cons by (simp add: p case_prod_unfold Let_def try_send_spec(1))
qed simp

lemma fold_remove_queue: "queue_of (snd (fold remove_subscriber dead st)) = queue_of (snd st)"
  by (induction dead arbitrary: st)
    (auto simp: remove_subscriber_def drop_sender_queue case_prod_unfold split: option.split)

text \<open>
  Every appended record reaches every live subscriber exactly once, in order. A subscriber
  whose stream is connected and whose channel has room keeps its subscription and finds the new
  record at the end of its queue; a disconnected or full one is dropped, so a slow reader can
  never hold more than 256 records or block the daemon.
\<close>

theorem audit_fanout_delivers:
  assumes "hm_wf (al_subscribers log)" "distinct (map snd (al_subscribers log))"
    and "map_of (al_subscribers log) sid = Some c"
    and "AuditLog_append message (log, h, s) = (log', h', s')"
  shows "if deliverable h c
    then map_of (al_subscribers log') sid = Some c \<and>
      queue_of h' c = queue_of h c @ [FRecord \<lparr>lr_sequence = al_next_seq log, lr_message = message\<rparr>] \<and>
      length (queue_of h' c) \<le> SUBSCRIBER_CHANNEL_CAPACITY
    else map_of (al_subscribers log') sid = None \<and> queue_of h' c = queue_of h c"
proof -
  let ?ev = "FRecord \<lparr>lr_sequence = al_next_seq log, lr_message = message\<rparr>"
  let ?subs = "al_subscribers log"
  let ?dead = "fst (fanout_to ?ev ?subs h)"
  have h': "queue_of h' = queue_of (snd (fanout_to ?ev ?subs h))"
    and subs': "al_subscribers log' = filter (\<lambda>p. fst p \<notin> set ?dead) ?subs"
    using assms(4)
    by (auto simp: append_decompose fanout_log fanout_def case_prod_unfold Let_def fold_remove_queue
        fold_remove_subscriber persist_record_log)
  have mem: "(sid, c) \<in> set ?subs" using assms(3) by (rule map_of_SomeD)
  then have "sid \<in> set ?dead \<longleftrightarrow> \<not> deliverable h c"
    using fanout_to_dead [OF assms(2), of ?ev h] assms(1)
    by (auto simp: image_iff dest: eq_key_imp_eq_value)
  moreover have "queue_of h' c = (if deliverable h c then queue_of h c @ [?ev] else queue_of h c)"
    using fanout_to_queue [OF assms(2), of ?ev h c] mem by (force simp: h')
  moreover have "length (queue_of h c) < SUBSCRIBER_CHANNEL_CAPACITY" if "deliverable h c"
    using that by (auto simp: deliverable_def queue_of_def split: option.splits)
  ultimately show ?thesis
    using assms(3) by (auto simp: subs' map_of_filter_key [where P = "\<lambda>k. k \<notin> set ?dead"])
qed


text \<open>
  A dying stream can take a newer subscription down. When a client reconnects under its id
  while its old stream is already broken, the old thread fails to write the record it still has
  queued, returns before it reads \<open>Replaced\<close>, and the exit callback removes the id: the new
  subscription is gone although its stream is healthy.
\<close>

theorem stale_stream_unsubscribes:
  assumes "map_of (al_subscribers log) sid = Some old" "old < hub_next h"
    and "queue_of h old = FRecord r # rest" "\<And>x w. \<not> fst (wr x w)"
    and "subscribe sid (log, h) = (c, log1, h1)"
  shows "map_of (al_subscribers log1) sid = Some c \<and>
    map_of (al_subscribers (fst (subscriber_exit sid
      (fst (run_subscriber wr (queue_of h1 old) [] w)) (log1, h1)))) sid = None"
proof -
  have "\<exists>evs. queue_of h1 old = FRecord r # evs"
    using assms(1,2,3,5)
    by (auto simp: subscribe_def sync_channel_def Let_def case_prod_unfold drop_sender_queue try_send_spec)
      (auto simp: queue_of_def hm_simps)
  moreover have "map_of (al_subscribers log1) sid = Some c"
    using assms(5) by (auto simp: subscribe_def Let_def case_prod_unfold hm_simps)
  ultimately show ?thesis
    using assms(4)
    by (auto simp: run_subscriber_def case_prod_unfold Let_def subscriber_exit_def remove_subscriber_def hm_simps)
qed

text \<open>
  The frame a subscriber is sent is read back by the client's parser as the same record,
  provided the message does not end in a line end.
\<close>

theorem audit_frame_round_trip:
  assumes "no_eol (lr_message r)"
  shows "AuditStreamRecord_parse (encode_audit_frame r) =
    Inr \<lparr>asr_sequence = lr_sequence r, asr_message = lr_message r\<rparr>"
proof -
  let ?p = "show_word (lr_sequence r) @ CHR ''|'' # lr_message r"
  have "trim_crlf (encode_audit_frame r) = ''v1'' @ SP # ''audit'' @ SP # ?p"
    unfolding encode_audit_frame_def using assms trim_crlf_append_NL [of "''v1 audit '' @ ?p"]
    by auto
  moreover have "splitn 3 SP (''v1'' @ SP # ''audit'' @ SP # ?p) = [''v1'', ''audit'', ?p]"
    using splitn_append [of 3 SP "''v1''" "''audit'' @ SP # ?p"] splitn_append [of 2 SP "''audit''" ?p] by simp
  ultimately have "splitn 3 SP (trim_crlf (encode_audit_frame r)) = [''v1'', ''audit'', ?p]" by simp
  then show ?thesis
    by (simp add: AuditStreamRecord_parse_def field_def check_version_def split_once_append bar_semi_not_digit)
qed


section \<open>Witnesses\<close>

definition log_demo :: audit_log where
  "log_demo = \<lparr>al_path = ''log'', al_max_bytes = 8, al_max_records = 2, al_next_seq = 1,
     al_records = [], al_subscribers = [(''ui'', 0)]\<rparr>"

definition hub_demo :: hub where
  "hub_demo = \<lparr>hub_channels = [(0, \<lparr>ch_queue = [FRecord \<lparr>lr_sequence = 9, lr_message = ''m''\<rparr>],
     ch_receiver = True, ch_sender = True\<rparr>)], hub_next = 1\<rparr>"

definition fs_blank :: "(fs_op \<Rightarrow> bool) \<Rightarrow> fs" where
  "fs_blank f = \<lparr>files = [], modes = [], fails = f\<rparr>"

lemma tmp_demo: "with_extension ''log'' ''tmp'' = ''log.tmp''"
  by (simp add: with_extension_def file_stem_def rsplit_once_def)


theorem audit_reopen_restores_witness:
  "\<exists>log h s. fold AuditLog_append [''one'', ''two'', ''three''] (log_demo\<lparr>al_subscribers := []\<rparr>,
      hub_demo, fs_blank (\<lambda>_. False)) = (log, h, s) \<and>
    (\<exists>log'. AuditLog_open ''log'' 8 2 s = Some (Inr log', s) \<and> al_records log' = al_records log)"
proof -
  obtain log h s where e: "fold AuditLog_append [''one'', ''two'', ''three'']
      (log_demo\<lparr>al_subscribers := []\<rparr>, hub_demo, fs_blank (\<lambda>_. False)) = (log, h, s)"
    by (metis prod_cases3)
  have o: "AuditLog_open ''log'' 8 2 (fs_blank (\<lambda>_. False)) =
      Some (Inr (log_demo\<lparr>al_subscribers := []\<rparr>), fs_blank (\<lambda>_. False))"
    by (simp add: AuditLog_open_def load_from_disk_def path_exists_def fs_blank_def fs_create_dir_all_def log_demo_def)
  have "\<exists>log'. AuditLog_open ''log'' 8 2 s = Some (Inr log', s) \<and> al_records log' = al_records log \<and>
      (al_records log \<noteq> [] \<longrightarrow> al_next_seq log' = al_next_seq log)"
    by (rule audit_reopen_restores [OF o _ _ _ _ e])
      (simp_all add: fs_blank_def no_faults_def tmp_demo clean_message_def)
  with e show ?thesis by blast
qed

theorem audit_fanout_delivers_witness:
  "queue_of (fst (snd (AuditLog_append ''x'' (log_demo, hub_demo, fs_blank (\<lambda>_. True))))) 0 =
     [FRecord \<lparr>lr_sequence = 9, lr_message = ''m''\<rparr>, FRecord \<lparr>lr_sequence = 1, lr_message = ''x''\<rparr>]"
proof -
  have "deliverable hub_demo 0"
    by (simp add: deliverable_def hub_demo_def SUBSCRIBER_CHANNEL_CAPACITY_def)
  moreover obtain log h s where e: "AuditLog_append ''x'' (log_demo, hub_demo, fs_blank (\<lambda>_. True)) = (log, h, s)"
    by (metis prod_cases3)
  moreover have "queue_of hub_demo 0 = [FRecord \<lparr>lr_sequence = 9, lr_message = ''m''\<rparr>]" "al_next_seq log_demo = 1"
    by (simp_all add: queue_of_def hub_demo_def log_demo_def)
  ultimately show ?thesis
    using audit_fanout_delivers [OF _ _ _ e, of "''ui''" 0] by (simp add: log_demo_def)
qed

theorem stale_stream_unsubscribes_witness:
  "let (c, log1, h1) = subscribe ''ui'' (log_demo, hub_demo) in
   map_of (al_subscribers (fst (subscriber_exit ''ui''
     (fst (run_subscriber (\<lambda>x w. (False, w)) (queue_of h1 0) [] ())) (log1, h1)))) ''ui'' = None"
proof -
  obtain c log1 h1 where e: "subscribe ''ui'' (log_demo, hub_demo) = (c, log1, h1)" by (metis prod_cases3)
  show ?thesis
    using stale_stream_unsubscribes [OF _ _ _ _ e, of 0 "\<lparr>lr_sequence = 9, lr_message = ''m''\<rparr>" "[]"
        "\<lambda>x w. (False, w)" "()"]
    unfolding e by (simp add: log_demo_def hub_demo_def queue_of_def)
qed

theorem audit_frame_round_trip_witness:
  "AuditStreamRecord_parse (encode_audit_frame \<lparr>lr_sequence = 7, lr_message = ''a|b c''\<rparr>) =
     Inr \<lparr>asr_sequence = 7, asr_message = ''a|b c''\<rparr>"
  using audit_frame_round_trip [of "\<lparr>lr_sequence = 7, lr_message = ''a|b c''\<rparr>"] by simp

end
