(* ===== verification/Operator.thy ===== *)
theory Operator
  imports Process
begin

text \<open>
  Who may talk to the daemon (\<open>operator_auth.rs\<close>) and the self-measurement of
  \<open>proc_metrics.rs\<close>. The user and group databases are the parameter \<open>accounts\<close>; the ownership and
  permission bits of the socket and its directory are the state \<open>perms\<close>, with \<open>perm_fails\<close>
  saying which \<open>chown\<close> or \<open>chmod\<close> returns an error.
\<close>

section \<open>Accounts\<close>

record user_entry =
  ue_name :: string
  ue_gid :: u32

text \<open>\<open>None\<close> stands for an error of the lookup, \<open>Some None\<close> for an absent entry.\<close>

record accounts =
  group_from_name :: "string \<Rightarrow> u32 option option"
  user_from_uid :: "u32 \<Rightarrow> user_entry option option"
  getgrouplist :: "string \<Rightarrow> u32 \<Rightarrow> u32 list option"

definition OPERATOR_GROUP :: string where
  "OPERATOR_GROUP = ''interfire''"

text \<open>\<open>CString::new\<close> refuses a name with a NUL byte.\<close>

definition user_in_gid :: "accounts \<Rightarrow> user_entry \<Rightarrow> u32 \<Rightarrow> bool" where
  "user_in_gid A user target =
     (if ue_gid user = target then True
      else if CHR 0x00 \<in> set (ue_name user) then False
      else case getgrouplist A (ue_name user) (ue_gid user) of
             None \<Rightarrow> False
           | Some gids \<Rightarrow> target \<in> set gids)"

definition uid_in_named_group :: "accounts \<Rightarrow> u32 \<Rightarrow> string \<Rightarrow> bool" where
  "uid_in_named_group A uid group_name =
     (case group_from_name A group_name of
        Some (Some target) \<Rightarrow>
          (case user_from_uid A uid of
             Some (Some user) \<Rightarrow> user_in_gid A user target
           | _ \<Rightarrow> False)
      | _ \<Rightarrow> False)"

definition uid_may_mutate :: "accounts \<Rightarrow> u32 \<Rightarrow> u32 \<Rightarrow> bool" where
  "uid_may_mutate A current uid \<longleftrightarrow>
     uid = 0 \<or> uid = current \<or> uid_in_named_group A uid OPERATOR_GROUP"

section \<open>The socket\<close>

datatype group_lookup = Present u32 | Missing

datatype perm_op = Chown path u32 | Chmod path nat

record perms =
  pm_groups :: "(path \<times> u32) list"
  pm_modes :: "(path \<times> nat) list"
  perm_fails :: "perm_op \<Rightarrow> bool"

definition chown_group :: "path \<Rightarrow> u32 \<Rightarrow> perms \<Rightarrow> (io_error + unit) \<times> perms" where
  "chown_group p gid s =
     (if perm_fails s (Chown p gid) then (Inl io_fault, s)
      else (Inr (), s\<lparr>pm_groups := AList.update p gid (pm_groups s)\<rparr>))"

definition chmod :: "path \<Rightarrow> nat \<Rightarrow> perms \<Rightarrow> (io_error + unit) \<times> perms" where
  "chmod p md s =
     (if perm_fails s (Chmod p md) then (Inl io_fault, s)
      else (Inr (), s\<lparr>pm_modes := AList.update p md (pm_modes s)\<rparr>))"

definition resolve_group :: "accounts \<Rightarrow> string \<Rightarrow> group_lookup" where
  "resolve_group A name =
     (case group_from_name A name of Some (Some gid) \<Rightarrow> Present gid | _ \<Rightarrow> Missing)"

text \<open>The modes 0750, 0660 and 0600.\<close>

definition prepare_operator_socket_with ::
    "path \<Rightarrow> group_lookup \<Rightarrow> perms \<Rightarrow> (io_error + unit) \<times> perms" where
  "prepare_operator_socket_with socket lookup s =
     (case lookup of
        Present gid \<Rightarrow>
          let s = (case path_parent socket of
                     Some parent \<Rightarrow>
                       if parent \<noteq> [] then snd (chmod parent 0x1E8 (snd (chown_group parent gid s))) else s
                   | None \<Rightarrow> s)
          in (case chown_group socket gid s of
                (Inl e, s) \<Rightarrow> (Inl e, s)
              | (Inr _, s) \<Rightarrow> chmod socket 0x1B0 s)
      | Missing \<Rightarrow> chmod socket 0x180 s)"

definition prepare_operator_socket :: "accounts \<Rightarrow> path \<Rightarrow> perms \<Rightarrow> (io_error + unit) \<times> perms" where
  "prepare_operator_socket A socket = prepare_operator_socket_with socket (resolve_group A OPERATOR_GROUP)"

section \<open>Self-measurement\<close>

record self_metrics =
  sm_pid :: u32
  sm_rss_kib :: u64
  sm_cpu_jiffies :: u64

fun vm_rss_lines :: "string list \<Rightarrow> io_error + u64" where
  "vm_rss_lines [] = Inl InvalidData"
| "vm_rss_lines (line # rest) =
     (case strip_prefix ''VmRSS:'' line of
        None \<Rightarrow> vm_rss_lines rest
      | Some r \<Rightarrow> ok_or InvalidData (Option.bind (nth_opt 0 (split_whitespace r)) parse_word))"

definition parse_vm_rss_kib :: "string \<Rightarrow> io_error + u64" where
  "parse_vm_rss_kib status = vm_rss_lines (str_lines status)"

definition parse_cpu_jiffies :: "string \<Rightarrow> io_error + u64" where
  "parse_cpu_jiffies stat =
     and_then (ok_or InvalidData (rsplit_once (CHR '')'') stat)) (\<lambda>(_, rest).
     let fds = split_whitespace (trim_start rest)
     in and_then (ok_or InvalidData (nth_opt 11 fds)) (\<lambda>utime.
        and_then (ok_or InvalidData (nth_opt 12 fds)) (\<lambda>stime.
        and_then (ok_or InvalidData (parse_word utime)) (\<lambda>utime.
        and_then (ok_or InvalidData (parse_word stime)) (\<lambda>stime.
        Inr (saturating_add utime stime))))))"

definition sample_self :: "procfs \<Rightarrow> u32 \<Rightarrow> io_error + self_metrics" where
  "sample_self P pid =
     and_then (and_then (proc_read_to_string P ''/proc/self/status'') parse_vm_rss_kib) (\<lambda>rss_kib.
     and_then (and_then (proc_read_to_string P ''/proc/self/stat'') parse_cpu_jiffies) (\<lambda>cpu_jiffies.
     Inr \<lparr>sm_pid = pid, sm_rss_kib = rss_kib, sm_cpu_jiffies = cpu_jiffies\<rparr>))"

section \<open>Properties\<close>

lemma chmod_cases:
  "chmod p md s = (Inr (), s') \<longleftrightarrow>
     \<not> perm_fails s (Chmod p md) \<and> s' = s\<lparr>pm_modes := AList.update p md (pm_modes s)\<rparr>"
  by (auto simp: chmod_def)

text \<open>
  C27: the control socket is never opened to everyone. When the daemon gets past setting up its
  socket, the socket is accessible to its owner only, unless the operator group exists, in which
  case it is accessible to the owner and exactly that group; others never have access.
\<close>

theorem operator_socket_restricted:
  assumes "prepare_operator_socket A socket s = (Inr (), s')"
  shows "case group_from_name A OPERATOR_GROUP of
      Some (Some gid) \<Rightarrow> map_of (pm_modes s') socket = Some 0x1B0 \<and> map_of (pm_groups s') socket = Some gid
    | _ \<Rightarrow> map_of (pm_modes s') socket = Some 0x180 \<and> pm_groups s' = pm_groups s"
  using assms
  by (auto simp: prepare_operator_socket_def prepare_operator_socket_with_def resolve_group_def
      chown_group_def chmod_cases hm_simps Let_def split: option.splits if_splits)

definition accounts_demo :: accounts where
  "accounts_demo = \<lparr>group_from_name = \<lambda>n. if n = ''interfire'' then Some (Some 977) else Some None,
     user_from_uid = \<lambda>u. Some (Some \<lparr>ue_name = ''ada'', ue_gid = 1000\<rparr>),
     getgrouplist = \<lambda>n g. Some [g, 977]\<rparr>"

theorem operator_socket_restricted_witness:
  "let s' = snd (prepare_operator_socket accounts_demo ''/run/i.sock''
        \<lparr>pm_groups = [], pm_modes = [], perm_fails = (\<lambda>op. op = Chmod ''/run'' 0x1E8)\<rparr>)
   in map_of (pm_modes s') ''/run/i.sock'' = Some 0x1B0 \<and> map_of (pm_groups s') ''/run/i.sock'' = Some 977"
proof -
  obtain s' where e: "prepare_operator_socket accounts_demo ''/run/i.sock''
        \<lparr>pm_groups = [], pm_modes = [], perm_fails = (\<lambda>op. op = Chmod ''/run'' 0x1E8)\<rparr> = (Inr (), s')"
    by (simp add: prepare_operator_socket_def prepare_operator_socket_with_def resolve_group_def
        accounts_demo_def OPERATOR_GROUP_def path_parent_def rsplit_once_def chown_group_def chmod_def)
  show ?thesis
    unfolding e using operator_socket_restricted [OF e] by (simp add: accounts_demo_def OPERATOR_GROUP_def)
qed

end
