(* ===== verification/Shared.thy ===== *)
theory Shared
  imports Nft Policy AuditLog Operator
begin

text \<open>
  The shared daemon state (\<open>shared.rs\<close>): every table behind its mutex, the pause flag, the machine
  traffic preference and the queue state, with the operations that change the enforcement mode or
  the kill switch. The \<open>world\<close> adds what the daemon acts on: the filesystem, the subscriber
  channels, the kernel's table and the counters that name temporary files; \<open>host\<close> collects the
  programs and services the daemon calls.
\<close>

section \<open>State\<close>

record shared =
  sh_rules :: "rule_set mutex"
  sh_store :: path
  sh_pending :: "pending_table mutex"
  sh_process_cache :: "process_cache mutex"
  sh_recent :: "recent_connects mutex"
  sh_prompts :: "prompt_queue mutex"
  sh_dns :: "dns_cache mutex"
  sh_audit :: "audit_log mutex"
  sh_stats :: "stats_store mutex"
  sh_mode_path :: path
  sh_traffic_path :: path
  sh_paused :: bool
  sh_machine_traffic :: "traffic_preference mutex"
  sh_bind_state :: u8
  sh_observation :: u8

record shared_config =
  cf_rules :: rule_set
  cf_store :: path
  cf_observation :: string
  cf_pending_capacity :: usize
  cf_pending_ttl :: duration
  cf_process_capacity :: usize
  cf_audit_path :: path
  cf_mode_path :: path
  cf_traffic_path :: path

record 'k world =
  w_shared :: shared
  w_fs :: fs
  w_hub :: hub
  w_kernel :: 'k
  w_mode_seq :: u64
  w_traffic_seq :: u64

record 'k host =
  ho_nft :: "'k nft_program"
  ho_procfs :: procfs
  ho_accounts :: accounts
  ho_to_toml :: "rules_document \<Rightarrow> string option"
  ho_from_toml :: "string \<Rightarrow> rules_document option"
  ho_pid :: u32
  ho_uid :: u32
  ho_version :: string
  ho_git :: string

definition ENFORCEMENT_NONE :: u8 where "ENFORCEMENT_NONE = 0"
definition ENFORCEMENT_NFQUEUE :: u8 where "ENFORCEMENT_NFQUEUE = 1"
definition ENFORCEMENT_DEGRADED :: u8 where "ENFORCEMENT_DEGRADED = 2"
definition OBSERVATION_ATTACHED :: u8 where "OBSERVATION_ATTACHED = 0"
definition OBSERVATION_DEGRADED :: u8 where "OBSERVATION_DEGRADED = 1"

lemmas code_defs = ENFORCEMENT_NONE_def ENFORCEMENT_NFQUEUE_def ENFORCEMENT_DEGRADED_def
  OBSERVATION_ATTACHED_def OBSERVATION_DEGRADED_def

definition enforcement_code :: "string \<Rightarrow> u8" where
  "enforcement_code label =
     (if label = ''nfqueue'' then ENFORCEMENT_NFQUEUE
      else if label = ''degraded'' then ENFORCEMENT_DEGRADED else ENFORCEMENT_NONE)"

definition enforcement_label :: "u8 \<Rightarrow> string" where
  "enforcement_label code =
     (if code = ENFORCEMENT_NFQUEUE then ''nfqueue''
      else if code = ENFORCEMENT_DEGRADED then ''degraded'' else ''none'')"

definition observation_code :: "string \<Rightarrow> u8" where
  "observation_code label = (if label = ''attached'' then OBSERVATION_ATTACHED else OBSERVATION_DEGRADED)"

definition observation_label :: "u8 \<Rightarrow> string" where
  "observation_label code = (if code = OBSERVATION_ATTACHED then ''attached'' else ''degraded'')"

section \<open>Construction\<close>

text \<open>
  \<open>None\<close> is a panic: a capacity of zero, or a default time to live that cannot be built. The only
  error value is the audit log's.
\<close>

definition Shared_new :: "instant \<Rightarrow> shared_config \<Rightarrow> fs \<Rightarrow> shared io option" where
  "Shared_new now config s =
     (let mode = enforcement_load (cf_mode_path config) s;
          machine = traffic_load (cf_traffic_path config) s
      in Option.bind (PendingTable_new (cf_pending_capacity config) (cf_pending_ttl config)) (\<lambda>pending.
         Option.bind (ProcessCache_new (cf_process_capacity config)) (\<lambda>cache.
         Option.bind (RecentConnects_new (cf_process_capacity config) 8) (\<lambda>recent.
         Option.bind PromptQueue_with_defaults (\<lambda>prompts.
         Option.bind DnsCache_with_defaults (\<lambda>dns.
         Option.bind (AuditLog_open (cf_audit_path config) (word_of_nat DEFAULT_AUDIT_MAX_BYTES)
           MAX_LOG_RECORDS_PER_SUBSCRIBER s) (\<lambda>opened.
         Some (io_then opened (\<lambda>audit s. (Inr
           \<lparr>sh_rules = Healthy (cf_rules config), sh_store = cf_store config, sh_pending = Healthy pending,
            sh_process_cache = Healthy cache, sh_recent = Healthy recent, sh_prompts = Healthy prompts,
            sh_dns = Healthy dns, sh_audit = Healthy audit, sh_stats = Healthy (StatsStore_new now),
            sh_mode_path = cf_mode_path config, sh_traffic_path = cf_traffic_path config,
            sh_paused = (mode = Paused), sh_machine_traffic = Healthy machine,
            sh_bind_state = ENFORCEMENT_NONE, sh_observation = observation_code (cf_observation config)\<rparr>,
           s))))))))))"

section \<open>Reading\<close>

definition set_enforcement :: "string \<Rightarrow> shared \<Rightarrow> shared" where
  "set_enforcement label sh = sh\<lparr>sh_bind_state := enforcement_code label\<rparr>"

definition machine_preference :: "shared \<Rightarrow> traffic_preference" where
  "machine_preference sh = into_inner (sh_machine_traffic sh)"

definition is_traffic_blocked :: "shared \<Rightarrow> bool" where
  "is_traffic_blocked sh = is_blocked (machine_preference sh)"

definition user_preference :: "u32 \<Rightarrow> shared \<Rightarrow> fs \<Rightarrow> traffic_preference" where
  "user_preference uid sh s = traffic_load (user_path (sh_traffic_path sh) uid) s"

definition bind_label :: "shared \<Rightarrow> string" where
  "bind_label sh = enforcement_label (sh_bind_state sh)"

definition rules_mode :: "shared \<Rightarrow> enforcement_mode" where
  "rules_mode sh = (if sh_paused sh then Paused else Active)"

definition queue_bound :: "shared \<Rightarrow> bool" where
  "queue_bound sh \<longleftrightarrow> bind_label sh = ''nfqueue''"

definition Shared_enforcement :: "shared \<Rightarrow> string" where
  "Shared_enforcement sh = (if sh_paused sh then ''paused'' else bind_label sh)"

definition traffic_effective :: "u32 \<Rightarrow> shared \<Rightarrow> fs \<Rightarrow> string" where
  "traffic_effective uid sh s =
     EffectiveTraffic_label (effective (machine_preference sh) (user_preference uid sh s) uid)"

definition Shared_traffic :: "shared \<Rightarrow> fs \<Rightarrow> string" where
  "Shared_traffic sh s =
     (if is_traffic_blocked sh \<or> any_block_active (sh_traffic_path sh) s then ''blocked'' else ''open'')"

definition Shared_observation :: "shared \<Rightarrow> string" where
  "Shared_observation sh = observation_label (sh_observation sh)"

section \<open>Changing the mode\<close>

definition reapply_table :: "'k host \<Rightarrow> 'k world \<Rightarrow> (io_error + unit) \<times> 'k world" where
  "reapply_table H w =
     (let sh = w_shared w;
          machine = machine_preference sh;
          users = load_user_blocks (sh_traffic_path sh) (w_fs w);
          rules_active = (rules_mode sh = Active);
          machine_blocks = is_blocked machine;
          users_block = list_ex (\<lambda>u. is_blocked (snd u)) users;
          (r, k) =
            (if \<not> machine_blocks \<and> \<not> users_block \<and> \<not> rules_active then nft_remove (ho_nft H) (w_kernel w)
             else if \<not> machine_blocks \<and> \<not> users_block \<and> rules_active then
               (if queue_bound sh then nft_install (ho_nft H) (w_kernel w)
                else nft_remove (ho_nft H) (w_kernel w))
             else install_composed (ho_nft H)
               \<lparr>tc_machine = machine, tc_users = users,
                tc_rules_active = (rules_active \<and> \<not> wants_out machine), tc_queue_bound = queue_bound sh\<rparr>
               (w_kernel w))
      in (r, w\<lparr>w_kernel := k\<rparr>))"

text \<open>The stores of both mode files; the counter advances once the directory exists.\<close>

definition store_mode :: "enforcement_mode \<Rightarrow> 'k world \<Rightarrow> (io_error + unit) \<times> 'k world" where
  "store_mode mode w =
     (let p = sh_mode_path (w_shared w);
          (r, s) = enforcement_store p (w_mode_seq w) mode (w_fs w)
      in (r, w\<lparr>w_fs := s, w_mode_seq := (if is_ok (fst (ensure_parent p (w_fs w))) then w_mode_seq w + 1
                else w_mode_seq w)\<rparr>))"

definition store_traffic :: "path \<Rightarrow> traffic_preference \<Rightarrow> 'k world \<Rightarrow> (io_error + unit) \<times> 'k world" where
  "store_traffic p pref w =
     (let (r, s) = traffic_store p (w_traffic_seq w) pref (w_fs w)
      in (r, w\<lparr>w_fs := s, w_traffic_seq := (if is_ok (fst (ensure_parent p (w_fs w))) then w_traffic_seq w + 1
                else w_traffic_seq w)\<rparr>))"

definition set_paused :: "bool \<Rightarrow> 'k world \<Rightarrow> 'k world" where
  "set_paused b w = w\<lparr>w_shared := (w_shared w)\<lparr>sh_paused := b\<rparr>\<rparr>"

fun store_into :: "'a \<Rightarrow> 'a mutex \<Rightarrow> 'a mutex" where
  "store_into x (Healthy y) = Healthy x"
| "store_into x (Poisoned y) = Poisoned x"

definition set_machine :: "traffic_preference \<Rightarrow> 'k world \<Rightarrow> 'k world" where
  "set_machine pref w =
     w\<lparr>w_shared := (w_shared w)\<lparr>sh_machine_traffic := store_into pref (sh_machine_traffic (w_shared w))\<rparr>\<rparr>"

definition Shared_pause :: "'k host \<Rightarrow> 'k world \<Rightarrow> (io_error + unit) \<times> 'k world" where
  "Shared_pause H w =
     (case store_mode Paused w of
        (Inl e, w) \<Rightarrow> (Inl e, w)
      | (Inr _, w) \<Rightarrow> reapply_table H (set_paused True w))"

definition Shared_resume :: "'k host \<Rightarrow> 'k world \<Rightarrow> (io_error + unit) \<times> 'k world" where
  "Shared_resume H w =
     (if bind_label (w_shared w) \<noteq> ''nfqueue''
      then (Inl (OtherError ''NFQUEUE not bound; cannot start enforcement''), w)
      else case store_mode Active w of
             (Inl e, w) \<Rightarrow> (Inl e, w)
           | (Inr _, w) \<Rightarrow> reapply_table H (set_paused False w))"

datatype traffic_scope = ScMachine | ScUser

definition scope_store ::
    "traffic_scope \<Rightarrow> traffic_preference \<Rightarrow> u32 \<Rightarrow> 'k world \<Rightarrow> (io_error + unit) \<times> 'k world" where
  "scope_store scope pref uid w =
     (case scope of
        ScMachine \<Rightarrow>
          (case store_traffic (sh_traffic_path (w_shared w)) pref w of
             (Inl e, w) \<Rightarrow> (Inl e, w)
           | (Inr _, w) \<Rightarrow> (Inr (), set_machine pref w))
      | ScUser \<Rightarrow> store_traffic (user_path (sh_traffic_path (w_shared w)) uid) pref w)"

definition traffic_block ::
    "'k host \<Rightarrow> traffic_scope \<Rightarrow> traffic_preference \<Rightarrow> u32 \<Rightarrow> 'k world \<Rightarrow> (io_error + unit) \<times> 'k world" where
  "traffic_block H scope pref uid w =
     (if pref = TOpen then (Inl (OtherError ''traffic block requires out, in, or all''), w)
      else case scope_store scope pref uid w of
             (Inl e, w) \<Rightarrow> (Inl e, w)
           | (Inr _, w) \<Rightarrow> reapply_table H w)"

definition traffic_unblock ::
    "'k host \<Rightarrow> traffic_scope \<Rightarrow> u32 \<Rightarrow> 'k world \<Rightarrow> (io_error + unit) \<times> 'k world" where
  "traffic_unblock H scope uid w =
     (case scope_store scope TOpen uid w of
        (Inl e, w) \<Rightarrow> (Inl e, w)
      | (Inr _, w) \<Rightarrow> reapply_table H w)"

section \<open>Runtime and start-up agree\<close>

lemma compose_out_only:
  "compose_traffic_script \<lparr>tc_machine = TOut, tc_users = [], tc_rules_active = ra, tc_queue_bound = qb\<rparr> =
   compose_traffic_script \<lparr>tc_machine = TOut, tc_users = [], tc_rules_active = False, tc_queue_bound = False\<rparr>"
  by (simp add: compose_renders output_chain_def input_chain_def wants_out_def)

lemma install_composed_script:
  "compose_traffic_script c = compose_traffic_script d \<Longrightarrow> install_composed N c k = install_composed N d k"
  by (simp add: install_composed_def)

text \<open>
  C20: the table after a runtime change is the table after a restart. Whatever mode change an
  operator makes, reapplying the table leaves the kernel exactly as the start-up code would build
  it from the same preferences, mode and queue state.
\<close>

theorem reapply_matches_startup:
  "w_kernel (snd (reapply_table H w)) =
     apply_modes (ho_nft H) (machine_preference (w_shared w))
       (load_user_blocks (sh_traffic_path (w_shared w)) (w_fs w)) (rules_mode (w_shared w))
       (queue_bound (w_shared w)) (w_kernel w)"
proof -
  have out: "install_composed (ho_nft H) \<lparr>tc_machine = TOut, tc_users = [],
      tc_rules_active = ra, tc_queue_bound = qb\<rparr> k = install_block (ho_nft H) k" for k ra qb
    unfolding install_block_def by (rule install_composed_script) (rule compose_out_only)
  show ?thesis
    unfolding reapply_table_def apply_modes_def Let_def case_prod_unfold
    by (cases "machine_preference (w_shared w) = TOut \<and>
        load_user_blocks (sh_traffic_path (w_shared w)) (w_fs w) = []") (simp_all add: out is_blocked_def)
qed

section \<open>Memory and disk agree\<close>

lemma reapply_keeps [simp]:
  "w_shared (snd (reapply_table H w)) = w_shared w" "w_fs (snd (reapply_table H w)) = w_fs w"
  by (simp_all add: reapply_table_def Let_def case_prod_unfold)

lemma store_mode_outcome:
  assumes "store_mode mode w = (r, w')" "has_file_name (sh_mode_path (w_shared w))"
    and "\<not> fails (w_fs w) (ReadFile (sh_mode_path (w_shared w)))"
  shows "w_shared w' = w_shared w" "w_kernel w' = w_kernel w"
    "enforcement_load (sh_mode_path (w_shared w)) (w_fs w') =
       (case r of Inr _ \<Rightarrow> mode | Inl _ \<Rightarrow> enforcement_load (sh_mode_path (w_shared w)) (w_fs w))"
  using assms(1) mode.store_outcome [OF assms(2,3) prod.collapse [symmetric], of "w_mode_seq w" mode]
  by (auto simp: store_mode_def Let_def case_prod_unfold)

lemma store_traffic_outcome:
  assumes "store_traffic p pref w = (r, w')" "has_file_name p" "\<not> fails (w_fs w) (ReadFile p)"
  shows "w_shared w' = w_shared w" "w_kernel w' = w_kernel w" "fails (w_fs w') = fails (w_fs w)"
    "traffic_load p (w_fs w') = (case r of Inr _ \<Rightarrow> pref | Inl _ \<Rightarrow> traffic_load p (w_fs w))"
    "r = Inr () \<Longrightarrow> map_of (files (w_fs w')) p = Some (TrafficPreference_as_str pref @ [NL])"
proof -
  obtain s where st: "traffic_store p (w_traffic_seq w) pref (w_fs w) = (r, s)" and w': "w_fs w' = s"
      "w_shared w' = w_shared w" "w_kernel w' = w_kernel w"
    using assms(1) by (auto simp: store_traffic_def Let_def split: prod.splits)
  then show "w_shared w' = w_shared w" "w_kernel w' = w_kernel w" "fails (w_fs w') = fails (w_fs w)"
    "traffic_load p (w_fs w') = (case r of Inr _ \<Rightarrow> pref | Inl _ \<Rightarrow> traffic_load p (w_fs w))"
    using traffic.store_outcome [OF assms(2,3) st] traffic.store_fails [of p "w_traffic_seq w" pref "w_fs w"]
    by simp_all
  show "r = Inr () \<Longrightarrow> map_of (files (w_fs w')) p = Some (TrafficPreference_as_str pref @ [NL])"
    using st w' write_replace_ok(1) by (auto simp: traffic_store_def)
qed

text \<open>What is on disk is what the daemon acts on.\<close>

definition mode_agrees :: "'k world \<Rightarrow> bool" where
  "mode_agrees w \<longleftrightarrow> enforcement_load (sh_mode_path (w_shared w)) (w_fs w) = rules_mode (w_shared w)"

definition machine_agrees :: "'k world \<Rightarrow> bool" where
  "machine_agrees w \<longleftrightarrow> traffic_load (sh_traffic_path (w_shared w)) (w_fs w) = machine_preference (w_shared w)"

lemma rules_mode_paused [simp]: "rules_mode (w_shared (set_paused b w)) = (if b then Paused else Active)"
  "sh_mode_path (w_shared (set_paused b w)) = sh_mode_path (w_shared w)" "w_fs (set_paused b w) = w_fs w"
  by (simp_all add: rules_mode_def set_paused_def)

lemma into_inner_store [simp]: "into_inner (store_into x m) = x"
  by (cases m) simp_all

text \<open>
  C19: a mode change is never half done. If memory and the mode files agreed before, they agree after
  every pause, resume and machine-wide block or unblock, whatever step of it fails: a daemon
  restarted at that point comes back in the mode it is running in. Resuming without a bound queue
  changes nothing at all.
\<close>

theorem mode_changes_agree_with_disk:
  assumes "has_file_name (sh_mode_path (w_shared w))" "has_file_name (sh_traffic_path (w_shared w))"
    and "\<not> fails (w_fs w) (ReadFile (sh_mode_path (w_shared w)))"
      "\<not> fails (w_fs w) (ReadFile (sh_traffic_path (w_shared w)))"
  shows "(mode_agrees w \<longrightarrow> mode_agrees (snd (Shared_pause H w)) \<and> mode_agrees (snd (Shared_resume H w))) \<and>
    (machine_agrees w \<longrightarrow> machine_agrees (snd (traffic_block H ScMachine pref uid w)) \<and>
       machine_agrees (snd (traffic_unblock H ScMachine uid w))) \<and>
    (bind_label (w_shared w) \<noteq> ''nfqueue'' \<longrightarrow> snd (Shared_resume H w) = w)"
proof -
  have mode: "mode_agrees (snd (case store_mode m w of (Inl e, w) \<Rightarrow> (Inl e, w)
      | (Inr _, w) \<Rightarrow> reapply_table H (set_paused b w)))" if "mode_agrees w" "b = (m = Paused)" for m b
  proof (cases "store_mode m w")
    case (Pair r w1)
    show ?thesis
      using store_mode_outcome [OF Pair assms(1,3)] that Pair
      by (cases m; cases r) (simp_all add: mode_agrees_def)
  qed
  have traffic: "machine_agrees (snd (case scope_store ScMachine pf uid w of (Inl e, w) \<Rightarrow> (Inl e, w)
      | (Inr _, w) \<Rightarrow> reapply_table H w))" if "machine_agrees w" for pf
  proof (cases "store_traffic (sh_traffic_path (w_shared w)) pf w")
    case (Pair r w1)
    show ?thesis
      using store_traffic_outcome [OF Pair assms(2,4)] that Pair
      by (cases r) (simp_all add: machine_agrees_def scope_store_def set_machine_def machine_preference_def)
  qed
  show ?thesis
    using mode [of True Paused] mode [of False Active] traffic [of pref] traffic [of TOpen]
    by (simp add: Shared_pause_def Shared_resume_def traffic_block_def traffic_unblock_def)
qed

section \<open>A reported block is in force\<close>

lemma install_composed_owned:
  assumes "nft_lawful N owned" "\<And>k. owned (snd (nft_delete N k)) = None"
    and "compose_traffic_script c \<noteq> []" "install_composed N c k = (Inr u, k')"
  shows "owned k' = Some (compose_traffic_script c)"
proof -
  let ?k = "snd (nft_remove N k)"
  have "owned ?k = None"
    using assms(2) [of k] by (auto simp: nft_remove_def split: prod.split sum.split)
  moreover obtain out where "nft_load N (compose_traffic_script c) ?k = (Exited out, k')" "no_success out"
    using assms(3,4)
    by (auto simp: install_composed_def load_script_def finish_traffic_install_def
        split: prod.splits load_outcome.splits if_splits)
  ultimately show ?thesis
    using assms(1) unfolding nft_lawful_def by metis
qed

lemma compose_nonempty:
  assumes "is_blocked (tc_machine c) \<or> list_ex (\<lambda>u. is_blocked (snd u)) (tc_users c)"
  shows "compose_traffic_script c \<noteq> []"
proof -
  have "wants_out p \<or> wants_in p" if "is_blocked p" for p
    using that by (cases p) (simp_all add: is_blocked_def wants_out_def wants_in_def)
  then have "output_chain c \<noteq> None \<or> input_chain c \<noteq> None"
    using assms by (auto simp: output_chain_def input_chain_def list_ex_iff filter_empty_conv)
  then show ?thesis by (auto simp: compose_renders render_table_def)
qed

definition block_path :: "traffic_scope \<Rightarrow> u32 \<Rightarrow> shared \<Rightarrow> path" where
  "block_path scope uid sh =
     (case scope of ScMachine \<Rightarrow> sh_traffic_path sh | ScUser \<Rightarrow> user_path (sh_traffic_path sh) uid)"

definition covers :: "traffic_scope \<Rightarrow> u32 \<Rightarrow> traffic_preference \<Rightarrow> traffic_compose \<Rightarrow> bool" where
  "covers scope uid pref c \<longleftrightarrow>
     (case scope of ScMachine \<Rightarrow> tc_machine c = pref | ScUser \<Rightarrow> (uid, pref) \<in> set (tc_users c))"

lemma covers_blocks:
  "covers scope uid pref c \<Longrightarrow> is_blocked pref \<Longrightarrow>
     is_blocked (tc_machine c) \<or> list_ex (\<lambda>u. is_blocked (snd u)) (tc_users c)"
  by (cases scope) (force simp: covers_def list_ex_iff)+

text \<open>The composition that \<^const>\<open>reapply_table\<close> installs.\<close>

definition compose_of :: "'k world \<Rightarrow> traffic_compose" where
  "compose_of w =
     \<lparr>tc_machine = machine_preference (w_shared w),
      tc_users = load_user_blocks (sh_traffic_path (w_shared w)) (w_fs w),
      tc_rules_active = (rules_mode (w_shared w) = Active \<and> \<not> wants_out (machine_preference (w_shared w))),
      tc_queue_bound = queue_bound (w_shared w)\<rparr>"

lemma reapply_blocked:
  assumes "is_blocked (tc_machine (compose_of w)) \<or> list_ex (\<lambda>u. is_blocked (snd u)) (tc_users (compose_of w))"
  shows "reapply_table H w = (let (r, k) = install_composed (ho_nft H) (compose_of w) (w_kernel w)
    in (r, w\<lparr>w_kernel := k\<rparr>))"
  using assms by (auto simp: reapply_table_def compose_of_def Let_def)

lemma scope_store_outcome:
  assumes "scope_store scope pref uid w = (Inr (), w1)" "has_file_name (block_path scope uid (w_shared w))"
    and "\<not> fails (w_fs w) (ReadFile (block_path scope uid (w_shared w)))"
    and "\<not> fails (w_fs w) (ReadDir (state_dir (sh_traffic_path (w_shared w))))"
    and "state_dir (sh_traffic_path (w_shared w)) = ''/'' \<or>
      last (state_dir (sh_traffic_path (w_shared w))) \<noteq> CHR ''/''"
    and "state_dir (sh_traffic_path (w_shared w)) \<noteq> []" "is_blocked pref"
  shows "covers scope uid pref (compose_of w1)"
    "traffic_load (block_path scope uid (w_shared w)) (w_fs w1) = pref"
proof -
  let ?p = "block_path scope uid (w_shared w)"
  obtain r w0 where st: "store_traffic ?p pref w = (r, w0)" by fastforce
  note out = store_traffic_outcome [OF st assms(2,3)]
  have w1: "r = Inr ()" "w1 = (case scope of ScMachine \<Rightarrow> set_machine pref w0 | ScUser \<Rightarrow> w0)"
    using assms(1) st by (auto simp: scope_store_def block_path_def split: traffic_scope.splits sum.splits)
  then have fs: "w_fs w1 = w_fs w0" by (auto simp: set_machine_def split: traffic_scope.splits)
  then show "traffic_load ?p (w_fs w1) = pref" using out(4) w1(1) by simp
  show "covers scope uid pref (compose_of w1)"
  proof (cases scope)
    case ScMachine
    then show ?thesis by (simp add: covers_def compose_of_def w1 set_machine_def machine_preference_def)
  next
    case ScUser
    have "(uid, pref) \<in> set (load_user_blocks (sh_traffic_path (w_shared w)) (w_fs w0))"
      using out(3,5) w1(1) assms(3,4) ScUser
      by (intro user_block_listed assms(5-7)) (simp_all add: block_path_def)
    then show ?thesis using ScUser out(1) w1(2) by (simp add: covers_def compose_of_def)
  qed
qed



section \<open>Witnesses\<close>

definition shared_demo :: shared where
  "shared_demo =
     \<lparr>sh_rules = Healthy RuleSet_default, sh_store = ''/e/r'', sh_pending = Healthy pending_two,
      sh_process_cache = Healthy \<lparr>pc_capacity = 1, pc_entries = [((2, 9), identity_demo 2)], pc_order = [(2, 9)]\<rparr>,
      sh_recent = Healthy recent_demo,
      sh_prompts = Healthy queue_demo, sh_dns = Healthy dns_demo, sh_audit = Healthy log_demo,
      sh_stats = Healthy (StatsStore_new 0), sh_mode_path = ''/v/m'', sh_traffic_path = ''/v/t'',
      sh_paused = True, sh_machine_traffic = Healthy TOpen, sh_bind_state = 0, sh_observation = 0\<rparr>"

definition world_demo :: "(string option) world" where
  "world_demo = \<lparr>w_shared = shared_demo, w_fs = fs_blank (\<lambda>_. False), w_hub = hub_demo, w_kernel = None,
     w_mode_seq = 0, w_traffic_seq = 0\<rparr>"

definition host_demo :: "(string option) host" where
  "host_demo = \<lparr>ho_nft = nft_demo (\<lambda>_. False), ho_procfs = procfs_none, ho_accounts = accounts_demo,
     ho_to_toml = toml_one, ho_from_toml = (\<lambda>_. None), ho_pid = 7, ho_uid = 0, ho_version = ''0'', ho_git = ''g''\<rparr>"

lemma demo_paths:
  "has_file_name ''/v/m''" "has_file_name ''/v/t''" "state_dir ''/v/t'' = ''/v''"
  by (simp_all add: has_file_name_def rsplit_once_def state_dir_def path_parent_def)

theorem mode_changes_agree_with_disk_witness:
  "mode_agrees (snd (Shared_pause host_demo world_demo)) \<and>
   machine_agrees (snd (traffic_block host_demo ScMachine TOut 0 world_demo)) \<and>
   snd (Shared_resume host_demo world_demo) = world_demo"
proof -
  have sh: "sh_mode_path (w_shared world_demo) = ''/v/m''" "sh_traffic_path (w_shared world_demo) = ''/v/t''"
      "w_fs world_demo = fs_blank (\<lambda>_. False)" "bind_label (w_shared world_demo) \<noteq> ''nfqueue''"
    by (simp_all add: world_demo_def shared_demo_def bind_label_def enforcement_label_def code_defs)
  moreover have "mode_agrees world_demo" "machine_agrees world_demo"
    by (simp_all add: mode_agrees_def machine_agrees_def world_demo_def shared_demo_def fs_blank_def rules_mode_def
        enforcement_load_def traffic_load_def fs_read_to_string_def machine_preference_def)
  ultimately show ?thesis
    using mode_changes_agree_with_disk [of world_demo host_demo TOut 0] demo_paths by (simp add: fs_blank_def)
qed


end
