(* ===== verification/Observe.thy ===== *)
theory Observe
  imports Shared
begin

text \<open>
  The two worker threads. The observation thread (\<open>observe.rs\<close>, \<open>observe_live.rs\<close>) drains the
  ring buffer, decides every event and stores the verdict; the queue thread (\<open>nfqueue.rs\<close>,
  \<open>nfqueue_live.rs\<close>) holds each queued packet until a verdict for its destination appears, for at
  most fifty attempts a millisecond apart. The ring buffer and the netfilter queue belong to other
  crates: the items and packets they deliver are arguments. The variants compiled for unit tests
  are in \<open>Doubles\<close>.
\<close>

section \<open>Observation\<close>

definition show_bool :: "bool \<Rightarrow> string" where
  "show_bool b = (if b then ''true'' else ''false'')"

definition connect_message :: "decision \<Rightarrow> string" where
  "connect_message d =
     ''connect port='' @ show_word (dk_port (d_key d)) @ '' attributed='' @ show_bool (d_attributed d) @
     '' outcome='' @ (case d_stats d of None \<Rightarrow> ''deny'' | Some hit \<Rightarrow> cs_verdict hit)"

definition tables_of :: "process_cache \<Rightarrow> prompt_queue \<Rightarrow> dns_cache \<Rightarrow> recent_connects \<Rightarrow> policy_tables" where
  "tables_of cache prompts dns recent =
     \<lparr>tb_cache = cache, tb_prompts = prompts, tb_dns = dns, tb_recent = recent\<rparr>"

text \<open>The part after the decision, lock by lock.\<close>

definition store_pending :: "(nat \<Rightarrow> instant) \<Rightarrow> decision \<Rightarrow> 'k world \<Rightarrow> 'k world" where
  "store_pending t d w =
     with_lock (sh_pending (w_shared w)) w (\<lambda>pending.
       w\<lparr>w_shared := (w_shared w)\<lparr>sh_pending :=
          Healthy (PendingTable_insert (t 6) (t 7) (d_key d) (d_packet_verdict d) pending)\<rparr>\<rparr>)"

definition store_stats :: "decision \<Rightarrow> 'k world \<Rightarrow> 'k world" where
  "store_stats d w =
     with_lock (sh_stats (w_shared w)) w (\<lambda>stats.
       w\<lparr>w_shared := (w_shared w)\<lparr>sh_stats :=
          Healthy (case d_stats d of Some hit \<Rightarrow> StatsStore_record hit stats
                   | None \<Rightarrow> record_unattributed_deny stats)\<rparr>\<rparr>)"

definition store_audit :: "decision \<Rightarrow> 'k world \<Rightarrow> 'k world" where
  "store_audit d w =
     with_lock (sh_audit (w_shared w)) w (\<lambda>audit.
       let (audit, h, s) = AuditLog_append (connect_message d) (audit, w_hub w, w_fs w)
       in w\<lparr>w_shared := (w_shared w)\<lparr>sh_audit := Healthy audit\<rparr>, w_hub := h, w_fs := s\<rparr>)"

text \<open>The part under the five locks, which are taken in turn and released together.\<close>

definition decide_event ::
    "'k host \<Rightarrow> (nat \<Rightarrow> instant) \<Rightarrow> tcp_connect_event \<Rightarrow> 'k world \<Rightarrow> decision option \<times> 'k world" where
  "decide_event H t ev w =
     (let sh = w_shared w in
      with_lock (sh_rules sh) (None, w) (\<lambda>rules.
      with_lock (sh_process_cache sh) (None, w) (\<lambda>cache.
      with_lock (sh_prompts sh) (None, w) (\<lambda>prompts.
      with_lock (sh_dns sh) (None, w) (\<lambda>dns.
      with_lock (sh_recent sh) (None, w) (\<lambda>recent.
        let (d, tb) = decide (ho_procfs H) t ev rules (tables_of cache prompts dns recent)
        in (Some d, w\<lparr>w_shared := sh\<lparr>sh_process_cache := Healthy (tb_cache tb), sh_prompts := Healthy (tb_prompts tb),
              sh_dns := Healthy (tb_dns tb), sh_recent := Healthy (tb_recent tb)\<rparr>\<rparr>)))))))"

definition handle_event :: "'k host \<Rightarrow> (nat \<Rightarrow> instant) \<Rightarrow> tcp_connect_event \<Rightarrow> 'k world \<Rightarrow> 'k world" where
  "handle_event H t ev w =
     (case decide_event H t ev w of
        (None, w) \<Rightarrow> w
      | (Some d, w) \<Rightarrow> store_audit d (store_stats d (store_pending t d w)))"

definition process_ring_item :: "'k host \<Rightarrow> (nat \<Rightarrow> instant) \<Rightarrow> u8 list \<Rightarrow> 'k world \<Rightarrow> 'k world" where
  "process_ring_item H t bytes w =
     (case try_from_bytes bytes of None \<Rightarrow> w | Some event \<Rightarrow> handle_event H t event w)"

text \<open>
  The items \<open>ring.next()\<close> returned so far, each with the clock during its handling. Pauses
  between batches change nothing.
\<close>

definition poll_ring :: "'k host \<Rightarrow> ('e + ((nat \<Rightarrow> instant) \<times> u8 list) list) \<Rightarrow> 'k world \<Rightarrow> 'k world" where
  "poll_ring H ring w =
     (case ring of
        Inl _ \<Rightarrow> w
      | Inr items \<Rightarrow> fold (\<lambda>(t, bytes). process_ring_item H t bytes) items w)"

section \<open>The queue\<close>

text \<open>One turn of the loop in \<open>lookup_verdict\<close>; \<open>Some\<close> is a returned verdict.\<close>

definition lookup_attempt ::
    "instant \<Rightarrow> dest_key \<Rightarrow> pending_table mutex \<Rightarrow> packet_verdict option \<times> pending_table mutex" where
  "lookup_attempt now key m =
     with_lock m (Some Drop, m) (\<lambda>pending.
       let (found, pending) = PendingTable_take now key pending in (found, Healthy pending))"

text \<open>
  \<open>others i\<close> is what other threads do to the table while the lookup sleeps after attempt \<open>i\<close>.
\<close>

fun lookup_loop ::
    "(nat \<Rightarrow> pending_table mutex \<Rightarrow> pending_table mutex) \<Rightarrow> (nat \<Rightarrow> instant) \<Rightarrow> dest_key \<Rightarrow> nat \<Rightarrow> nat
       \<Rightarrow> pending_table mutex \<Rightarrow> packet_verdict \<times> pending_table mutex" where
  "lookup_loop others t key 0 i m = (Drop, m)"
| "lookup_loop others t key (Suc n) i m =
     (case lookup_attempt (t i) key m of
        (Some v, m) \<Rightarrow> (v, m)
      | (None, m) \<Rightarrow> lookup_loop others t key n (Suc i) (others i m))"

definition lookup_verdict ::
    "(nat \<Rightarrow> pending_table mutex \<Rightarrow> pending_table mutex) \<Rightarrow> (nat \<Rightarrow> instant) \<Rightarrow> u8 list
       \<Rightarrow> pending_table mutex \<Rightarrow> packet_verdict \<times> pending_table mutex" where
  "lookup_verdict others t payload m =
     (case tcp_destination payload of
        None \<Rightarrow> (Drop, m)
      | Some key \<Rightarrow> lookup_loop others t key 50 0 m)"

text \<open>
  The queue as its client sees it: the results of opening, binding and setting fail-open, then the
  packets received, with the other threads and the clock during each lookup, until \<open>recv\<close> or
  \<open>verdict\<close> fails. The result holds the verdicts submitted.
\<close>

record queue_run =
  qr_open :: "io_error + unit"
  qr_bind :: "io_error + unit"
  qr_fail_open :: "io_error + unit"
  qr_packets :: "((nat \<Rightarrow> pending_table mutex \<Rightarrow> pending_table mutex) \<times> (nat \<Rightarrow> instant) \<times> u8 list) list"
  qr_end :: io_error

fun serve_packets ::
    "((nat \<Rightarrow> pending_table mutex \<Rightarrow> pending_table mutex) \<times> (nat \<Rightarrow> instant) \<times> u8 list) list
       \<Rightarrow> pending_table mutex \<Rightarrow> packet_verdict list \<times> pending_table mutex" where
  "serve_packets [] m = ([], m)"
| "serve_packets ((others, t, payload) # rest) m =
     (let (v, m) = lookup_verdict others t payload m; (vs, m) = serve_packets rest m in (v # vs, m))"

text \<open>What the thread does once the queue is bound, before the first packet.\<close>

definition queue_up :: "'k host \<Rightarrow> 'k world \<Rightarrow> 'k world" where
  "queue_up H w =
     (let sh = set_enforcement ''nfqueue'' (w_shared w);
          rules = enforcement_load (sh_mode_path sh) (w_fs w);
          machine = traffic_load (sh_traffic_path sh) (w_fs w);
          users = load_user_blocks (sh_traffic_path sh) (w_fs w)
      in w\<lparr>w_shared := sh, w_kernel := apply_modes (ho_nft H) machine users rules True (w_kernel w)\<rparr>)"

text \<open>What \<open>run_or_degrade\<close> does when the thread's loop ends with an error.\<close>

definition queue_down :: "'k world \<Rightarrow> 'k world" where
  "queue_down w = w\<lparr>w_shared := set_enforcement ''degraded'' (w_shared w)\<rparr>"

definition bind_and_serve ::
    "'k host \<Rightarrow> queue_run \<Rightarrow> 'k world \<Rightarrow> (io_error + unit) \<times> packet_verdict list \<times> 'k world" where
  "bind_and_serve H q w =
     (case and_then (qr_open q) (\<lambda>_. and_then (qr_bind q) (\<lambda>_. qr_fail_open q)) of
        Inl e \<Rightarrow> (Inl e, [], w)
      | Inr _ \<Rightarrow>
          let w = queue_up H w;
              (vs, m) = serve_packets (qr_packets q) (sh_pending (w_shared w))
          in (Inl (qr_end q), vs, w\<lparr>w_shared := (w_shared w)\<lparr>sh_pending := m\<rparr>\<rparr>))"

definition run_or_degrade :: "'k host \<Rightarrow> queue_run \<Rightarrow> 'k world \<Rightarrow> packet_verdict list \<times> 'k world" where
  "run_or_degrade H q w =
     (case bind_and_serve H q w of
        (Inl e, vs, w) \<Rightarrow> (vs, queue_down w)
      | (Inr _, vs, w) \<Rightarrow> (vs, w))"


section \<open>What a lookup returns\<close>

text \<open>The table as attempt \<open>i\<close> finds it.\<close>

fun seen ::
    "(nat \<Rightarrow> pending_table mutex \<Rightarrow> pending_table mutex) \<Rightarrow> (nat \<Rightarrow> instant) \<Rightarrow> dest_key
       \<Rightarrow> pending_table mutex \<Rightarrow> nat \<Rightarrow> pending_table mutex" where
  "seen others t key m 0 = m"
| "seen others t key m (Suc i) = others i (snd (lookup_attempt (t i) key (seen others t key m i)))"

lemma first_hit_step:
  fixes a :: "nat \<Rightarrow> 'a option"
  assumes "a i = None"
  shows "(\<exists>j. Suc i \<le> j \<and> j < Suc i + n \<and> a j = Some v \<and> (\<forall>l. Suc i \<le> l \<and> l < j \<longrightarrow> a l = None)) \<longleftrightarrow>
    (\<exists>j. i \<le> j \<and> j < i + Suc n \<and> a j = Some v \<and> (\<forall>l. i \<le> l \<and> l < j \<longrightarrow> a l = None))"
    (is "(\<exists>j. ?P j) \<longleftrightarrow> (\<exists>j. ?Q j)")
proof -
  have "?P j \<longleftrightarrow> ?Q j" for j
  proof (cases "j = i")
    case False
    have "(\<forall>l. Suc i \<le> l \<and> l < j \<longrightarrow> a l = None) \<longleftrightarrow> (\<forall>l. i \<le> l \<and> l < j \<longrightarrow> a l = None)"
      using assms by (metis Suc_leD Suc_leI le_neq_implies_less)
    with False show ?thesis by auto
  qed (use assms in simp)
  then show ?thesis by simp
qed

lemma lookup_loop_iff:
  "fst (lookup_loop others t key n i (seen others t key m i)) = Accept \<longleftrightarrow>
     (\<exists>j. i \<le> j \<and> j < i + n \<and> fst (lookup_attempt (t j) key (seen others t key m j)) = Some Accept \<and>
       (\<forall>l. i \<le> l \<and> l < j \<longrightarrow> fst (lookup_attempt (t l) key (seen others t key m l)) = None))"
proof (induction n arbitrary: i)
  case (Suc n)
  let ?a = "\<lambda>l. fst (lookup_attempt (t l) key (seen others t key m l))"
  show ?case
  proof (cases "?a i")
    case None
    then have "fst (lookup_loop others t key (Suc n) i (seen others t key m i)) =
        fst (lookup_loop others t key n (Suc i) (seen others t key m (Suc i)))"
      by (cases "lookup_attempt (t i) key (seen others t key m i)") simp
    then show ?thesis
      using Suc.IH [of "Suc i"] first_hit_step [of ?a i n Accept, OF None] by simp
  next
    case (Some v)
    then have hit: "fst (lookup_loop others t key (Suc n) i (seen others t key m i)) = v"
      by (cases "lookup_attempt (t i) key (seen others t key m i)") simp
    have "j = i" if "i \<le> j" "\<forall>l. i \<le> l \<and> l < j \<longrightarrow> ?a l = None" for j
      using that Some by (metis le_neq_implies_less option.distinct(1) order.refl)
    then have "(\<exists>j. i \<le> j \<and> j < i + Suc n \<and> ?a j = Some Accept \<and> (\<forall>l. i \<le> l \<and> l < j \<longrightarrow> ?a l = None)) \<longleftrightarrow>
        v = Accept"
      using Some by (metis add_Suc_right less_add_Suc1 not_less option.inject order.refl)
    with hit show ?thesis by simp
  qed
qed simp

lemma lookup_attempt_accept:
  "fst (lookup_attempt now key m) = Some Accept \<longleftrightarrow>
     (\<exists>p. m = Healthy p \<and> fst (PendingTable_take now key p) = Some Accept)"
  by (cases m) (auto simp: lookup_attempt_def case_prod_unfold Let_def)

lemma lookup_attempt_none:
  "fst (lookup_attempt now key m) = None \<longleftrightarrow>
     (\<exists>p. m = Healthy p \<and> fst (PendingTable_take now key p) = None)"
  by (cases m) (auto simp: lookup_attempt_def case_prod_unfold Let_def)

text \<open>
  C8: the queue fails closed. A queued packet is accepted exactly when it is an IPv4 TCP packet and,
  at one of at most fifty attempts, a healthy pending table yields an accept verdict for its
  destination, every earlier attempt having found none. An unparseable packet, a poisoned table
  or fifty misses drop it, whatever other threads do to the table meanwhile.
\<close>

theorem lookup_fails_closed:
  "fst (lookup_verdict others t payload m) = Accept \<longleftrightarrow>
     (\<exists>key i p. tcp_destination payload = Some key \<and> i < 50 \<and> seen others t key m i = Healthy p \<and>
        fst (PendingTable_take (t i) key p) = Some Accept \<and>
        (\<forall>l. l < i \<longrightarrow> (\<exists>q. seen others t key m l = Healthy q \<and> fst (PendingTable_take (t l) key q) = None)))"
proof (cases "tcp_destination payload")
  case (Some key)
  then show ?thesis
    using lookup_loop_iff [of others t key 50 0 m]
    by (auto simp: lookup_verdict_def lookup_attempt_accept lookup_attempt_none)
qed (simp add: lookup_verdict_def)

theorem lookup_fails_closed_witness:
  "fst (lookup_verdict (\<lambda>_ m. m) (\<lambda>_. 0) [1, 2, 3] (Healthy pending_two)) = Drop"
proof -
  have "tcp_destination [1, 2, 3] = None" by (simp add: tcp_destination_def)
  then have "fst (lookup_verdict (\<lambda>_ m. m) (\<lambda>_. 0) [1, 2, 3] (Healthy pending_two)) \<noteq> Accept"
    using lookup_fails_closed [of "\<lambda>_ m. m" "\<lambda>_. 0" "[1, 2, 3]" "Healthy pending_two"] by simp
  then show ?thesis by (cases "fst (lookup_verdict (\<lambda>_ m. m) (\<lambda>_. 0) [1, 2, 3] (Healthy pending_two))") auto
qed

section \<open>The sections of handling an event\<close>

text \<open>The decision an event leads to, if every table it needs can be locked.\<close>

abbreviation event_decision :: "'k host \<Rightarrow> (nat \<Rightarrow> instant) \<Rightarrow> tcp_connect_event \<Rightarrow> 'k world \<Rightarrow> decision option" where
  "event_decision H t ev w \<equiv> fst (decide_event H t ev w)"

text \<open>An event is either discarded because a lock is poisoned, or decided.\<close>

lemma decide_event_cases:
  obtains (discarded) "decide_event H t ev w = (None, w)"
  | (decided) rules cache prompts dns recent d tb where "sh_rules (w_shared w) = Healthy rules"
      "sh_process_cache (w_shared w) = Healthy cache" "sh_prompts (w_shared w) = Healthy prompts"
      "sh_dns (w_shared w) = Healthy dns" "sh_recent (w_shared w) = Healthy recent"
      "decide (ho_procfs H) t ev rules (tables_of cache prompts dns recent) = (d, tb)"
      "decide_event H t ev w = (Some d, w\<lparr>w_shared := (w_shared w)\<lparr>sh_process_cache := Healthy (tb_cache tb),
         sh_prompts := Healthy (tb_prompts tb), sh_dns := Healthy (tb_dns tb), sh_recent := Healthy (tb_recent tb)\<rparr>\<rparr>)"
  by (cases "sh_rules (w_shared w)"; cases "sh_process_cache (w_shared w)"; cases "sh_prompts (w_shared w)";
      cases "sh_dns (w_shared w)"; cases "sh_recent (w_shared w)")
    (auto simp: decide_event_def Let_def case_prod_unfold, metis surj_pair)

lemma decision_key: "event_decision H t ev w = Some d \<Longrightarrow> d_key d = event_key ev"
  by (cases rule: decide_event_cases [of H t ev w]) (auto dest: arg_cong [where f = "\<lambda>r. d_key (fst r)"])

lemma decide_event_pending: "sh_pending (w_shared (snd (decide_event H t ev w))) = sh_pending (w_shared w)"
  by (cases rule: decide_event_cases [of H t ev w]) simp_all

text \<open>Each later part changes its own table.\<close>

lemma store_pending_shared:
  "w_shared (store_pending t d w) = (w_shared w)\<lparr>sh_pending := with_lock (sh_pending (w_shared w))
     (sh_pending (w_shared w)) (\<lambda>p. Healthy (PendingTable_insert (t 6) (t 7) (d_key d) (d_packet_verdict d) p))\<rparr>"
  by (cases "sh_pending (w_shared w)") (simp_all add: store_pending_def)

lemma store_stats_shared:
  "w_shared (store_stats d w) = (w_shared w)\<lparr>sh_stats := with_lock (sh_stats (w_shared w)) (sh_stats (w_shared w))
     (\<lambda>s. Healthy (stats_step (case d_stats d of Some hit \<Rightarrow> Attributed hit | None \<Rightarrow> Unattributed) s))\<rparr>"
  by (cases "sh_stats (w_shared w)") (simp_all add: store_stats_def split: option.split)

lemma store_audit_shared:
  "w_shared (store_audit d w) = (w_shared w)\<lparr>sh_audit := with_lock (sh_audit (w_shared w)) (sh_audit (w_shared w))
     (\<lambda>a. Healthy (fst (AuditLog_append (connect_message d) (a, w_hub w, w_fs w))))\<rparr>"
  by (cases "sh_audit (w_shared w)") (simp_all add: store_audit_def case_prod_unfold Let_def)

lemmas store_shared = store_pending_shared store_stats_shared store_audit_shared

end
