(* ===== verification/Ipc.thy ===== *)
theory Ipc
  imports Observe
begin

text \<open>
  The control socket (\<open>ipc.rs\<close>): one request per connection, its authorisation by peer
  credentials, and every handler. A handler returns the response and the new world; no response
  means that its thread panicked. \<open>conn\<close> is what the code gets from the stream: the peer's user id,
  the line it read and the result of writing back.
\<close>

section \<open>Connections\<close>

record conn =
  cn_peer :: "u32 option"
  cn_line :: "io_error + string"
  cn_write :: "io_error option"

type_synonym 'k handler = "'k world \<Rightarrow> response option \<times> 'k world"

definition peer_may_mutate :: "'k host \<Rightarrow> conn \<Rightarrow> bool" where
  "peer_may_mutate H c =
     (case cn_peer c of None \<Rightarrow> False | Some uid \<Rightarrow> uid_may_mutate (ho_accounts H) (ho_uid H) uid)"

definition reply :: "response \<Rightarrow> 'k handler" where
  "reply r w = (Some r, w)"

definition err :: "string \<Rightarrow> 'k handler" where
  "err code = reply (RError code)"

section \<open>Status and statistics\<close>

definition status_handler :: "'k host \<Rightarrow> conn \<Rightarrow> 'k handler" where
  "status_handler H c w =
     (let metrics = (case sample_self (ho_procfs H) (ho_pid H) of
            Inr m \<Rightarrow> m | Inl _ \<Rightarrow> \<lparr>sm_pid = ho_pid H, sm_rss_kib = 0, sm_cpu_jiffies = 0\<rparr>);
          uid = (case cn_peer c of Some u \<Rightarrow> u | None \<Rightarrow> 0);
          sh = w_shared w
      in reply (RStatus
           \<lparr>sb_enforcement = Shared_enforcement sh, sb_observation = Shared_observation sh,
            sb_traffic = Shared_traffic sh (w_fs w),
            sb_traffic_machine = TrafficPreference_as_str (machine_preference sh),
            sb_traffic_user = TrafficPreference_as_str (user_preference uid sh (w_fs w)),
            sb_traffic_effective = traffic_effective uid sh (w_fs w), sb_ipc_version = IPC_VERSION,
            sb_pid = sm_pid metrics, sb_rss_kib = sm_rss_kib metrics,
            sb_cpu_jiffies = sm_cpu_jiffies metrics\<rparr>) w)"

definition stats_summary_handler :: "'k host \<Rightarrow> instant \<Rightarrow> 'k handler" where
  "stats_summary_handler H now w =
     with_lock (sh_stats (w_shared w)) (err ''lock_poisoned'' w) (\<lambda>stats.
       let rules = with_lock (sh_rules (w_shared w)) 0 (\<lambda>set. word_of_nat (length (rs_rules set)));
           summary = StatsStore_summary now rules stats
       in reply (RStatsSummary
            \<lparr>su_connections = ss_connections summary, su_denied = ss_denied summary,
             su_uptime_secs = ss_uptime_secs summary, su_rules = ss_rules summary,
             su_version = ho_version H, su_git = ho_git H\<rparr>) w)"

definition encode_stats_rows :: "(string \<times> stats_counters) list \<Rightarrow> string list" where
  "encode_stats_rows rows =
     map (\<lambda>(key, counters). StatsRow_encode_row
            \<lparr>row_key = key, row_hits = sc_hits counters, row_allow = sc_allow counters,
             row_deny = sc_deny counters, row_prompt = sc_prompt counters\<rparr>) rows"

datatype stats_kind = Hosts | Procs | Addrs | Ports | Users

fun stats_rows_of :: "stats_kind \<Rightarrow> stats_store \<Rightarrow> (string \<times> stats_counters) list" where
  "stats_rows_of Hosts = StatsStore_hosts"
| "stats_rows_of Procs = StatsStore_procs"
| "stats_rows_of Addrs = StatsStore_addrs"
| "stats_rows_of Ports = StatsStore_ports"
| "stats_rows_of Users = StatsStore_users"

fun stats_response :: "stats_kind \<Rightarrow> string \<Rightarrow> response" where
  "stats_response Hosts = RStatsHosts"
| "stats_response Procs = RStatsProcs"
| "stats_response Addrs = RStatsAddrs"
| "stats_response Ports = RStatsPorts"
| "stats_response Users = RStatsUsers"

definition stats_list :: "stats_kind \<Rightarrow> 'k handler" where
  "stats_list kind w =
     with_lock (sh_stats (w_shared w)) (err ''lock_poisoned'' w) (\<lambda>stats.
       let payload = join '';'' (encode_stats_rows (stats_rows_of kind stats))
       in reply (stats_response kind payload) w)"

section \<open>Enforcement and traffic\<close>

definition traffic_mutate :: "'k host \<Rightarrow> conn \<Rightarrow> string \<Rightarrow> string option \<Rightarrow> bool \<Rightarrow> 'k handler" where
  "traffic_mutate H c scope_raw direction_raw unblock w =
     (if \<not> peer_may_mutate H c then err ''unauthorized'' w
      else case cn_peer c of
             None \<Rightarrow> err ''unauthorized'' w
           | Some uid \<Rightarrow>
               if scope_raw = ''machine'' \<and> uid \<noteq> 0 then err ''unauthorized'' w
               else if scope_raw \<noteq> ''machine'' \<and> scope_raw \<noteq> ''user'' then err ''malformed_request'' w
               else
                 let scope = (if scope_raw = ''machine'' then ScMachine else ScUser)
                 in if unblock then
                      (case traffic_unblock H scope uid w of
                         (Inr _, w) \<Rightarrow> reply RPong w
                       | (Inl _, w) \<Rightarrow> err ''traffic_unblock_failed'' w)
                    else case direction_raw of
                           None \<Rightarrow> err ''malformed_request'' w
                         | Some raw \<Rightarrow>
                             (case TrafficPreference_parse raw of
                                None \<Rightarrow> err ''malformed_request'' w
                              | Some preference \<Rightarrow>
                                  if preference = TOpen then err ''malformed_request'' w
                                  else case traffic_block H scope preference uid w of
                                         (Inr _, w) \<Rightarrow> reply RPong w
                                       | (Inl _, w) \<Rightarrow> err ''traffic_block_failed'' w))"

text \<open>\<open>enforcement_mutate\<close> and \<open>network_mutate\<close> differ in the codes of their failures only.\<close>

definition mode_mutate :: "'k host \<Rightarrow> conn \<Rightarrow> bool \<Rightarrow> string \<Rightarrow> 'k handler" where
  "mode_mutate H c pause failed w =
     (if \<not> peer_may_mutate H c then err ''unauthorized'' w
      else case (if pause then Shared_pause H w else Shared_resume H w) of
             (Inr _, w) \<Rightarrow> reply RPong w
           | (Inl _, w) \<Rightarrow> err failed w)"

definition enforcement_mutate :: "'k host \<Rightarrow> conn \<Rightarrow> bool \<Rightarrow> 'k handler" where
  "enforcement_mutate H c pause = mode_mutate H c pause (if pause then ''pause_failed'' else ''resume_failed'')"

definition network_mutate :: "'k host \<Rightarrow> conn \<Rightarrow> bool \<Rightarrow> 'k handler" where
  "network_mutate H c remove =
     mode_mutate H c remove (if remove then ''nft_remove_failed'' else ''nft_install_failed'')"

section \<open>Listings\<close>

fun show_verdict :: "verdict \<Rightarrow> string" where
  "show_verdict Allow = ''Allow''"
| "show_verdict Deny = ''Deny''"
| "show_verdict Prompt = ''Prompt''"

definition process_row_of :: "recent_connects \<Rightarrow> rule_set \<Rightarrow> process_identity \<Rightarrow> process_row" where
  "process_row_of recent rules identity =
     (let ports = join ''+'' (map (\<lambda>dest. show_ipv4 (rd_ipv4 dest) @ '':'' @ show_word (rd_port dest) @ ''/'' @
            rd_verdict dest) (for_process (pi_pid identity) (pi_start_ticks identity) recent));
          connection = \<lparr>conn_executable = display (pi_executable identity), conn_protocol = Tcp,
            conn_direction = Outbound, conn_address = V4 (0, 0, 0, 0), conn_hostname = None, conn_port = 0\<rparr>;
          verdict = to_ascii_lowercase (show_verdict (RuleSet_verdict_for rules connection))
      in \<lparr>pr_pid = pi_pid identity, pr_start_ticks = pi_start_ticks identity, pr_uid = pi_uid identity,
          pr_executable = display (pi_executable identity), pr_cmdline = join [SP] (pi_command_line identity),
          pr_verdict = verdict, pr_ports = ports\<rparr>)"

definition process_list :: "'k handler" where
  "process_list w =
     (let sh = w_shared w in
      with_lock (sh_process_cache sh) (err ''lock_poisoned'' w) (\<lambda>cache.
      with_lock (sh_recent sh) (err ''lock_poisoned'' w) (\<lambda>recent.
      with_lock (sh_rules sh) (err ''lock_poisoned'' w) (\<lambda>rules.
        reply (RProcesses (join '';'' (map (\<lambda>i. ProcessRow_encode_row (process_row_of recent rules i))
          (ProcessCache_list cache)))) w))))"

definition audit_tail :: "usize \<Rightarrow> 'k handler" where
  "audit_tail limit w =
     with_lock (sh_audit (w_shared w)) (err ''lock_poisoned'' w) (\<lambda>audit.
       reply (RAudit (join '','' (map (\<lambda>record. show_word (lr_sequence record) @ ''|'' @ lr_message record)
         (AuditLog_tail limit audit)))) w)"

definition rule_list :: "'k handler" where
  "rule_list w =
     with_lock (sh_rules (w_shared w)) (err ''lock_poisoned'' w) (\<lambda>rules.
       reply (RRules (join '','' (map (\<lambda>rule. show_word (rule_id rule) @ ''|'' @ rule_executable rule @ ''|'' @
         show_verdict (rule_verdict rule) @ ''|'' @
         show_word (case rule_port rule of Some p \<Rightarrow> p | None \<Rightarrow> 0)) (rs_rules rules)))) w)"

definition octets_of_u32 :: "u32 \<Rightarrow> octets" where
  "octets_of_u32 ip = (let o4 = to_ne_bytes 4 ip in (o4 ! 0, o4 ! 1, o4 ! 2, o4 ! 3))"

definition encode_prompts :: "instant \<Rightarrow> instant \<Rightarrow> prompt_queue \<Rightarrow> string \<times> prompt_queue" where
  "encode_prompts now1 now2 prompts =
     (let (ps, prompts) = list_pending now2 prompts
      in (join '','' (map (\<lambda>prompt.
            let remaining = as_secs (pr_expires_at prompt - now1)
            in show_word (pr_id prompt) @ ''|'' @ pk_executable (pr_key prompt) @ ''|'' @
               show_ipv4 (octets_of_u32 (pk_ipv4 (pr_key prompt))) @ ''|'' @
               show_word (pk_port (pr_key prompt)) @ ''|tcp|'' @ show_nat remaining) ps), prompts))"

definition set_prompts :: "prompt_queue \<Rightarrow> 'k world \<Rightarrow> 'k world" where
  "set_prompts q w = w\<lparr>w_shared := (w_shared w)\<lparr>sh_prompts := Healthy q\<rparr>\<rparr>"

definition set_dns :: "dns_cache mutex \<Rightarrow> 'k world \<Rightarrow> 'k world" where
  "set_dns m w = w\<lparr>w_shared := (w_shared w)\<lparr>sh_dns := m\<rparr>\<rparr>"

definition set_rules :: "rule_set \<Rightarrow> 'k world \<Rightarrow> 'k world" where
  "set_rules rs w = w\<lparr>w_shared := (w_shared w)\<lparr>sh_rules := Healthy rs\<rparr>\<rparr>"

definition prompt_list :: "(nat \<Rightarrow> instant) \<Rightarrow> 'k handler" where
  "prompt_list t w =
     with_lock (sh_prompts (w_shared w)) (err ''lock_poisoned'' w) (\<lambda>prompts.
       let (payload, prompts) = encode_prompts (t 0) (t 1) prompts
       in reply (RPrompts payload) (set_prompts prompts w))"

definition dns_list :: "(nat \<Rightarrow> instant) \<Rightarrow> 'k handler" where
  "dns_list t w =
     with_lock (sh_dns (w_shared w)) (err ''lock_poisoned'' w) (\<lambda>dns.
       let (rows, dns) = list_fresh (t 0) (t 1) dns
       in reply (RDns (join '','' (map (\<lambda>(hostname, ipv4, ttl).
            hostname @ ''|'' @ show_ipv4 (octets_of_u32 ipv4) @ ''|'' @ show_word ttl) rows)))
          (set_dns (Healthy dns) w))"

section \<open>Mutations\<close>

text \<open>A time to live that \<open>Instant + Duration\<close> cannot hold panics with the lock held.\<close>

definition dns_note ::
    "'k host \<Rightarrow> conn \<Rightarrow> (nat \<Rightarrow> instant) \<Rightarrow> string \<Rightarrow> string \<Rightarrow> u64 option \<Rightarrow> 'k handler" where
  "dns_note H c t hostname ipv4 ttl_secs w =
     (if \<not> peer_may_mutate H c then err ''unauthorized'' w
      else if hostname = [] \<or> CHR ''|'' \<in> set hostname then err ''invalid_hostname'' w
      else case parse_ipv4 ipv4 of
             None \<Rightarrow> err ''invalid_ipv4'' w
           | Some (a, b, c, d) \<Rightarrow>
               let ip = from_ne_bytes [a, b, c, d];
                   ttl = map_option (\<lambda>s. from_secs (unat s)) ttl_secs
               in with_lock (sh_dns (w_shared w)) (err ''lock_poisoned'' w) (\<lambda>dns.
                    case DnsCache_observe (t 0) (t 1) hostname ip ttl dns of
                      Inl dns \<Rightarrow> (None, set_dns (Poisoned dns) w)
                    | Inr dns \<Rightarrow> reply RPong (set_dns (Healthy dns) w)))"

definition save_rules :: "'k host \<Rightarrow> rule_set \<Rightarrow> 'k world \<Rightarrow> bool \<times> 'k world" where
  "save_rules H rs w =
     (let (r, s) = RulesStore_save (ho_to_toml H) (unat (ho_pid H)) (sh_store (w_shared w)) rs (w_fs w)
      in (is_ok r, w\<lparr>w_fs := s\<rparr>))"

fun scope_of :: "rule_scope \<Rightarrow> scope" where
  "scope_of RsOnce = Once"
| "scope_of RsSession = Session"
| "scope_of RsPermanent = Permanent"

definition next_rule_id :: "rule_set \<Rightarrow> u64" where
  "next_rule_id rs =
     saturating_add (case map rule_id (rs_rules rs) of [] \<Rightarrow> 0 | i # is \<Rightarrow> fold max is i) 1"

definition persist_answered_rule :: "'k host \<Rightarrow> answered \<Rightarrow> 'k world \<Rightarrow> (string + unit) \<times> 'k world" where
  "persist_answered_rule H answered w =
     with_lock (sh_rules (w_shared w)) (Inl ''lock_poisoned'', w) (\<lambda>rules.
       let rule = \<lparr>rule_id = next_rule_id rules, rule_executable = pk_executable (an_key answered),
             rule_protocol = Some Tcp, rule_direction = Some Outbound, rule_address = None,
             rule_hostname = None, rule_port = Some (pk_port (an_key answered)),
             rule_verdict = an_verdict answered, rule_scope = scope_of (an_scope answered)\<rparr>
       in case RuleSet_insert rule rules of
            Inl _ \<Rightarrow> (Inl ''invalid_rule'', w)
          | Inr rules \<Rightarrow>
              let w = set_rules rules w
              in if an_scope answered = RsPermanent
                 then (case save_rules H rules w of
                         (True, w) \<Rightarrow> (Inr (), w)
                       | (False, w) \<Rightarrow> (Inl ''persistence_failed'', w))
                 else (Inr (), w))"

definition parse_answer_verdict :: "string \<Rightarrow> verdict option" where
  "parse_answer_verdict v = (if v = ''allow'' then Some Allow else if v = ''deny'' then Some Deny else None)"

definition parse_rule_scope :: "string \<Rightarrow> rule_scope option" where
  "parse_rule_scope s =
     (if s = ''once'' then Some RsOnce else if s = ''session'' then Some RsSession
      else if s = ''permanent'' then Some RsPermanent else None)"

definition prompt_answer ::
    "'k host \<Rightarrow> conn \<Rightarrow> (nat \<Rightarrow> instant) \<Rightarrow> u64 \<Rightarrow> string \<Rightarrow> string \<Rightarrow> 'k handler" where
  "prompt_answer H c t i verdict scope w =
     (if \<not> peer_may_mutate H c then err ''unauthorized'' w
      else case parse_answer_verdict verdict of
             None \<Rightarrow> err ''invalid_verdict'' w
           | Some verdict \<Rightarrow>
               (case parse_rule_scope scope of
                  None \<Rightarrow> err ''invalid_scope'' w
                | Some scope \<Rightarrow>
                    with_lock (sh_prompts (w_shared w)) (err ''lock_poisoned'' w) (\<lambda>prompts.
                      case PromptQueue_answer (t 0) (t 1) i verdict scope prompts of
                        (Inl AnswerNotFound, prompts) \<Rightarrow> err ''prompt_not_found'' (set_prompts prompts w)
                      | (Inl AnswerExpired, prompts) \<Rightarrow> err ''prompt_expired'' (set_prompts prompts w)
                      | (Inr answered, prompts) \<Rightarrow>
                          let w = set_prompts prompts w
                          in if \<not> an_duplicate answered \<and> an_scope answered \<noteq> RsOnce
                             then (case persist_answered_rule H answered w of
                                     (Inl code, w) \<Rightarrow> err code w
                                   | (Inr _, w) \<Rightarrow> reply RPong w)
                             else reply RPong w)))"

definition rule_delete :: "'k host \<Rightarrow> conn \<Rightarrow> u64 \<Rightarrow> 'k handler" where
  "rule_delete H c i w =
     (if \<not> peer_may_mutate H c then err ''unauthorized'' w
      else with_lock (sh_rules (w_shared w)) (err ''lock_poisoned'' w) (\<lambda>rules.
        let (removed, rules) = RuleSet_remove i rules; w = set_rules rules w
        in if \<not> removed then err ''rule_not_found'' w
           else case save_rules H rules w of
                  (True, w) \<Rightarrow> reply RPong w
                | (False, w) \<Rightarrow> err ''persistence_failed'' w))"

definition parse_rule_verdict :: "string \<Rightarrow> verdict option" where
  "parse_rule_verdict v =
     (if v = ''allow'' then Some Allow else if v = ''deny'' then Some Deny
      else if v = ''prompt'' then Some Prompt else None)"

definition rule_add :: "'k host \<Rightarrow> conn \<Rightarrow> u64 \<Rightarrow> string \<Rightarrow> string \<Rightarrow> u16 \<Rightarrow> 'k handler" where
  "rule_add H c i executable verdict port w =
     (if \<not> peer_may_mutate H c then err ''unauthorized'' w
      else with_lock (sh_rules (w_shared w)) (err ''lock_poisoned'' w) (\<lambda>rules.
        case parse_rule_verdict verdict of
          None \<Rightarrow> err ''invalid_verdict'' w
        | Some verdict \<Rightarrow>
            let rule = \<lparr>rule_id = i, rule_executable = executable, rule_protocol = Some Tcp,
                  rule_direction = Some Outbound, rule_address = None, rule_hostname = None,
                  rule_port = Some port, rule_verdict = verdict, rule_scope = Permanent\<rparr>
            in case RuleSet_insert rule rules of
                 Inl _ \<Rightarrow> err ''invalid_rule'' w
               | Inr rules \<Rightarrow>
                   (case save_rules H rules (set_rules rules w) of
                      (True, w) \<Rightarrow> reply RPong w
                    | (False, w) \<Rightarrow> err ''persistence_failed'' w)))"

section \<open>Dispatch\<close>

fun dispatch :: "'k host \<Rightarrow> conn \<Rightarrow> (nat \<Rightarrow> instant) \<Rightarrow> request \<Rightarrow> 'k handler" where
  "dispatch H c t Ping = reply RPong"
| "dispatch H c t Status = status_handler H c"
| "dispatch H c t RuleList = rule_list"
| "dispatch H c t (RuleDelete i) = rule_delete H c i"
| "dispatch H c t (RuleAdd i executable verdict port) = rule_add H c i executable verdict port"
| "dispatch H c t PromptList = prompt_list t"
| "dispatch H c t (PromptAnswer i verdict scope) = prompt_answer H c t i verdict scope"
| "dispatch H c t DnsList = dns_list t"
| "dispatch H c t (DnsNote hostname ipv4 ttl_secs) = dns_note H c t hostname ipv4 ttl_secs"
| "dispatch H c t (AuditTail limit) = audit_tail limit"
| "dispatch H c t (AuditSubscribe i since) = err ''malformed_request''"
| "dispatch H c t ProcessList = process_list"
| "dispatch H c t NetworkStatusReq = (\<lambda>w. reply (RNetwork (nft_status (ho_nft H) (w_kernel w))) w)"
| "dispatch H c t NetworkInstall = network_mutate H c False"
| "dispatch H c t NetworkRemove = network_mutate H c True"
| "dispatch H c t Pause = enforcement_mutate H c True"
| "dispatch H c t Resume = enforcement_mutate H c False"
| "dispatch H c t (TrafficBlock scope direction) = traffic_mutate H c scope (Some direction) False"
| "dispatch H c t (TrafficUnblock scope) = traffic_mutate H c scope None True"
| "dispatch H c t StatsSummaryReq = stats_summary_handler H (t 0)"
| "dispatch H c t StatsHosts = stats_list Hosts"
| "dispatch H c t StatsProcs = stats_list Procs"
| "dispatch H c t StatsAddrs = stats_list Addrs"
| "dispatch H c t StatsPorts = stats_list Ports"
| "dispatch H c t StatsUsers = stats_list Users"

text \<open>The result of a connection: the handler's own result and what was written to the stream.\<close>

definition write_response :: "conn \<Rightarrow> response \<Rightarrow> (io_error + unit) \<times> string" where
  "write_response c r =
     (case cn_write c of Some e \<Rightarrow> (Inl e, []) | None \<Rightarrow> (Inr (), Response_encode r))"

definition audit_subscribe ::
    "conn \<Rightarrow> string \<Rightarrow> u64 \<Rightarrow> 'k world \<Rightarrow> (io_error + unit) \<times> string \<times> 'k world" where
  "audit_subscribe c i since w =
     (let respond = (\<lambda>r. let (x, out) = write_response c r in (x, out, w))
      in if i = [] \<or> CHR ''|'' \<in> set i \<or> SP \<in> set i then respond (RError ''invalid_subscriber'')
         else with_lock (sh_audit (w_shared w)) (respond (RError ''lock_poisoned'')) (\<lambda>audit.
           case write_response c (RSubscribed i) of
             (Inl e, out) \<Rightarrow> (Inl e, out, w)
           | (Inr _, out) \<Rightarrow>
               let (_, audit, h) = attach_subscriber i since (audit, w_hub w)
               in (Inr (), out, w\<lparr>w_shared := (w_shared w)\<lparr>sh_audit := Healthy audit\<rparr>, w_hub := h\<rparr>)))"

text \<open>The arm of \<open>handle\<close> that keeps the stream.\<close>

fun subscription :: "request \<Rightarrow> (string \<times> u64) option" where
  "subscription (AuditSubscribe i since) = Some (i, since)"
| "subscription request = None"

definition handle ::
    "'k host \<Rightarrow> (nat \<Rightarrow> instant) \<Rightarrow> conn \<Rightarrow> 'k world \<Rightarrow> (io_error + unit) \<times> string \<times> 'k world" where
  "handle H t c w =
     (let respond = (\<lambda>r w. let (x, out) = write_response c r in (x, out, w))
      in case cn_line c of
           Inl e \<Rightarrow> (Inl e, [], w)
         | Inr frame \<Rightarrow>
             if MAX_FRAME_BYTES < length frame then respond (RError ''frame_too_large'') w
             else case Request_parse frame of
                    Inl _ \<Rightarrow> respond (RError ''malformed_request'') w
                  | Inr request \<Rightarrow>
                      (case subscription request of
                         Some (i, since) \<Rightarrow> audit_subscribe c i since w
                       | None \<Rightarrow>
                           (case dispatch H c t request w of
                              (Some response, w) \<Rightarrow> respond response w
                            | (None, w) \<Rightarrow> (Inl (OtherError ''handler panicked''), [], w))))"

text \<open>What the callback given to \<open>attach_subscriber\<close> does when the stream's thread ends.\<close>

definition subscriber_gone :: "string \<Rightarrow> bool \<Rightarrow> 'k world \<Rightarrow> 'k world" where
  "subscriber_gone sid remove w =
     (if remove then
        with_lock (sh_audit (w_shared w)) w (\<lambda>audit.
          let (audit, h) = subscriber_exit sid True (audit, w_hub w)
          in w\<lparr>w_shared := (w_shared w)\<lparr>sh_audit := Healthy audit\<rparr>, w_hub := h\<rparr>)
      else w)"

section \<open>What a handler can change\<close>

text \<open>
  The parts of the world that decide about traffic and policy: everything but the prompt and DNS
  tables, which listings expire, and the audit subscriptions.
\<close>

definition same_policy :: "'k world \<Rightarrow> 'k world \<Rightarrow> bool" where
  "same_policy w w' \<longleftrightarrow>
     (\<exists>q d. w' = w\<lparr>w_shared := (w_shared w)\<lparr>sh_prompts := q, sh_dns := d\<rparr>\<rparr> \<and>
        (q = sh_prompts (w_shared w) \<or> (\<exists>now p. sh_prompts (w_shared w) = Healthy p \<and> q = Healthy (PromptQueue_expire now p))) \<and>
        (d = sh_dns (w_shared w) \<or> (\<exists>now c. sh_dns (w_shared w) = Healthy c \<and> d = Healthy (DnsCache_expire now c))))"

lemma same_policy_refl [simp]: "same_policy w w"
  unfolding same_policy_def by (intro exI [of _ "sh_prompts (w_shared w)"] exI [of _ "sh_dns (w_shared w)"]) simp

lemma list_pending_snd: "snd (list_pending now q) = PromptQueue_expire now q"
  by (simp add: list_pending_def Let_def)

lemma list_fresh_snd: "snd (list_fresh now1 now2 c) = DnsCache_expire now1 c"
  by (simp add: list_fresh_def Let_def)

lemma prompt_list_same: "same_policy w (snd (prompt_list t w))"
proof (cases "sh_prompts (w_shared w)")
  case (Healthy p)
  then show ?thesis
    by (auto simp: same_policy_def prompt_list_def encode_prompts_def reply_def set_prompts_def case_prod_unfold
        Let_def list_pending_snd intro!: exI [of _ "Healthy (PromptQueue_expire (t 1) p)"]
        exI [of _ "sh_dns (w_shared w)"])
qed (simp add: prompt_list_def err_def reply_def)

lemma dns_list_same: "same_policy w (snd (dns_list t w))"
proof (cases "sh_dns (w_shared w)")
  case (Healthy c)
  then show ?thesis
    by (auto simp: same_policy_def dns_list_def reply_def set_dns_def case_prod_unfold Let_def list_fresh_snd
        intro!: exI [of _ "sh_prompts (w_shared w)"] exI [of _ "Healthy (DnsCache_expire (t 0) c)"])
qed (simp add: dns_list_def err_def reply_def)

lemma with_lock_snd: "snd (with_lock m (a, w) f) = with_lock m w (\<lambda>x. snd (f x))"
  by (cases m) simp_all

lemma listing_same:
  "snd (status_handler H c w) = w" "snd (rule_list w) = w" "snd (audit_tail n w) = w"
  "snd (process_list w) = w" "snd (stats_summary_handler H now w) = w" "snd (stats_list k w) = w"
  by (simp_all add: status_handler_def rule_list_def audit_tail_def process_list_def stats_summary_handler_def
      stats_list_def reply_def err_def Let_def with_lock_snd)
    (simp_all add: with_lock_def split: option.split)

lemma refused_mutations:
  assumes "\<not> peer_may_mutate H c"
  shows "rule_delete H c i w = err ''unauthorized'' w" "rule_add H c i x v p w = err ''unauthorized'' w"
    "prompt_answer H c t i v s w = err ''unauthorized'' w" "dns_note H c t h ip ttl w = err ''unauthorized'' w"
    "mode_mutate H c b f w = err ''unauthorized'' w" "traffic_mutate H c sc dir u w = err ''unauthorized'' w"
  using assms
  by (simp_all add: rule_delete_def rule_add_def prompt_answer_def dns_note_def mode_mutate_def traffic_mutate_def)

lemma dispatch_unauthorized:
  assumes "\<not> peer_may_mutate H c"
  shows "same_policy w (snd (dispatch H c t r w))"
  using assms prompt_list_same dns_list_same
  by (cases r) (simp_all add: listing_same refused_mutations enforcement_mutate_def network_mutate_def err_def reply_def)

definition same_but_audit :: "'k world \<Rightarrow> 'k world \<Rightarrow> bool" where
  "same_but_audit w w' \<longleftrightarrow>
     (\<exists>a h. w' = w\<lparr>w_shared := (w_shared w)\<lparr>sh_audit := a\<rparr>, w_hub := h\<rparr>)"

lemma same_but_audit_refl [simp]: "same_but_audit w w"
  unfolding same_but_audit_def by (intro exI [of _ "sh_audit (w_shared w)"] exI [of _ "w_hub w"]) simp

lemma audit_subscribe_same: "same_but_audit w (snd (snd (audit_subscribe c i since w)))"
proof (cases "sh_audit (w_shared w)")
  case (Healthy a)
  show ?thesis
    by (simp add: audit_subscribe_def Healthy Let_def case_prod_unfold split: sum.split)
      (auto simp: same_but_audit_def)
qed (simp add: audit_subscribe_def Let_def case_prod_unfold)

text \<open>
  C11: a peer without permission cannot change policy. Whatever bytes a client sends, if its
  credentials are unreadable or it is neither root, nor the daemon's own user, nor in the operator
  group, then the rules, the enforcement mode, the kill switch, the pending verdicts, the
  statistics, the kernel table and every file are exactly as before; at most a listing drops
  prompts and names that had expired anyway, or an audit subscription is made.
\<close>

theorem unauthorized_peer_changes_nothing:
  assumes "\<not> peer_may_mutate H c"
  shows "same_policy w (snd (snd (handle H t c w))) \<or> same_but_audit w (snd (snd (handle H t c w)))"
proof (cases "\<exists>frame r. cn_line c = Inr frame \<and> length frame \<le> MAX_FRAME_BYTES \<and> Request_parse frame = Inr r")
  case True
  then obtain frame r where r: "cn_line c = Inr frame" "length frame \<le> MAX_FRAME_BYTES" "Request_parse frame = Inr r"
    by blast
  show ?thesis
  proof (cases "subscription r")
    case None
    have "snd (snd (handle H t c w)) = snd (dispatch H c t r w)"
      using r None by (simp add: handle_def case_prod_unfold Let_def split: option.split)
    then show ?thesis using dispatch_unauthorized [OF assms] by metis
  next
    case (Some a)
    then show ?thesis using r audit_subscribe_same [of w c] by (cases a) (simp add: handle_def)
  qed
next
  case False
  then have "snd (snd (handle H t c w)) = w"
    by (auto simp: handle_def case_prod_unfold Let_def split: sum.split)
  then show ?thesis by simp
qed


section \<open>Handlers leave the pending verdicts alone\<close>

lemma keeps_pending [simp]:
  "sh_pending (w_shared (set_prompts q w)) = sh_pending (w_shared w)"
  "sh_pending (w_shared (set_dns d w)) = sh_pending (w_shared w)"
  "sh_pending (w_shared (set_rules rs w)) = sh_pending (w_shared w)"
  "sh_pending (w_shared (snd (save_rules H rs w))) = sh_pending (w_shared w)"
  "sh_pending (w_shared (set_paused b w)) = sh_pending (w_shared w)"
  "sh_pending (w_shared (set_machine pref w)) = sh_pending (w_shared w)"
  "sh_pending (w_shared (snd (store_mode m w))) = sh_pending (w_shared w)"
  "sh_pending (w_shared (snd (store_traffic p pref w))) = sh_pending (w_shared w)"
  by (simp_all add: set_prompts_def set_dns_def set_rules_def save_rules_def set_paused_def set_machine_def
      store_mode_def store_traffic_def Let_def case_prod_unfold)

text \<open>A property of the world that the first step and every continuation keep.\<close>

lemma step_then:
  assumes "P (snd r)" "\<And>w. P w \<Longrightarrow> P (snd (f w))" "\<And>e w. P w \<Longrightarrow> P (snd (g e w))"
  shows "P (snd (case r of (Inl e, w) \<Rightarrow> g e w | (Inr u, w) \<Rightarrow> f w))"
  using assms by (cases r; cases "fst r") auto

lemma shared_ops_pending:
  "sh_pending (w_shared (snd (Shared_pause H w))) = sh_pending (w_shared w)"
  "sh_pending (w_shared (snd (Shared_resume H w))) = sh_pending (w_shared w)"
  "sh_pending (w_shared (snd (traffic_block H sc pref uid w))) = sh_pending (w_shared w)"
  "sh_pending (w_shared (snd (traffic_unblock H sc uid w))) = sh_pending (w_shared w)"
proof -
  let ?P = "\<lambda>w'. sh_pending (w_shared w') = sh_pending (w_shared w)"
  have "?P (snd (scope_store sc pref uid w))" for pref
    unfolding scope_store_def by (cases sc) (simp_all, rule step_then, simp_all)
  then show "sh_pending (w_shared (snd (traffic_block H sc pref uid w))) = sh_pending (w_shared w)"
    "sh_pending (w_shared (snd (traffic_unblock H sc uid w))) = sh_pending (w_shared w)"
    unfolding traffic_block_def traffic_unblock_def by (auto intro: step_then)
  show "sh_pending (w_shared (snd (Shared_pause H w))) = sh_pending (w_shared w)"
    "sh_pending (w_shared (snd (Shared_resume H w))) = sh_pending (w_shared w)"
    unfolding Shared_pause_def Shared_resume_def by (auto intro: step_then)
qed


lemma step_then_bool:
  assumes "P (snd r)" "\<And>w. P w \<Longrightarrow> P (snd (f w))" "\<And>w. P w \<Longrightarrow> P (snd (g w))"
  shows "P (snd (case r of (True, w) \<Rightarrow> f w | (False, w) \<Rightarrow> g w))"
  using assms by (cases r; cases "fst r") auto

lemma lock_then:
  assumes "P (snd u)" "\<And>x. m = Healthy x \<Longrightarrow> P (snd (f x))"
  shows "P (snd (with_lock m u f))"
  using assms by (cases m) auto

lemma reply_snd [simp]: "snd (reply r w) = w" "snd (err c w) = w"
  by (simp_all add: reply_def err_def)

abbreviation pending_kept :: "'k world \<Rightarrow> 'k world \<Rightarrow> bool" where
  "pending_kept w w' \<equiv> sh_pending (w_shared w') = sh_pending (w_shared w)"

lemma persist_answered_pending: "pending_kept w (snd (persist_answered_rule H a w))"
  unfolding persist_answered_rule_def Let_def
  by (rule lock_then) (auto split: sum.split intro: step_then_bool [where P = "pending_kept w"])

lemma mutation_pending:
  "pending_kept w (snd (rule_delete H c i w))" "pending_kept w (snd (rule_add H c i x v p w))"
  "pending_kept w (snd (dns_note H c t h ip ttl w))" "pending_kept w (snd (mode_mutate H c b f w))"
  "pending_kept w (snd (traffic_mutate H c sc dir u w))"
proof -
  show "pending_kept w (snd (rule_delete H c i w))"
    by (auto simp: rule_delete_def case_prod_unfold Let_def split: bool.split
        intro!: lock_then [where P = "pending_kept w"])
  show "pending_kept w (snd (rule_add H c i x v p w))"
    by (auto simp: rule_add_def Let_def split: option.split sum.split
        intro!: lock_then [where P = "pending_kept w"] step_then_bool [where P = "pending_kept w"])
  show "pending_kept w (snd (dns_note H c t h ip ttl w))"
    by (auto simp: dns_note_def Let_def split: option.split sum.split
        intro!: lock_then [where P = "pending_kept w"])
  show "pending_kept w (snd (mode_mutate H c b f w))"
    by (auto simp: mode_mutate_def shared_ops_pending intro!: step_then [where P = "pending_kept w"])
  show "pending_kept w (snd (traffic_mutate H c sc dir u w))"
  proof -
    have "pending_kept w (snd (case traffic_unblock H sc uid w of (Inr _, w) \<Rightarrow> reply RPong w | (Inl _, w) \<Rightarrow> err x w))"
      "pending_kept w (snd (case traffic_block H sc pf uid w of (Inr _, w) \<Rightarrow> reply RPong w | (Inl _, w) \<Rightarrow> err x w))"
      for sc uid pf x
      by (rule step_then [where P = "pending_kept w"]; simp add: shared_ops_pending)+
    then show ?thesis by (simp add: traffic_mutate_def Let_def split: option.split)
  qed
qed

lemma prompt_answer_pending: "pending_kept w (snd (prompt_answer H c t i v s w))"
proof -
  have "pending_kept w (snd (case persist_answered_rule H a w1 of (Inl code, w) \<Rightarrow> err code w | (Inr u, w) \<Rightarrow> reply RPong w))"
    if "pending_kept w w1" for a w1
    by (rule step_then [where P = "pending_kept w"]) (simp_all add: persist_answered_pending that)
  then show ?thesis
    by (auto simp: prompt_answer_def Let_def split: option.split prod.split sum.split answer_error.split
        intro!: lock_then [where P = "pending_kept w"])
qed

lemma dispatch_pending: "pending_kept w (snd (dispatch H c t r w))"
proof -
  have same: "pending_kept w w'" if "same_policy w w'" for w'
    using that by (auto simp: same_policy_def)
  note lists = same [OF prompt_list_same] same [OF dns_list_same]
  show ?thesis
    by (cases r)
      (simp_all add: lists listing_same enforcement_mutate_def network_mutate_def mutation_pending
        prompt_answer_pending)
qed

lemma handle_pending: "pending_kept w (snd (snd (handle H t c w)))"
proof -
  have sub: "pending_kept w (snd (snd (audit_subscribe c i since w)))" for i since
    using audit_subscribe_same [of w c i since] by (auto simp: same_but_audit_def)
  have dis: "pending_kept w (snd (snd (case dispatch H c t r w of
      (Some response, w) \<Rightarrow> (fst (write_response c response), snd (write_response c response), w)
    | (None, w) \<Rightarrow> (Inl (OtherError ''handler panicked''), [], w))))" for r
    using dispatch_pending [of H c t r w] by (cases "dispatch H c t r w"; cases "fst (dispatch H c t r w)") auto
  show ?thesis
    using sub dis
    by (auto simp: handle_def Let_def case_prod_unfold split: sum.split option.split)
qed


section \<open>Answers become rules\<close>

lemma next_rule_id_fresh:
  assumes "r \<in> set (rs_rules rs)" "\<And>e. e \<in> set (rs_rules rs) \<Longrightarrow> rule_id e \<noteq> next_rule_id rs"
  shows "rule_id r < next_rule_id rs"
proof -
  obtain i js where ids: "map rule_id (rs_rules rs) = i # js" using assms(1) by (cases "rs_rules rs") auto
  let ?m = "fold max js i"
  have m: "?m = Max (rule_id ` set (rs_rules rs))"
    using Max.set_eq_fold [of i js] ids by (metis list.set_map)
  have "rule_id r \<le> ?m" unfolding m using assms(1) by (intro Max_ge) auto
  moreover have "?m \<in> rule_id ` set (rs_rules rs)" unfolding m using assms(1) by (intro Max_in) auto
  then obtain e where "e \<in> set (rs_rules rs)" "?m = rule_id e" by auto
  then have "?m \<noteq> next_rule_id rs" using assms(2) by metis
  moreover have "?m \<le> next_rule_id rs" by (simp add: next_rule_id_def ids saturating_add_le)
  ultimately show ?thesis by (meson le_less_trans order_less_le)
qed

lemma persist_answered_success:
  assumes "persist_answered_rule H a w = (Inr (), w')" "sh_rules (w_shared w) = Healthy rs"
  defines "rule \<equiv> \<lparr>rule_id = next_rule_id rs, rule_executable = pk_executable (an_key a),
    rule_protocol = Some Tcp, rule_direction = Some Outbound, rule_address = None, rule_hostname = None,
    rule_port = Some (pk_port (an_key a)), rule_verdict = an_verdict a, rule_scope = scope_of (an_scope a)\<rparr>"
  shows "RuleSet_insert rule rs = Inr (rs\<lparr>rs_rules := rs_rules rs @ [rule]\<rparr>)"
    "sh_rules (w_shared w') = Healthy (rs\<lparr>rs_rules := rs_rules rs @ [rule]\<rparr>)"
proof -
  obtain rs' where ins: "RuleSet_insert rule rs = Inr rs'"
    using assms(1) unfolding persist_answered_rule_def assms(2) rule_def
    by (auto simp: Let_def split: sum.splits)
  then have rs': "rs' = rs\<lparr>rs_rules := rs_rules rs @ [rule]\<rparr>"
    by (auto simp: RuleSet_insert_def split: if_splits)
  then show "RuleSet_insert rule rs = Inr (rs\<lparr>rs_rules := rs_rules rs @ [rule]\<rparr>)" using ins by simp
  show "sh_rules (w_shared w') = Healthy (rs\<lparr>rs_rules := rs_rules rs @ [rule]\<rparr>)"
    using assms(1) ins rs' unfolding persist_answered_rule_def assms(2) rule_def
    by (auto simp: set_rules_def save_rules_def case_prod_unfold Let_def split: if_splits bool.splits)
qed

lemma precedence_below:
  assumes "rule_address r = None" "rule_hostname r = None" "rule_id r < i"
    and "rule_protocol s = Some p" "rule_direction s = Some d" "rule_address s = None" "rule_hostname s = None"
      "rule_port s = Some q" "rule_id s = i"
  shows "Rule_precedence r < Rule_precedence s"
  using assms
  by (cases "rule_protocol r"; cases "rule_direction r"; cases "rule_port r")
    (simp_all add: Rule_precedence_def is_some_def less_prod_def)

text \<open>
  C14: the operator's answer decides the next connection. When an answer for the session or for
  good has been turned into a rule, every later connection of that executable to that port gets
  the answered verdict, unless an address or hostname rule is more specific.
\<close>

theorem answered_rule_decides:
  assumes "persist_answered_rule H a w = (Inr (), w')" "sh_rules (w_shared w) = Healthy rs"
    and "conn_executable cn = pk_executable (an_key a)" "conn_port cn = pk_port (an_key a)"
    and "conn_protocol cn = Tcp" "conn_direction cn = Outbound"
    and "\<And>r. r \<in> set (rs_rules rs) \<Longrightarrow> Rule_matches r cn \<Longrightarrow> rule_address r = None \<and> rule_hostname r = None"
  shows "\<exists>rs'. sh_rules (w_shared w') = Healthy rs' \<and> RuleSet_verdict_for rs' cn = an_verdict a"
proof -
  let ?rule = "\<lparr>rule_id = next_rule_id rs, rule_executable = pk_executable (an_key a),
    rule_protocol = Some Tcp, rule_direction = Some Outbound, rule_address = None, rule_hostname = None,
    rule_port = Some (pk_port (an_key a)), rule_verdict = an_verdict a, rule_scope = scope_of (an_scope a)\<rparr>"
  let ?rs = "rs\<lparr>rs_rules := rs_rules rs @ [?rule]\<rparr>"
  note ok = persist_answered_success [OF assms(1,2)]
  have fresh: "rule_id e \<noteq> next_rule_id rs" if "e \<in> set (rs_rules rs)" for e
    using ok(1) that by (auto simp: RuleSet_insert_def split: if_splits)
  have "RuleSet_verdict_for ?rs cn = rule_verdict ?rule"
  proof (rule verdict_for_decided)
    show "Rule_matches ?rule cn" using assms(3-6) by (simp add: Rule_matches_def)
    fix r assume r: "r \<in> set (rs_rules ?rs)" "Rule_matches r cn" "r \<noteq> ?rule"
    then have mem: "r \<in> set (rs_rules rs)" by auto
    show "Rule_precedence r < Rule_precedence ?rule"
      by (rule precedence_below [where i = "next_rule_id rs"])
        (use assms(7) [OF mem r(2)] next_rule_id_fresh [OF mem fresh] in auto)
  qed simp
  with ok(2) show ?thesis by auto
qed


section \<open>Acknowledged rule changes are on disk\<close>

lemma replace_file_written:
  assumes "replace_file d t p data s = (Inr u, s')" "t \<noteq> p"
  shows "map_of (files s') p = Some data" "fails s' = fails s"
  using assms by (auto simp: replace_file_def fs_defs hm_simps split: if_splits)

definition toml_faithful :: "'k host \<Rightarrow> bool" where
  "toml_faithful H \<longleftrightarrow>
     (\<forall>rs data. ho_to_toml H (rules_to_document rs) = Some data \<longrightarrow>
        ho_from_toml H data = Some (rules_to_document rs) \<and> utf8_valid data)"

lemma save_rules_loads:
  assumes "save_rules H rs w = (True, w')" "rules_wf rs" "toml_faithful H"
    and "\<not> fails (w_fs w) (ReadFile (sh_store (w_shared w)))"
    and "\<And>d. path_parent (sh_store (w_shared w)) = Some d \<Longrightarrow> rules_temporary (unat (ho_pid H)) d \<noteq> sh_store (w_shared w)"
  shows "RulesStore_load (ho_from_toml H) (sh_store (w_shared w)) (w_fs w') = Inr rs"
    "w_shared w' = w_shared w"
proof -
  let ?p = "sh_store (w_shared w)"
  obtain data d where data: "ho_to_toml H (rules_to_document rs) = Some data" "path_parent ?p = Some d"
      "replace_file d (rules_temporary (unat (ho_pid H)) d) ?p data (w_fs w) = (Inr (), w_fs w')"
    and w': "w_shared w' = w_shared w"
    using assms(1)
    by (auto simp: save_rules_def RulesStore_save_def Let_def split: option.splits prod.splits sum.splits)
  note wr = replace_file_written [OF data(3) assms(5) [OF data(2)]]
  have "ho_from_toml H data = Some (rules_to_document rs)" "utf8_valid data"
    using assms(3) data(1) by (auto simp: toml_faithful_def)
  then show "RulesStore_load (ho_from_toml H) ?p (w_fs w') = Inr rs"
    using wr assms(4) insert_all_rebuild [OF assms(2)]
    by (simp add: RulesStore_load_def path_exists_def fs_read_to_string_def rules_to_document_def)
  show "w_shared w' = w_shared w" by (rule w')
qed

text \<open>
  C15: an acknowledged rule change is durable. When \<open>rule-add\<close> or \<open>rule-delete\<close> answers \<open>pong\<close>, the
  rules in memory contain, or no longer contain, the rule, and a daemon started at that moment
  loads exactly these rules. The TOML crate is assumed to read back what it wrote.
\<close>

theorem rule_change_durable:
  assumes "toml_faithful H" "sh_rules (w_shared w) = Healthy rs" "rules_wf rs"
    and "\<not> fails (w_fs w) (ReadFile (sh_store (w_shared w)))"
    and "\<And>d. path_parent (sh_store (w_shared w)) = Some d \<Longrightarrow> rules_temporary (unat (ho_pid H)) d \<noteq> sh_store (w_shared w)"
  shows "(rule_add H c i x v port w = (Some RPong, w1) \<longrightarrow>
      (\<exists>rs'. sh_rules (w_shared w1) = Healthy rs' \<and> i \<in> rule_id ` set (rs_rules rs') \<and>
        RulesStore_load (ho_from_toml H) (sh_store (w_shared w)) (w_fs w1) = Inr rs')) \<and>
    (rule_delete H c i w = (Some RPong, w2) \<longrightarrow>
      (\<exists>rs'. sh_rules (w_shared w2) = Healthy rs' \<and> i \<notin> rule_id ` set (rs_rules rs') \<and>
        RulesStore_load (ho_from_toml H) (sh_store (w_shared w)) (w_fs w2) = Inr rs'))"
proof (intro conjI impI)
  have load: "\<exists>rs1. sh_rules (w_shared w') = Healthy rs1 \<and> rs1 = rs' \<and>
      RulesStore_load (ho_from_toml H) (sh_store (w_shared w)) (w_fs w') = Inr rs1"
    if "save_rules H rs' (set_rules rs' w) = (True, w')" "rules_wf rs'" for rs' w'
    using save_rules_loads [OF that assms(1)] assms(4,5) by (simp add: set_rules_def)
  assume "rule_add H c i x v port w = (Some RPong, w1)"
  then obtain vd rs' where ins: "RuleSet_insert \<lparr>rule_id = i, rule_executable = x, rule_protocol = Some Tcp,
      rule_direction = Some Outbound, rule_address = None, rule_hostname = None, rule_port = Some port,
      rule_verdict = vd, rule_scope = Permanent\<rparr> rs = Inr rs'"
    and save: "save_rules H rs' (set_rules rs' w) = (True, w1)"
    by (auto simp: rule_add_def assms(2) err_def reply_def Let_def
        split: if_splits option.splits sum.splits prod.splits bool.splits)
  have "i \<in> rule_id ` set (rs_rules rs')" using ins by (auto simp: RuleSet_insert_def split: if_splits)
  with load [OF save RuleSet_insert_wf [OF assms(3) ins]]
  show "\<exists>rs'. sh_rules (w_shared w1) = Healthy rs' \<and> i \<in> rule_id ` set (rs_rules rs') \<and>
      RulesStore_load (ho_from_toml H) (sh_store (w_shared w)) (w_fs w1) = Inr rs'" by auto
next
  assume "rule_delete H c i w = (Some RPong, w2)"
  then have save: "save_rules H (snd (RuleSet_remove i rs)) (set_rules (snd (RuleSet_remove i rs)) w) = (True, w2)"
    by (auto simp: rule_delete_def assms(2) err_def reply_def Let_def case_prod_unfold
        split: if_splits prod.splits bool.splits intro: prod_eqI)
  have "i \<notin> rule_id ` set (rs_rules (snd (RuleSet_remove i rs)))" by (auto simp: RuleSet_remove_def Let_def)
  with save_rules_loads [OF save RuleSet_remove_wf [OF assms(3)] assms(1)] assms(4,5)
  show "\<exists>rs'. sh_rules (w_shared w2) = Healthy rs' \<and> i \<notin> rule_id ` set (rs_rules rs') \<and>
      RulesStore_load (ho_from_toml H) (sh_store (w_shared w)) (w_fs w2) = Inr rs'"
    by (auto simp: set_rules_def)
qed

section \<open>A note that stops observation\<close>

lemma huge_ttl_panics: "2 ^ 63 \<le> s \<Longrightarrow> instant_add now (from_secs s) = None"
  by (simp add: instant_add_def as_secs_def from_secs_def div_add1_eq)

text \<open>
  One accepted \<open>dns-note\<close> with a huge time to live ends observation for good. The addition to the
  clock panics while the DNS lock is held; from then on every connect event is discarded before
  its verdict is stored, so every new connection waits and is dropped.
\<close>

theorem dns_note_stops_observation:
  assumes "peer_may_mutate H c" "hostname \<noteq> []" "CHR ''|'' \<notin> set hostname" "parse_ipv4 ipv4 = Some ip"
    and "sh_dns (w_shared w) = Healthy dns" "2 ^ 63 \<le> unat ttl"
  shows "\<exists>w'. dispatch H c t (DnsNote hostname ipv4 (Some ttl)) w = (None, w') \<and>
    (\<forall>t ev. handle_event H t ev w' = w')"
proof -
  obtain a b cc d where ip: "ip = (a, b, cc, d)" by (cases ip)
  have obs: "DnsCache_observe (t 0) (t 1) hostname (from_ne_bytes [a, b, cc, d]) (Some (from_secs (unat ttl))) dns =
      Inl (DnsCache_expire (t 0) dns)"
    using huge_ttl_panics [OF assms(6)] by (simp add: DnsCache_observe_def Let_def)
  let ?w = "set_dns (Poisoned (DnsCache_expire (t 0) dns)) w"
  have "dispatch H c t (DnsNote hostname ipv4 (Some ttl)) w = (None, ?w)"
    using assms(1-5) ip obs by (simp add: dns_note_def Let_def)
  moreover have "handle_event H t ev ?w = ?w" for t ev
    by (cases "sh_rules (w_shared w)"; cases "sh_process_cache (w_shared w)"; cases "sh_prompts (w_shared w)")
      (simp_all add: handle_event_def decide_event_def set_dns_def Let_def)
  ultimately show ?thesis by blast
qed


section \<open>Witnesses\<close>

definition conn_demo :: "u32 option \<Rightarrow> string \<Rightarrow> conn" where
  "conn_demo peer line = \<lparr>cn_peer = peer, cn_line = Inr line, cn_write = None\<rparr>"

theorem unauthorized_peer_changes_nothing_witness:
  "same_policy world_demo (snd (snd (handle host_demo (\<lambda>_. 0) (conn_demo None ''v1 pause'') world_demo))) \<or>
   same_but_audit world_demo (snd (snd (handle host_demo (\<lambda>_. 0) (conn_demo None ''v1 pause'') world_demo)))"
  by (rule unauthorized_peer_changes_nothing) (simp add: peer_may_mutate_def conn_demo_def)

definition answered_demo :: answered where
  "answered_demo = \<lparr>an_id = 1, an_key = key_demo 443, an_verdict = Allow, an_scope = RsSession, an_duplicate = False\<rparr>"

theorem answered_rule_decides_witness:
  "\<exists>w' rs'. persist_answered_rule host_demo answered_demo world_demo = (Inr (), w') \<and>
     sh_rules (w_shared w') = Healthy rs' \<and> RuleSet_verdict_for rs' conn_curl = Allow"
proof -
  obtain w' where w': "persist_answered_rule host_demo answered_demo world_demo = (Inr (), w')"
    by (simp add: persist_answered_rule_def world_demo_def shared_demo_def RuleSet_default_def answered_demo_def
        key_demo_def RuleSet_insert_def starts_with_def Let_def)
  have rs: "sh_rules (w_shared world_demo) = Healthy RuleSet_default"
    by (simp add: world_demo_def shared_demo_def)
  from answered_rule_decides [OF w' rs, of conn_curl] w' show ?thesis
    by (auto simp: answered_demo_def key_demo_def conn_curl_def RuleSet_default_def)
qed

definition rules_one :: rule_set where
  "rules_one = \<lparr>rs_rules = [\<lparr>rule_id = 1, rule_executable = ''/x'', rule_protocol = Some Tcp,
     rule_direction = Some Outbound, rule_address = None, rule_hostname = None, rule_port = Some 80,
     rule_verdict = Deny, rule_scope = Permanent\<rparr>]\<rparr>"

definition host_toml :: "(string option) host" where
  "host_toml = host_demo\<lparr>
     ho_to_toml := (\<lambda>doc. if doc = rules_to_document rules_one then Some ''doc'' else None),
     ho_from_toml := (\<lambda>_. Some (rules_to_document rules_one))\<rparr>"

lemma host_toml_faithful: "toml_faithful host_toml"
  by (auto simp: toml_faithful_def host_toml_def rules_to_document_def)

lemma rule_add_demo:
  "\<exists>w1. rule_add host_toml (conn_demo (Some 0) []) 1 ''/x'' ''deny'' 80 world_demo = (Some RPong, w1) \<and>
     w_shared w1 = w_shared (set_rules rules_one world_demo)"
proof -
  have env: "sh_rules (w_shared world_demo) = Healthy RuleSet_default" "sh_store (w_shared world_demo) = ''/e/r''"
      "w_fs world_demo = fs_blank (\<lambda>_. False)" "unat (ho_pid host_toml) = 7"
    by (simp_all add: world_demo_def shared_demo_def host_toml_def host_demo_def)
  have ins: "RuleSet_insert \<lparr>rule_id = 1, rule_executable = ''/x'', rule_protocol = Some Tcp,
     rule_direction = Some Outbound, rule_address = None, rule_hostname = None, rule_port = Some 80,
     rule_verdict = Deny, rule_scope = Permanent\<rparr> RuleSet_default = Inr rules_one"
    by (simp add: RuleSet_insert_def RuleSet_default_def starts_with_def rules_one_def)
  have tmp: "rules_temporary 7 ''/e'' \<noteq> ''/e/r''" "path_parent ''/e/r'' = Some ''/e''"
    by (simp_all add: store_eval digit_char_def)
  have sr: "sh_store (w_shared (set_rules rs world_demo)) = ''/e/r''"
      "w_fs (set_rules rs world_demo) = fs_blank (\<lambda>_. False)" for rs
    by (simp_all add: set_rules_def env)
  have "fst (save_rules host_toml rules_one (set_rules rules_one world_demo))"
    using replace_file_ok [of "fs_blank (\<lambda>_. False)" "rules_temporary 7 ''/e''" "''/e/r''" "''/e''" "''doc''"] tmp
    unfolding save_rules_def sr env(4)
    by (auto simp: RulesStore_save_def host_toml_def no_faults_def fs_blank_def path_exists_def)
  then obtain w1 where w1: "save_rules host_toml rules_one (set_rules rules_one world_demo) = (True, w1)"
    by (metis prod.collapse)
  have "peer_may_mutate host_toml (conn_demo (Some 0) [])"
    by (simp add: peer_may_mutate_def conn_demo_def uid_may_mutate_def)
  then have "rule_add host_toml (conn_demo (Some 0) []) 1 ''/x'' ''deny'' 80 world_demo = (Some RPong, w1)"
    using ins w1 by (simp add: rule_add_def env parse_rule_verdict_def reply_def)
  moreover have "w_shared w1 = w_shared (set_rules rules_one world_demo)"
    using w1 by (auto simp: save_rules_def case_prod_unfold Let_def)
  ultimately show ?thesis by blast
qed

theorem rule_change_durable_witness:
  "\<exists>w1. rule_add host_toml (conn_demo (Some 0) []) 1 ''/x'' ''deny'' 80 world_demo = (Some RPong, w1) \<and>
     RulesStore_load (ho_from_toml host_toml) ''/e/r'' (w_fs w1) = Inr rules_one"
proof -
  have env: "sh_rules (w_shared world_demo) = Healthy RuleSet_default" "sh_store (w_shared world_demo) = ''/e/r''"
      "w_fs world_demo = fs_blank (\<lambda>_. False)" "unat (ho_pid host_toml) = 7"
    by (simp_all add: world_demo_def shared_demo_def host_toml_def host_demo_def)
  have tmp: "rules_temporary 7 ''/e'' \<noteq> ''/e/r''" "path_parent ''/e/r'' = Some ''/e''"
    by (simp_all add: store_eval digit_char_def)
  obtain w1 where add: "rule_add host_toml (conn_demo (Some 0) []) 1 ''/x'' ''deny'' 80 world_demo = (Some RPong, w1)"
      "w_shared w1 = w_shared (set_rules rules_one world_demo)"
    using rule_add_demo by blast
  have wf: "rules_wf RuleSet_default" by (rule rules_wf_default)
  from rule_change_durable [OF host_toml_faithful env(1) wf, of "conn_demo (Some 0) []" 1 "''/x''" "''deny''" 80 w1]
  have "\<exists>rs'. sh_rules (w_shared w1) = Healthy rs' \<and>
      RulesStore_load (ho_from_toml host_toml) ''/e/r'' (w_fs w1) = Inr rs'"
    using add(1) tmp by (auto simp: env fs_blank_def)
  then show ?thesis using add by (auto simp: set_rules_def)
qed

theorem dns_note_stops_observation_witness:
  "\<exists>w'. dispatch host_demo (conn_demo (Some 0) []) (\<lambda>_. 0) (DnsNote ''a'' ''1.2.3.4'' (Some (-1))) world_demo = (None, w') \<and>
     handle_event host_demo (\<lambda>_. 0) event_demo w' = w'"
proof -
  have "parse_ipv4 ''1.2.3.4'' = Some (1, 2, 3, 4)"
    by (simp add: parse_ipv4_def parse_octet_def digit_val_def)
  moreover have "sh_dns (w_shared world_demo) = Healthy dns_demo" by (simp add: world_demo_def shared_demo_def)
  moreover have "(2 :: nat) ^ 63 \<le> unat (- 1 :: u64)"
    by (simp add: unsigned_minus_1_eq_mask mask_eq_exp_minus_1)
  moreover have "peer_may_mutate host_demo (conn_demo (Some 0) [])"
    by (simp add: peer_may_mutate_def conn_demo_def uid_may_mutate_def)
  ultimately show ?thesis
    using dns_note_stops_observation [of host_demo "conn_demo (Some 0) []" "''a''" "''1.2.3.4''" "(1, 2, 3, 4)"
        world_demo dns_demo "- 1" "\<lambda>_. 0"] by auto
qed

end
