(* ===== verification/Daemon.thy ===== *)
theory Daemon
  imports Ipc
begin

text \<open>
  The daemon as a whole: start-up (\<open>main.rs\<close>) and the interleaving of its threads. Each thread
  takes its locks for short sections, so a run is a sequence of such sections. The observation
  thread takes four for an event: it decides, stores the verdict, counts and logs; in between the
  other threads run. The queue thread tries once to find a verdict, or binds or loses its queue; a
  connection is served; a subscriber stream ends.
\<close>

section \<open>Start-up\<close>

record options =
  op_socket :: string
  op_rules_path :: string
  op_audit_path :: path
  op_skip_ebpf :: bool
  op_skip_nfqueue :: bool

definition options_default :: options where
  "options_default = \<lparr>op_socket = DEFAULT_SOCKET_PATH, op_rules_path = DEFAULT_RULES_PATH,
     op_audit_path = DEFAULT_AUDIT_PATH, op_skip_ebpf = False, op_skip_nfqueue = False\<rparr>"

definition options_argument :: "string \<Rightarrow> options \<Rightarrow> options" where
  "options_argument argument opts =
     (case strip_prefix ''--socket='' argument of
        Some value \<Rightarrow> opts\<lparr>op_socket := value\<rparr>
      | None \<Rightarrow>
     (case strip_prefix ''--rules='' argument of
        Some value \<Rightarrow> opts\<lparr>op_rules_path := value\<rparr>
      | None \<Rightarrow>
     (case strip_prefix ''--audit='' argument of
        Some value \<Rightarrow> opts\<lparr>op_audit_path := value\<rparr>
      | None \<Rightarrow>
          if argument = ''--no-ebpf'' then opts\<lparr>op_skip_ebpf := True\<rparr>
          else if argument = ''--no-nfqueue'' then opts\<lparr>op_skip_nfqueue := True\<rparr>
          else opts)))"

text \<open>\<open>env::args().skip(1)\<close>: the program name is the first argument.\<close>

definition Options_from_env :: "string list \<Rightarrow> options" where
  "Options_from_env args = fold options_argument (drop 1 args) options_default"

definition start_observation :: "bool \<Rightarrow> 'e + 'o \<Rightarrow> 'o option \<times> string" where
  "start_observation skip_ebpf attached =
     (if skip_ebpf then (None, ''degraded'')
      else case attached of
             Inr observer \<Rightarrow> (Some observer, ''attached'')
           | Inl _ \<Rightarrow> (None, ''degraded''))"

text \<open>
  \<open>main\<close> up to the threads: the rules, the observation state and the shared state, with the two
  environment overrides. \<open>None\<close> is a panic, an error ends the process.
\<close>

definition daemon_start ::
    "'k host \<Rightarrow> instant \<Rightarrow> string list \<Rightarrow> path option \<Rightarrow> path option \<Rightarrow> 'e + 'o \<Rightarrow> fs
       \<Rightarrow> ('o option \<times> shared) io option" where
  "daemon_start H now args mode_env traffic_env attached s =
     (let options = Options_from_env args
      in case RulesStore_load (ho_from_toml H) (op_rules_path options) s of
           Inl _ \<Rightarrow> Some (Inl (OtherError ''rules''), s)
         | Inr rules \<Rightarrow>
             let (observer, observation) = start_observation (op_skip_ebpf options) attached
             in map_option (\<lambda>r. io_then r (\<lambda>shared s. (Inr (observer, shared), s)))
                  (Shared_new now
                     \<lparr>cf_rules = rules, cf_store = op_rules_path options, cf_observation = observation,
                      cf_pending_capacity = 4096, cf_pending_ttl = from_secs 5, cf_process_capacity = 1024,
                      cf_audit_path = op_audit_path options, cf_mode_path = resolve_mode_path mode_env,
                      cf_traffic_path = resolve_machine_path traffic_env\<rparr> s))"

text \<open>
  \<open>main\<close> from the threads to the accept loop: the socket's directory, an old socket removed, the
  new one bound and restricted. Binding gives the socket the mode the process mask leaves,
  \<open>fresh_mode\<close>. An error ends the process.
\<close>

definition daemon_listen ::
    "accounts \<Rightarrow> nat \<Rightarrow> path \<Rightarrow> fs \<times> perms \<Rightarrow> (io_error + unit) \<times> fs \<times> perms" where
  "daemon_listen A fresh_mode socket = (\<lambda>(s, pm).
     case (case path_parent socket of None \<Rightarrow> (Inr (), s) | Some parent \<Rightarrow> fs_create_dir_all parent s) of
       (Inl e, s) \<Rightarrow> (Inl e, s, pm)
     | (Inr _, s) \<Rightarrow>
         (case (if path_exists s socket then fs_remove_file socket s else (Inr (), s)) of
            (Inl e, s) \<Rightarrow> (Inl e, s, pm)
          | (Inr _, s) \<Rightarrow>
              (case fs_bind socket s of
                 (Inl e, s) \<Rightarrow> (Inl e, s, pm)
               | (Inr _, s) \<Rightarrow>
                   let pm = pm\<lparr>pm_modes := AList.update socket fresh_mode (pm_modes pm)\<rparr>;
                       (r, pm) = prepare_operator_socket A socket pm
                   in (r, s, pm))))"

text \<open>
  The daemon accepts connections only on a socket that is in the filesystem and restricted: mode
  0660 with the operator group when there is one, else 0600, whatever mode binding left.
\<close>

lemma daemon_listen_restricted:
  assumes "daemon_listen A fresh_mode socket (s, pm) = (Inr (), s', pm')"
  shows "path_exists s' socket" "map_of (pm_modes pm') socket \<in> {Some 0x1B0, Some 0x180}"
proof -
  obtain s1 pm1 where bind: "fs_bind socket s1 = (Inr (), s')"
    and prep: "prepare_operator_socket A socket pm1 = (Inr (), pm')"
    using assms by (auto simp: daemon_listen_def Let_def split: prod.splits sum.splits if_splits option.splits)
  show "path_exists s' socket"
    using bind by (auto simp: fs_bind_def path_exists_def map_of_update_eq split: if_splits)
  show "map_of (pm_modes pm') socket \<in> {Some 0x1B0, Some 0x180}"
    using prep by (auto simp: prepare_operator_socket_def prepare_operator_socket_with_def chmod_def Let_def
        map_of_update_eq split: group_lookup.splits prod.splits sum.splits if_splits)
qed

section \<open>Runs\<close>

text \<open>What the observation thread holds between the sections of one event.\<close>

datatype flight =
    Idle
  | ToStore "nat \<Rightarrow> instant" tcp_connect_event decision
  | ToCount decision
  | ToLog decision

type_synonym 'k dstate = "'k world \<times> flight"

datatype daemon_step =
    SDecide "nat \<Rightarrow> instant" tcp_connect_event "decision option"
  | SStore "nat \<Rightarrow> instant" tcp_connect_event decision
  | SCount
  | SLog
  | SAttempt instant "u8 list"
  | SRequest "nat \<Rightarrow> instant" conn
  | SGone string bool
  | SQueueUp
  | SQueueDown

definition attempt_packet :: "instant \<Rightarrow> u8 list \<Rightarrow> 'k world \<Rightarrow> packet_verdict option \<times> 'k world" where
  "attempt_packet now payload w =
     (case tcp_destination payload of
        None \<Rightarrow> (Some Drop, w)
      | Some key \<Rightarrow>
          let (v, m) = lookup_attempt now key (sh_pending (w_shared w))
          in (v, w\<lparr>w_shared := (w_shared w)\<lparr>sh_pending := m\<rparr>\<rparr>))"

text \<open>An event's first step carries the decision it led to, none when a lock was poisoned.\<close>

definition after_decision :: "(nat \<Rightarrow> instant) \<Rightarrow> tcp_connect_event \<Rightarrow> decision option \<Rightarrow> flight" where
  "after_decision t ev d = (case d of None \<Rightarrow> Idle | Some d \<Rightarrow> ToStore t ev d)"

inductive daemon_next :: "'k host \<Rightarrow> 'k dstate \<Rightarrow> daemon_step \<Rightarrow> 'k dstate \<Rightarrow> bool" for H where
  next_decide: "decide_event H t ev w = (d, w') \<Longrightarrow>
    daemon_next H (w, Idle) (SDecide t ev d) (w', after_decision t ev d)"
| next_store: "daemon_next H (w, ToStore t ev d) (SStore t ev d) (store_pending t d w, ToCount d)"
| next_count: "daemon_next H (w, ToCount d) SCount (store_stats d w, ToLog d)"
| next_log: "daemon_next H (w, ToLog d) SLog (store_audit d w, Idle)"
| next_attempt: "daemon_next H (w, f) (SAttempt now payload) (snd (attempt_packet now payload w), f)"
| next_request: "daemon_next H (w, f) (SRequest t c) (snd (snd (handle H t c w)), f)"
| next_gone: "daemon_next H (w, f) (SGone sid rm) (subscriber_gone sid rm w, f)"
| next_up: "daemon_next H (w, f) SQueueUp (queue_up H w, f)"
| next_down: "daemon_next H (w, f) SQueueDown (queue_down w, f)"

inductive daemon_run :: "'k host \<Rightarrow> 'k dstate \<Rightarrow> daemon_step list \<Rightarrow> 'k dstate \<Rightarrow> bool" for H s0 where
  run_start: "daemon_run H s0 [] s0"
| run_step: "daemon_run H s0 tr s \<Longrightarrow> daemon_next H s x s' \<Longrightarrow> daemon_run H s0 (tr @ [x]) s'"

inductive_simps daemon_run_Nil: "daemon_run H s0 [] s"
inductive_simps daemon_run_snoc: "daemon_run H s0 (tr @ [x]) s"
inductive_simps daemon_store: "daemon_next H s (SStore t ev d) s'"

lemma daemon_run_trans: "daemon_run H s1 tr2 s2 \<Longrightarrow> daemon_run H s0 tr1 s1 \<Longrightarrow> daemon_run H s0 (tr1 @ tr2) s2"
proof (induction rule: daemon_run.induct)
  case (run_step tr s x s')
  from daemon_run.run_step [OF run_step.IH [OF run_step.prems] run_step.hyps(2)] show ?case by simp
qed simp

lemma daemon_run_one: "daemon_next H s x s' \<Longrightarrow> daemon_run H s [x] s'"
  using run_step [OF run_start, of H s x s'] by simp

lemma run_first: "daemon_run H s (x # tr) s' \<Longrightarrow> \<exists>s1. daemon_next H s x s1 \<and> daemon_run H s1 tr s'"
proof (induction tr arbitrary: s' rule: rev_induct)
  case Nil
  then have "daemon_run H s ([] @ [x]) s'" by simp
  then show ?case unfolding daemon_run_snoc daemon_run_Nil by blast
next
  case (snoc y tr)
  then have "daemon_run H s ((x # tr) @ [y]) s'" by simp
  with snoc.IH show ?case unfolding daemon_run_snoc by blast
qed

text \<open>Without interruption the four sections are \<open>handle_event\<close>.\<close>

lemma event_steps:
  assumes "decide_event H t ev w = (Some d, w1)"
  shows "daemon_run H (w, Idle) [SDecide t ev (Some d), SStore t ev d, SCount, SLog] (handle_event H t ev w, Idle)"
proof -
  have "daemon_run H (w, Idle) [SDecide t ev (Some d)] (w1, ToStore t ev d)"
    using daemon_run_one [OF next_decide [OF assms]] by (simp add: after_decision_def)
  from run_step [OF run_step [OF run_step [OF this next_store] next_count] next_log] show ?thesis
    by (simp add: handle_event_def assms)
qed

lemma handle_event_run:
  obtains tr where "daemon_run H (w, Idle) tr (handle_event H t ev w, Idle)" "length tr \<le> 4"
proof (cases "decide_event H t ev w")
  case (Pair d w1)
  show ?thesis
  proof (cases d)
    case None
    then show ?thesis
      using daemon_run_one [OF next_decide [OF Pair]] that by (simp add: Pair after_decision_def handle_event_def)
  next
    case (Some d1)
    with Pair event_steps [of H t ev w d1 w1] that show ?thesis by fastforce
  qed
qed

text \<open>The destination whose verdict a step stores or tries to take.\<close>

fun step_key :: "daemon_step \<Rightarrow> dest_key option" where
  "step_key (SStore t ev d) = Some (event_key ev)"
| "step_key (SAttempt now payload) = tcp_destination payload"
| "step_key x = None"

section \<open>The origin of a verdict\<close>

text \<open>The step of a run that decided an event.\<close>

definition decided_in ::
    "'k host \<Rightarrow> 'k dstate \<Rightarrow> daemon_step list \<Rightarrow> (nat \<Rightarrow> instant) \<Rightarrow> tcp_connect_event \<Rightarrow> decision \<Rightarrow> bool" where
  "decided_in H s0 tr t ev d \<longleftrightarrow>
     (\<exists>tr1 tr2 w1. tr = tr1 @ SDecide t ev (Some d) # tr2 \<and> daemon_run H s0 tr1 (w1, Idle) \<and>
        event_decision H t ev w1 = Some d)"

text \<open>The steps that decided an event and stored the verdict, with none for its destination since.\<close>

definition decided_by ::
    "'k host \<Rightarrow> 'k dstate \<Rightarrow> daemon_step list \<Rightarrow> dest_key \<Rightarrow> packet_verdict \<Rightarrow> instant \<Rightarrow> bool" where
  "decided_by H s0 tr key v at \<longleftrightarrow>
     (\<exists>tr1 t ev d tr2. tr = tr1 @ SStore t ev d # tr2 \<and> decided_in H s0 tr1 t ev d \<and>
        d_packet_verdict d = v \<and> event_key ev = key \<and> t 7 = at \<and> (\<forall>x \<in> set tr2. step_key x \<noteq> Some key))"

lemma decided_by_split:
  assumes "decided_by H s0 tr key v at"
  obtains tr1 t ev tr2 tr3 w1 d where "tr = tr1 @ SDecide t ev (Some d) # tr2 @ SStore t ev d # tr3"
    "daemon_run H s0 tr1 (w1, Idle)" "event_decision H t ev w1 = Some d" "d_packet_verdict d = v"
    "event_key ev = key" "t 7 = at" "\<forall>x \<in> set tr3. step_key x \<noteq> Some key"
  using assms unfolding decided_by_def decided_in_def by fastforce

lemma decided_in_snoc: "decided_in H s0 tr t ev d \<Longrightarrow> decided_in H s0 (tr @ [x]) t ev d"
  unfolding decided_in_def by (metis append_Cons append_assoc)

lemma decided_by_snoc:
  assumes "decided_by H s0 tr key v at" "step_key x \<noteq> Some key"
  shows "decided_by H s0 (tr @ [x]) key v at"
proof -
  obtain tr1 t ev d tr2 where "tr = tr1 @ SStore t ev d # tr2" "decided_in H s0 tr1 t ev d"
      "d_packet_verdict d = v" "event_key ev = key" "t 7 = at" "\<forall>y \<in> set tr2. step_key y \<noteq> Some key"
    using assms(1) unfolding decided_by_def by blast
  then show ?thesis
    unfolding decided_by_def using assms(2)
    by (intro exI [of _ tr1] exI [of _ t] exI [of _ ev] exI [of _ d] exI [of _ "tr2 @ [x]"]) simp
qed

lemma subscriber_gone_pending: "pending_kept w (subscriber_gone sid rm w)"
  by (cases "sh_audit (w_shared w)") (simp_all add: subscriber_gone_def case_prod_unfold Let_def)

lemma queue_pending: "pending_kept w (queue_up H w)" "pending_kept w (queue_down w)"
  by (simp_all add: queue_up_def queue_down_def set_enforcement_def Let_def)

text \<open>
  Every entry of the pending table comes from the last step that stored a verdict for its
  destination, and the observation thread stores only what it decided.
\<close>

definition pending_explained :: "'k host \<Rightarrow> 'k dstate \<Rightarrow> daemon_step list \<Rightarrow> duration \<Rightarrow> 'k world \<Rightarrow> bool" where
  "pending_explained H s0 tr ttl w \<longleftrightarrow>
     (\<exists>p. sh_pending (w_shared w) = Healthy p \<and> pending_wf p \<and> pt_ttl p = ttl \<and>
        (\<forall>key e. map_of (pt_entries p) key = Some e \<longrightarrow>
           decided_by H s0 tr key (pe_verdict e) (pe_inserted_at e)))"

definition flight_explained :: "'k host \<Rightarrow> 'k dstate \<Rightarrow> daemon_step list \<Rightarrow> flight \<Rightarrow> bool" where
  "flight_explained H s0 tr f \<longleftrightarrow> (\<forall>t ev d. f = ToStore t ev d \<longrightarrow> decided_in H s0 tr t ev d \<and> d_key d = event_key ev)"

lemma explained_quiet:
  assumes "pending_explained H s0 tr ttl w" "pending_kept w w'" "step_key x = None"
  shows "pending_explained H s0 (tr @ [x]) ttl w'"
proof -
  have "decided_by H s0 (tr @ [x]) key (pe_verdict e) (pe_inserted_at e)"
    if "decided_by H s0 tr key (pe_verdict e) (pe_inserted_at e)" for key e
    using decided_by_snoc [OF that] assms(3) by simp
  with assms(1,2) show ?thesis unfolding pending_explained_def by metis
qed

lemma explained_store:
  assumes "pending_explained H s0 tr ttl w" "flight_explained H s0 tr (ToStore t ev d)"
  shows "pending_explained H s0 (tr @ [SStore t ev d]) ttl (store_pending t d w)"
proof -
  have flight: "decided_in H s0 tr t ev d" "d_key d = event_key ev" using assms(2) by (simp_all add: flight_explained_def)
  obtain p where p: "sh_pending (w_shared w) = Healthy p" "pending_wf p" "pt_ttl p = ttl"
      "\<And>key e. map_of (pt_entries p) key = Some e \<Longrightarrow> decided_by H s0 tr key (pe_verdict e) (pe_inserted_at e)"
    using assms(1) unfolding pending_explained_def by blast
  let ?p = "PendingTable_insert (t 6) (t 7) (event_key ev) (d_packet_verdict d) p"
  let ?tr = "tr @ [SStore t ev d]"
  have new: "decided_by H s0 ?tr (event_key ev) (d_packet_verdict d) (t 7)"
    unfolding decided_by_def using flight(1)
    by (intro exI [of _ tr] exI [of _ t] exI [of _ ev] exI [of _ d] exI [of _ "[]"]) simp
  have "decided_by H s0 ?tr key (pe_verdict e) (pe_inserted_at e)" if e: "map_of (pt_entries ?p) key = Some e" for key e
  proof (cases "key = event_key ev")
    case True
    then show ?thesis using e new by (auto simp: insert_lookup_same)
  next
    case False
    from decided_by_snoc [OF p(4) [OF insert_lookup_other [OF p(2) False e]], of "SStore t ev d"] False show ?thesis by simp
  qed
  moreover have "pending_wf ?p" "pt_ttl ?p = ttl" using p(2,3) by (simp_all add: insert_wf)
  ultimately show ?thesis using p(1) flight(2) by (simp add: pending_explained_def store_shared)
qed

lemma explained_attempt:
  assumes "pending_explained H s0 tr ttl w"
  shows "pending_explained H s0 (tr @ [SAttempt now payload]) ttl (snd (attempt_packet now payload w))"
proof (cases "tcp_destination payload")
  case None
  then show ?thesis using explained_quiet [OF assms] by (simp add: attempt_packet_def)
next
  case (Some key)
  obtain p where p: "sh_pending (w_shared w) = Healthy p" "pending_wf p" "pt_ttl p = ttl"
      "\<And>key e. map_of (pt_entries p) key = Some e \<Longrightarrow> decided_by H s0 tr key (pe_verdict e) (pe_inserted_at e)"
    using assms unfolding pending_explained_def by blast
  let ?p = "snd (PendingTable_take now key p)"
  have "decided_by H s0 (tr @ [SAttempt now payload]) k (pe_verdict e) (pe_inserted_at e)"
    if "map_of (pt_entries ?p) k = Some e" for k e
    using take_lookup [OF p(2) that] p(4) [of k e] decided_by_snoc Some by fastforce
  moreover have "pending_wf ?p" "pt_ttl ?p = ttl" using p(2,3) by (simp_all add: take_wf)
  ultimately show ?thesis
    using p(1) Some
    by (simp add: pending_explained_def attempt_packet_def lookup_attempt_def case_prod_unfold Let_def)
qed

lemma flight_snoc: "flight_explained H s0 tr f \<Longrightarrow> flight_explained H s0 (tr @ [x]) f"
  by (auto simp: flight_explained_def intro: decided_in_snoc)

lemma flight_done: "flight_explained H s0 tr Idle" "flight_explained H s0 tr (ToCount d)" "flight_explained H s0 tr (ToLog d)"
  by (simp_all add: flight_explained_def)

lemma flight_decided:
  assumes "daemon_run H s0 tr (w, Idle)" "decide_event H t ev w = (d, w')"
  shows "flight_explained H s0 (tr @ [SDecide t ev d]) (after_decision t ev d)"
proof (cases d)
  case (Some d1)
  have "event_decision H t ev w = Some d1" using assms(2) Some by simp
  then have "decided_in H s0 (tr @ [SDecide t ev d]) t ev d1" "d_key d1 = event_key ev"
    unfolding decided_in_def Some using assms(1) decision_key by blast+
  then show ?thesis by (simp add: Some after_decision_def flight_explained_def)
qed (simp add: after_decision_def flight_done)

lemma run_explained:
  assumes "daemon_run H (w0, Idle) tr s" "sh_pending (w_shared w0) = Healthy p0" "PendingTable_new cap ttl = Some p0"
  shows "pending_explained H (w0, Idle) tr ttl (fst s) \<and> flight_explained H (w0, Idle) tr (snd s)"
  using assms(1)
proof induction
  case run_start
  then show ?case
    using assms(2,3) PendingTable_new_wf [OF assms(3)]
    by (auto simp: pending_explained_def PendingTable_new_def flight_done split: if_splits)
next
  case (run_step tr s x s')
  have ih: "pending_explained H (w0, Idle) tr ttl (fst s)" "flight_explained H (w0, Idle) tr (snd s)"
    using run_step.IH by simp_all
  note flight = flight_snoc [OF ih(2), of x]
  from run_step.hyps(2) show ?case
  proof (cases rule: daemon_next.cases)
    case (next_decide t ev w d w')
    then show ?thesis
      using explained_quiet [OF ih(1), of w' x] flight_decided [of H "(w0, Idle)" tr w t ev d w'] run_step.hyps(1)
        decide_event_pending [of H t ev w] by simp
  next
    case (next_store w t ev d)
    then show ?thesis using explained_store ih by (simp add: flight_done)
  next
    case (next_count w d)
    then show ?thesis using explained_quiet [OF ih(1), of "fst s'" x] by (simp add: store_shared flight_done)
  next
    case (next_log w d)
    then show ?thesis using explained_quiet [OF ih(1), of "fst s'" x] by (simp add: store_shared flight_done)
  next
    case (next_attempt w f now payload)
    then show ?thesis using explained_attempt ih(1) flight by simp
  next
    case (next_request w f t c)
    then show ?thesis using explained_quiet [OF ih(1), of "fst s'" x] flight handle_pending [where H = H and t = t and c = c and w = w] by simp
  next
    case (next_gone w f sid rm)
    then show ?thesis using explained_quiet [OF ih(1), of "fst s'" x] flight subscriber_gone_pending [where w = w and sid = sid and rm = rm] by simp
  next
    case (next_up w f)
    then show ?thesis using explained_quiet [OF ih(1), of "fst s'" x] flight queue_pending [where w = w] by simp
  next
    case (next_down w f)
    then show ?thesis using explained_quiet [OF ih(1), of "fst s'" x] flight queue_pending [where w = w] by simp
  qed
qed

text \<open>
  An accepted packet was decided. In every interleaving, starting from an empty pending table:
  when an attempt to find a verdict for a packet accepts it, then the last step that touched the
  packet's destination stored the verdict of an event for it that had been decided before, no
  longer ago than the time to live.
\<close>

lemma accepted_decided:
  assumes "daemon_run H (w0, Idle) tr (w, f)" "sh_pending (w_shared w0) = Healthy p0"
    and "PendingTable_new cap ttl = Some p0" "fst (attempt_packet now payload w) = Some Accept"
  obtains key t0 where "tcp_destination payload = Some key" "decided_by H (w0, Idle) tr key Accept t0" "now - t0 \<le> ttl"
proof -
  obtain key where key: "tcp_destination payload = Some key"
      "fst (lookup_attempt now key (sh_pending (w_shared w))) = Some Accept"
    using assms(4) by (auto simp: attempt_packet_def case_prod_unfold Let_def split: option.splits)
  obtain p where p: "sh_pending (w_shared w) = Healthy p" "pending_wf p" "pt_ttl p = ttl"
      "\<And>key e. map_of (pt_entries p) key = Some e \<Longrightarrow> decided_by H (w0, Idle) tr key (pe_verdict e) (pe_inserted_at e)"
    using run_explained [OF assms(1-3)] unfolding pending_explained_def by auto
  obtain e where "map_of (pt_entries p) key = Some e" "pe_verdict e = Accept" "entry_fresh now ttl e"
    using take_Some [OF p(2), of now key Accept] key(2) p(1,3) by (auto simp: lookup_attempt_accept)
  with p(4) [of key e] key(1) that show ?thesis by (simp add: entry_fresh_def)
qed

end
