(* ===== verification/RustChar.thy ===== *)
theory RustChar
  imports Utf8
begin

text \<open>
  Rust's \<open>char\<close> and the \<open>String\<close> operations that edit text one \<open>char\<close> at a time, for the input
  fields of the clients. A \<open>char\<close> is its scalar value; a \<open>String\<close> stays its UTF-8 bytes.
\<close>

type_synonym scalar = nat

definition scalar_ok :: "scalar \<Rightarrow> bool" where
  "scalar_ok c \<longleftrightarrow> c < 0xD800 \<or> 0xE000 \<le> c \<and> c < 0x110000"

text \<open>\<open>char::is_control\<close>: the general category \<open>Cc\<close>.\<close>

definition is_control :: "scalar \<Rightarrow> bool" where
  "is_control c \<longleftrightarrow> c < 0x20 \<or> 0x7F \<le> c \<and> c \<le> 0x9F"

definition encode_utf8 :: "scalar \<Rightarrow> string" where
  "encode_utf8 c =
     (if c < 0x80 then [char_of c]
      else if c < 0x800 then [char_of (0xC0 + c div 64), char_of (0x80 + c mod 64)]
      else if c < 0x10000 then
        [char_of (0xE0 + c div 4096), char_of (0x80 + c div 64 mod 64), char_of (0x80 + c mod 64)]
      else
        [char_of (0xF0 + c div 262144), char_of (0x80 + c div 4096 mod 64),
         char_of (0x80 + c div 64 mod 64), char_of (0x80 + c mod 64)])"

text \<open>Characters outside ASCII that occur in literals.\<close>

definition MIDDOT :: string where
  "MIDDOT = [CHR 0xC2, CHR 0xB7]"

definition ELLIPSIS :: string where
  "ELLIPSIS = [CHR 0xE2, CHR 0x80, CHR 0xA6]"

definition VBAR :: string where
  "VBAR = [CHR 0xE2, CHR 0x94, CHR 0x82]"

definition String_push :: "scalar \<Rightarrow> string \<Rightarrow> string" where
  "String_push c s = s @ encode_utf8 c"

definition String_pop :: "string \<Rightarrow> string" where
  "String_pop s = rev (tl (dropWhile is_cont (rev s)))"

lemma is_cont_char_of: "is_cont (char_of (n :: nat)) \<longleftrightarrow> 0x80 \<le> n mod 256 \<and> n mod 256 \<le> 0xBF"
  by (simp add: is_cont_def in_range_def)

lemma encode_utf8_shape:
  assumes "scalar_ok c"
  shows "\<exists>a r. encode_utf8 c = a # r \<and> \<not> is_cont a \<and> list_all is_cont r"
proof -
  have cont: "is_cont (char_of (0x80 + x mod 64))" for x :: nat
    using mod_less_divisor [of 64 x] by (simp add: is_cont_char_of mod_less)
  have "c < 0x110000" using assms by (auto simp: scalar_ok_def)
  then have "c div 262144 < 5" "c < 0x10000 \<Longrightarrow> c div 4096 < 16" "c < 0x800 \<Longrightarrow> c div 64 < 32"
    by (simp_all add: less_mult_imp_div_less)
  then have "c < 0x80 \<Longrightarrow> \<not> is_cont (char_of c)" "c < 0x800 \<Longrightarrow> \<not> is_cont (char_of (0xC0 + c div 64))"
      "c < 0x10000 \<Longrightarrow> \<not> is_cont (char_of (0xE0 + c div 4096))" "\<not> is_cont (char_of (0xF0 + c div 262144))"
    by (auto simp: is_cont_char_of)
  with cont show ?thesis by (auto simp: encode_utf8_def)
qed

text \<open>Backspace undoes a key press.\<close>

lemma String_pop_push: "scalar_ok c \<Longrightarrow> String_pop (String_push c s) = s"
proof -
  assume "scalar_ok c"
  then obtain a r where r: "encode_utf8 c = a # r" "\<not> is_cont a" "list_all is_cont r"
    using encode_utf8_shape by blast
  have "dropWhile is_cont (rev r @ a # rev s) = a # rev s"
    using r(2,3) by (subst dropWhile_append2) (auto simp: list_all_iff)
  then show ?thesis by (simp add: String_pop_def String_push_def r(1))
qed

lemma String_pop_Nil [simp]: "String_pop [] = []"
  by (simp add: String_pop_def)

text \<open>An ASCII key is its own encoding.\<close>

lemma encode_utf8_ascii: "ascii c \<Longrightarrow> encode_utf8 (of_char c) = [c]"
  by (simp add: encode_utf8_def)

end
