(* ===== verification/Client.thy ===== *)
theory Client
  imports ProtoRows RustChar
begin

text \<open>
  What the clients share: one request per connection over the daemon's socket, the reading of its
  one-line reply, and the proof that the frames they build mean to the daemon what they mean to
  the client.

  The socket and the process behind it are an \<open>exchange\<close>: connecting, writing the request and
  reading one line, with an effect on the peer. An I/O failure is its displayed text.
\<close>

section \<open>One request\<close>

type_synonym 'd exchange = "string \<Rightarrow> 'd \<Rightarrow> (string + string) \<times> 'd"

definition one_shot :: "'d exchange \<Rightarrow> string \<Rightarrow> 'd \<Rightarrow> (string + string) \<times> 'd" where
  "one_shot exch request d =
     (case exch request d of
        (Inl e, d) \<Rightarrow> (Inl e, d)
      | (Inr line, d) \<Rightarrow> (if MAX_FRAME_BYTES < length line then Inl ''frame_too_large'' else Inr line, d))"

text \<open>A request whose reply is parsed, with the error the client gives when it does not parse.\<close>

definition fetch ::
    "'d exchange \<Rightarrow> string \<Rightarrow> (string \<Rightarrow> protocol_error + 'a) \<Rightarrow> string \<Rightarrow> 'd \<Rightarrow> (string + 'a) \<times> 'd" where
  "fetch exch request parse malformed d =
     (case one_shot exch request d of
        (Inl e, d) \<Rightarrow> (Inl e, d)
      | (Inr frame, d) \<Rightarrow> ((case parse frame of Inr x \<Rightarrow> Inr x | Inl _ \<Rightarrow> Inl malformed), d))"

text \<open>\<open>parse_error_message(&frame).unwrap_or_else(|| frame.trim().to_owned())\<close>\<close>

definition reply_error :: "string \<Rightarrow> string" where
  "reply_error frame = (case parse_error_message frame of Some m \<Rightarrow> m | None \<Rightarrow> trim frame)"

section \<open>Frames\<close>

definition request_frame :: "string list \<Rightarrow> string" where
  "request_frame ws = join [SP] (''v1'' # ws) @ [NL]"

lemma token_literal: "s \<noteq> [] \<Longrightarrow> list_all plain s \<Longrightarrow> token s"
  by (auto simp: token_def list_all_iff intro!: plain_no_ws)

lemma token_append_literal: "s \<noteq> [] \<Longrightarrow> list_all plain s \<Longrightarrow> no_ws v \<Longrightarrow> token (s @ v)"
  by (auto simp: list_all_iff intro!: token_key_value)

lemma split_request_frame: "list_all token ws \<Longrightarrow> split_whitespace (request_frame ws) = ''v1'' # ws"
proof -
  assume ws: "list_all token ws"
  have "token ''v1''" by (rule token_literal) (simp_all add: plain_def)
  with ws show ?thesis
    unfolding request_frame_def by (intro split_whitespace_join) (auto simp: list_all_iff)
qed

lemmas request_parsing = Request_parse_def split_request_frame token_literal plain_def field_def

lemma Request_parse_rule_delete:
  assumes "token s" "parse_word s = Some i"
  shows "Request_parse (request_frame [''rule-delete'', s]) = Inr (RuleDelete i)"
  using assms by (simp add: request_parsing parse_rule_delete_def)

lemma Request_parse_rule_add:
  assumes "token s" "parse_word s = Some i" "token executable" "token verdict" "token t" "parse_word t = Some port"
  shows "Request_parse (request_frame [''rule-add'', s, executable, verdict, t]) = Inr (RuleAdd i executable verdict port)"
  using assms by (simp add: request_parsing parse_rule_add_def)

lemma Request_parse_prompt_answer:
  assumes "token s" "parse_word s = Some i" "token verdict" "token scope"
  shows "Request_parse (request_frame [''prompt-answer'', s, verdict, scope]) = Inr (PromptAnswer i verdict scope)"
  using assms by (simp add: request_parsing parse_prompt_answer_def)

lemma Request_parse_dns_note:
  assumes "token hostname" "token ipv4"
  shows "Request_parse (request_frame [''dns-note'', hostname, ipv4]) = Inr (DnsNote hostname ipv4 None)"
    and "token s \<Longrightarrow> parse_word s = Some ttl \<Longrightarrow>
      Request_parse (request_frame [''dns-note'', hostname, ipv4, s]) = Inr (DnsNote hostname ipv4 (Some ttl))"
  using assms by (simp_all add: request_parsing parse_dns_note_def)

lemma Request_parse_audit_tail:
  "Request_parse (request_frame [''audit-tail'']) = Inr (AuditTail MAX_LOG_RECORDS_PER_SUBSCRIBER)"
  "token s \<Longrightarrow> parse_usize s = Some limit \<Longrightarrow> Request_parse (request_frame [''audit-tail'', s]) = Inr (AuditTail limit)"
  by (simp_all add: request_parsing parse_audit_tail_def)

lemma Request_parse_traffic_block:
  assumes "scope \<in> {''user'', ''machine''}" "direction \<in> {''out'', ''in'', ''all''}"
  shows "Request_parse (request_frame [''traffic-block'', ''scope='' @ scope, ''direction='' @ direction]) =
    Inr (TrafficBlock scope direction)"
proof -
  have "token (''scope='' @ scope)" "token (''direction='' @ direction)"
    using assms by (auto intro!: token_literal simp: plain_def)
  then show ?thesis
    using assms
    by (auto simp: Request_parse_def split_request_frame token_literal plain_def parse_traffic_block_def)
qed

lemma Request_parse_traffic_unblock:
  assumes "scope \<in> {''user'', ''machine''}"
  shows "Request_parse (request_frame [''traffic-unblock'', ''scope='' @ scope]) = Inr (TrafficUnblock scope)"
proof -
  have "token (''scope='' @ scope)" using assms by (auto intro!: token_literal simp: plain_def)
  then show ?thesis
    using assms
    by (auto simp: Request_parse_def split_request_frame token_literal plain_def parse_traffic_unblock_def)
qed

lemma Request_parse_subscribe:
  assumes "token i"
  shows "Request_parse (request_frame [''audit-subscribe'', i]) = Inr (AuditSubscribe i 0)"
    and "token (''since='' @ s) \<Longrightarrow> parse_word s = Some since \<Longrightarrow>
      Request_parse (request_frame [''audit-subscribe'', i, ''since='' @ s]) = Inr (AuditSubscribe i since)"
proof -
  show "Request_parse (request_frame [''audit-subscribe'', i]) = Inr (AuditSubscribe i 0)"
    using assms by (simp add: request_parsing parse_audit_subscribe_def)
  assume "token (''since='' @ s)" "parse_word s = Some since"
  moreover have "strip_prefix ''since='' (''since='' @ s) = Some s" by (rule strip_prefix_append)
  ultimately show "Request_parse (request_frame [''audit-subscribe'', i, ''since='' @ s]) = Inr (AuditSubscribe i since)"
    using assms unfolding Request_parse_def
    by (simp add: split_request_frame token_literal plain_def field_def parse_audit_subscribe_def del: append.simps append_Cons)
qed

lemma Request_parse_plain:
  "Request_parse (request_frame [''ping'']) = Inr Ping" "Request_parse (request_frame [''status'']) = Inr Status"
  "Request_parse (request_frame [''pause'']) = Inr Pause" "Request_parse (request_frame [''resume'']) = Inr Resume"
  "Request_parse (request_frame [''rule-list'']) = Inr RuleList" "Request_parse (request_frame [''prompt-list'']) = Inr PromptList"
  "Request_parse (request_frame [''dns-list'']) = Inr DnsList"
  "Request_parse (request_frame [''network-status'']) = Inr NetworkStatusReq"
  "Request_parse (request_frame [''network-install'']) = Inr NetworkInstall"
  "Request_parse (request_frame [''network-remove'']) = Inr NetworkRemove"
  by (simp_all add: request_parsing)

text \<open>Only a \<open>pong\<close> response starts like one.\<close>

lemma pong_only: "starts_with ''v1 pong'' (Response_encode r) \<longleftrightarrow> r = RPong"
  by (cases r) (simp_all add: starts_with_def)

text \<open>A frame that travels as one line.\<close>

definition wire_ok :: "string \<Rightarrow> bool" where
  "wire_ok frame \<longleftrightarrow> (\<exists>body. frame = body @ [NL] \<and> NL \<notin> set body) \<and> utf8_valid frame \<and>
     length frame \<le> MAX_FRAME_BYTES"

lemma token_no_NL: "token t \<Longrightarrow> NL \<notin> set t"
proof -
  have "no_ws t \<Longrightarrow> NL \<notin> set t" by (induction t) auto
  then show "token t \<Longrightarrow> NL \<notin> set t" by (simp add: token_def)
qed

lemma join_valid: "list_all utf8_valid ws \<Longrightarrow> utf8_valid (join [SP] ws)"
  by (induction "[SP]" ws rule: join.induct) (auto intro: utf8_valid_append)

lemma join_no_NL: "list_all token ws \<Longrightarrow> NL \<notin> set (join [SP] ws)"
  by (induction "[SP]" ws rule: join.induct) (auto dest: token_no_NL)

lemma request_frame_wire:
  assumes "list_all token ws" "list_all utf8_valid ws" "length (request_frame ws) \<le> MAX_FRAME_BYTES"
  shows "wire_ok (request_frame ws)"
proof -
  have v1: "token ''v1''" "utf8_valid ''v1''"
    by (rule token_literal, simp_all add: plain_def)
  then have "utf8_valid (join [SP] (''v1'' # ws) @ [NL])"
    using join_valid [of "''v1'' # ws"] assms(2) utf8_valid_append [of _ "[NL]"] by simp
  then show ?thesis
    using assms(3) join_no_NL [of "''v1'' # ws"] assms(1) v1(1)
    by (auto simp: wire_ok_def request_frame_def)
qed

lemma utf8_valid_literal: "list_all ascii s \<Longrightarrow> utf8_valid s"
  by (auto simp: list_all_iff intro: utf8_valid_ascii)

lemma utf8_valid_show_word [simp]: "utf8_valid (show_word w)"
  using show_nat_digits [of _ "unat w"] is_digit_plain plain_ascii
  by (intro utf8_valid_ascii) (auto simp: show_word_def)

text \<open>
  The contract between a client and the daemon behind its socket: for a well-formed frame the client
  reads \<open>pong\<close> exactly when the daemon carried the request out, which \<open>served\<close> says of the
  daemon's states.
\<close>

locale control_link =
  fixes exch :: "'d exchange"
    and served :: "request \<Rightarrow> 'd \<Rightarrow> 'd \<Rightarrow> bool"
  assumes pong_iff_served: "wire_ok frame \<Longrightarrow> Request_parse frame = Inr r \<Longrightarrow>
    (\<exists>line. exch frame d = (Inr line, d') \<and> length line \<le> MAX_FRAME_BYTES \<and> starts_with ''v1 pong'' line) \<longleftrightarrow> served r d d'"
begin

lemma one_shot_pong_iff:
  assumes "wire_ok frame" "Request_parse frame = Inr r"
  shows "(\<exists>line. one_shot exch frame d = (Inr line, d') \<and> starts_with ''v1 pong'' line) \<longleftrightarrow> served r d d'"
  using pong_iff_served [OF assms, of d d']
  by (auto simp: one_shot_def split: prod.splits sum.splits)

end

end
