(* ===== verification/TuiIpc.thy ===== *)
theory TuiIpc
  imports Client AuditLog
begin

text \<open>
  The terminal client's background tasks (\<open>interfire-tui/src/ipc.rs\<close>): the status and list polls, the
  command worker and the audit stream. Each task sends events to the user interface over an
  unbounded channel; \<open>alive n\<close> says whether the receiver still exists at the \<open>n\<close>-th send, and the
  events delivered so far are the task's state.
\<close>

section \<open>Events and commands\<close>

definition TUI_SUBSCRIBER_ID :: string where
  "TUI_SUBSCRIBER_ID = ''interfire-tui''"

datatype ipc_event =
    EvStatus daemon_status
  | EvStatsSummary stats_summary_body
  | EvDown string
  | EvAudit audit_stream_record
  | EvSubscriptionReady
  | EvRules "rule_row list"
  | EvPrompts "prompt_row list"
  | EvProcesses "process_row list"
  | EvActionOk string
  | EvActionError string

datatype ipc_command =
    RefreshRules
  | RefreshPrompts
  | DeleteRule u64
  | AddRule u64 string string u16
  | AnswerPrompt u64 string string
  | CmdTrafficBlock string string
  | CmdTrafficUnblock string

section \<open>Fetching\<close>

definition fetch_status :: "'d exchange \<Rightarrow> 'd \<Rightarrow> (string + daemon_status) \<times> 'd" where
  "fetch_status exch = fetch exch (''v1 status'' @ [NL]) DaemonStatus_parse ''malformed_status''"

definition fetch_stats_summary :: "'d exchange \<Rightarrow> 'd \<Rightarrow> (string + stats_summary_body) \<times> 'd" where
  "fetch_stats_summary exch =
     fetch exch (''v1 stats-summary'' @ [NL]) StatsSummary_parse ''malformed_stats_summary''"

definition fetch_rules :: "'d exchange \<Rightarrow> 'd \<Rightarrow> (string + rule_row list) \<times> 'd" where
  "fetch_rules exch = fetch exch (''v1 rule-list'' @ [NL]) RuleRow_parse_frame ''malformed_rules''"

definition fetch_prompts :: "'d exchange \<Rightarrow> 'd \<Rightarrow> (string + prompt_row list) \<times> 'd" where
  "fetch_prompts exch = fetch exch (''v1 prompt-list'' @ [NL]) PromptRow_parse_frame ''malformed_prompts''"

definition fetch_processes :: "'d exchange \<Rightarrow> 'd \<Rightarrow> (string + process_row list) \<times> 'd" where
  "fetch_processes exch =
     fetch exch (''v1 process-list'' @ [NL]) ProcessRow_parse_frame ''malformed_processes''"

section \<open>Commands\<close>

text \<open>The command worker ignores the result of its sends, so a command is its list of events.\<close>

definition after_pong ::
    "'d exchange \<Rightarrow> string \<Rightarrow> string \<Rightarrow> ('d \<Rightarrow> ipc_event list \<times> 'd) \<Rightarrow> 'd \<Rightarrow> ipc_event list \<times> 'd" where
  "after_pong exch request ok refresh d =
     (case one_shot exch request d of
        (Inr frame, d) \<Rightarrow>
          if starts_with ''v1 pong'' frame
          then (let (evs, d) = refresh d in (EvActionOk ok # evs, d))
          else ([EvActionError (reply_error frame)], d)
      | (Inl e, d) \<Rightarrow> ([EvActionError e], d))"

definition refresh_with :: "('d \<Rightarrow> (string + 'a) \<times> 'd) \<Rightarrow> ('a \<Rightarrow> ipc_event) \<Rightarrow> 'd \<Rightarrow> ipc_event list \<times> 'd" where
  "refresh_with get wrap d = (case get d of (Inr x, d) \<Rightarrow> ([wrap x], d) | (Inl _, d) \<Rightarrow> ([], d))"

definition mutate_then_refresh_rules ::
    "'d exchange \<Rightarrow> string \<Rightarrow> string \<Rightarrow> 'd \<Rightarrow> ipc_event list \<times> 'd" where
  "mutate_then_refresh_rules exch request ok = after_pong exch request ok (refresh_with (fetch_rules exch) EvRules)"

definition report :: "(string + 'a) \<times> 'd \<Rightarrow> ('a \<Rightarrow> ipc_event) \<Rightarrow> ipc_event list \<times> 'd" where
  "report r wrap = (case r of (Inr x, d) \<Rightarrow> ([wrap x], d) | (Inl e, d) \<Rightarrow> ([EvActionError e], d))"

fun handle_command :: "'d exchange \<Rightarrow> ipc_command \<Rightarrow> 'd \<Rightarrow> ipc_event list \<times> 'd" where
  "handle_command exch RefreshRules d = report (fetch_rules exch d) EvRules"
| "handle_command exch RefreshPrompts d = report (fetch_prompts exch d) EvPrompts"
| "handle_command exch (DeleteRule i) d =
     mutate_then_refresh_rules exch (''v1 rule-delete '' @ show_word i @ [NL]) (''deleted rule '' @ show_word i) d"
| "handle_command exch (AddRule i executable verdict port) d =
     mutate_then_refresh_rules exch
       (''v1 rule-add '' @ show_word i @ '' '' @ executable @ '' '' @ verdict @ '' '' @ show_word port @ [NL])
       (''added rule '' @ show_word i) d"
| "handle_command exch (AnswerPrompt i verdict scope) d =
     after_pong exch (''v1 prompt-answer '' @ show_word i @ '' '' @ verdict @ '' '' @ scope @ [NL])
       (''answered prompt '' @ show_word i @ '' '' @ verdict @ ''/'' @ scope)
       (refresh_with (fetch_prompts exch) EvPrompts) d"
| "handle_command exch (CmdTrafficBlock scope direction) d =
     after_pong exch (''v1 traffic-block scope='' @ scope @ '' direction='' @ direction @ [NL])
       (''traffic blocked scope='' @ scope @ '' direction='' @ direction) (\<lambda>d. ([], d)) d"
| "handle_command exch (CmdTrafficUnblock scope) d =
     after_pong exch (''v1 traffic-unblock scope='' @ scope @ [NL])
       (''traffic unblocked scope='' @ scope) (\<lambda>d. ([], d)) d"

section \<open>Polls\<close>

definition tx_send :: "(nat \<Rightarrow> bool) \<Rightarrow> 'e \<Rightarrow> 'e list \<Rightarrow> bool \<times> 'e list" where
  "tx_send alive e sent = (if alive (length sent) then (True, sent @ [e]) else (False, sent))"

text \<open>\<open>if let Ok(x) = fetch(..).await && tx.send(..).is_err() { return; }\<close>; the flag says to go on.\<close>

definition offer ::
    "(nat \<Rightarrow> bool) \<Rightarrow> ('d \<Rightarrow> (string + 'a) \<times> 'd) \<Rightarrow> ('a \<Rightarrow> 'e) \<Rightarrow> 'e list \<times> 'd \<Rightarrow> bool \<times> 'e list \<times> 'd" where
  "offer alive get wrap = (\<lambda>(sent, d).
     case get d of
       (Inr x, d) \<Rightarrow> (let (ok, sent) = tx_send alive (wrap x) sent in (ok, sent, d))
     | (Inl _, d) \<Rightarrow> (True, sent, d))"

text \<open>One turn of \<open>status_loop\<close> and of \<open>lists_poll_loop\<close>; false when the task returned.\<close>

definition status_turn ::
    "'d exchange \<Rightarrow> (nat \<Rightarrow> bool) \<Rightarrow> ipc_event list \<times> 'd \<Rightarrow> bool \<times> ipc_event list \<times> 'd" where
  "status_turn exch alive = (\<lambda>(sent, d).
     let (r, d) = fetch_status exch d;
         (ok, sent) = tx_send alive (case r of Inr status \<Rightarrow> EvStatus status | Inl e \<Rightarrow> EvDown e) sent
     in if \<not> ok then (False, sent, d) else offer alive (fetch_stats_summary exch) EvStatsSummary (sent, d))"

definition lists_turn ::
    "'d exchange \<Rightarrow> (nat \<Rightarrow> bool) \<Rightarrow> ipc_event list \<times> 'd \<Rightarrow> bool \<times> ipc_event list \<times> 'd" where
  "lists_turn exch alive st =
     (let (ok, st) = offer alive (fetch_rules exch) EvRules st
      in if \<not> ok then (False, st)
         else let (ok, st) = offer alive (fetch_prompts exch) EvPrompts st
           in if \<not> ok then (False, st) else offer alive (fetch_processes exch) EvProcesses st)"

text \<open>The loops run until a send fails; \<open>n\<close> counts the ticks of their interval.\<close>

fun poll_loop :: "(('e list \<times> 'd) \<Rightarrow> bool \<times> 'e list \<times> 'd) \<Rightarrow> nat \<Rightarrow> 'e list \<times> 'd \<Rightarrow> bool \<times> 'e list \<times> 'd" where
  "poll_loop turn 0 st = (True, st)"
| "poll_loop turn (Suc n) st = (let (ok, st) = turn st in if ok then poll_loop turn n st else (False, st))"

definition status_loop where
  "status_loop exch alive = poll_loop (status_turn exch alive)"

definition lists_poll_loop where
  "lists_poll_loop exch alive = poll_loop (lists_turn exch alive)"

section \<open>The audit stream\<close>

definition subscribe_request :: "u64 \<Rightarrow> string" where
  "subscribe_request since =
     ''v1 audit-subscribe '' @ TUI_SUBSCRIBER_ID @ '' since='' @ show_word since @ [NL]"

text \<open>What \<open>next_line\<close> returns, in order; the end of the list is the end of the stream.\<close>

fun session_loop ::
    "(nat \<Rightarrow> bool) \<Rightarrow> u64 \<Rightarrow> (string + string) list \<Rightarrow> ipc_event list \<Rightarrow> (string + u64) \<times> ipc_event list" where
  "session_loop alive last_since [] sent = (Inr last_since, sent)"
| "session_loop alive last_since (Inl e # reads) sent = (Inl e, sent)"
| "session_loop alive last_since (Inr line # reads) sent =
     (if MAX_FRAME_BYTES < length line then (Inl ''frame_too_large'', sent)
      else if starts_with ''v1 subscribed '' line then
        (let (ok, sent) = tx_send alive EvSubscriptionReady sent
         in if ok then session_loop alive last_since reads sent else (Inr last_since, sent))
      else if line = ''v1 audit-replaced'' then session_loop alive last_since reads sent
      else case AuditStreamRecord_parse line of
             Inr record \<Rightarrow>
               (let (ok, sent) = tx_send alive (EvAudit record) sent
                in if ok then session_loop alive (asr_sequence record) reads sent
                   else (Inr (asr_sequence record), sent))
           | Inl _ \<Rightarrow> (Inl ''malformed_audit'', sent))"

text \<open>A server answers the subscription request with a stream, or the connection fails.\<close>

type_synonym audit_server = "string \<Rightarrow> string + (string + string) list"

definition subscribe_session ::
    "audit_server \<Rightarrow> (nat \<Rightarrow> bool) \<Rightarrow> u64 \<Rightarrow> ipc_event list \<Rightarrow> (string + u64) \<times> ipc_event list" where
  "subscribe_session serve alive since sent =
     (case serve (subscribe_request since) of
        Inl e \<Rightarrow> (Inl e, sent)
      | Inr reads \<Rightarrow> session_loop alive since reads sent)"

text \<open>\<open>audit_loop\<close> over the servers it meets on its successive attempts.\<close>

fun audit_loop :: "(nat \<Rightarrow> bool) \<Rightarrow> audit_server list \<Rightarrow> u64 \<times> ipc_event list \<Rightarrow> u64 \<times> ipc_event list" where
  "audit_loop alive [] st = st"
| "audit_loop alive (serve # rest) (since, sent) =
     (let (r, sent) = subscribe_session serve alive since sent
      in audit_loop alive rest (case r of Inr next_since \<Rightarrow> next_since | Inl _ \<Rightarrow> since, sent))"

section \<open>The stream as the daemon writes it\<close>

text \<open>
  The daemon at the other end of the audit stream, composed of its own request parser, its
  acknowledgement and its subscriber thread with a stream that takes every write.
\<close>

definition daemon_stream :: "audit_log \<Rightarrow> fanout_event list \<Rightarrow> audit_server" where
  "daemon_stream log events request =
     (case Request_parse request of
        Inr (AuditSubscribe i since) \<Rightarrow>
          Inr (map Inr (str_lines (Response_encode (RSubscribed i) @
            snd (run_subscriber (\<lambda>x out. (True, out @ x)) events (AuditLog_since since log) []))))
      | _ \<Rightarrow> Inl ''refused'')"

definition stream_record :: "log_record \<Rightarrow> audit_stream_record" where
  "stream_record r = \<lparr>asr_sequence = lr_sequence r, asr_message = lr_message r\<rparr>"

definition audit_line :: "log_record \<Rightarrow> string" where
  "audit_line r = ''v1 audit '' @ show_word (lr_sequence r) @ ''|'' @ lr_message r"

text \<open>A record that fits in a frame, on one line.\<close>

definition streamable :: "log_record \<Rightarrow> bool" where
  "streamable r \<longleftrightarrow> clean_message (lr_message r) \<and> length (audit_line r) \<le> MAX_FRAME_BYTES"

fun audit_events :: "ipc_event list \<Rightarrow> audit_stream_record list" where
  "audit_events [] = []"
| "audit_events (EvAudit r # evs) = r # audit_events evs"
| "audit_events (e # evs) = audit_events evs"

lemma audit_events_append [simp]: "audit_events (xs @ ys) = audit_events xs @ audit_events ys"
  by (induction xs rule: audit_events.induct) simp_all

lemma audit_events_map [simp]: "audit_events (map (EvAudit \<circ> f) rs) = map f rs"
  by (induction rs) simp_all

lemma encode_audit_line: "encode_audit_frame r = audit_line r @ [NL]"
  by (simp add: encode_audit_frame_def audit_line_def)

lemma write_backlog_all:
  "write_backlog (\<lambda>x out. (True, out @ x)) rs out = (True, out @ concat (map encode_audit_frame rs))"
  by (induction rs arbitrary: out) simp_all

lemma receive_records_all:
  "receive_loop (\<lambda>x out. (True, out @ x)) (map FRecord rs) out = (True, out @ concat (map encode_audit_frame rs))"
  by (induction rs arbitrary: out) simp_all

lemma audit_line_one_line: "streamable r \<Longrightarrow> NL \<notin> set (audit_line r) \<and> strip_cr (audit_line r) = audit_line r"
  using TAB_not_digit by (auto simp: streamable_def clean_message_def audit_line_def strip_cr_def)

lemma parse_audit_line:
  assumes "streamable r"
  shows "AuditStreamRecord_parse (audit_line r) = Inr (stream_record r)"
proof -
  have eol: "no_eol (lr_message r)"
    using assms last_in_set [of "lr_message r"] by (fastforce simp: streamable_def clean_message_def)
  have "trim_crlf (audit_line r) = trim_crlf (audit_line r @ [NL])" by (simp add: trim_crlf_def)
  then have "AuditStreamRecord_parse (audit_line r) = AuditStreamRecord_parse (encode_audit_frame r)"
    by (simp add: AuditStreamRecord_parse_def encode_audit_line)
  then show ?thesis by (simp add: audit_frame_round_trip [OF eol] stream_record_def)
qed

lemma stream_lines:
  assumes "NL \<notin> set hello" "strip_cr hello = hello" "list_all streamable rs"
  shows "(let c = hello @ NL # concat (map encode_audit_frame rs)
    in str_lines c = hello # map audit_line rs \<and> last c = NL)"
  using assms(3)
proof (induction rs rule: rev_induct)
  case Nil
  then show ?case using str_lines_snoc [of "[]" hello] assms by (simp add: str_lines_def)
next
  case (snoc r rs)
  then show ?case
    using str_lines_snoc [of "hello @ NL # concat (map encode_audit_frame rs)" "audit_line r"]
      audit_line_one_line [of r]
    by (simp add: encode_audit_line [abs_def] Let_def)
qed

lemma session_records:
  assumes "list_all streamable rs"
  shows "session_loop (\<lambda>_. True) since (map (Inr \<circ> audit_line) rs) sent =
    (Inr (if rs = [] then since else lr_sequence (last rs)), sent @ map (EvAudit \<circ> stream_record) rs)"
  using assms
proof (induction rs arbitrary: since sent)
  case (Cons r rs)
  then have "length (audit_line r) \<le> MAX_FRAME_BYTES" by (simp add: streamable_def)
  moreover have "\<not> starts_with ''v1 subscribed '' (audit_line r)" "audit_line r \<noteq> ''v1 audit-replaced''"
    by (simp_all add: audit_line_def starts_with_def)
  ultimately show ?case
    using Cons by (simp add: parse_audit_line tx_send_def) (simp add: stream_record_def)
qed simp

lemma token_subscriber: "token TUI_SUBSCRIBER_ID"
  by (rule token_literal) (simp_all add: TUI_SUBSCRIBER_ID_def plain_def)

lemma subscribe_request_parse: "Request_parse (subscribe_request since) = Inr (AuditSubscribe TUI_SUBSCRIBER_ID since)"
proof -
  have "token (''since='' @ show_word since)" by (intro token_append_literal) (simp_all add: plain_def)
  from Request_parse_subscribe(2) [OF token_subscriber this parse_word_show_word] show ?thesis
    by (simp add: subscribe_request_def request_frame_def)
qed

lemma session_daemon_stream:
  assumes "list_all streamable (AuditLog_since since log @ rs)"
  shows "subscribe_session (daemon_stream log (map FRecord rs)) (\<lambda>_. True) since sent =
    (let all = AuditLog_since since log @ rs
     in (Inr (if all = [] then since else lr_sequence (last all)),
         sent @ EvSubscriptionReady # map (EvAudit \<circ> stream_record) all))"
proof -
  let ?hello = "''v1 subscribed '' @ TUI_SUBSCRIBER_ID" and ?all = "AuditLog_since since log @ rs"
  have "str_lines (?hello @ NL # concat (map encode_audit_frame ?all)) = ?hello # map audit_line ?all"
    using stream_lines [of ?hello ?all] assms by (simp add: TUI_SUBSCRIBER_ID_def strip_cr_def Let_def)
  then have "daemon_stream log (map FRecord rs) (subscribe_request since) = Inr (Inr ?hello # map (Inr \<circ> audit_line) ?all)"
    by (simp add: daemon_stream_def subscribe_request_parse run_subscriber_def write_backlog_all
        receive_records_all case_prod_unfold)
  moreover have "length ?hello \<le> MAX_FRAME_BYTES" "starts_with ''v1 subscribed '' ?hello"
    by (simp_all add: MAX_FRAME_BYTES_def TUI_SUBSCRIBER_ID_def starts_with_def)
  ultimately show ?thesis
    using session_records [OF assms, of since "sent @ [EvSubscriptionReady]"]
    by (simp add: subscribe_session_def tx_send_def Let_def)
qed

section \<open>Reconnecting\<close>

text \<open>The sequence number of the last of the first \<open>k\<close> records, where a client has to resume.\<close>

definition seq_at :: "log_record list \<Rightarrow> nat \<Rightarrow> u64" where
  "seq_at hist k = (if k = 0 then 0 else lr_sequence (hist ! (k - 1)))"

abbreviation numbered :: "log_record list \<Rightarrow> bool" where
  "numbered hist \<equiv> sorted_wrt (\<lambda>a b. lr_sequence a < lr_sequence b) hist \<and> list_all (\<lambda>r. 0 < lr_sequence r) hist"

lemma since_resumes:
  assumes "numbered hist" "k \<le> n" "n \<le> length hist" "al_records log = take n hist"
  shows "AuditLog_since (seq_at hist k) log = drop k (take n hist)"
proof -
  let ?P = "\<lambda>r. seq_at hist k < lr_sequence r"
  have "\<not> ?P r" if r: "r \<in> set (take k hist)" for r
  proof -
    obtain j where "j < k" "j < length hist" "r = hist ! j" using r by (auto simp: in_set_conv_nth)
    then have "lr_sequence r \<le> lr_sequence (hist ! (k - 1))"
      using assms(1-3) sorted_wrt_nth_less [of _ hist j "k - 1"] by (cases "j = k - 1") fastforce+
    then show ?thesis using \<open>j < k\<close> by (simp add: seq_at_def)
  qed
  moreover have "?P r" if r: "r \<in> set (drop k (take n hist))" for r
  proof -
    obtain i where "i < n - k" "r = hist ! (k + i)" using r assms(3) by (auto simp: in_set_conv_nth)
    then obtain j where j: "k \<le> j" "j < n" "r = hist ! j" using assms(2) that [of "k + i"] by simp
    show ?thesis
    proof (cases "k = 0")
      case True
      then show ?thesis using assms(1,3) j by (auto simp: seq_at_def list_all_length)
    next
      case False
      then show ?thesis
        using assms(1,3) j sorted_wrt_nth_less [of _ hist "k - 1" j] by (fastforce simp: seq_at_def)
    qed
  qed
  moreover have "take n hist = take k hist @ drop k (take n hist)"
    using assms(2) append_take_drop_id [of k "take n hist"] by (simp add: min_absorb1)
  ultimately show ?thesis
    unfolding AuditLog_since_def assms(4) by (metis (no_types, lifting) append_Nil filter_False filter_True filter_append)
qed

lemma drop_take_append: "k \<le> n \<Longrightarrow> n \<le> m \<Longrightarrow> drop k (take m xs) = drop k (take n xs) @ drop n (take m xs)"
  using take_add [of "n - k" "m - n" "drop k xs"] by (simp add: drop_take)

lemma seq_at_last:
  assumes "k \<le> m" "m \<le> length hist"
  shows "(if drop k (take m hist) = [] then seq_at hist k else lr_sequence (last (drop k (take m hist)))) = seq_at hist m"
proof (cases "k = m")
  case False
  then have "last (drop k (take m hist)) = hist ! (m - 1)" "drop k (take m hist) \<noteq> []"
    using assms by (simp_all add: last_drop last_conv_nth)
  then show ?thesis using False assms by (simp add: seq_at_def)
qed simp

text \<open>
  One attempt: the log holds the first \<open>n\<close> records when the client connects and the stream stays up
  until the first \<open>m\<close> are written.
\<close>

definition attempt_server :: "log_record list \<Rightarrow> audit_log \<Rightarrow> nat \<times> nat \<Rightarrow> audit_server" where
  "attempt_server hist log = (\<lambda>(n, m). daemon_stream (log\<lparr>al_records := take n hist\<rparr>) (map FRecord (drop n (take m hist))))"

fun attempts_from :: "nat \<Rightarrow> nat \<Rightarrow> (nat \<times> nat) list \<Rightarrow> bool" where
  "attempts_from k len [] \<longleftrightarrow> k \<le> len"
| "attempts_from k len ((n, m) # rest) \<longleftrightarrow> k \<le> n \<and> n \<le> m \<and> attempts_from m len rest"

lemma attempts_from_le: "attempts_from k len as \<Longrightarrow> k \<le> len"
  by (induction k len as rule: attempts_from.induct) auto

lemma attempts_from_last: "attempts_from k len as \<Longrightarrow> as \<noteq> [] \<Longrightarrow> k \<le> snd (last as)"
proof (induction k len as rule: attempts_from.induct)
  case (2 k len n m rest)
  then show ?case by (cases "rest = []") auto
qed simp

lemma one_attempt:
  assumes "numbered hist" "list_all streamable hist" "k \<le> n" "n \<le> m" "m \<le> length hist"
  shows "subscribe_session (attempt_server hist log (n, m)) (\<lambda>_. True) (seq_at hist k) sent =
    (Inr (seq_at hist m), sent @ EvSubscriptionReady # map (EvAudit \<circ> stream_record) (drop k (take m hist)))"
proof -
  let ?log = "log\<lparr>al_records := take n hist\<rparr>"
  have since: "AuditLog_since (seq_at hist k) ?log = drop k (take n hist)"
    using since_resumes [of hist k n ?log] assms by simp
  have "drop k (take m hist) = drop k (take n hist) @ drop n (take m hist)"
    using assms(3,4) by (rule drop_take_append)
  moreover have "list_all streamable (drop k (take m hist))"
    using assms(2) by (auto simp: list_all_iff dest!: in_set_dropD in_set_takeD)
  ultimately have "subscribe_session (attempt_server hist log (n, m)) (\<lambda>_. True) (seq_at hist k) sent =
      (Inr (if drop k (take m hist) = [] then seq_at hist k else lr_sequence (last (drop k (take m hist)))),
       sent @ EvSubscriptionReady # map (EvAudit \<circ> stream_record) (drop k (take m hist)))"
    using session_daemon_stream [of "seq_at hist k" ?log "drop n (take m hist)" sent] since
    unfolding attempt_server_def Let_def by simp
  moreover have "k \<le> m" using assms(3,4) by simp
  ultimately show ?thesis by (simp only: seq_at_last [OF _ assms(5)])
qed

lemma audit_loop_from:
  assumes "numbered hist" "list_all streamable hist" "attempts_from k (length hist) as"
  shows "audit_events (snd (audit_loop (\<lambda>_. True) (map (attempt_server hist log) as) (seq_at hist k, sent))) =
    audit_events sent @ map stream_record (drop k (take (if as = [] then k else snd (last as)) hist))"
  using assms(3)
proof (induction as arbitrary: k sent)
  case (Cons a as)
  obtain n m where a: "a = (n, m)" by (cases a)
  with Cons.prems have le: "k \<le> n" "n \<le> m" "attempts_from m (length hist) as" by auto
  then have m: "m \<le> length hist" using attempts_from_le by blast
  let ?e = "if as = [] then m else snd (last as)"
  have "m \<le> ?e" using attempts_from_last [OF le(3)] by simp
  then have "drop k (take ?e hist) = drop k (take m hist) @ drop m (take ?e hist)"
    using le(1,2) by (intro drop_take_append) simp_all
  then show ?case
    using Cons.IH [OF le(3), of "sent @ EvSubscriptionReady # map (EvAudit \<circ> stream_record) (drop k (take m hist))"]
      one_attempt [OF assms(1,2) le(1,2) m, of log sent]
    by (auto simp: a)
qed simp


definition record_demo :: "u64 \<Rightarrow> log_record" where
  "record_demo n = \<lparr>lr_sequence = n, lr_message = ''hello''\<rparr>"

lemma streamable_demo: "streamable (record_demo 1)" "streamable (record_demo 2)"
  by code_simp+


text \<open>
  A stream that breaks instead of ending repeats what it delivered. When reading fails after a
  record arrived, the position is not advanced, and the next connection delivers the record again.
\<close>

theorem audit_loop_repeats_after_error:
  assumes "streamable r" "0 < lr_sequence r" "al_records log = [r]"
  shows "audit_events (snd (audit_loop (\<lambda>_. True)
      [\<lambda>_. Inr [Inr ''v1 subscribed interfire-tui'', Inr (audit_line r), Inl e], daemon_stream log []] (0, []))) =
    [stream_record r, stream_record r]"
proof -
  have "\<not> starts_with ''v1 subscribed '' (audit_line r)" "audit_line r \<noteq> ''v1 audit-replaced''"
      "length (audit_line r) \<le> MAX_FRAME_BYTES"
    using assms(1) by (simp_all add: audit_line_def starts_with_def streamable_def)
  then have first: "subscribe_session (\<lambda>_. Inr [Inr ''v1 subscribed interfire-tui'', Inr (audit_line r), Inl e])
      (\<lambda>_. True) 0 [] = (Inl e, [EvSubscriptionReady, EvAudit (stream_record r)])"
    by (simp add: subscribe_session_def tx_send_def starts_with_def MAX_FRAME_BYTES_def parse_audit_line assms(1))
  have "AuditLog_since 0 log = [r]" using assms(2,3) by (simp add: AuditLog_since_def)
  then have "subscribe_session (daemon_stream log []) (\<lambda>_. True) 0 [EvSubscriptionReady, EvAudit (stream_record r)] =
      (Inr (lr_sequence r), [EvSubscriptionReady, EvAudit (stream_record r), EvSubscriptionReady, EvAudit (stream_record r)])"
    using session_daemon_stream [of 0 log "[]" "[EvSubscriptionReady, EvAudit (stream_record r)]"] assms(1) by simp
  with first show ?thesis by simp
qed

theorem audit_loop_repeats_after_error_witness:
  "audit_events (snd (audit_loop (\<lambda>_. True)
      [\<lambda>_. Inr [Inr ''v1 subscribed interfire-tui'', Inr (audit_line (record_demo 1)), Inl ''reset''],
       daemon_stream (log_demo\<lparr>al_records := [record_demo 1]\<rparr>) []] (0, []))) =
    [stream_record (record_demo 1), stream_record (record_demo 1)]"
  by (rule audit_loop_repeats_after_error [OF streamable_demo(1)]) (simp_all add: record_demo_def)

section \<open>The polls end with the window\<close>

lemma offer_grows: "length sent \<le> length (fst (snd (offer alive get wrap (sent, d))))"
  by (auto simp: offer_def tx_send_def Let_def split: prod.split sum.split)

lemma status_turn_grows:
  assumes "status_turn exch alive (sent, d) = (True, sent', d')"
  shows "alive (length sent) \<and> length sent < length sent'"
proof -
  obtain r d1 where f: "fetch_status exch d = (r, d1)" by fastforce
  let ?e = "case r of Inr status \<Rightarrow> EvStatus status | Inl e \<Rightarrow> EvDown e"
  have alive: "alive (length sent)" and st: "offer alive (fetch_stats_summary exch) EvStatsSummary (sent @ [?e], d1) = (True, sent', d')"
    using assms by (auto simp: status_turn_def f tx_send_def Let_def split: if_splits)
  then show ?thesis
    using offer_grows [of "sent @ [?e]" alive "fetch_stats_summary exch" EvStatsSummary d1] by simp
qed

lemma status_loop_runs:
  "poll_loop (status_turn exch alive) n (sent, d) = (True, sent', d') \<Longrightarrow>
    length sent + n \<le> length sent' \<and> (n = 0 \<or> (\<exists>m \<ge> length sent + n - 1. alive m))"
proof (induction n arbitrary: sent d)
  case (Suc n)
  obtain ok sent1 d1 where t: "status_turn exch alive (sent, d) = (ok, sent1, d1)" by (metis prod.exhaust)
  with Suc.prems have ok: "ok" and rest: "poll_loop (status_turn exch alive) n (sent1, d1) = (True, sent', d')"
    by (auto split: if_splits)
  have grows: "alive (length sent)" "length sent < length sent1"
    using status_turn_grows [of exch alive sent d sent1 d1] t ok by auto
  from Suc.IH [OF rest] have "length sent1 + n \<le> length sent'" and "n = 0 \<or> (\<exists>m \<ge> length sent1 + n - 1. alive m)" by auto
  moreover have "length sent + Suc n - 1 \<le> length sent1 + n - 1" if "n \<noteq> 0" using grows(2) that by simp
  ultimately show ?case using grows by (cases "n = 0") (auto intro: le_trans)
qed simp



section \<open>Commands reach the daemon as meant\<close>

fun command_request :: "ipc_command \<Rightarrow> request" where
  "command_request RefreshRules = RuleList"
| "command_request RefreshPrompts = PromptList"
| "command_request (DeleteRule i) = RuleDelete i"
| "command_request (AddRule i executable verdict port) = RuleAdd i executable verdict port"
| "command_request (AnswerPrompt i verdict scope) = PromptAnswer i verdict scope"
| "command_request (CmdTrafficBlock scope direction) = TrafficBlock scope direction"
| "command_request (CmdTrafficUnblock scope) = TrafficUnblock scope"

text \<open>The parameters a command may carry: words the protocol can transport.\<close>

fun command_ok :: "ipc_command \<Rightarrow> bool" where
  "command_ok (AddRule i executable verdict port) \<longleftrightarrow>
     token executable \<and> utf8_valid executable \<and> verdict \<in> {''allow'', ''deny'', ''prompt''}"
| "command_ok (AnswerPrompt i verdict scope) \<longleftrightarrow>
     verdict \<in> {''allow'', ''deny''} \<and> scope \<in> {''once'', ''session'', ''permanent''}"
| "command_ok (CmdTrafficBlock scope direction) \<longleftrightarrow> scope = ''user'' \<and> direction \<in> {''out'', ''in'', ''all''}"
| "command_ok (CmdTrafficUnblock scope) \<longleftrightarrow> scope = ''user''"
| "command_ok c \<longleftrightarrow> True"

fun command_words :: "ipc_command \<Rightarrow> string list" where
  "command_words RefreshRules = [''rule-list'']"
| "command_words RefreshPrompts = [''prompt-list'']"
| "command_words (DeleteRule i) = [''rule-delete'', show_word i]"
| "command_words (AddRule i executable verdict port) = [''rule-add'', show_word i, executable, verdict, show_word port]"
| "command_words (AnswerPrompt i verdict scope) = [''prompt-answer'', show_word i, verdict, scope]"
| "command_words (CmdTrafficBlock scope direction) = [''traffic-block'', ''scope='' @ scope, ''direction='' @ direction]"
| "command_words (CmdTrafficUnblock scope) = [''traffic-unblock'', ''scope='' @ scope]"

abbreviation command_frame :: "ipc_command \<Rightarrow> string" where
  "command_frame c \<equiv> request_frame (command_words c)"

abbreviation clean_word :: "string \<Rightarrow> bool" where
  "clean_word s \<equiv> token s \<and> utf8_valid s"

lemma clean_literal: "s \<noteq> [] \<Longrightarrow> list_all plain s \<Longrightarrow> clean_word s"
  by (auto simp: list_all_iff intro!: token_literal utf8_valid_ascii plain_ascii)

lemma clean_words:
  "verdict \<in> {''allow'', ''deny'', ''prompt''} \<Longrightarrow> clean_word verdict"
  "scope \<in> {''once'', ''session'', ''permanent''} \<Longrightarrow> clean_word scope"
  "direction \<in> {''out'', ''in'', ''all''} \<Longrightarrow> clean_word (''direction='' @ direction)"
  "clean_word (''scope='' @ ''user'')"
  by (rule clean_literal; auto simp: plain_def)+

lemma clean_labels:
  "clean_word ''rule-list''" "clean_word ''prompt-list''" "clean_word ''rule-delete''" "clean_word ''rule-add''"
  "clean_word ''prompt-answer''" "clean_word ''traffic-block''" "clean_word ''traffic-unblock''"
  by (rule clean_literal; simp add: plain_def)+

lemma command_frame_understood: "command_ok c \<Longrightarrow> Request_parse (command_frame c) = Inr (command_request c)"
proof (induction c rule: command_request.induct)
  case (4 i executable verdict port)
  then show ?case using Request_parse_rule_add clean_words(1) by simp
next
  case (5 i verdict scope)
  then show ?case using Request_parse_prompt_answer clean_words(1) [of verdict] clean_words(2) [of scope] by auto
next
  case (6 scope direction)
  then show ?case using Request_parse_traffic_block [of "''user''"] by simp
next
  case (7 scope)
  then show ?case using Request_parse_traffic_unblock [of "''user''"] by simp
qed (simp_all add: Request_parse_plain Request_parse_rule_delete)

lemma command_words_clean: "command_ok c \<Longrightarrow> list_all clean_word (command_words c)"
proof (induction c rule: command_words.induct)
  case (5 i verdict scope)
  then show ?case using clean_words(1) [of verdict] clean_words(2) [of scope] clean_labels by auto
qed (use clean_words clean_labels in auto)

lemma command_wire: "command_ok c \<Longrightarrow> length (command_frame c) \<le> MAX_FRAME_BYTES \<Longrightarrow> wire_ok (command_frame c)"
  using command_words_clean [of c] by (intro request_frame_wire) (auto simp: list_all_iff)

text \<open>What a command that changes something does: one exchange, then a refresh when it succeeded.\<close>

fun command_refresh :: "'d exchange \<Rightarrow> ipc_command \<Rightarrow> 'd \<Rightarrow> ipc_event list \<times> 'd" where
  "command_refresh exch (DeleteRule i) = refresh_with (fetch_rules exch) EvRules"
| "command_refresh exch (AddRule i executable verdict port) = refresh_with (fetch_rules exch) EvRules"
| "command_refresh exch (AnswerPrompt i verdict scope) = refresh_with (fetch_prompts exch) EvPrompts"
| "command_refresh exch c = (\<lambda>d. ([], d))"

abbreviation mutation :: "ipc_command \<Rightarrow> bool" where
  "mutation c \<equiv> c \<noteq> RefreshRules \<and> c \<noteq> RefreshPrompts"

lemma handle_mutation:
  assumes "mutation c"
  obtains ok where "handle_command exch c = after_pong exch (command_frame c) ok (command_refresh exch c)"
  using assms
  by (cases c) (auto simp: fun_eq_iff mutate_then_refresh_rules_def request_frame_def)

lemma refresh_no_action: "refresh_with get EvRules d \<noteq> (EvActionOk m # evs, d')"
    "refresh_with get' EvPrompts d \<noteq> (EvActionOk m # evs, d')"
  by (auto simp: refresh_with_def split: prod.splits sum.splits)

context control_link
begin

lemma after_pong_ok_iff:
  assumes "wire_ok frame" "Request_parse frame = Inr r"
  shows "after_pong exch frame ok refresh d = (EvActionOk m # evs, d2) \<longleftrightarrow>
    m = ok \<and> (\<exists>d1. served r d d1 \<and> refresh d1 = (evs, d2))"
proof -
  obtain x d1 where x: "one_shot exch frame d = (x, d1)" by fastforce
  then have S: "served r d d' \<longleftrightarrow> (\<exists>line. x = Inr line \<and> starts_with ''v1 pong'' line \<and> d' = d1)" for d'
    using one_shot_pong_iff [OF assms, of d d'] by auto
  show ?thesis
    by (cases x; cases "refresh d1") (auto simp: after_pong_def x S)
qed

end

end
