(* ===== verification/TuiApp.thy ===== *)
theory TuiApp
  imports TuiIpc
begin

text \<open>
  The terminal client's state and key handling (\<open>interfire-tui/src/app.rs\<close>). Keys are those of
  \<open>crossterm::event::KeyCode\<close> that the code distinguishes; \<open>KOther\<close> stands for the rest. Text outside
  ASCII is written as its UTF-8 bytes.
\<close>

section \<open>Tabs, forms, overlays\<close>

definition MAX_AUDIT_LINES :: usize where
  "MAX_AUDIT_LINES = MAX_LOG_RECORDS_PER_SUBSCRIBER"

datatype key_code =
    KEsc | KEnter | KTab | KBackTab | KBackspace | KLeft | KRight | KUp | KDown | KChar scalar | KOther

definition pressed :: "key_code \<Rightarrow> string \<Rightarrow> bool" where
  "pressed code cs \<longleftrightarrow> list_ex (\<lambda>c. code = KChar (of_char c)) cs"

text \<open>\<open>Vec::get\<close>.\<close>

definition field_of :: "usize \<Rightarrow> 'a list \<Rightarrow> 'a option" where
  "field_of n xs = (if n < length xs then Some (xs ! n) else None)"

record visible_list =
  vl_relative_selected :: usize
  vl_items :: "string list"
  vl_start :: usize
  vl_total :: usize

datatype tab = TabStatus | TabApps | TabRules | TabPrompts | TabEvents | TabHelp

definition Tab_ALL :: "tab list" where
  "Tab_ALL = [TabStatus, TabApps, TabRules, TabPrompts, TabEvents, TabHelp]"

fun Tab_label :: "tab \<Rightarrow> string" where
  "Tab_label TabStatus = ''Status''"
| "Tab_label TabApps = ''Apps''"
| "Tab_label TabRules = ''Rules''"
| "Tab_label TabPrompts = ''Prompts''"
| "Tab_label TabEvents = ''Events''"
| "Tab_label TabHelp = ''Help''"

fun Tab_index :: "tab \<Rightarrow> usize" where
  "Tab_index TabStatus = 0"
| "Tab_index TabApps = 1"
| "Tab_index TabRules = 2"
| "Tab_index TabPrompts = 3"
| "Tab_index TabEvents = 4"
| "Tab_index TabHelp = 5"

definition Tab_from_index :: "usize \<Rightarrow> tab" where
  "Tab_from_index index = Tab_ALL ! (index mod length Tab_ALL)"

fun Tab_has_split :: "tab \<Rightarrow> bool" where
  "Tab_has_split t = (t = TabApps \<or> t = TabRules \<or> t = TabPrompts \<or> t = TabEvents)"

datatype pane = PaneList | PaneDetail

datatype add_field = FieldId | FieldExecutable | FieldVerdict | FieldPort

fun AddField_label :: "add_field \<Rightarrow> string" where
  "AddField_label FieldId = ''id''"
| "AddField_label FieldExecutable = ''executable''"
| "AddField_label FieldVerdict = ''verdict''"
| "AddField_label FieldPort = ''port''"

fun AddField_next :: "add_field \<Rightarrow> add_field" where
  "AddField_next FieldId = FieldExecutable"
| "AddField_next FieldExecutable = FieldVerdict"
| "AddField_next FieldVerdict = FieldPort"
| "AddField_next FieldPort = FieldId"

fun AddField_prev :: "add_field \<Rightarrow> add_field" where
  "AddField_prev FieldId = FieldPort"
| "AddField_prev FieldExecutable = FieldId"
| "AddField_prev FieldVerdict = FieldExecutable"
| "AddField_prev FieldPort = FieldVerdict"

record add_rule_form =
  af_id :: string
  af_executable :: string
  af_verdict :: string
  af_port :: string
  af_focus :: add_field

definition AddRuleForm_new :: add_rule_form where
  "AddRuleForm_new = \<lparr>af_id = [], af_executable = [], af_verdict = ''deny'', af_port = ''443'', af_focus = FieldId\<rparr>"

text \<open>An edit through the reference that \<open>focused_mut\<close> returns.\<close>

definition focused_mut :: "(string \<Rightarrow> string) \<Rightarrow> add_rule_form \<Rightarrow> add_rule_form" where
  "focused_mut f form =
     (case af_focus form of
        FieldId \<Rightarrow> form\<lparr>af_id := f (af_id form)\<rparr>
      | FieldExecutable \<Rightarrow> form\<lparr>af_executable := f (af_executable form)\<rparr>
      | FieldVerdict \<Rightarrow> form\<lparr>af_verdict := f (af_verdict form)\<rparr>
      | FieldPort \<Rightarrow> form\<lparr>af_port := f (af_port form)\<rparr>)"

definition AddRuleForm_to_command :: "add_rule_form \<Rightarrow> string + ipc_command" where
  "AddRuleForm_to_command form =
     and_then (ok_or ''id must be an integer'' (parse_word (af_id form))) (\<lambda>i.
     if af_executable form = [] \<or> \<not> starts_with ''/'' (af_executable form)
     then Inl ''executable must be an absolute path''
     else let verdict = to_ascii_lowercase (af_verdict form)
       in if \<not> (verdict = ''allow'' \<or> verdict = ''deny'' \<or> verdict = ''prompt'')
          then Inl ''verdict must be allow|deny|prompt''
          else and_then (ok_or ''port must be 0..65535'' (parse_word (af_port form))) (\<lambda>port.
            Inr (AddRule i (af_executable form) verdict port)))"

datatype answer_verdict = AvAllow | AvDeny

fun AnswerVerdict_as_str :: "answer_verdict \<Rightarrow> string" where
  "AnswerVerdict_as_str AvAllow = ''allow''"
| "AnswerVerdict_as_str AvDeny = ''deny''"

fun AnswerVerdict_toggle :: "answer_verdict \<Rightarrow> answer_verdict" where
  "AnswerVerdict_toggle AvAllow = AvDeny"
| "AnswerVerdict_toggle AvDeny = AvAllow"

datatype answer_scope = AsOnce | AsSession | AsPermanent

fun AnswerScope_as_str :: "answer_scope \<Rightarrow> string" where
  "AnswerScope_as_str AsOnce = ''once''"
| "AnswerScope_as_str AsSession = ''session''"
| "AnswerScope_as_str AsPermanent = ''permanent''"

fun AnswerScope_next :: "answer_scope \<Rightarrow> answer_scope" where
  "AnswerScope_next AsOnce = AsSession"
| "AnswerScope_next AsSession = AsPermanent"
| "AnswerScope_next AsPermanent = AsOnce"

fun AnswerScope_prev :: "answer_scope \<Rightarrow> answer_scope" where
  "AnswerScope_prev AsOnce = AsPermanent"
| "AnswerScope_prev AsSession = AsOnce"
| "AnswerScope_prev AsPermanent = AsSession"

record answer_prompt_form =
  pf_prompt :: prompt_row
  pf_verdict :: answer_verdict
  pf_scope :: answer_scope

definition AnswerPromptForm_new :: "prompt_row \<Rightarrow> answer_prompt_form" where
  "AnswerPromptForm_new prompt = \<lparr>pf_prompt = prompt, pf_verdict = AvDeny, pf_scope = AsOnce\<rparr>"

definition AnswerPromptForm_to_command :: "answer_prompt_form \<Rightarrow> ipc_command" where
  "AnswerPromptForm_to_command form =
     AnswerPrompt (pw_id (pf_prompt form)) (AnswerVerdict_as_str (pf_verdict form)) (AnswerScope_as_str (pf_scope form))"

datatype traffic_scope_choice = TscUser | TscMachine

fun TrafficScopeChoice_as_str :: "traffic_scope_choice \<Rightarrow> string" where
  "TrafficScopeChoice_as_str TscUser = ''user''"
| "TrafficScopeChoice_as_str TscMachine = ''machine''"

fun TrafficScopeChoice_toggle :: "traffic_scope_choice \<Rightarrow> traffic_scope_choice" where
  "TrafficScopeChoice_toggle TscUser = TscMachine"
| "TrafficScopeChoice_toggle TscMachine = TscUser"

datatype traffic_direction_choice = TdOut | TdIn | TdAll

fun TrafficDirectionChoice_as_str :: "traffic_direction_choice \<Rightarrow> string" where
  "TrafficDirectionChoice_as_str TdOut = ''out''"
| "TrafficDirectionChoice_as_str TdIn = ''in''"
| "TrafficDirectionChoice_as_str TdAll = ''all''"

fun TrafficDirectionChoice_next :: "traffic_direction_choice \<Rightarrow> traffic_direction_choice" where
  "TrafficDirectionChoice_next TdOut = TdIn"
| "TrafficDirectionChoice_next TdIn = TdAll"
| "TrafficDirectionChoice_next TdAll = TdOut"

fun TrafficDirectionChoice_prev :: "traffic_direction_choice \<Rightarrow> traffic_direction_choice" where
  "TrafficDirectionChoice_prev TdOut = TdAll"
| "TrafficDirectionChoice_prev TdIn = TdOut"
| "TrafficDirectionChoice_prev TdAll = TdIn"

datatype traffic_action_choice = TaBlock | TaUnblock

fun TrafficActionChoice_as_str :: "traffic_action_choice \<Rightarrow> string" where
  "TrafficActionChoice_as_str TaBlock = ''block''"
| "TrafficActionChoice_as_str TaUnblock = ''unblock''"

fun TrafficActionChoice_toggle :: "traffic_action_choice \<Rightarrow> traffic_action_choice" where
  "TrafficActionChoice_toggle TaBlock = TaUnblock"
| "TrafficActionChoice_toggle TaUnblock = TaBlock"

record traffic_form =
  tf_scope :: traffic_scope_choice
  tf_direction :: traffic_direction_choice
  tf_action :: traffic_action_choice

definition TrafficForm_new :: traffic_form where
  "TrafficForm_new = \<lparr>tf_scope = TscUser, tf_direction = TdOut, tf_action = TaBlock\<rparr>"

definition TrafficForm_to_command :: "traffic_form \<Rightarrow> string + ipc_command" where
  "TrafficForm_to_command form =
     (if tf_scope form = TscMachine
      then Inl (''machine traffic needs: pkexec interfirectl traffic block|unblock --scope=machine '' @ ELLIPSIS)
      else case tf_action form of
             TaBlock \<Rightarrow> Inr (CmdTrafficBlock (TrafficScopeChoice_as_str (tf_scope form))
                          (TrafficDirectionChoice_as_str (tf_direction form)))
           | TaUnblock \<Rightarrow> Inr (CmdTrafficUnblock (TrafficScopeChoice_as_str (tf_scope form))))"

datatype overlay =
    OverlayNone
  | OverlayNotice string
  | OverlayAddRule add_rule_form
  | OverlayAnswerPrompt answer_prompt_form
  | OverlayTraffic traffic_form

datatype link = LinkConnecting | LinkDown string | LinkUp daemon_status

datatype key_action = ActNone | ActQuit | ActCommand ipc_command

datatype events_verdict_filter = EvfAll | EvfAllow | EvfDeny | EvfPrompt

fun EventsVerdictFilter_label :: "events_verdict_filter \<Rightarrow> string" where
  "EventsVerdictFilter_label EvfAll = ''All''"
| "EventsVerdictFilter_label EvfAllow = ''Allow''"
| "EventsVerdictFilter_label EvfDeny = ''Deny''"
| "EventsVerdictFilter_label EvfPrompt = ''Prompt''"

fun EventsVerdictFilter_next :: "events_verdict_filter \<Rightarrow> events_verdict_filter" where
  "EventsVerdictFilter_next EvfAll = EvfAllow"
| "EventsVerdictFilter_next EvfAllow = EvfDeny"
| "EventsVerdictFilter_next EvfDeny = EvfPrompt"
| "EventsVerdictFilter_next EvfPrompt = EvfAll"

fun EventsVerdictFilter_matches :: "events_verdict_filter \<Rightarrow> string \<Rightarrow> bool" where
  "EventsVerdictFilter_matches EvfAll line = True"
| "EventsVerdictFilter_matches EvfAllow line = contains_str ''outcome=allow'' line"
| "EventsVerdictFilter_matches EvfDeny line = contains_str ''outcome=deny'' line"
| "EventsVerdictFilter_matches EvfPrompt line = contains_str ''outcome=prompt'' line"

section \<open>The application state\<close>

record app =
  ap_socket :: string
  ap_link :: link
  ap_audit :: "string list"
  ap_rules :: "rule_row list"
  ap_prompts :: "prompt_row list"
  ap_processes :: "process_row list"
  ap_subscribed :: bool
  ap_tab :: tab
  ap_pane :: pane
  ap_list_selected :: usize
  ap_overlay :: overlay
  ap_status_message :: "string option"
  ap_stats_summary :: "stats_summary_body option"
  ap_events_filter :: events_verdict_filter

definition App_new :: "string \<Rightarrow> app" where
  "App_new socket = \<lparr>ap_socket = socket, ap_link = LinkConnecting, ap_audit = [], ap_rules = [],
     ap_prompts = [], ap_processes = [], ap_subscribed = False, ap_tab = TabStatus, ap_pane = PaneList,
     ap_list_selected = 0, ap_overlay = OverlayNone, ap_status_message = None, ap_stats_summary = None,
     ap_events_filter = EvfAll\<rparr>"

definition filtered_audit :: "app \<Rightarrow> string list" where
  "filtered_audit a = filter (EventsVerdictFilter_matches (ap_events_filter a)) (ap_audit a)"

definition list_len :: "app \<Rightarrow> usize" where
  "list_len a =
     (case ap_tab a of
        TabEvents \<Rightarrow> length (filtered_audit a)
      | TabApps \<Rightarrow> length (ap_processes a)
      | TabRules \<Rightarrow> length (ap_rules a)
      | TabPrompts \<Rightarrow> length (ap_prompts a)
      | _ \<Rightarrow> 0)"

definition clamp_selection :: "app \<Rightarrow> app" where
  "clamp_selection a =
     (let len = list_len a
      in if len = 0 then a\<lparr>ap_list_selected := 0\<rparr>
         else if len \<le> ap_list_selected a then a\<lparr>ap_list_selected := len - 1\<rparr>
         else a)"

definition push_audit_line :: "string \<Rightarrow> app \<Rightarrow> app" where
  "push_audit_line line a =
     (let a = (if length (ap_audit a) = MAX_AUDIT_LINES
               then let a = a\<lparr>ap_audit := tl (ap_audit a)\<rparr>
                 in if 0 < ap_list_selected a \<and> ap_tab a = TabEvents
                    then a\<lparr>ap_list_selected := ap_list_selected a - 1\<rparr> else a
               else a)
      in clamp_selection (a\<lparr>ap_audit := ap_audit a @ [line]\<rparr>))"

fun App_apply :: "ipc_event \<Rightarrow> app \<Rightarrow> app" where
  "App_apply (EvStatus status) a = a\<lparr>ap_link := LinkUp status\<rparr>"
| "App_apply (EvStatsSummary summary) a = a\<lparr>ap_stats_summary := Some summary\<rparr>"
| "App_apply (EvDown detail) a = a\<lparr>ap_link := LinkDown detail, ap_subscribed := False\<rparr>"
| "App_apply (EvAudit record) a =
     push_audit_line (show_word (asr_sequence record) @ ''|'' @ asr_message record) a"
| "App_apply EvSubscriptionReady a = a\<lparr>ap_subscribed := True\<rparr>"
| "App_apply (EvRules rules) a = clamp_selection (a\<lparr>ap_rules := rules\<rparr>)"
| "App_apply (EvPrompts prompts) a = clamp_selection (a\<lparr>ap_prompts := prompts\<rparr>)"
| "App_apply (EvProcesses processes) a = clamp_selection (a\<lparr>ap_processes := processes\<rparr>)"
| "App_apply (EvActionOk message) a = a\<lparr>ap_status_message := Some message\<rparr>"
| "App_apply (EvActionError message) a =
     a\<lparr>ap_overlay := OverlayNotice (''error: '' @ message), ap_status_message := Some (''error: '' @ message)\<rparr>"

definition chrome_title :: "app \<Rightarrow> string" where
  "chrome_title a =
     (case ap_link a of
        LinkConnecting \<Rightarrow> ''connecting''
      | LinkDown _ \<Rightarrow> ''daemon unavailable''
      | LinkUp status \<Rightarrow>
          if ds_observation status = ''degraded'' \<or> ds_enforcement status = ''degraded'' then ''degraded'' else ''live'')"

section \<open>Keys\<close>

definition set_tab :: "tab \<Rightarrow> app \<Rightarrow> app" where
  "set_tab t a = clamp_selection (a\<lparr>ap_tab := t, ap_pane := PaneList, ap_list_selected := 0\<rparr>)"

definition next_tab :: "app \<Rightarrow> app" where
  "next_tab a = set_tab (Tab_from_index (Tab_index (ap_tab a) + 1)) a"

definition prev_tab :: "app \<Rightarrow> app" where
  "prev_tab a =
     (let index = (if Tab_index (ap_tab a) = 0 then length Tab_ALL - 1 else Tab_index (ap_tab a) - 1)
      in set_tab (Tab_from_index index) a)"

text \<open>\<open>isize\<close> as an integer: a list has at most \<open>isize::MAX\<close> rows, so the sum never overflows.\<close>

definition move_list :: "int \<Rightarrow> app \<Rightarrow> app" where
  "move_list delta a =
     (let len = list_len a
      in if len = 0 then a\<lparr>ap_list_selected := 0\<rparr>
         else let current = (if ap_list_selected a < 2 ^ 63 then int (ap_list_selected a) else 0);
                  nxt = (current + delta) mod (if len < 2 ^ 63 then int len else 1)
           in a\<lparr>ap_list_selected := nat nxt\<rparr>)"

definition delete_selected_rule :: "app \<Rightarrow> key_action" where
  "delete_selected_rule a =
     (case field_of (ap_list_selected a) (ap_rules a) of
        Some rule \<Rightarrow> ActCommand (DeleteRule (rr_id rule)) | None \<Rightarrow> ActNone)"

definition open_answer_overlay :: "app \<Rightarrow> key_action \<times> app" where
  "open_answer_overlay a =
     (case field_of (ap_list_selected a) (ap_prompts a) of
        Some prompt \<Rightarrow>
          if PromptRow_can_answer prompt
          then (ActNone, a\<lparr>ap_overlay := OverlayAnswerPrompt (AnswerPromptForm_new prompt)\<rparr>)
          else (ActNone, a\<lparr>ap_overlay := OverlayNotice ''prompt expired or stale; answer disabled''\<rparr>)
      | None \<Rightarrow> (ActNone, a))"

definition handle_events_filter_key :: "key_code \<Rightarrow> app \<Rightarrow> key_action \<times> app" where
  "handle_events_filter_key code a =
     (ActNone,
      if pressed code ''f''
      then let f = EventsVerdictFilter_next (ap_events_filter a)
        in a\<lparr>ap_events_filter := f, ap_list_selected := 0,
             ap_status_message := Some (''Events filter: '' @ EventsVerdictFilter_label f)\<rparr>
      else if pressed code ''c''
      then a\<lparr>ap_events_filter := EvfAll, ap_list_selected := 0,
             ap_status_message := Some ''Events filter cleared''\<rparr>
      else a)"

definition handle_root_key :: "key_code \<Rightarrow> app \<Rightarrow> key_action \<times> app" where
  "handle_root_key code a =
     (if pressed code ''qQ'' then (ActQuit, a)
      else if pressed code ''?'' then (ActNone, a\<lparr>ap_overlay := OverlayNotice ''Press Esc to dismiss this overlay.''\<rparr>)
      else if code = KLeft \<or> code = KBackTab then (ActNone, prev_tab a)
      else if code = KRight \<or> code = KTab then (ActNone, next_tab a)
      else if pressed code ''1'' then (ActNone, set_tab TabStatus a)
      else if pressed code ''2'' then (ActNone, set_tab TabApps a)
      else if pressed code ''3'' then (ActNone, set_tab TabRules a)
      else if pressed code ''4'' then (ActNone, set_tab TabPrompts a)
      else if pressed code ''5'' then (ActNone, set_tab TabEvents a)
      else if pressed code ''6'' then (ActNone, set_tab TabHelp a)
      else if pressed code ''h'' \<and> Tab_has_split (ap_tab a) then (ActNone, a\<lparr>ap_pane := PaneList\<rparr>)
      else if pressed code ''l'' \<and> Tab_has_split (ap_tab a) then (ActNone, a\<lparr>ap_pane := PaneDetail\<rparr>)
      else if (pressed code ''j'' \<or> code = KDown) \<and> ap_pane a = PaneList then (ActNone, move_list 1 a)
      else if (pressed code ''k'' \<or> code = KUp) \<and> ap_pane a = PaneList then (ActNone, move_list (- 1) a)
      else if pressed code ''a'' \<and> ap_tab a = TabRules then (ActNone, a\<lparr>ap_overlay := OverlayAddRule AddRuleForm_new\<rparr>)
      else if pressed code ''d'' \<and> ap_tab a = TabRules then (delete_selected_rule a, a)
      else if pressed code ''r'' \<and> ap_tab a = TabRules then (ActCommand RefreshRules, a)
      else if (pressed code ''a'' \<or> code = KEnter) \<and> ap_tab a = TabPrompts then open_answer_overlay a
      else if pressed code ''r'' \<and> ap_tab a = TabPrompts then (ActCommand RefreshPrompts, a)
      else if pressed code ''t'' \<and> ap_tab a = TabStatus then (ActNone, a\<lparr>ap_overlay := OverlayTraffic TrafficForm_new\<rparr>)
      else if pressed code ''b'' \<and> ap_tab a = TabStatus then (ActCommand (CmdTrafficBlock ''user'' ''out''), a)
      else if pressed code ''B'' \<and> ap_tab a = TabStatus then (ActCommand (CmdTrafficBlock ''user'' ''all''), a)
      else if pressed code ''u'' \<and> ap_tab a = TabStatus then (ActCommand (CmdTrafficUnblock ''user''), a)
      else if pressed code ''fc'' \<and> ap_tab a = TabEvents then handle_events_filter_key code a
      else (ActNone, a))"

definition handle_traffic_overlay_key :: "traffic_form \<Rightarrow> key_code \<Rightarrow> app \<Rightarrow> key_action \<times> app" where
  "handle_traffic_overlay_key form code a =
     (let edit = (\<lambda>form. (ActNone, a\<lparr>ap_overlay := OverlayTraffic form\<rparr>))
      in if code = KEsc then (ActNone, a\<lparr>ap_overlay := OverlayNone\<rparr>)
         else if code = KEnter then
           (case TrafficForm_to_command form of
              Inr command \<Rightarrow> (ActCommand command, a\<lparr>ap_overlay := OverlayNone\<rparr>)
            | Inl message \<Rightarrow> (ActNone, a\<lparr>ap_overlay := OverlayNotice message\<rparr>))
         else if code = KTab then edit (form\<lparr>tf_scope := TrafficScopeChoice_toggle (tf_scope form)\<rparr>)
         else if code = KLeft then edit (form\<lparr>tf_direction := TrafficDirectionChoice_prev (tf_direction form)\<rparr>)
         else if code = KRight \<or> pressed code ''dD'' then
           edit (form\<lparr>tf_direction := TrafficDirectionChoice_next (tf_direction form)\<rparr>)
         else if pressed code ''bB'' then edit (form\<lparr>tf_action := TaBlock\<rparr>)
         else if pressed code ''uU'' then edit (form\<lparr>tf_action := TaUnblock\<rparr>)
         else if pressed code ''aA'' then edit (form\<lparr>tf_action := TrafficActionChoice_toggle (tf_action form)\<rparr>)
         else (ActNone, a))"

definition handle_add_overlay_key :: "add_rule_form \<Rightarrow> key_code \<Rightarrow> app \<Rightarrow> key_action \<times> app" where
  "handle_add_overlay_key form code a =
     (let edit = (\<lambda>form. (ActNone, a\<lparr>ap_overlay := OverlayAddRule form\<rparr>))
      in case code of
           KEsc \<Rightarrow> (ActNone, a\<lparr>ap_overlay := OverlayNone\<rparr>)
         | KEnter \<Rightarrow>
             (case AddRuleForm_to_command form of
                Inr command \<Rightarrow> (ActCommand command, a\<lparr>ap_overlay := OverlayNone\<rparr>)
              | Inl message \<Rightarrow> (ActNone, a\<lparr>ap_status_message := Some message\<rparr>))
         | KTab \<Rightarrow> edit (form\<lparr>af_focus := AddField_next (af_focus form)\<rparr>)
         | KBackTab \<Rightarrow> edit (form\<lparr>af_focus := AddField_prev (af_focus form)\<rparr>)
         | KBackspace \<Rightarrow> edit (focused_mut String_pop form)
         | KChar ch \<Rightarrow> if is_control ch then (ActNone, a) else edit (focused_mut (String_push ch) form)
         | _ \<Rightarrow> (ActNone, a))"

definition handle_answer_overlay_key :: "answer_prompt_form \<Rightarrow> key_code \<Rightarrow> app \<Rightarrow> key_action \<times> app" where
  "handle_answer_overlay_key form code a =
     (let edit = (\<lambda>form. (ActNone, a\<lparr>ap_overlay := OverlayAnswerPrompt form\<rparr>))
      in if code = KEsc then (ActNone, a\<lparr>ap_overlay := OverlayNone\<rparr>)
         else if code = KEnter then
           (if \<not> PromptRow_can_answer (pf_prompt form)
            then (ActNone, a\<lparr>ap_overlay := OverlayNotice ''prompt expired or stale; actions disabled''\<rparr>)
            else (ActCommand (AnswerPromptForm_to_command form), a\<lparr>ap_overlay := OverlayNone\<rparr>))
         else if pressed code ''aA'' then edit (form\<lparr>pf_verdict := AvAllow\<rparr>)
         else if pressed code ''dD'' then edit (form\<lparr>pf_verdict := AvDeny\<rparr>)
         else if code = KLeft \<or> code = KRight then edit (form\<lparr>pf_verdict := AnswerVerdict_toggle (pf_verdict form)\<rparr>)
         else if code = KTab then edit (form\<lparr>pf_scope := AnswerScope_next (pf_scope form)\<rparr>)
         else if code = KBackTab then edit (form\<lparr>pf_scope := AnswerScope_prev (pf_scope form)\<rparr>)
         else (ActNone, a))"

definition handle_key :: "key_code \<Rightarrow> app \<Rightarrow> key_action \<times> app" where
  "handle_key code a =
     (case ap_overlay a of
        OverlayNone \<Rightarrow> handle_root_key code a
      | OverlayNotice _ \<Rightarrow>
          (ActNone, if code = KEsc \<or> code = KEnter \<or> pressed code ''q'' then a\<lparr>ap_overlay := OverlayNone\<rparr> else a)
      | OverlayAddRule form \<Rightarrow> handle_add_overlay_key form code a
      | OverlayAnswerPrompt form \<Rightarrow> handle_answer_overlay_key form code a
      | OverlayTraffic form \<Rightarrow> handle_traffic_overlay_key form code a)"

end
