(* ===== verification/TuiView.thy ===== *)
theory TuiView
  imports TuiApp
begin

text \<open>
  What the terminal client shows (\<open>interfire-tui/src/app.rs\<close>): the visible part of the current list,
  the lines of the detail pane and the footer. The widgets that show them are in \<open>TuiDraw\<close>.
\<close>

section \<open>Lists\<close>

definition visible_audit_window :: "usize \<Rightarrow> app \<Rightarrow> visible_list" where
  "visible_audit_window viewport_rows a =
     (let filtered = filtered_audit a; total = length filtered
      in if total = 0 then \<lparr>vl_relative_selected = 0, vl_items = [], vl_start = 0, vl_total = 0\<rparr>
         else
           let height = max viewport_rows 1;
               selected = min (ap_list_selected a) (total - 1);
               start = (if total \<le> height then 0
                        else let half = height div 2 in min (selected - half) (total - height));
               end_row = min (start + height) total
           in \<lparr>vl_relative_selected = selected - start, vl_items = take (end_row - start) (drop start filtered),
               vl_start = start, vl_total = total\<rparr>)"

definition visible_list_of :: "usize \<Rightarrow> app \<Rightarrow> visible_list" where
  "visible_list_of viewport_rows a =
     (case ap_tab a of
        TabEvents \<Rightarrow> visible_audit_window viewport_rows a
      | TabApps \<Rightarrow> \<lparr>vl_relative_selected = ap_list_selected a, vl_items = map ProcessRow_list_label (ap_processes a),
          vl_start = 0, vl_total = length (ap_processes a)\<rparr>
      | TabRules \<Rightarrow> \<lparr>vl_relative_selected = ap_list_selected a, vl_items = map RuleRow_list_label (ap_rules a),
          vl_start = 0, vl_total = length (ap_rules a)\<rparr>
      | TabPrompts \<Rightarrow> \<lparr>vl_relative_selected = ap_list_selected a, vl_items = map PromptRow_list_label (ap_prompts a),
          vl_start = 0, vl_total = length (ap_prompts a)\<rparr>
      | _ \<Rightarrow> \<lparr>vl_relative_selected = 0, vl_items = [], vl_start = 0, vl_total = 0\<rparr>)"

section \<open>Details\<close>

definition process_detail_lines :: "app \<Rightarrow> string list" where
  "process_detail_lines a =
     (case field_of (ap_list_selected a) (ap_processes a) of
        None \<Rightarrow> [''no observed processes yet'', ''outbound connects fill this list'']
      | Some row \<Rightarrow>
          [''executable: '' @ pr_executable row, ''cmdline: '' @ pr_cmdline row,
           ''pid: '' @ show_word (pr_pid row) @ ''  start_ticks: '' @ show_word (pr_start_ticks row) @
             ''  uid: '' @ show_word (pr_uid row),
           ''effective rule: '' @ pr_verdict row, [], ''recent destinations:''] @
          (if pr_ports row = [] then [''  (none)'']
           else map (\<lambda>dest. ''  '' @ dest) (split_on CHR ''+'' (pr_ports row))))"

definition rule_detail_lines :: "app \<Rightarrow> string list" where
  "rule_detail_lines a =
     (case field_of (ap_list_selected a) (ap_rules a) of
        None \<Rightarrow> [''no rules loaded'', ''a add '' @ MIDDOT @ '' r refresh'']
      | Some rule \<Rightarrow>
          [''id: '' @ show_word (rr_id rule), ''executable: '' @ rr_executable rule, ''verdict: '' @ rr_verdict rule,
           ''port: '' @ show_word (rr_port rule), [],
           ''a add '' @ MIDDOT @ '' d delete '' @ MIDDOT @ '' r refresh''])"

definition prompt_detail_lines :: "app \<Rightarrow> string list" where
  "prompt_detail_lines a =
     (case field_of (ap_list_selected a) (ap_prompts a) of
        None \<Rightarrow> [''no pending prompts'', ''r refresh'']
      | Some prompt \<Rightarrow>
          [''id: '' @ show_word (pw_id prompt), ''path: '' @ pw_executable prompt,
           ''dest: '' @ pw_destination prompt @ '':'' @ show_word (pw_port prompt) @ '' ('' @ pw_protocol prompt @ '')'',
           ''remaining: '' @ show_word (pw_remaining_secs prompt) @ ''s'', [],
           if PromptRow_can_answer prompt then ''a/Enter answer '' @ MIDDOT @ '' r refresh''
           else ''expired/stale '' @ MIDDOT @ '' answer disabled''])"

definition status_detail_lines :: "app \<Rightarrow> string list" where
  "status_detail_lines a =
     (case ap_link a of
        LinkConnecting \<Rightarrow> [''ipc waiting  socket='' @ ap_socket a, ''waiting for daemon'' @ ELLIPSIS]
      | LinkDown detail \<Rightarrow> [''daemon unavailable'', ''socket='' @ ap_socket a, detail]
      | LinkUp status \<Rightarrow>
          [''enforcement='' @ ds_enforcement status @ ''  observation='' @ ds_observation status @
             ''  ipc_version='' @ show_word (ds_ipc_version status),
           ''traffic='' @ ds_traffic status @ ''  machine='' @ ds_traffic_machine status @
             ''  user='' @ ds_traffic_user status @ ''  effective='' @ ds_traffic_effective status,
           ''socket='' @ ap_socket a,
           if ap_subscribed a then ''audit subscribe: ready (id=interfire-tui)''
           else ''audit subscribe: connecting'' @ ELLIPSIS,
           ''Traffic: t overlay '' @ MIDDOT @ '' b/B/u shortcuts '' @ MIDDOT @ '' machine via pkexec CLI''])"

definition help_lines :: "string list" where
  "help_lines =
     [''Tabs: Left/Right or 1..6  (Status Apps Rules Prompts Events Help)'',
      ''Panes: h list '' @ MIDDOT @ '' l detail  (Apps / Rules / Prompts / Events)'',
      ''List: j/k or Up/Down'',
      ''Events: f cycles All/Allow/Deny/Prompt '' @ MIDDOT @ '' c clears filter '' @ MIDDOT @ '' capped 2000'',
      ''Apps: observed firewall identities (path, pid+start ticks, ports)'',
      ''Rules: a add '' @ MIDDOT @ '' d delete '' @ MIDDOT @ '' r refresh'',
      ''Prompts: a/Enter answer '' @ MIDDOT @ '' r refresh'',
      ''Traffic (Status): t overlay '' @ MIDDOT @ '' b user out '' @ MIDDOT @ '' B user all '' @ MIDDOT @ '' u user unblock'',
      ''Traffic overlay: Tab scope '' @ MIDDOT @ '' Left/Right direction '' @ MIDDOT @ '' b/u action '' @ MIDDOT @ '' Enter'',
      ''Machine traffic: pkexec interfirectl '' @ ELLIPSIS @ '' (TUI does not elevate)'',
      ''Answer overlay: a/d verdict '' @ MIDDOT @ '' Tab scope '' @ MIDDOT @ '' Enter submit '' @ MIDDOT @ '' Esc cancel'',
      ''Add overlay: Tab fields '' @ MIDDOT @ '' Enter submit '' @ MIDDOT @ '' Esc cancel'',
      ''Overlay: ? opens '' @ MIDDOT @ '' Esc dismisses (Esc never quits root)'',
      ''Quit: q'']"

definition detail_lines :: "app \<Rightarrow> string list" where
  "detail_lines a =
     (case ap_tab a of
        TabStatus \<Rightarrow> status_detail_lines a
      | TabApps \<Rightarrow> process_detail_lines a
      | TabRules \<Rightarrow> rule_detail_lines a
      | TabPrompts \<Rightarrow> prompt_detail_lines a
      | TabEvents \<Rightarrow>
          (case field_of (ap_list_selected a) (ap_audit a) of
             None \<Rightarrow> [''no audit frame selected''] | Some line \<Rightarrow> [line])
      | TabHelp \<Rightarrow> help_lines)"

section \<open>Footer\<close>

text \<open>\<open>Vec::insert\<close> at an index that is within the list.\<close>

definition vec_insert :: "nat \<Rightarrow> 'a \<Rightarrow> 'a list \<Rightarrow> 'a list" where
  "vec_insert n x xs = take n xs @ x # drop n xs"

definition footer_hints :: "app \<Rightarrow> string" where
  "footer_hints a =
     (case ap_overlay a of
        OverlayAddRule _ \<Rightarrow> ''Tab fields  Enter submit  Esc cancel''
      | OverlayAnswerPrompt _ \<Rightarrow> ''a/d verdict  Tab scope  Enter submit  Esc cancel''
      | OverlayTraffic _ \<Rightarrow> ''Tab scope  Left/Right direction  b/u action  Enter  Esc''
      | OverlayNotice _ \<Rightarrow> ''Esc dismiss overlay''
      | OverlayNone \<Rightarrow>
          let parts = [chrome_title a @ '' '' @ MIDDOT @ '' '' @ Tab_label (ap_tab a), ''1-6 tabs'', ''q quit''];
              parts = (if Tab_has_split (ap_tab a) then vec_insert 2 ''j/k list'' (vec_insert 1 ''h/l panes'' parts) else parts);
              parts = (if ap_tab a = TabStatus then vec_insert 1 ''t traffic'' parts else parts);
              parts = (if ap_tab a = TabRules then vec_insert 1 ''a/d/r rules'' parts else parts);
              parts = (if ap_tab a = TabPrompts then vec_insert 1 ''a/r prompts'' parts else parts);
              parts = (if ap_tab a = TabEvents then vec_insert 2 ''c clear'' (vec_insert 1 ''f filter'' parts) else parts);
              parts = (case ap_status_message a of Some message \<Rightarrow> parts @ [message] | None \<Rightarrow> parts)
          in join (''  '' @ VBAR @ ''  '') parts)"

end
