(* ===== verification/TuiMain.thy ===== *)
theory TuiMain
  imports TuiView Fifo
begin

text \<open>
  The terminal client's event loop (\<open>interfire-tui/src/main.rs\<close>) and what holds in every run of it.
  Terminal set-up and drawing are in \<open>TuiDraw\<close>; \<open>tokio::select!\<close> picks one ready branch per turn, so
  a run is the list of what its turns received.
\<close>

section \<open>Arguments\<close>

datatype palette_mode = Dark | Light

definition Mode_parse :: "string \<Rightarrow> palette_mode option" where
  "Mode_parse value = (if value = ''dark'' then Some Dark else if value = ''light'' then Some Light else None)"

definition tui_argument :: "string \<Rightarrow> string \<times> palette_mode \<Rightarrow> string \<times> palette_mode" where
  "tui_argument argument = (\<lambda>(socket, theme_mode).
     case strip_prefix ''--socket='' argument of
       Some value \<Rightarrow> (value, theme_mode)
     | None \<Rightarrow>
         (case Option.bind (strip_prefix ''--theme='' argument) Mode_parse of
            Some mode \<Rightarrow> (socket, mode)
          | None \<Rightarrow> (socket, theme_mode)))"

definition tui_parse_args :: "string list \<Rightarrow> string \<times> palette_mode" where
  "tui_parse_args args = fold tui_argument args (DEFAULT_SOCKET_PATH, Dark)"

section \<open>The loop\<close>

datatype turn =
    TurnKey key_code
  | TurnOtherEvent
  | TurnError string
  | TurnEnd
  | TurnIpc ipc_event
  | TurnTick

text \<open>
  The commands sent to the worker, the state, and the loop's result once it has returned. A failed
  drawing ends the loop with its error before the turn, as \<open>TurnError\<close> does.
\<close>

fun run_loop :: "turn list \<Rightarrow> app \<Rightarrow> ipc_command list \<times> app \<times> (string + unit) option" where
  "run_loop [] a = ([], a, None)"
| "run_loop (TurnKey code # turns) a =
     (case handle_key code a of
        (ActQuit, a) \<Rightarrow> ([], a, Some (Inr ()))
      | (ActCommand command, a) \<Rightarrow> (let (cmds, r) = run_loop turns a in (command # cmds, r))
      | (ActNone, a) \<Rightarrow> run_loop turns a)"
| "run_loop (TurnOtherEvent # turns) a = run_loop turns a"
| "run_loop (TurnError e # turns) a = ([], a, Some (Inl e))"
| "run_loop (TurnEnd # turns) a = ([], a, Some (Inr ()))"
| "run_loop (TurnIpc event # turns) a = run_loop turns (App_apply event a)"
| "run_loop (TurnTick # turns) a = run_loop turns a"

definition tui_run :: "string \<Rightarrow> turn list \<Rightarrow> ipc_command list \<times> app \<times> (string + unit) option" where
  "tui_run socket turns = run_loop turns (App_new socket)"

section \<open>Invariant\<close>

definition selection_ok :: "app \<Rightarrow> bool" where
  "selection_ok a \<longleftrightarrow> ap_list_selected a < list_len a \<or> list_len a = 0 \<and> ap_list_selected a = 0"

text \<open>
  The audit view is capped, the selection is a row of the current list, and an open answer form holds
  a prompt that could be answered when the form was opened.
\<close>

definition answerable :: "overlay \<Rightarrow> bool" where
  "answerable ov \<longleftrightarrow> (case ov of OverlayAnswerPrompt form \<Rightarrow> PromptRow_can_answer (pf_prompt form) | _ \<Rightarrow> True)"

definition app_wf :: "app \<Rightarrow> bool" where
  "app_wf a \<longleftrightarrow> length (ap_audit a) \<le> MAX_AUDIT_LINES \<and> selection_ok a \<and> answerable (ap_overlay a)"

lemma app_wfI [wf_intros]:
  "length (ap_audit a) \<le> MAX_AUDIT_LINES \<Longrightarrow> selection_ok a \<Longrightarrow> answerable (ap_overlay a) \<Longrightarrow> app_wf a"
  by (simp add: app_wf_def)

text \<open>Changes that touch neither the lists nor the selection.\<close>

lemma list_len_cong:
  "ap_tab a = ap_tab b \<Longrightarrow> ap_audit a = ap_audit b \<Longrightarrow> ap_events_filter a = ap_events_filter b \<Longrightarrow>
   ap_processes a = ap_processes b \<Longrightarrow> ap_rules a = ap_rules b \<Longrightarrow> ap_prompts a = ap_prompts b \<Longrightarrow> list_len a = list_len b"
  by (simp add: list_len_def filtered_audit_def split: tab.split)

lemma list_len_other [simp]:
  "list_len (a\<lparr>ap_list_selected := n\<rparr>) = list_len a" "list_len (a\<lparr>ap_overlay := ov\<rparr>) = list_len a"
  "list_len (a\<lparr>ap_status_message := m\<rparr>) = list_len a" "list_len (a\<lparr>ap_link := l\<rparr>) = list_len a"
  "list_len (a\<lparr>ap_subscribed := s\<rparr>) = list_len a" "list_len (a\<lparr>ap_stats_summary := t\<rparr>) = list_len a"
  "list_len (a\<lparr>ap_pane := p\<rparr>) = list_len a"
  by (rule list_len_cong; simp)+

lemma clamp_fields [simp]:
  "ap_audit (clamp_selection a) = ap_audit a" "ap_overlay (clamp_selection a) = ap_overlay a"
  "ap_tab (clamp_selection a) = ap_tab a" "ap_events_filter (clamp_selection a) = ap_events_filter a"
  "list_len (clamp_selection a) = list_len a"
  by (simp_all add: clamp_selection_def Let_def)

lemma clamp_selection_ok [simp]: "selection_ok (clamp_selection a)"
  unfolding selection_ok_def clamp_fields by (simp add: clamp_selection_def Let_def)

lemma clamp_wf: "length (ap_audit a) \<le> MAX_AUDIT_LINES \<Longrightarrow> answerable (ap_overlay a) \<Longrightarrow> app_wf (clamp_selection a)"
  by (auto intro: wf_intros)

lemma app_wf_overlay: "app_wf a \<Longrightarrow> answerable ov \<Longrightarrow> app_wf (a\<lparr>ap_overlay := ov\<rparr>)"
  by (auto simp: app_wf_def selection_ok_def)

lemma app_wf_other:
  assumes "app_wf a"
  shows "app_wf (a\<lparr>ap_status_message := m\<rparr>)" "app_wf (a\<lparr>ap_link := l\<rparr>)" "app_wf (a\<lparr>ap_subscribed := s\<rparr>)"
    "app_wf (a\<lparr>ap_stats_summary := t\<rparr>)" "app_wf (a\<lparr>ap_pane := p\<rparr>)"
  using assms by (simp_all add: app_wf_def selection_ok_def)

lemma set_tab_wf: "app_wf a \<Longrightarrow> app_wf (set_tab t a)"
  unfolding set_tab_def by (rule clamp_wf) (simp_all add: app_wf_def)

lemma move_list_wf: "app_wf a \<Longrightarrow> app_wf (move_list delta a)"
proof (cases "list_len a = 0")
  case False
  let ?m = "if list_len a < 2 ^ 63 then int (list_len a) else 1"
  have "nat (x mod ?m) < list_len a" for x
    using False pos_mod_bound [of ?m x] pos_mod_sign [of ?m x] by (auto simp: nat_less_iff)
  then show "app_wf a \<Longrightarrow> ?thesis"
    using False by (simp add: app_wf_def selection_ok_def move_list_def Let_def)
next
  case True
  then show "app_wf a \<Longrightarrow> ?thesis"
    by (simp add: app_wf_def selection_ok_def move_list_def)
qed

lemma filter_key_wf: "app_wf a \<Longrightarrow> app_wf (snd (handle_events_filter_key code a))"
  by (auto simp: handle_events_filter_key_def app_wf_def selection_ok_def list_len_def Let_def split: tab.splits)

lemma push_audit_line_wf: "app_wf a \<Longrightarrow> app_wf (push_audit_line line a)"
  unfolding push_audit_line_def Let_def
  by (rule clamp_wf) (auto simp: app_wf_def MAX_AUDIT_LINES_def MAX_LOG_RECORDS_PER_SUBSCRIBER_def)

lemma App_apply_wf: "app_wf a \<Longrightarrow> app_wf (App_apply e a)"
proof (induction e a rule: App_apply.induct)
  case (10 message a)
  then show ?case
    by (auto simp: answerable_def intro!: app_wf_other(1) app_wf_overlay)
qed (auto simp: app_wf_other push_audit_line_wf intro!: clamp_wf, auto simp: app_wf_def)

lemma key_if:
  "(c \<Longrightarrow> app_wf (snd x)) \<Longrightarrow> (\<not> c \<Longrightarrow> app_wf (snd y)) \<Longrightarrow> app_wf (snd (if c then x else y))"
  by simp

lemma open_answer_wf: "app_wf a \<Longrightarrow> app_wf (snd (open_answer_overlay a))"
  by (auto simp: open_answer_overlay_def AnswerPromptForm_new_def answerable_def
      intro!: app_wf_overlay split: option.split)

lemmas key_wf = app_wf_overlay app_wf_other set_tab_wf move_list_wf filter_key_wf open_answer_wf

lemma root_key_wf: "app_wf a \<Longrightarrow> app_wf (snd (handle_root_key code a))"
  unfolding handle_root_key_def
  by (intro key_if; simp add: key_wf answerable_def next_tab_def prev_tab_def Let_def)

lemma traffic_key_wf: "app_wf a \<Longrightarrow> app_wf (snd (handle_traffic_overlay_key form code a))"
  unfolding handle_traffic_overlay_key_def Let_def
  by (intro key_if; simp add: key_wf answerable_def split: sum.split)

lemma add_key_wf: "app_wf a \<Longrightarrow> app_wf (snd (handle_add_overlay_key form code a))"
  by (cases code; simp add: handle_add_overlay_key_def key_wf answerable_def Let_def split: sum.split)

lemma answer_key_wf:
  "app_wf a \<Longrightarrow> PromptRow_can_answer (pf_prompt form) \<Longrightarrow> app_wf (snd (handle_answer_overlay_key form code a))"
  unfolding handle_answer_overlay_key_def Let_def
  by (intro key_if; simp add: key_wf answerable_def)

lemma app_wf_answer: "app_wf a \<Longrightarrow> ap_overlay a = OverlayAnswerPrompt form \<Longrightarrow> PromptRow_can_answer (pf_prompt form)"
  by (simp add: app_wf_def answerable_def)

lemma handle_key_wf: "app_wf a \<Longrightarrow> app_wf (snd (handle_key code a))"
  by (cases "ap_overlay a")
    (auto simp: handle_key_def root_key_wf traffic_key_wf add_key_wf answer_key_wf app_wf_answer answerable_def
      intro!: app_wf_overlay)

text \<open>The user interface as a machine over keys and events, bounded like the daemon's tables.\<close>

datatype app_input = InKey key_code | InEvent ipc_event

fun app_step :: "app_input \<Rightarrow> app \<Rightarrow> app" where
  "app_step (InKey code) a = snd (handle_key code a)"
| "app_step (InEvent e) a = App_apply e a"

interpretation tui: bounded_machine app_step app_wf "\<lambda>_. MAX_AUDIT_LINES" "\<lambda>a. length (ap_audit a)"
proof (unfold_locales, goal_cases)
  case (1 a x)
  then show ?case by (cases x) (simp_all add: handle_key_wf App_apply_wf)
qed (simp_all add: app_wf_def)

lemma App_new_wf: "app_wf (App_new socket)"
  by (simp add: App_new_def app_wf_def selection_ok_def list_len_def answerable_def)

text \<open>A run of the loop applies the inputs of its turns, up to the turn that ended it.\<close>

fun turn_input :: "turn \<Rightarrow> app_input list" where
  "turn_input (TurnKey code) = [InKey code]"
| "turn_input (TurnIpc e) = [InEvent e]"
| "turn_input t = []"

lemma run_loop_fold: "\<exists>n. fst (snd (run_loop turns a)) = fold app_step (concat (map turn_input (take n turns))) a"
proof (induction turns a rule: run_loop.induct)
  case (2 code turns a)
  obtain act a' where k: "handle_key code a = (act, a')" by fastforce
  show ?case
  proof (cases act)
    case ActQuit
    then show ?thesis by (intro exI [of _ 1]) (simp add: k)
  next
    case ActNone
    then obtain n where "fst (snd (run_loop turns a')) = fold app_step (concat (map turn_input (take n turns))) a'"
      using 2 k by auto
    then show ?thesis using ActNone by (intro exI [of _ "Suc n"]) (simp add: k)
  next
    case (ActCommand c)
    then obtain n where "fst (snd (run_loop turns a')) = fold app_step (concat (map turn_input (take n turns))) a'"
      using 2 k by auto
    then show ?thesis using ActCommand by (intro exI [of _ "Suc n"]) (simp add: k case_prod_unfold Let_def)
  qed
next
  case (3 turns a)
  then obtain n where "fst (snd (run_loop turns a)) = fold app_step (concat (map turn_input (take n turns))) a" by blast
  then show ?case by (intro exI [of _ "Suc n"]) simp
next
  case (6 e turns a)
  then obtain n where "fst (snd (run_loop turns (App_apply e a))) =
      fold app_step (concat (map turn_input (take n turns))) (App_apply e a)" by blast
  then show ?case by (intro exI [of _ "Suc n"]) simp
next
  case (7 turns a)
  then obtain n where "fst (snd (run_loop turns a)) = fold app_step (concat (map turn_input (take n turns))) a" by blast
  then show ?case by (intro exI [of _ "Suc n"]) simp
qed (simp_all add: exI [of _ 0])

text \<open>
  C30: the terminal client's state stays consistent. Whatever keys are pressed and whatever the daemon
  sends, in any order, the audit view holds at most 2000 lines, the selection is a row of the list
  shown (or nothing when the list is empty), and an open answer form refers to a prompt that was
  answerable.
\<close>

theorem tui_state_invariant:
  "app_wf (fst (snd (tui_run socket turns)))"
  using run_loop_fold [of turns "App_new socket"] tui.run_wf [OF App_new_wf] by (auto simp: tui_run_def)

section \<open>Commands\<close>

text \<open>What the client may ask of the daemon on the operator's behalf, without raised privileges.\<close>

fun unprivileged :: "ipc_command \<Rightarrow> bool" where
  "unprivileged (AddRule i executable verdict port) \<longleftrightarrow>
     starts_with ''/'' executable \<and> verdict \<in> {''allow'', ''deny'', ''prompt''}"
| "unprivileged c \<longleftrightarrow> command_ok c"

lemma to_command_unprivileged:
  "AddRuleForm_to_command form = Inr c \<Longrightarrow> unprivileged c"
  "TrafficForm_to_command tform = Inr c \<Longrightarrow> unprivileged c"
  "unprivileged (AnswerPromptForm_to_command pform)"
proof -
  show "AddRuleForm_to_command form = Inr c \<Longrightarrow> unprivileged c"
    by (auto simp: AddRuleForm_to_command_def Let_def split: if_splits)
  show "TrafficForm_to_command tform = Inr c \<Longrightarrow> unprivileged c"
    by (cases "tf_scope tform"; cases "tf_direction tform"; cases "tf_action tform")
      (auto simp: TrafficForm_to_command_def)
  show "unprivileged (AnswerPromptForm_to_command pform)"
    by (cases "pf_verdict pform"; cases "pf_scope pform") (auto simp: AnswerPromptForm_to_command_def)
qed

lemma fst_if: "(c \<Longrightarrow> fst x = ActCommand k \<Longrightarrow> unprivileged k) \<Longrightarrow> (\<not> c \<Longrightarrow> fst y = ActCommand k \<Longrightarrow> unprivileged k) \<Longrightarrow>
    fst (if c then x else y) = ActCommand k \<Longrightarrow> unprivileged k"
  by (simp split: if_splits)

lemma root_key_commands: "fst (handle_root_key code a) = ActCommand c \<Longrightarrow> unprivileged c"
  unfolding handle_root_key_def
  by (elim fst_if [rotated 2]; auto simp: delete_selected_rule_def open_answer_overlay_def
      handle_events_filter_key_def split: option.splits if_splits)

lemma handle_key_commands: "fst (handle_key code a) = ActCommand c \<Longrightarrow> unprivileged c"
proof (cases "ap_overlay a")
  case OverlayNone
  then show "fst (handle_key code a) = ActCommand c \<Longrightarrow> ?thesis"
    by (auto simp: handle_key_def dest: root_key_commands)
next
  case (OverlayAddRule form)
  then show "fst (handle_key code a) = ActCommand c \<Longrightarrow> ?thesis"
    by (cases code) (auto simp: handle_key_def handle_add_overlay_key_def Let_def
        split: sum.splits if_splits dest: to_command_unprivileged(1))
next
  case (OverlayAnswerPrompt form)
  then show "fst (handle_key code a) = ActCommand c \<Longrightarrow> ?thesis"
    using to_command_unprivileged(3)
    by (auto simp: handle_key_def handle_answer_overlay_key_def Let_def split: if_splits)
next
  case (OverlayTraffic form)
  then show "fst (handle_key code a) = ActCommand c \<Longrightarrow> ?thesis"
    by (auto simp: handle_key_def handle_traffic_overlay_key_def Let_def
        split: sum.splits if_splits dest: to_command_unprivileged(2))
qed (simp add: handle_key_def)

lemma run_loop_commands: "c \<in> set (fst (run_loop turns a)) \<Longrightarrow> unprivileged c"
proof (induction turns a rule: run_loop.induct)
  case (2 code turns a)
  obtain act a' where k: "handle_key code a = (act, a')" by fastforce
  with 2 handle_key_commands [of code a] show ?case
    by (cases act) (auto simp: case_prod_unfold Let_def)
qed simp_all

lemma unprivileged_ok:
  "unprivileged c \<Longrightarrow> (\<And>i x v p. c = AddRule i x v p \<Longrightarrow> clean_word x) \<Longrightarrow> command_ok c"
  by (cases c) auto


section \<open>What is shown\<close>

lemma window_start:
  fixes h half sel len :: nat
  shows "half < h \<Longrightarrow> sel < len \<Longrightarrow> sel - (if len \<le> h then 0 else min (sel - half) (len - h)) < h"
  by (cases "len \<le> h"; cases "sel - half \<le> len - h") simp_all

lemma window_shows:
  assumes "start \<le> sel" "sel - start < h" "sel < length f"
  defines "items \<equiv> take (min (start + h) (length f) - start) (drop start f)"
  shows "sel - start < length items" "items ! (sel - start) = f ! sel"
    "take (length items) (drop start f) = items" "length items \<le> h"
  using assms(1-3) unfolding items_def by (simp_all add: min_def, arith+)

text \<open>
  The event list always shows the selected line. For every viewport height, the visible window is
  a contiguous part of the filtered audit lines, no longer than the viewport, and the highlighted
  row in it is the selected line.
\<close>

theorem tui_window_shows_selection:
  assumes "app_wf a" "ap_tab a = TabEvents" "filtered_audit a \<noteq> []"
  shows "let v = visible_list_of rows a in
    vl_relative_selected v < length (vl_items v) \<and>
    vl_items v ! vl_relative_selected v = filtered_audit a ! ap_list_selected a \<and>
    vl_items v = take (length (vl_items v)) (drop (vl_start v) (filtered_audit a)) \<and>
    length (vl_items v) \<le> max rows 1 \<and> vl_total v = length (filtered_audit a)"
proof -
  define f h sel where "f = filtered_audit a" and "h = max rows 1" and "sel = ap_list_selected a"
  define start where "start = (if length f \<le> h then 0 else min (sel - h div 2) (length f - h))"
  have sel: "sel < length f" using assms by (auto simp: app_wf_def selection_ok_def list_len_def f_def sel_def)
  have h: "0 < h" "h div 2 < h" by (simp_all add: h_def)
  have "start \<le> sel" unfolding start_def by auto
  moreover have "sel - start < h" unfolding start_def by (rule window_start [OF h(2) sel])
  moreover have "visible_list_of rows a = \<lparr>vl_relative_selected = sel - start,
      vl_items = take (min (start + h) (length f) - start) (drop start f), vl_start = start, vl_total = length f\<rparr>"
    using assms(2,3) sel
    by (simp add: visible_list_of_def visible_audit_window_def Let_def min_absorb1 f_def h_def sel_def start_def)
  ultimately show ?thesis
    using window_shows [of start sel h f] sel
    unfolding f_def [symmetric] h_def [symmetric] sel_def [symmetric] by simp
qed

text \<open>The detail pane of the event list reads the unfiltered lines, so under a filter it can show another line.\<close>

lemma events_detail_ignores_filter:
  assumes "ap_tab a = TabEvents" "ap_list_selected a < length (ap_audit a)"
  shows "detail_lines a = [ap_audit a ! ap_list_selected a]"
  using assms by (simp add: detail_lines_def field_of_def)

text \<open>
  Under a filter the detail pane can belong to another event than the highlighted row. There is
  a run in which the row highlighted in the event list and the line in the detail pane differ.
\<close>

definition mismatch_turns :: "turn list" where
  "mismatch_turns =
     [TurnIpc (EvAudit \<lparr>asr_sequence = 1, asr_message = ''outcome=allow''\<rparr>),
      TurnIpc (EvAudit \<lparr>asr_sequence = 2, asr_message = ''outcome=deny''\<rparr>), TurnKey (KChar (of_char CHR ''5'')),
      TurnKey (KChar (of_char CHR ''f'')), TurnKey (KChar (of_char CHR ''f''))]"

theorem tui_detail_mismatch:
  "let a = fst (snd (tui_run ''sock'' mismatch_turns)) in
     vl_items (visible_list_of 10 a) ! vl_relative_selected (visible_list_of 10 a) = ''2|outcome=deny'' \<and>
     detail_lines a = [''1|outcome=allow'']"
  by code_simp

text \<open>
  An open answer form never notices that its prompt has expired. In every reachable state,
  pressing Enter in the form sends the answer, whatever prompt list arrived in the meantime.
\<close>

theorem tui_answer_ignores_expiry:
  assumes "app_wf a" "ap_overlay a = OverlayAnswerPrompt form"
  shows "handle_key KEnter (App_apply (EvPrompts prompts) a) =
    (ActCommand (AnswerPromptForm_to_command form), (App_apply (EvPrompts prompts) a)\<lparr>ap_overlay := OverlayNone\<rparr>)"
  using app_wf_answer [OF assms] assms(2) by (simp add: handle_key_def handle_answer_overlay_key_def Let_def)

section \<open>Witnesses\<close>

definition prompt_row_demo :: prompt_row where
  "prompt_row_demo = \<lparr>pw_id = 4, pw_executable = ''/bin/x'', pw_destination = ''1.2.3.4'', pw_port = 443,
     pw_protocol = ''tcp'', pw_remaining_secs = 9\<rparr>"

definition app_events_demo :: app where
  "app_events_demo = (App_new ''s'')\<lparr>ap_audit := [''1|a'', ''2|b'', ''3|c''], ap_tab := TabEvents, ap_list_selected := 2\<rparr>"

definition app_answer_demo :: app where
  "app_answer_demo = (App_new ''s'')\<lparr>ap_overlay := OverlayAnswerPrompt (AnswerPromptForm_new prompt_row_demo)\<rparr>"

lemma app_demo_wf: "app_wf app_events_demo" "app_wf app_answer_demo"
  by (simp_all add: app_events_demo_def app_answer_demo_def App_new_def app_wf_def selection_ok_def list_len_def
      filtered_audit_def answerable_def AnswerPromptForm_new_def prompt_row_demo_def PromptRow_can_answer_def
      MAX_AUDIT_LINES_def MAX_LOG_RECORDS_PER_SUBSCRIBER_def)


theorem tui_window_shows_selection_witness:
  "let v = visible_list_of 2 app_events_demo in vl_items v ! vl_relative_selected v = ''3|c''"
proof -
  have "filtered_audit app_events_demo = [''1|a'', ''2|b'', ''3|c'']" "ap_list_selected app_events_demo = 2"
    by (simp_all add: app_events_demo_def App_new_def filtered_audit_def)
  moreover have "ap_tab app_events_demo = TabEvents" by (simp add: app_events_demo_def)
  ultimately show ?thesis
    using tui_window_shows_selection [OF app_demo_wf(1), of 2] by (simp add: Let_def)
qed

theorem tui_answer_ignores_expiry_witness:
  "fst (handle_key KEnter (App_apply (EvPrompts []) app_answer_demo)) = ActCommand (AnswerPrompt 4 ''deny'' ''once'')"
proof -
  have "ap_overlay app_answer_demo = OverlayAnswerPrompt (AnswerPromptForm_new prompt_row_demo)"
    by (simp add: app_answer_demo_def)
  from tui_answer_ignores_expiry [OF app_demo_wf(2) this] show ?thesis
    by (simp add: AnswerPromptForm_to_command_def AnswerPromptForm_new_def prompt_row_demo_def)
qed

end
