(* ===== verification/UiState.thy ===== *)
theory UiState
  imports ProtoRows RustChar Fifo
begin

text \<open>
  The parts of the desktop client that do not draw (\<open>ui/src\<close>): the list filter (\<open>filter.rs\<close>), the
  sections (\<open>section.rs\<close>), the audit buffer (\<open>log_buf.rs\<close>), the connection alert (\<open>alert.rs\<close>), the
  add-rule form (\<open>rules.rs\<close>), the tray (\<open>tray.rs\<close>, \<open>tray_host.rs\<close>, \<open>confirm_queue.rs\<close>), and the text and
  counts the views compute (\<open>stats_view.rs\<close>, \<open>network_view.rs\<close>, \<open>shell_chrome.rs\<close>).
\<close>

section \<open>Filter\<close>

definition FILTER_HARD_CAP :: usize where
  "FILTER_HARD_CAP = 2000"

datatype verdict_filter = VfAll | VfAllow | VfDeny | VfPrompt

fun VerdictFilter_label :: "verdict_filter \<Rightarrow> string" where
  "VerdictFilter_label VfAll = ''All''"
| "VerdictFilter_label VfAllow = ''Allow''"
| "VerdictFilter_label VfDeny = ''Deny''"
| "VerdictFilter_label VfPrompt = ''Prompt''"

definition eq_ignore_ascii_case :: "string \<Rightarrow> string \<Rightarrow> bool" where
  "eq_ignore_ascii_case a b \<longleftrightarrow> to_ascii_lowercase a = to_ascii_lowercase b"

fun VerdictFilter_matches :: "verdict_filter \<Rightarrow> string \<Rightarrow> bool" where
  "VerdictFilter_matches VfAll verdict \<longleftrightarrow> True"
| "VerdictFilter_matches VfAllow verdict \<longleftrightarrow> eq_ignore_ascii_case verdict ''allow''"
| "VerdictFilter_matches VfDeny verdict \<longleftrightarrow> eq_ignore_ascii_case verdict ''deny''"
| "VerdictFilter_matches VfPrompt verdict \<longleftrightarrow> eq_ignore_ascii_case verdict ''prompt''"

datatype result_limit = LimitPreset usize | LimitAll | LimitCustom usize

definition ResultLimit_default :: result_limit where
  "ResultLimit_default = LimitPreset 100"

fun ResultLimit_effective :: "result_limit \<Rightarrow> usize" where
  "ResultLimit_effective (LimitPreset n) = min n FILTER_HARD_CAP"
| "ResultLimit_effective (LimitCustom n) = min n FILTER_HARD_CAP"
| "ResultLimit_effective LimitAll = FILTER_HARD_CAP"

fun ResultLimit_label :: "result_limit \<Rightarrow> string" where
  "ResultLimit_label (LimitPreset n) = show_nat n"
| "ResultLimit_label LimitAll = ''All''"
| "ResultLimit_label (LimitCustom n) = ''Custom('' @ show_nat n @ '')''"

record list_filter =
  lf_text :: string
  lf_verdict :: verdict_filter
  lf_limit :: result_limit

definition ListFilter_default :: list_filter where
  "ListFilter_default = \<lparr>lf_text = [], lf_verdict = VfAll, lf_limit = ResultLimit_default\<rparr>"

definition ListFilter_clear :: "list_filter \<Rightarrow> list_filter" where
  "ListFilter_clear f = ListFilter_default"

definition text_matches :: "list_filter \<Rightarrow> string \<Rightarrow> bool" where
  "text_matches f haystack \<longleftrightarrow>
     (if lf_text f = [] then True
      else contains_str (to_ascii_lowercase (lf_text f)) (to_ascii_lowercase haystack))"

definition apply_rows :: "list_filter \<Rightarrow> 'a list \<Rightarrow> ('a \<Rightarrow> string \<times> string) \<Rightarrow> 'a list \<times> usize" where
  "apply_rows f rows predicate =
     (let filtered = filter (\<lambda>row. let (t, verdict) = predicate row
            in text_matches f t \<and> VerdictFilter_matches (lf_verdict f) verdict) rows;
          total = length filtered;
          limit = ResultLimit_effective (lf_limit f)
      in (take limit filtered, total))"

section \<open>Sections\<close>

datatype ui_section =
    SecEvents | SecDaemon | SecRules | SecHosts | SecApplications | SecAddresses | SecPorts | SecUsers
  | SecTraffic | SecNetwork | SecProfiling | SecPreferences

definition Section_PRIMARY :: "ui_section list" where
  "Section_PRIMARY = [SecEvents, SecDaemon, SecRules, SecHosts, SecApplications, SecAddresses, SecPorts, SecUsers]"

fun Section_label :: "ui_section \<Rightarrow> string" where
  "Section_label SecEvents = ''Events''"
| "Section_label SecDaemon = ''Daemon''"
| "Section_label SecRules = ''Rules''"
| "Section_label SecHosts = ''Hosts''"
| "Section_label SecApplications = ''Applications''"
| "Section_label SecAddresses = ''Addresses''"
| "Section_label SecPorts = ''Ports''"
| "Section_label SecUsers = ''Users''"
| "Section_label SecTraffic = ''Traffic''"
| "Section_label SecNetwork = ''Network''"
| "Section_label SecProfiling = ''Profiling''"
| "Section_label SecPreferences = ''Preferences''"

definition uses_filter :: "ui_section \<Rightarrow> bool" where
  "uses_filter s \<longleftrightarrow> s \<in> {SecEvents, SecRules, SecHosts, SecAddresses, SecPorts, SecUsers}"

definition is_secondary :: "ui_section \<Rightarrow> bool" where
  "is_secondary s \<longleftrightarrow> s \<in> {SecTraffic, SecNetwork, SecProfiling, SecPreferences}"

section \<open>Audit buffer\<close>

definition LOG_MAX_AUDIT_LINES :: usize where
  "LOG_MAX_AUDIT_LINES = MAX_LOG_RECORDS_PER_SUBSCRIBER"

record log_buffer =
  lb_lines :: "string list"
  lb_selected :: usize
  lb_subscribed :: bool

definition LogBuffer_new :: log_buffer where
  "LogBuffer_new = \<lparr>lb_lines = [], lb_selected = 0, lb_subscribed = False\<rparr>"

definition set_subscribed :: "bool \<Rightarrow> log_buffer \<Rightarrow> log_buffer" where
  "set_subscribed ready b = b\<lparr>lb_subscribed := ready\<rparr>"

definition LogBuffer_clamp_selection :: "log_buffer \<Rightarrow> log_buffer" where
  "LogBuffer_clamp_selection b =
     (if lb_lines b = [] then b\<lparr>lb_selected := 0\<rparr>
      else if length (lb_lines b) \<le> lb_selected b then b\<lparr>lb_selected := length (lb_lines b) - 1\<rparr>
      else b)"

definition push_line :: "u64 \<Rightarrow> string \<Rightarrow> log_buffer \<Rightarrow> log_buffer" where
  "push_line sequence message b =
     (let b = (if length (lb_lines b) = LOG_MAX_AUDIT_LINES
               then let b = b\<lparr>lb_lines := tl (lb_lines b)\<rparr>
                 in if 0 < lb_selected b then b\<lparr>lb_selected := lb_selected b - 1\<rparr> else b
               else b)
      in LogBuffer_clamp_selection (b\<lparr>lb_lines := lb_lines b @ [show_word sequence @ ''|'' @ message]\<rparr>))"

definition LogBuffer_select :: "usize \<Rightarrow> log_buffer \<Rightarrow> log_buffer" where
  "LogBuffer_select index b =
     (if lb_lines b = [] then b\<lparr>lb_selected := 0\<rparr>
      else b\<lparr>lb_selected := min index (length (lb_lines b) - 1)\<rparr>)"

definition log_pair :: "string \<Rightarrow> (u64 \<times> string) option" where
  "log_pair line =
     (case split_once CHR ''|'' line of
        None \<Rightarrow> None
      | Some (s, message) \<Rightarrow> map_option (\<lambda>sequence. (sequence, message)) (parse_word s))"

definition LogBuffer_lines :: "log_buffer \<Rightarrow> (u64 \<times> string) list" where
  "LogBuffer_lines b = List.map_filter log_pair (lb_lines b)"

definition selected_index :: "log_buffer \<Rightarrow> usize option" where
  "selected_index b = (if lb_lines b = [] then None else Some (lb_selected b))"

section \<open>Connection alert\<close>

datatype alert_verdict = AlAllow | AlDeny

fun AlertVerdict_as_str :: "alert_verdict \<Rightarrow> string" where
  "AlertVerdict_as_str AlAllow = ''allow''"
| "AlertVerdict_as_str AlDeny = ''deny''"

fun AlertVerdict_label :: "alert_verdict \<Rightarrow> string" where
  "AlertVerdict_label AlAllow = ''Allow''"
| "AlertVerdict_label AlDeny = ''Deny''"

datatype alert_scope = AlOnce | AlSession | AlPermanent

fun AlertScope_as_str :: "alert_scope \<Rightarrow> string" where
  "AlertScope_as_str AlOnce = ''once''"
| "AlertScope_as_str AlSession = ''session''"
| "AlertScope_as_str AlPermanent = ''permanent''"

fun AlertScope_rule_note :: "alert_scope \<Rightarrow> string" where
  "AlertScope_rule_note AlOnce = ''Applies to this connection only (no durable rule).''"
| "AlertScope_rule_note AlSession = ''Creates a session rule until the application exits.''"
| "AlertScope_rule_note AlPermanent = ''Creates or updates a durable rule.''"

record connection_alert =
  ca_prompt :: prompt_row
  ca_verdict :: alert_verdict
  ca_scope :: alert_scope
  ca_details_open :: bool
  ca_stale :: bool
  ca_status_message :: "string option"

definition from_prompt :: "prompt_row \<Rightarrow> connection_alert" where
  "from_prompt prompt = \<lparr>ca_prompt = prompt, ca_verdict = AlDeny, ca_scope = AlOnce, ca_details_open = False,
     ca_stale = (\<not> PromptRow_can_answer prompt), ca_status_message = None\<rparr>"

definition sync_from_list :: "prompt_row list \<Rightarrow> connection_alert \<Rightarrow> connection_alert" where
  "sync_from_list prompts alert =
     (case find (\<lambda>row. pw_id row = pw_id (ca_prompt alert)) prompts of
        Some row \<Rightarrow> alert\<lparr>ca_prompt := row, ca_stale := (\<not> PromptRow_can_answer row)\<rparr>
      | None \<Rightarrow> alert\<lparr>ca_stale := True\<rparr>)"

definition can_submit :: "connection_alert \<Rightarrow> bool" where
  "can_submit alert \<longleftrightarrow> \<not> ca_stale alert \<and> PromptRow_can_answer (ca_prompt alert)"

definition answer_frame :: "alert_verdict \<Rightarrow> connection_alert \<Rightarrow> string option" where
  "answer_frame verdict alert =
     (if \<not> can_submit alert then None
      else Some (''v1 prompt-answer '' @ show_word (pw_id (ca_prompt alert)) @ '' '' @
        AlertVerdict_as_str verdict @ '' '' @ AlertScope_as_str (ca_scope alert) @ [NL]))"

definition advance :: "connection_alert option \<Rightarrow> prompt_row list \<Rightarrow> connection_alert option" where
  "advance current prompts =
     (case (current, find PromptRow_can_answer prompts) of
        (None, Some prompt) \<Rightarrow> Some (from_prompt prompt)
      | (None, None) \<Rightarrow> None
      | (Some alert, Some prompt) \<Rightarrow>
          (let alert = sync_from_list prompts alert
           in if can_submit alert then Some alert else Some (from_prompt prompt))
      | (Some alert, None) \<Rightarrow> Some (sync_from_list prompts alert))"

section \<open>Add-rule form\<close>

datatype rule_verdict_chip = RvAllow | RvDeny | RvPrompt

fun RuleVerdict_as_str :: "rule_verdict_chip \<Rightarrow> string" where
  "RuleVerdict_as_str RvAllow = ''allow''"
| "RuleVerdict_as_str RvDeny = ''deny''"
| "RuleVerdict_as_str RvPrompt = ''prompt''"

record new_rule =
  nw_id :: u64
  nw_executable :: string
  nw_verdict :: string
  nw_port :: u16

text \<open>\<open>id + 1\<close> on the greatest id, which wraps in a release build.\<close>

definition ui_next_rule_id :: "rule_row list \<Rightarrow> u64" where
  "ui_next_rule_id rules = (if rules = [] then 1 else Max (set (map rr_id rules)) + 1)"

definition validate_new_rule :: "string \<Rightarrow> string \<Rightarrow> rule_verdict_chip \<Rightarrow> string \<Rightarrow> string + new_rule" where
  "validate_new_rule i executable verdict port =
     and_then (ok_or ''id must be an integer'' (parse_word (trim i))) (\<lambda>i.
     let executable = trim executable
     in if executable = [] \<or> \<not> starts_with ''/'' executable
        then Inl ''executable must be an absolute path''
        else and_then (ok_or ''port must be 0..65535'' (parse_word (trim port))) (\<lambda>port.
          Inr \<lparr>nw_id = i, nw_executable = executable, nw_verdict = RuleVerdict_as_str verdict, nw_port = port\<rparr>))"

section \<open>Tray\<close>

datatype daemon_link = UiDown string | UiUp daemon_status usize

datatype tray_state = TrProtected | TrPrompting | TrDegraded | TrPaused | TrBlocked | TrUnavailable

definition status_degraded :: "daemon_status \<Rightarrow> bool" where
  "status_degraded status \<longleftrightarrow> ds_observation status = ''degraded'' \<or> ds_enforcement status = ''degraded''"

fun TrayState_from_link :: "daemon_link \<Rightarrow> tray_state" where
  "TrayState_from_link (UiDown reason) = TrUnavailable"
| "TrayState_from_link (UiUp status pending_prompts) =
     (if 0 < pending_prompts then TrPrompting
      else if ds_traffic status = ''blocked'' then TrBlocked
      else if ds_enforcement status = ''paused'' then TrPaused
      else if status_degraded status then TrDegraded
      else TrProtected)"

fun TrayState_label :: "tray_state \<Rightarrow> string" where
  "TrayState_label TrProtected = ''protected''"
| "TrayState_label TrPrompting = ''prompting''"
| "TrayState_label TrDegraded = ''degraded''"
| "TrayState_label TrPaused = ''paused''"
| "TrayState_label TrBlocked = ''blocked''"
| "TrayState_label TrUnavailable = ''daemon unavailable''"

fun TrayState_guidance :: "tray_state \<Rightarrow> string" where
  "TrayState_guidance TrProtected = ''Daemon reachable; rules and prompt policy are active.''"
| "TrayState_guidance TrPrompting = ''Pending connection prompts need Allow/Deny (once|session|permanent).''"
| "TrayState_guidance TrDegraded =
     ''Observation or enforcement is degraded. Check capabilities and InterFire nft queue.''"
| "TrayState_guidance TrPaused =
     ''Rules paused: owned queue table removed; new TCP is not filtered. Use Rules Start to enforce.''"
| "TrayState_guidance TrBlocked =
     ''Traffic blocked (machine or user kill-switch). Open the Traffic tab to adjust scope and direction.''"
| "TrayState_guidance TrUnavailable =
     ''Cannot reach the daemon socket. Start interfired (Daemon Start), check the socket path, then reconnect.''"

datatype confirm_kind =
    RulesPause | RulesResume | ConfirmTrafficBlock | ConfirmTrafficUnblock | OpenTraffic | DaemonStop | DaemonStart

text \<open>The cell shared between the tray and the window; a poisoned lock drops what is pushed.\<close>

definition confirm_push :: "confirm_kind \<Rightarrow> confirm_kind option mutex \<Rightarrow> confirm_kind option mutex" where
  "confirm_push kind m = with_lock m m (\<lambda>_. Healthy (Some kind))"

definition confirm_take :: "confirm_kind option mutex \<Rightarrow> confirm_kind option \<times> confirm_kind option mutex" where
  "confirm_take m = with_lock m (None, m) (\<lambda>pending. (pending, Healthy None))"

datatype tray_action =
    TrayShow | TrayQuit | TrayPause | TrayResume | TrayOpenTraffic | TrayDaemonStop | TrayDaemonStart

datatype menu_item = Separator | Item string bool "tray_action option"

definition tray_menu :: "tray_state \<Rightarrow> menu_item list" where
  "tray_menu state =
     (let daemon_up = (state \<noteq> TrUnavailable);
          rules_paused = (state = TrPaused)
      in [Item (''State: '' @ TrayState_label state) False None,
          Separator,
          Item ''Open InterFire'' True (Some TrayShow),
          Item ((if daemon_up then ''Stop daemon'' else ''Start daemon'') @ ELLIPSIS) True
            (Some (if daemon_up then TrayDaemonStop else TrayDaemonStart)),
          Item ((if rules_paused then ''Start rules'' else ''Pause rules'') @ ELLIPSIS) daemon_up
            (Some (if rules_paused then TrayResume else TrayPause)),
          Item (''Traffic'' @ ELLIPSIS) daemon_up (Some TrayOpenTraffic),
          Item ''Quit InterFire UI'' True (Some TrayQuit)])"

text \<open>
  \<open>spawn_tray_action_loop\<close> on the actions of one turn: what is pushed, whether a window is to be
  shown, and whether the client quits.
\<close>

fun tray_confirm :: "tray_action \<Rightarrow> confirm_kind option" where
  "tray_confirm TrayPause = Some RulesPause"
| "tray_confirm TrayResume = Some RulesResume"
| "tray_confirm TrayOpenTraffic = Some OpenTraffic"
| "tray_confirm TrayDaemonStop = Some DaemonStop"
| "tray_confirm TrayDaemonStart = Some DaemonStart"
| "tray_confirm TrayShow = None"
| "tray_confirm TrayQuit = None"

fun tray_actions :: "tray_action list \<Rightarrow> bool \<Rightarrow> confirm_kind option mutex \<Rightarrow> bool \<times> bool \<times> confirm_kind option mutex" where
  "tray_actions [] need_show m = (False, need_show, m)"
| "tray_actions (action # pending) need_show m =
     (if action = TrayQuit then (True, need_show, m)
      else tray_actions pending True
        (case tray_confirm action of Some kind \<Rightarrow> confirm_push kind m | None \<Rightarrow> m))"

text \<open>
  \<open>brand_icon\<close>: decoded icons are kept in four cells that are filled once. The image of a state stands
  for itself, and the cells for protected, prompting and degraded are chosen by it.
\<close>

datatype icon_slot = SlotProtected | SlotPrompting | SlotDegraded | SlotUnavailable

definition brand_slot :: "tray_state \<Rightarrow> icon_slot" where
  "brand_slot png =
     (if png = TrProtected then SlotProtected
      else if png = TrPrompting then SlotPrompting
      else if png = TrDegraded then SlotDegraded
      else SlotUnavailable)"

definition brand_icon :: "tray_state \<Rightarrow> (icon_slot \<Rightarrow> tray_state option) \<Rightarrow> tray_state \<times> (icon_slot \<Rightarrow> tray_state option)" where
  "brand_icon png cells =
     (case cells (brand_slot png) of
        Some icon \<Rightarrow> (icon, cells)
      | None \<Rightarrow> (png, cells(brand_slot png \<mapsto> png)))"

section \<open>Text and counts of the views\<close>

definition extract_outcome :: "string \<Rightarrow> string option" where
  "extract_outcome message =
     (case List.map_filter (strip_prefix ''outcome='') (split_whitespace message) of
        [] \<Rightarrow> None
      | v # _ \<Rightarrow> Some v)"

definition dominant_verdict :: "stats_row \<Rightarrow> string" where
  "dominant_verdict row =
     (if 0 < row_deny row \<and> row_allow row \<le> row_deny row \<and> row_prompt row \<le> row_deny row then ''deny''
      else if 0 < row_prompt row \<and> row_allow row \<le> row_prompt row then ''prompt''
      else if 0 < row_allow row then ''allow''
      else [])"

definition event_columns :: "u64 \<times> string \<Rightarrow> string \<times> string" where
  "event_columns = (\<lambda>(_, message).
     (message, case extract_outcome message of Some v \<Rightarrow> v | None \<Rightarrow> []))"

definition stats_columns :: "stats_row \<Rightarrow> string \<times> string" where
  "stats_columns row = (row_key row, dominant_verdict row)"

definition rule_columns :: "rule_row \<Rightarrow> string \<times> string" where
  "rule_columns rule =
     (rr_executable rule @ '' '' @ show_word (rr_port rule) @ '' '' @ rr_verdict rule, rr_verdict rule)"

definition row_counts :: "list_filter \<Rightarrow> 'a list \<Rightarrow> ('a \<Rightarrow> string \<times> string) \<Rightarrow> usize \<times> usize" where
  "row_counts f rows columns = (let (shown, total) = apply_rows f rows columns in (length shown, total))"

definition events_filter_counts :: "(u64 \<times> string) list \<Rightarrow> list_filter \<Rightarrow> usize \<times> usize" where
  "events_filter_counts lines f = row_counts f lines event_columns"

definition stats_filter_counts :: "stats_row list \<Rightarrow> list_filter \<Rightarrow> usize \<times> usize" where
  "stats_filter_counts rows f = row_counts f rows stats_columns"

definition rules_filter_counts :: "rule_row list \<Rightarrow> list_filter \<Rightarrow> usize \<times> usize" where
  "rules_filter_counts rules f = row_counts f rules rule_columns"

text \<open>
  What \<open>events_body\<close> puts on the screen: the rows with their highlight, each of which selects its own
  position when clicked, and the message of the \<open>Selected\<close> panel.
\<close>

definition events_rows :: "(u64 \<times> string) list \<Rightarrow> usize option \<Rightarrow> list_filter \<Rightarrow> (string \<times> bool) list" where
  "events_rows lines selected f =
     (let (shown, total) = apply_rows f lines event_columns
      in map (\<lambda>(offset, (s, message)). (show_word s @ ''|'' @ message, selected = Some offset))
           (zip [0..<length shown] shown))"

definition events_selected_panel :: "(u64 \<times> string) list \<Rightarrow> usize option \<Rightarrow> list_filter \<Rightarrow> string option" where
  "events_selected_panel lines selected f =
     (let (shown, total) = apply_rows f lines event_columns
      in if shown = [] then None
         else case selected of
                None \<Rightarrow> None
              | Some index \<Rightarrow> if index < length lines then Some (snd (lines ! index)) else None)"

definition network_guidance :: "network_status_body \<Rightarrow> daemon_link \<Rightarrow> string" where
  "network_guidance network link =
     (let enforcement = (case link of UiUp status _ \<Rightarrow> ds_enforcement status | UiDown _ \<Rightarrow> ''none'')
      in case ns_state network of
           NtMissing \<Rightarrow> ''Queue rule not installed. Install to send new outbound TCP to NFQUEUE '' @
             show_word NFQUEUE_NUM @ ''.''
         | NtIncomplete \<Rightarrow>
             ''Table inet interfire exists but the expected TCP queue rule is missing or mismatched.''
         | NtInstalled \<Rightarrow>
             if enforcement = ''nfqueue'' then ''Owned queue rule present and daemon bound NFQUEUE.''
             else if enforcement = ''degraded''
             then ''Owned queue rule present, but daemon NFQUEUE bind is degraded (caps or listener).''
             else ''Owned queue rule present, but daemon enforcement is not nfqueue yet.'')"

record operator_labels =
  ol_daemon_up :: bool
  ol_rules_paused :: bool
  ol_daemon_label :: string
  ol_rules_label :: string
  ol_traffic_label :: string

definition operator_labels_of :: "tray_state \<Rightarrow> daemon_link \<Rightarrow> operator_labels" where
  "operator_labels_of state link =
     (let daemon_up = (state \<noteq> TrUnavailable);
          rules_paused = (case link of UiUp status _ \<Rightarrow> ds_enforcement status = ''paused'' | UiDown _ \<Rightarrow> True)
      in \<lparr>ol_daemon_up = daemon_up, ol_rules_paused = rules_paused,
          ol_daemon_label = (if daemon_up then ''Daemon: Running'' else ''Daemon: Stopped''),
          ol_rules_label = (if \<not> daemon_up then ''Rules: -''
            else if rules_paused then ''Rules: Paused'' else ''Rules: Active''),
          ol_traffic_label =
            (if daemon_up then
               case link of
                 UiUp status _ \<Rightarrow>
                   if ds_traffic_machine status \<noteq> ''open'' then ''Traffic: Machine''
                   else if ds_traffic_user status \<noteq> ''open'' then ''Traffic: User''
                   else ''Traffic: Open''
               | UiDown _ \<Rightarrow> ''Traffic: -''
             else ''Traffic: -'')\<rparr>)"

section \<open>The buffer keeps the newest records\<close>

definition log_wf :: "log_buffer \<Rightarrow> bool" where
  "log_wf b \<longleftrightarrow> length (lb_lines b) \<le> LOG_MAX_AUDIT_LINES \<and>
     (if lb_lines b = [] then lb_selected b = 0 else lb_selected b < length (lb_lines b))"

datatype log_input = LogPush u64 string | LogSelect usize | LogReady bool

fun log_step :: "log_input \<Rightarrow> log_buffer \<Rightarrow> log_buffer" where
  "log_step (LogPush s m) b = push_line s m b"
| "log_step (LogSelect i) b = LogBuffer_select i b"
| "log_step (LogReady r) b = set_subscribed r b"

lemma clamp_log_wf: "length (lb_lines b) \<le> LOG_MAX_AUDIT_LINES \<Longrightarrow> log_wf (LogBuffer_clamp_selection b)"
  by (auto simp: LogBuffer_clamp_selection_def log_wf_def not_le)

lemma push_line_lines:
  "lb_lines (push_line s m b) =
    (if length (lb_lines b) = LOG_MAX_AUDIT_LINES then tl (lb_lines b) else lb_lines b) @ [show_word s @ ''|'' @ m]"
  by (simp add: push_line_def LogBuffer_clamp_selection_def Let_def)

lemma LOG_MAX_pos: "0 < LOG_MAX_AUDIT_LINES"
  by (simp add: LOG_MAX_AUDIT_LINES_def MAX_LOG_RECORDS_PER_SUBSCRIBER_def)

lemma push_line_wf: "log_wf b \<Longrightarrow> log_wf (push_line s m b)"
  unfolding push_line_def Let_def using LOG_MAX_pos
  by (intro clamp_log_wf) (auto simp: log_wf_def)

lemma log_step_wf: "log_wf b \<Longrightarrow> log_wf (log_step x b)"
  by (cases x) (simp_all add: push_line_wf, auto simp: LogBuffer_select_def set_subscribed_def log_wf_def)

interpretation ui_log: bounded_machine log_step log_wf "\<lambda>_. LOG_MAX_AUDIT_LINES" "\<lambda>b. length (lb_lines b)"
  by unfold_locales (simp_all add: log_step_wf, simp add: log_wf_def)

abbreviation log_line :: "u64 \<times> string \<Rightarrow> string" where
  "log_line r \<equiv> show_word (fst r) @ ''|'' @ snd r"

lemma log_pair_line: "log_pair (log_line r) = Some r"
proof -
  have "CHR ''|'' \<notin> set (show_word (fst r))"
    by (rule show_word_no_char) (simp add: is_digit_def digit_val_def)
  from split_once_append [OF this, of "snd r"] show ?thesis by (simp add: log_pair_def)
qed

text \<open>The records a history of inputs pushed, and the newest of them that fit.\<close>

fun log_pushed :: "log_input list \<Rightarrow> (u64 \<times> string) list" where
  "log_pushed [] = []"
| "log_pushed (LogPush s m # xs) = (s, m) # log_pushed xs"
| "log_pushed (x # xs) = log_pushed xs"

definition newest :: "nat \<Rightarrow> 'a list \<Rightarrow> 'a list" where
  "newest n xs = drop (length xs - n) xs"

lemma log_pushed_append [simp]: "log_pushed (xs @ ys) = log_pushed xs @ log_pushed ys"
  by (induction xs rule: log_pushed.induct) simp_all

lemma newest_snoc: "0 < n \<Longrightarrow> newest n (xs @ [x]) = (if length (newest n xs) = n then tl (newest n xs) else newest n xs) @ [x]"
  by (cases "n \<le> length xs") (simp_all add: newest_def Suc_diff_le drop_Suc drop_tl)

lemma log_lines_newest: "lb_lines (fold log_step xs LogBuffer_new) = map log_line (newest LOG_MAX_AUDIT_LINES (log_pushed xs))"
proof (induction xs rule: rev_induct)
  case Nil
  then show ?case by (simp add: LogBuffer_new_def newest_def)
next
  case (snoc x xs)
  then show ?case
    by (cases x) (simp_all add: push_line_lines newest_snoc LOG_MAX_pos map_tl LogBuffer_select_def set_subscribed_def)
qed

text \<open>
  The desktop client's event list is the newest 2000 records. After any sequence of records,
  selections and reconnects, the pairs read back from the buffer are exactly the last records
  received, in order and with their messages unchanged, whatever characters these hold; the
  selection is an index of the buffer, or there is none when it is empty.
\<close>

theorem ui_log_keeps_newest:
  "LogBuffer_lines (fold log_step xs LogBuffer_new) = newest LOG_MAX_AUDIT_LINES (log_pushed xs) \<and>
   (case selected_index (fold log_step xs LogBuffer_new) of
      None \<Rightarrow> log_pushed xs = []
    | Some i \<Rightarrow> i < length (newest LOG_MAX_AUDIT_LINES (log_pushed xs)))"
proof -
  have "List.map_filter log_pair (map log_line rs) = rs" for rs
    by (induction rs) (simp_all add: List.map_filter_simps log_pair_line [simplified])
  moreover have "log_wf (fold log_step xs LogBuffer_new)"
    by (rule ui_log.run_wf) (simp add: log_wf_def LogBuffer_new_def)
  moreover have "newest LOG_MAX_AUDIT_LINES (log_pushed xs) = [] \<longleftrightarrow> log_pushed xs = []"
    using LOG_MAX_pos by (cases "log_pushed xs") (auto simp: newest_def)
  ultimately show ?thesis
    by (auto simp: LogBuffer_lines_def log_lines_newest selected_index_def log_wf_def)
qed

section \<open>The alert follows the live prompts\<close>

lemma sync_can_submit: "can_submit (sync_from_list prompts alert) \<Longrightarrow>
    ca_prompt (sync_from_list prompts alert) \<in> set prompts \<and> PromptRow_can_answer (ca_prompt (sync_from_list prompts alert))"
  using find_Some_iff [of "\<lambda>row. pw_id row = pw_id (ca_prompt alert)" prompts]
  by (auto simp: can_submit_def sync_from_list_def split: option.splits)

lemma advance_Some:
  assumes "advance current prompts = Some alert"
  shows "can_submit alert \<longleftrightarrow> list_ex PromptRow_can_answer prompts"
    and "can_submit alert \<Longrightarrow> ca_prompt alert \<in> set prompts"
proof -
  have new: "can_submit (from_prompt row) \<and> row \<in> set prompts \<and> list_ex PromptRow_can_answer prompts"
    if "find PromptRow_can_answer prompts = Some row" for row
    using that by (auto simp: find_Some_iff can_submit_def from_prompt_def list_ex_length)
  have none: "\<not> list_ex PromptRow_can_answer prompts \<and> \<not> can_submit (sync_from_list prompts al)"
    if "find PromptRow_can_answer prompts = None" for al
    using that sync_can_submit [of prompts al] by (auto simp: find_None_iff list_ex_iff)
  show "can_submit alert \<longleftrightarrow> list_ex PromptRow_can_answer prompts"
    using assms new none by (auto simp: advance_def Let_def split: option.splits if_splits)
  show "can_submit alert \<Longrightarrow> ca_prompt alert \<in> set prompts"
    using assms new none sync_can_submit
    by (auto simp: advance_def Let_def from_prompt_def split: option.splits if_splits)
qed

section \<open>What differs from the intention\<close>

text \<open>
  The selected event is not the one described. With a verdict filter set, the list highlights
  the row at the selected position among the rows shown, while the panel below it shows the record at
  that position among all records.
\<close>

theorem ui_selected_panel_mismatch:
  "let lines = [(1, ''outcome=allow''), (2, ''outcome=deny'')];
       f = ListFilter_default\<lparr>lf_verdict := VfDeny\<rparr>
   in events_rows lines (Some 0) f = [(''2|outcome=deny'', True)] \<and>
      events_selected_panel lines (Some 0) f = Some ''outcome=allow''"
  by code_simp

text \<open>
  The tray shows the wrong picture for a paused and for a blocked firewall. The tray starts in the
  unavailable state; whatever states follow, the images of the paused and blocked states are never
  shown, because they share the cell of the unavailable image, while every other state shows its own.
\<close>

theorem tray_icon_of_state:
  "fst (brand_icon state (fold (\<lambda>s cells. snd (brand_icon s cells)) history (snd (brand_icon TrUnavailable (\<lambda>_. None))))) =
    (if state = TrPaused \<or> state = TrBlocked then TrUnavailable else state)"
proof -
  define ok :: "(icon_slot \<Rightarrow> tray_state option) \<Rightarrow> bool" where
    "ok cells \<longleftrightarrow> cells SlotUnavailable = Some TrUnavailable \<and> cells SlotProtected \<in> {None, Some TrProtected} \<and>
       cells SlotPrompting \<in> {None, Some TrPrompting} \<and> cells SlotDegraded \<in> {None, Some TrDegraded}" for cells
  have step: "ok (snd (brand_icon s cells))" if "ok cells" for s cells
    using that by (cases s) (auto simp: ok_def brand_icon_def brand_slot_def split: option.splits)
  have "ok (fold (\<lambda>s cells. snd (brand_icon s cells)) history cells)" if "ok cells" for cells
    using that by (induction history arbitrary: cells) (simp_all add: step)
  then have "ok (fold (\<lambda>s cells. snd (brand_icon s cells)) history (snd (brand_icon TrUnavailable (\<lambda>_. None))))"
    by (simp add: ok_def brand_icon_def brand_slot_def)
  then show ?thesis
    by (cases state) (auto simp: ok_def brand_icon_def brand_slot_def split: option.splits)
qed

end
