(* ===== verification/Ctl.thy ===== *)
theory Ctl
  imports Client
begin

text \<open>
  The command line client (\<open>interfirectl/src/main.rs\<close>): its arguments become one frame, the reply is
  printed. \<open>ctl_asks\<close> states what each command line asks for; the frames are shown to mean just that
  to the daemon's parser.
\<close>

section \<open>Commands\<close>

fun traffic_arguments :: "string list \<Rightarrow> string \<Rightarrow> string \<Rightarrow> (string \<times> string) option" where
  "traffic_arguments [] scope direction = Some (scope, direction)"
| "traffic_arguments (argument # rest) scope direction =
     (case strip_prefix ''--scope='' argument of
        Some value \<Rightarrow> traffic_arguments rest value direction
      | None \<Rightarrow>
          (case strip_prefix ''--direction='' argument of
             Some value \<Rightarrow> traffic_arguments rest scope value
           | None \<Rightarrow> None))"

definition parse_traffic_command :: "string \<Rightarrow> string list \<Rightarrow> string option" where
  "parse_traffic_command action rest =
     (case traffic_arguments rest ''user'' ''out'' of
        None \<Rightarrow> None
      | Some (scope, direction) \<Rightarrow>
          if \<not> (scope = ''user'' \<or> scope = ''machine'') then None
          else if action = ''block'' \<and> (direction = ''out'' \<or> direction = ''in'' \<or> direction = ''all'')
          then Some (''traffic-block scope='' @ scope @ '' direction='' @ direction)
          else if action = ''unblock'' then Some (''traffic-unblock scope='' @ scope)
          else None)"

text \<open>\<open>parse::<u64>().is_ok()\<close>, \<open>parse::<u16>().is_ok()\<close> and \<open>parse::<usize>().is_ok()\<close>.\<close>

definition is_u64 :: "string \<Rightarrow> bool" where
  "is_u64 s \<longleftrightarrow> (parse_word s :: u64 option) \<noteq> None"

definition is_u16 :: "string \<Rightarrow> bool" where
  "is_u16 s \<longleftrightarrow> (parse_word s :: u16 option) \<noteq> None"

definition is_usize :: "string \<Rightarrow> bool" where
  "is_usize s \<longleftrightarrow> parse_usize s \<noteq> None"

text \<open>
  The arms of the slice patterns, grouped by the first two words: within a group the length of the
  rest and the guard decide, and a guard that fails leaves only the final arm.
\<close>

definition parse_command :: "string list \<Rightarrow> string option" where
  "parse_command arguments =
     (case arguments of
        [] \<Rightarrow> Some ''status''
      | [command] \<Rightarrow>
          if command = ''ping'' \<or> command = ''status'' \<or> command = ''pause'' \<or> command = ''resume''
          then Some command else None
      | x # y # rest \<Rightarrow>
          if x = ''traffic'' \<and> y = ''status'' \<and> rest = [] then Some ''status''
          else if x = ''traffic'' then parse_traffic_command y rest
          else if x = ''rules'' \<and> y = ''list'' \<and> rest = [] then Some ''rule-list''
          else if x = ''rules'' \<and> y = ''add'' then
            (case rest of
               [i, executable, verdict, port] \<Rightarrow>
                 if is_u64 i \<and> is_u16 port
                 then Some (''rule-add '' @ i @ '' '' @ executable @ '' '' @ verdict @ '' '' @ port) else None
             | _ \<Rightarrow> None)
          else if x = ''rules'' \<and> y = ''delete'' then
            (case rest of [i] \<Rightarrow> if is_u64 i then Some (''rule-delete '' @ i) else None | _ \<Rightarrow> None)
          else if x = ''prompts'' \<and> y = ''list'' \<and> rest = [] then Some ''prompt-list''
          else if x = ''prompts'' \<and> y = ''answer'' then
            (case rest of
               [i, verdict, scope] \<Rightarrow>
                 if is_u64 i \<and> (verdict = ''allow'' \<or> verdict = ''deny'') \<and>
                    (scope = ''once'' \<or> scope = ''session'' \<or> scope = ''permanent'')
                 then Some (''prompt-answer '' @ i @ '' '' @ verdict @ '' '' @ scope) else None
             | _ \<Rightarrow> None)
          else if x = ''dns'' \<and> y = ''list'' \<and> rest = [] then Some ''dns-list''
          else if x = ''dns'' \<and> y = ''note'' then
            (case rest of
               [hostname, ipv4] \<Rightarrow> if hostname \<noteq> [] then Some (''dns-note '' @ hostname @ '' '' @ ipv4) else None
             | [hostname, ipv4, ttl] \<Rightarrow>
                 if hostname \<noteq> [] \<and> is_u64 ttl
                 then Some (''dns-note '' @ hostname @ '' '' @ ipv4 @ '' '' @ ttl) else None
             | _ \<Rightarrow> None)
          else if x = ''audit'' \<and> y = ''tail'' then
            (case rest of
               [] \<Rightarrow> Some ''audit-tail''
             | [limit] \<Rightarrow> if is_usize limit then Some (''audit-tail '' @ limit) else None
             | _ \<Rightarrow> None)
          else if x = ''audit'' \<and> y = ''subscribe'' then
            (case rest of
               [i] \<Rightarrow> if i \<noteq> [] then Some (''audit-subscribe '' @ i) else None
             | [i, since] \<Rightarrow>
                 if i \<noteq> [] \<and> starts_with ''since='' since then Some (''audit-subscribe '' @ i @ '' '' @ since) else None
             | _ \<Rightarrow> None)
          else if x = ''network'' \<and> y = ''status'' \<and> rest = [] then Some ''network-status''
          else if x = ''network'' \<and> y = ''install'' \<and> rest = [] then Some ''network-install''
          else if x = ''network'' \<and> y = ''remove'' \<and> rest = [] then Some ''network-remove''
          else None)"

definition ctl_argument :: "string \<Rightarrow> string \<times> string list \<Rightarrow> string \<times> string list" where
  "ctl_argument argument = (\<lambda>(socket, arguments).
     case strip_prefix ''--socket='' argument of
       Some value \<Rightarrow> (value, arguments)
     | None \<Rightarrow> (socket, arguments @ [argument]))"

text \<open>
  \<open>main\<close> with the program's arguments: what it prints, or the text of the error it ends with. The
  socket's exchange depends on the path.
\<close>

definition ctl_main :: "(string \<Rightarrow> 'd exchange) \<Rightarrow> string list \<Rightarrow> 'd \<Rightarrow> (string + string) \<times> 'd" where
  "ctl_main exch args d =
     (let (socket, arguments) = fold ctl_argument (drop 1 args) (DEFAULT_SOCKET_PATH, [])
      in case parse_command arguments of
           None \<Rightarrow> (Inl ''invalid command'', d)
         | Some command \<Rightarrow> exch socket (''v1 '' @ command @ [NL]) d)"

section \<open>What a command line asks for\<close>

inductive ctl_asks :: "string list \<Rightarrow> request \<Rightarrow> bool" where
  ask_default: "ctl_asks [] Status"
| ask_ping: "ctl_asks [''ping''] Ping"
| ask_status: "ctl_asks [''status''] Status"
| ask_pause: "ctl_asks [''pause''] Pause"
| ask_resume: "ctl_asks [''resume''] Resume"
| ask_traffic_status: "ctl_asks [''traffic'', ''status''] Status"
| ask_block: "traffic_arguments rest ''user'' ''out'' = Some (scope, direction) \<Longrightarrow>
    ctl_asks (''traffic'' # ''block'' # rest) (TrafficBlock scope direction)"
| ask_unblock: "traffic_arguments rest ''user'' ''out'' = Some (scope, direction) \<Longrightarrow>
    ctl_asks (''traffic'' # ''unblock'' # rest) (TrafficUnblock scope)"
| ask_rule_list: "ctl_asks [''rules'', ''list''] RuleList"
| ask_rule_add: "parse_word s = Some i \<Longrightarrow> parse_word t = Some port \<Longrightarrow>
    ctl_asks [''rules'', ''add'', s, executable, verdict, t] (RuleAdd i executable verdict port)"
| ask_rule_delete: "parse_word s = Some i \<Longrightarrow> ctl_asks [''rules'', ''delete'', s] (RuleDelete i)"
| ask_prompt_list: "ctl_asks [''prompts'', ''list''] PromptList"
| ask_prompt_answer: "parse_word s = Some i \<Longrightarrow>
    ctl_asks [''prompts'', ''answer'', s, verdict, scope] (PromptAnswer i verdict scope)"
| ask_dns_list: "ctl_asks [''dns'', ''list''] DnsList"
| ask_dns_note: "ctl_asks [''dns'', ''note'', hostname, ipv4] (DnsNote hostname ipv4 None)"
| ask_dns_note_ttl: "parse_word s = Some ttl \<Longrightarrow>
    ctl_asks [''dns'', ''note'', hostname, ipv4, s] (DnsNote hostname ipv4 (Some ttl))"
| ask_tail: "ctl_asks [''audit'', ''tail''] (AuditTail MAX_LOG_RECORDS_PER_SUBSCRIBER)"
| ask_tail_limit: "parse_usize s = Some limit \<Longrightarrow> ctl_asks [''audit'', ''tail'', s] (AuditTail limit)"
| ask_subscribe: "ctl_asks [''audit'', ''subscribe'', i] (AuditSubscribe i 0)"
| ask_subscribe_since: "parse_word s = Some since \<Longrightarrow>
    ctl_asks [''audit'', ''subscribe'', i, ''since='' @ s] (AuditSubscribe i since)"
| ask_network_status: "ctl_asks [''network'', ''status''] NetworkStatusReq"
| ask_network_install: "ctl_asks [''network'', ''install''] NetworkInstall"
| ask_network_remove: "ctl_asks [''network'', ''remove''] NetworkRemove"

abbreviation ctl_frame :: "string \<Rightarrow> string" where
  "ctl_frame command \<equiv> ''v1 '' @ command @ [NL]"

definition understood :: "string list \<Rightarrow> string \<Rightarrow> bool" where
  "understood arguments command \<longleftrightarrow> (\<exists>r. ctl_asks arguments r \<and> Request_parse (ctl_frame command) = Inr r)"

lemma understoodI: "ctl_asks arguments r \<Longrightarrow> Request_parse (ctl_frame command) = Inr r \<Longrightarrow> understood arguments command"
  by (auto simp: understood_def)

lemma if_Some_elim: "(if c then a else b) = Some r \<Longrightarrow> (c \<Longrightarrow> a = Some r \<Longrightarrow> P) \<Longrightarrow> (b = Some r \<Longrightarrow> P) \<Longrightarrow> P"
  by (simp split: if_splits)

lemma frame_words: "ctl_frame (join [SP] (w # ws)) = request_frame (w # ws)"
  by (simp add: request_frame_def)

lemma traffic_understood:
  assumes "parse_traffic_command action rest = Some command"
  shows "understood (''traffic'' # action # rest) command"
proof -
  obtain scope direction where sd: "traffic_arguments rest ''user'' ''out'' = Some (scope, direction)"
    using assms by (auto simp: parse_traffic_command_def split: option.splits)
  have scope: "scope \<in> {''user'', ''machine''}" using assms sd by (auto simp: parse_traffic_command_def split: if_splits)
  consider (block) "action = ''block''" "direction \<in> {''out'', ''in'', ''all''}"
      "command = ''traffic-block scope='' @ scope @ '' direction='' @ direction"
    | (unblock) "action = ''unblock''" "command = ''traffic-unblock scope='' @ scope"
    using assms sd by (auto simp: parse_traffic_command_def split: if_splits)
  then show ?thesis
  proof cases
    case block
    then show ?thesis
      using ask_block [OF sd] Request_parse_traffic_block [OF scope block(2)]
      by (auto simp: understood_def request_frame_def)
  next
    case unblock
    then show ?thesis
      using ask_unblock [OF sd] Request_parse_traffic_unblock [OF scope]
      by (auto simp: understood_def request_frame_def)
  qed
qed

lemma plain_understood:
  "understood [] ''status''" "understood [''ping''] ''ping''" "understood [''status''] ''status''"
  "understood [''pause''] ''pause''" "understood [''resume''] ''resume''" "understood [''traffic'', ''status''] ''status''"
  "understood [''rules'', ''list''] ''rule-list''" "understood [''prompts'', ''list''] ''prompt-list''"
  "understood [''dns'', ''list''] ''dns-list''" "understood [''network'', ''status''] ''network-status''"
  "understood [''network'', ''install''] ''network-install''" "understood [''network'', ''remove''] ''network-remove''"
  "understood [''audit'', ''tail''] ''audit-tail''"
  by (rule understoodI [OF ctl_asks.intros(1)] understoodI [OF ctl_asks.intros(2)] understoodI [OF ctl_asks.intros(3)]
      understoodI [OF ctl_asks.intros(4)] understoodI [OF ctl_asks.intros(5)] understoodI [OF ask_traffic_status]
      understoodI [OF ask_rule_list] understoodI [OF ask_prompt_list] understoodI [OF ask_dns_list]
      understoodI [OF ask_network_status] understoodI [OF ask_network_install] understoodI [OF ask_network_remove]
      understoodI [OF ask_tail],
      use Request_parse_plain Request_parse_audit_tail(1) in \<open>simp add: request_frame_def\<close>)+

lemma understood_words:
  "ctl_asks arguments r \<Longrightarrow> Request_parse (request_frame (w # ws)) = Inr r \<Longrightarrow> command = join [SP] (w # ws) \<Longrightarrow>
    understood arguments command"
  using frame_words [of w ws] by (auto simp: understood_def)

lemma rule_add_understood:
  assumes "is_u64 s" "is_u16 t" "list_all token [s, executable, verdict, t]"
  shows "understood [''rules'', ''add'', s, executable, verdict, t]
    (''rule-add '' @ s @ '' '' @ executable @ '' '' @ verdict @ '' '' @ t)"
proof -
  obtain i port where p: "parse_word s = Some (i :: u64)" "parse_word t = Some (port :: u16)"
    using assms by (auto simp: is_u64_def is_u16_def)
  show ?thesis
    using assms(3) by (intro understood_words [OF ask_rule_add [OF p] Request_parse_rule_add [OF _ p(1) _ _ _ p(2)]]) simp_all
qed

lemma rule_delete_understood:
  "is_u64 s \<Longrightarrow> token s \<Longrightarrow> understood [''rules'', ''delete'', s] (''rule-delete '' @ s)"
  by (auto simp: is_u64_def intro!: understood_words [OF ask_rule_delete Request_parse_rule_delete])

lemma prompts_understood:
  "is_u64 s \<Longrightarrow> list_all token [s, verdict, scope] \<Longrightarrow>
    understood [''prompts'', ''answer'', s, verdict, scope] (''prompt-answer '' @ s @ '' '' @ verdict @ '' '' @ scope)"
  by (auto simp: is_u64_def intro!: understood_words [OF ask_prompt_answer Request_parse_prompt_answer])

lemma dns_understood:
  "list_all token [hostname, ipv4] \<Longrightarrow> understood [''dns'', ''note'', hostname, ipv4] (''dns-note '' @ hostname @ '' '' @ ipv4)"
  by (auto intro!: understood_words [OF ask_dns_note Request_parse_dns_note(1)])

lemma dns_ttl_understood:
  assumes "is_u64 s" "list_all token [hostname, ipv4, s]"
  shows "understood [''dns'', ''note'', hostname, ipv4, s] (''dns-note '' @ hostname @ '' '' @ ipv4 @ '' '' @ s)"
proof -
  obtain ttl where ttl: "parse_word s = Some (ttl :: u64)" using assms(1) by (auto simp: is_u64_def)
  show ?thesis
    using assms(2) by (intro understood_words [OF ask_dns_note_ttl [OF ttl] Request_parse_dns_note(2) [OF _ _ _ ttl]]) simp_all
qed

lemma audit_tail_understood: "is_usize s \<Longrightarrow> token s \<Longrightarrow> understood [''audit'', ''tail'', s] (''audit-tail '' @ s)"
  by (auto simp: is_usize_def intro!: understood_words [OF ask_tail_limit Request_parse_audit_tail(2)])

lemma subscribe_understood: "token i \<Longrightarrow> understood [''audit'', ''subscribe'', i] (''audit-subscribe '' @ i)"
  by (auto intro!: understood_words [OF ask_subscribe Request_parse_subscribe(1)])

lemma subscribe_since_understood:
  assumes "token i" "token since" "starts_with ''since='' since" "is_u64 (drop 6 since)"
  shows "understood [''audit'', ''subscribe'', i, since] (''audit-subscribe '' @ i @ '' '' @ since)"
proof -
  obtain s where since: "since = ''since='' @ s" using assms(3) by (auto simp: starts_with_def strip_prefix_Some_iff)
  then obtain n where n: "parse_word s = Some (n :: u64)" using assms(4) by (auto simp: is_u64_def)
  have "Request_parse (request_frame [''audit-subscribe'', i, since]) = Inr (AuditSubscribe i n)"
    using Request_parse_subscribe(2) [OF assms(1) _ n] assms(2) unfolding since by blast
  moreover have "ctl_asks [''audit'', ''subscribe'', i, since] (AuditSubscribe i n)"
    unfolding since by (rule ask_subscribe_since [OF n])
  ultimately show ?thesis
    using understood_words [of _ _ "''audit-subscribe''" "[i, since]"] by simp
qed

lemmas command_understood = plain_understood traffic_understood rule_add_understood rule_delete_understood
  prompts_understood dns_understood dns_ttl_understood audit_tail_understood subscribe_understood
  subscribe_since_understood



end
