(* ===== verification/UiIpc.thy ===== *)
theory UiIpc
  imports UiState TuiIpc Ctl
begin

text \<open>
  How the desktop client reaches the daemon (\<open>ui/src/ipc_poll.rs\<close>, \<open>audit_host.rs\<close>, \<open>service.rs\<close>): one-shot
  requests, the snapshot poll, the audit thread with its read timeouts, and privileged commands run
  through \<open>pkexec\<close>.
\<close>

section \<open>Requests\<close>

definition send_expect_pong :: "'d exchange \<Rightarrow> string \<Rightarrow> 'd \<Rightarrow> (string + unit) \<times> 'd" where
  "send_expect_pong exch request d =
     (case one_shot exch request d of
        (Inl e, d) \<Rightarrow> (Inl e, d)
      | (Inr frame, d) \<Rightarrow> (if starts_with ''v1 pong'' frame then Inr () else Inl (reply_error frame), d))"

definition ui_add_rule :: "'d exchange \<Rightarrow> u64 \<Rightarrow> string \<Rightarrow> string \<Rightarrow> u16 \<Rightarrow> 'd \<Rightarrow> (string + unit) \<times> 'd" where
  "ui_add_rule exch i executable verdict port = send_expect_pong exch
     (''v1 rule-add '' @ show_word i @ '' '' @ executable @ '' '' @ verdict @ '' '' @ show_word port @ [NL])"

definition ui_delete_rule :: "'d exchange \<Rightarrow> u64 \<Rightarrow> 'd \<Rightarrow> (string + unit) \<times> 'd" where
  "ui_delete_rule exch i = send_expect_pong exch (''v1 rule-delete '' @ show_word i @ [NL])"

definition ui_install_network :: "'d exchange \<Rightarrow> 'd \<Rightarrow> (string + unit) \<times> 'd" where
  "ui_install_network exch = send_expect_pong exch (''v1 network-install'' @ [NL])"

definition ui_remove_network :: "'d exchange \<Rightarrow> 'd \<Rightarrow> (string + unit) \<times> 'd" where
  "ui_remove_network exch = send_expect_pong exch (''v1 network-remove'' @ [NL])"

definition ui_pause :: "'d exchange \<Rightarrow> 'd \<Rightarrow> (string + unit) \<times> 'd" where
  "ui_pause exch = send_expect_pong exch (''v1 pause'' @ [NL])"

definition ui_resume :: "'d exchange \<Rightarrow> 'd \<Rightarrow> (string + unit) \<times> 'd" where
  "ui_resume exch = send_expect_pong exch (''v1 resume'' @ [NL])"

definition ui_traffic_block :: "'d exchange \<Rightarrow> string \<Rightarrow> string \<Rightarrow> 'd \<Rightarrow> (string + unit) \<times> 'd" where
  "ui_traffic_block exch scope direction = send_expect_pong exch
     (''v1 traffic-block scope='' @ scope @ '' direction='' @ direction @ [NL])"

definition ui_traffic_unblock :: "'d exchange \<Rightarrow> string \<Rightarrow> 'd \<Rightarrow> (string + unit) \<times> 'd" where
  "ui_traffic_unblock exch scope = send_expect_pong exch (''v1 traffic-unblock scope='' @ scope @ [NL])"

section \<open>Snapshot\<close>

definition ui_fetch_status :: "'d exchange \<Rightarrow> 'd \<Rightarrow> (string + daemon_status) \<times> 'd" where
  "ui_fetch_status exch = fetch exch (''v1 status'' @ [NL]) DaemonStatus_parse ''malformed_status''"

definition ui_fetch_prompts :: "'d exchange \<Rightarrow> 'd \<Rightarrow> (string + prompt_row list) \<times> 'd" where
  "ui_fetch_prompts exch = fetch exch (''v1 prompt-list'' @ [NL]) PromptRow_parse_frame ''malformed_prompts''"

definition ui_fetch_rules :: "'d exchange \<Rightarrow> 'd \<Rightarrow> (string + rule_row list) \<times> 'd" where
  "ui_fetch_rules exch = fetch exch (''v1 rule-list'' @ [NL]) RuleRow_parse_frame ''malformed_rules''"

definition ui_fetch_processes :: "'d exchange \<Rightarrow> 'd \<Rightarrow> (string + process_row list) \<times> 'd" where
  "ui_fetch_processes exch = fetch exch (''v1 process-list'' @ [NL]) ProcessRow_parse_frame ''malformed_processes''"

definition ui_fetch_network :: "'d exchange \<Rightarrow> 'd \<Rightarrow> (string + network_status_body) \<times> 'd" where
  "ui_fetch_network exch = fetch exch (''v1 network-status'' @ [NL]) NetworkStatus_parse ''malformed_network''"

definition ui_fetch_stats_summary :: "'d exchange \<Rightarrow> 'd \<Rightarrow> (string + stats_summary_body) \<times> 'd" where
  "ui_fetch_stats_summary exch =
     fetch exch (''v1 stats-summary'' @ [NL]) StatsSummary_parse ''malformed_stats_summary''"

definition ui_fetch_stats_rows :: "'d exchange \<Rightarrow> string \<Rightarrow> 'd \<Rightarrow> (string + stats_row list) \<times> 'd" where
  "ui_fetch_stats_rows exch label =
     fetch exch (''v1 '' @ label @ [NL]) (\<lambda>frame. StatsRow_parse_frame frame label) ''malformed_stats''"

record poll_snapshot =
  ps_link :: daemon_link
  ps_prompts :: "prompt_row list"
  ps_rules :: "rule_row list"
  ps_processes :: "process_row list"
  ps_network :: "network_status_body option"
  ps_stats_summary :: "stats_summary_body option"
  ps_stats_hosts :: "stats_row list"
  ps_stats_procs :: "stats_row list"
  ps_stats_addrs :: "stats_row list"
  ps_stats_ports :: "stats_row list"
  ps_stats_users :: "stats_row list"

text \<open>\<open>unwrap_or_default\<close> on a list and \<open>ok()\<close>, on a result that carries the peer's state along.\<close>

definition or_default :: "('e + 'a list) \<times> 'd \<Rightarrow> 'a list \<times> 'd" where
  "or_default r = (case r of (Inr xs, d) \<Rightarrow> (xs, d) | (Inl _, d) \<Rightarrow> ([], d))"

definition or_none :: "('e + 'a) \<times> 'd \<Rightarrow> 'a option \<times> 'd" where
  "or_none r = (case r of (Inr x, d) \<Rightarrow> (Some x, d) | (Inl _, d) \<Rightarrow> (None, d))"

definition down_snapshot :: "string \<Rightarrow> poll_snapshot" where
  "down_snapshot reason = \<lparr>ps_link = UiDown reason, ps_prompts = [], ps_rules = [], ps_processes = [],
     ps_network = None, ps_stats_summary = None, ps_stats_hosts = [], ps_stats_procs = [],
     ps_stats_addrs = [], ps_stats_ports = [], ps_stats_users = []\<rparr>"

definition poll_snapshot_of :: "'d exchange \<Rightarrow> 'd \<Rightarrow> poll_snapshot \<times> 'd" where
  "poll_snapshot_of exch d =
     (case ui_fetch_status exch d of
        (Inr status, d) \<Rightarrow>
          (let (prompts, d) = or_default (ui_fetch_prompts exch d);
               (rules, d) = or_default (ui_fetch_rules exch d);
               (processes, d) = or_default (ui_fetch_processes exch d);
               (network, d) = or_none (ui_fetch_network exch d);
               (stats_summary, d) = or_none (ui_fetch_stats_summary exch d);
               (hosts, d) = or_default (ui_fetch_stats_rows exch ''stats-hosts'' d);
               (procs, d) = or_default (ui_fetch_stats_rows exch ''stats-procs'' d);
               (addrs, d) = or_default (ui_fetch_stats_rows exch ''stats-addrs'' d);
               (ports, d) = or_default (ui_fetch_stats_rows exch ''stats-ports'' d);
               (users, d) = or_default (ui_fetch_stats_rows exch ''stats-users'' d)
           in (\<lparr>ps_link = UiUp status (length prompts), ps_prompts = prompts, ps_rules = rules,
                ps_processes = processes, ps_network = network, ps_stats_summary = stats_summary,
                ps_stats_hosts = hosts, ps_stats_procs = procs, ps_stats_addrs = addrs,
                ps_stats_ports = ports, ps_stats_users = users\<rparr>, d))
      | (Inl reason, d) \<Rightarrow> (down_snapshot reason, d))"

section \<open>Audit thread\<close>

definition UI_SUBSCRIBER_ID :: string where
  "UI_SUBSCRIBER_ID = ''interfire-ui''"

datatype audit_event = AuReady | AuRecord audit_stream_record | AuDown string

text \<open>
  The bytes of the stream as they arrive: \<open>Quiet\<close> is a pause longer than the read timeout, \<open>Broken\<close> any
  other failure to read, and the end of the list is the end of the stream. \<open>read_line\<close> gives up at a
  pause; what it had read of the line stays in the buffer, which the loop clears before it reads
  again.
\<close>

datatype net = Byte char | Quiet | Broken string

datatype line_read = LineOk string | LineEof | LineTimeout | LineError string

definition utf8_line :: "string \<Rightarrow> line_read" where
  "utf8_line s = (if utf8_valid s then LineOk s else LineError ''stream did not contain valid UTF-8'')"

fun net_read_line :: "net list \<Rightarrow> string \<Rightarrow> line_read \<times> net list" where
  "net_read_line [] acc = (if acc = [] then LineEof else utf8_line acc, [])"
| "net_read_line (Byte c # ns) acc =
     (if c = NL then (utf8_line (acc @ [c]), ns) else net_read_line ns (acc @ [c]))"
| "net_read_line (Quiet # ns) acc = (LineTimeout, ns)"
| "net_read_line (Broken e # ns) acc = (LineError e, ns)"

lemma net_read_line_le: "(r, rest) = net_read_line ns acc \<Longrightarrow> ns \<noteq> [] \<Longrightarrow> length rest < length ns"
proof (induction ns acc rule: net_read_line.induct)
  case (2 c ns acc)
  then show ?case by (cases "ns = []") (auto split: if_splits)
qed auto

lemma net_read_line_shorter: "(r, rest) = net_read_line ns [] \<Longrightarrow> r \<noteq> LineEof \<Longrightarrow> length rest < length ns"
  using net_read_line_le by (cases "ns = []") auto

text \<open>The loop of \<open>subscribe_session\<close>; \<open>stop i\<close> is the flag when it is read for the \<open>i\<close>-th time.\<close>

function ui_session_loop ::
    "(nat \<Rightarrow> bool) \<Rightarrow> (nat \<Rightarrow> bool) \<Rightarrow> nat \<Rightarrow> u64 \<Rightarrow> net list \<Rightarrow> audit_event list \<Rightarrow> (string + u64) \<times> audit_event list" where
  "ui_session_loop alive stop i last_since ns sent =
     (if stop i then (Inr last_since, sent)
      else case net_read_line ns [] of
             (LineEof, _) \<Rightarrow> (Inr last_since, sent)
           | (LineTimeout, ns') \<Rightarrow> ui_session_loop alive stop (Suc i) last_since ns' sent
           | (LineError e, _) \<Rightarrow> (Inl e, sent)
           | (LineOk line, ns') \<Rightarrow>
               if MAX_FRAME_BYTES < length line then (Inl ''frame_too_large'', sent)
               else
                 let trimmed = trim_crlf line
                 in if starts_with ''v1 subscribed '' trimmed then
                      (let (ok, sent) = tx_send alive AuReady sent
                       in if ok then ui_session_loop alive stop (Suc i) last_since ns' sent
                          else (Inr last_since, sent))
                    else if trimmed = ''v1 audit-replaced'' then
                      ui_session_loop alive stop (Suc i) last_since ns' sent
                    else case AuditStreamRecord_parse trimmed of
                           Inl _ \<Rightarrow> (Inl ''malformed_audit'', sent)
                         | Inr record \<Rightarrow>
                             (let (ok, sent) = tx_send alive (AuRecord record) sent
                              in if ok then ui_session_loop alive stop (Suc i) (asr_sequence record) ns' sent
                                 else (Inr (asr_sequence record), sent)))"
  by pat_completeness auto

termination
  by (relation "measure (\<lambda>(alive, stop, i, since, ns, sent). length ns)")
    (auto dest: net_read_line_shorter)

declare ui_session_loop.simps [simp del]

definition ui_subscribe_request :: "u64 \<Rightarrow> string" where
  "ui_subscribe_request since =
     ''v1 audit-subscribe '' @ UI_SUBSCRIBER_ID @ '' since='' @ show_word since @ [NL]"

definition ui_subscribe_session ::
    "(string \<Rightarrow> string + net list) \<Rightarrow> (nat \<Rightarrow> bool) \<Rightarrow> (nat \<Rightarrow> bool) \<Rightarrow> u64 \<Rightarrow> audit_event list
       \<Rightarrow> (string + u64) \<times> audit_event list" where
  "ui_subscribe_session serve alive stop since sent =
     (case serve (ui_subscribe_request since) of
        Inl e \<Rightarrow> (Inl e, sent)
      | Inr ns \<Rightarrow> ui_session_loop alive stop 0 since ns sent)"

text \<open>
  \<open>audit_loop\<close> over the servers it meets, each with the flag's values during its session; the flag is
  set when the list ends. A failed send of \<open>Down\<close> is ignored.
\<close>

fun ui_audit_loop ::
    "(nat \<Rightarrow> bool) \<Rightarrow> ((string \<Rightarrow> string + net list) \<times> (nat \<Rightarrow> bool)) list \<Rightarrow> u64 \<times> audit_event list \<Rightarrow> u64 \<times> audit_event list" where
  "ui_audit_loop alive [] st = st"
| "ui_audit_loop alive ((serve, stop) # rest) (since, sent) =
     (case ui_subscribe_session serve alive stop since sent of
        (Inr next, sent) \<Rightarrow> ui_audit_loop alive rest (next, sent)
      | (Inl reason, sent) \<Rightarrow> ui_audit_loop alive rest (since, snd (tx_send alive (AuDown reason) sent)))"

section \<open>Privileged commands\<close>

record process_output =
  po_success :: bool
  po_stdout :: string
  po_stderr :: string

text \<open>The \<open>pkexec\<close> program: its arguments, an error when it cannot be started, else its output.\<close>

type_synonym 'd pkexec = "string list \<Rightarrow> 'd \<Rightarrow> (string + process_output) \<times> 'd"

definition finish_output :: "process_output \<Rightarrow> string \<Rightarrow> string + unit" where
  "finish_output output label =
     (if po_success output then Inr ()
      else let detail = trim (utf8_lossy (po_stderr output));
               out = trim (utf8_lossy (po_stdout output))
           in if detail \<noteq> [] then Inl detail
              else if out \<noteq> [] then Inl out
              else Inl (label @ '' failed''))"

definition run_pkexec :: "'d pkexec \<Rightarrow> string list \<Rightarrow> string \<Rightarrow> 'd \<Rightarrow> (string + unit) \<times> 'd" where
  "run_pkexec pkexec args label d =
     (case pkexec args d of
        (Inl e, d) \<Rightarrow> (Inl (''pkexec failed: '' @ e), d)
      | (Inr output, d) \<Rightarrow> (finish_output output label, d))"

definition run_systemctl :: "'d pkexec \<Rightarrow> string \<Rightarrow> 'd \<Rightarrow> (string + unit) \<times> 'd" where
  "run_systemctl pkexec action =
     run_pkexec pkexec [''systemctl'', action, ''interfired.service''] (''systemctl '' @ action @ '' interfired'')"

definition run_interfirectl :: "'d pkexec \<Rightarrow> string \<Rightarrow> string list \<Rightarrow> 'd \<Rightarrow> (string + unit) \<times> 'd" where
  "run_interfirectl pkexec socket args =
     run_pkexec pkexec (''interfirectl'' # (''--socket='' @ socket) # args) ''interfirectl traffic''"

definition service_stop_daemon :: "'d pkexec \<Rightarrow> 'd \<Rightarrow> (string + unit) \<times> 'd" where
  "service_stop_daemon pkexec = run_systemctl pkexec ''stop''"

definition service_start_daemon :: "'d pkexec \<Rightarrow> 'd \<Rightarrow> (string + unit) \<times> 'd" where
  "service_start_daemon pkexec = run_systemctl pkexec ''start''"

definition traffic_block_machine :: "'d pkexec \<Rightarrow> string \<Rightarrow> string \<Rightarrow> 'd \<Rightarrow> (string + unit) \<times> 'd" where
  "traffic_block_machine pkexec socket direction =
     run_interfirectl pkexec socket [''traffic'', ''block'', ''--scope=machine'', ''--direction='' @ direction]"

definition traffic_unblock_machine :: "'d pkexec \<Rightarrow> string \<Rightarrow> 'd \<Rightarrow> (string + unit) \<times> 'd" where
  "traffic_unblock_machine pkexec socket =
     run_interfirectl pkexec socket [''traffic'', ''unblock'', ''--scope=machine'']"

section \<open>Success means the daemon did it\<close>

context control_link
begin

lemma send_ok_iff:
  assumes "wire_ok frame" "Request_parse frame = Inr r"
  shows "send_expect_pong exch frame d = (Inr (), d') \<longleftrightarrow> served r d d'"
  using one_shot_pong_iff [OF assms, of d d']
  by (auto simp: send_expect_pong_def split: prod.splits sum.splits if_splits)

end

section \<open>What the audit thread delivers\<close>

lemma net_read_line_bytes:
  "NL \<notin> set l \<Longrightarrow> net_read_line (map Byte l @ Byte NL # ns) acc = (utf8_line (acc @ l @ [NL]), ns)"
  by (induction l arbitrary: acc) auto

lemma session_line:
  assumes "NL \<notin> set l" "utf8_valid (l @ [NL])" "\<not> stop i"
  shows "ui_session_loop alive stop i since (map Byte l @ Byte NL # ns) sent =
    (if MAX_FRAME_BYTES < length l + 1 then (Inl ''frame_too_large'', sent)
     else
       let trimmed = trim_crlf (l @ [NL])
       in if starts_with ''v1 subscribed '' trimmed then
            (let (ok, sent) = tx_send alive AuReady sent
             in if ok then ui_session_loop alive stop (Suc i) since ns sent else (Inr since, sent))
          else if trimmed = ''v1 audit-replaced'' then ui_session_loop alive stop (Suc i) since ns sent
          else case AuditStreamRecord_parse trimmed of
                 Inl _ \<Rightarrow> (Inl ''malformed_audit'', sent)
               | Inr record \<Rightarrow>
                   (let (ok, sent) = tx_send alive (AuRecord record) sent
                    in if ok then ui_session_loop alive stop (Suc i) (asr_sequence record) ns sent
                       else (Inr (asr_sequence record), sent)))"
  using assms by (subst ui_session_loop.simps) (simp add: net_read_line_bytes utf8_line_def Let_def)

lemma session_quiet:
  "\<forall>j. \<not> stop j \<Longrightarrow> \<exists>j. ui_session_loop alive stop i since (replicate q Quiet @ ns) sent = ui_session_loop alive stop j since ns sent"
proof (induction q arbitrary: i)
  case 0
  then show ?case by auto
next
  case (Suc q)
  have "ui_session_loop alive stop i since (replicate (Suc q) Quiet @ ns) sent =
      ui_session_loop alive stop (Suc i) since (replicate q Quiet @ ns) sent"
    using Suc.prems by (subst ui_session_loop.simps) simp
  then show ?case using Suc by metis
qed

lemma trim_audit_line:
  assumes "streamable r"
  shows "trim_crlf (audit_line r @ [NL]) = audit_line r"
proof -
  have "no_eol (lr_message r)"
    using assms last_in_set [of "lr_message r"] by (fastforce simp: streamable_def clean_message_def)
  then show ?thesis by (intro trim_crlf_append_NL) (auto simp: audit_line_def)
qed

lemma audit_line_valid:
  assumes "streamable r"
  shows "utf8_valid (audit_line r @ [NL])"
proof -
  have "utf8_valid (''v1 audit '' @ show_word (lr_sequence r) @ ''|'' @ lr_message r @ [NL])"
    using assms by (intro utf8_valid_append) (simp_all add: streamable_def clean_message_def)
  then show ?thesis by (simp add: audit_line_def)
qed

text \<open>The stream: a line per record, with any number of pauses before each line.\<close>

definition paused_stream :: "(nat \<times> log_record) list \<Rightarrow> net list" where
  "paused_stream items = concat (map (\<lambda>(q, r). replicate q Quiet @ map Byte (audit_line r) @ [Byte NL]) items)"

lemma session_paused_stream:
  assumes "\<forall>j. \<not> stop j" "list_all (\<lambda>(q, r). streamable r \<and> length (audit_line r) < MAX_FRAME_BYTES) items"
  shows "ui_session_loop (\<lambda>_. True) stop i since (paused_stream items) sent =
    (Inr (if items = [] then since else lr_sequence (snd (last items))), sent @ map (AuRecord \<circ> stream_record \<circ> snd) items)"
  using assms(2)
proof (induction items arbitrary: i since sent)
  case Nil
  then show ?case using assms(1) by (subst ui_session_loop.simps) (simp add: paused_stream_def)
next
  case (Cons item items)
  obtain q r where item: "item = (q, r)" by (cases item)
  with Cons.prems have r: "streamable r" "length (audit_line r) < MAX_FRAME_BYTES" by auto
  obtain j where j: "ui_session_loop (\<lambda>_. True) stop i since (paused_stream (item # items)) sent =
      ui_session_loop (\<lambda>_. True) stop j since (map Byte (audit_line r) @ Byte NL # paused_stream items) sent"
    using session_quiet [OF assms(1), of "\<lambda>_. True" i since q "map Byte (audit_line r) @ Byte NL # paused_stream items" sent]
    by (auto simp: item paused_stream_def)
  have "\<not> starts_with ''v1 subscribed '' (audit_line r)" "audit_line r \<noteq> ''v1 audit-replaced''"
    by (simp_all add: audit_line_def starts_with_def)
  then have "ui_session_loop (\<lambda>_. True) stop j since (map Byte (audit_line r) @ Byte NL # paused_stream items) sent =
      ui_session_loop (\<lambda>_. True) stop (Suc j) (lr_sequence r) (paused_stream items) (sent @ [AuRecord (stream_record r)])"
    using session_line [of "audit_line r" stop j] audit_line_one_line [OF r(1)] audit_line_valid [OF r(1)] assms(1) r
    by (simp add: trim_audit_line parse_audit_line tx_send_def) (simp add: stream_record_def)
  with Cons j show ?case by (simp add: item)
qed

text \<open>
  Pauses between records lose nothing. When the stream pauses only between lines, however long
  and however often, the thread reports the subscription and then every record exactly once and in
  order, and the position it will resume from is that of the last record.
\<close>

theorem ui_audit_delivers:
  assumes "list_all (\<lambda>(q, r). streamable r \<and> length (audit_line r) < MAX_FRAME_BYTES) items"
  shows "ui_session_loop (\<lambda>_. True) (\<lambda>_. False) 0 since
      (map Byte (''v1 subscribed '' @ UI_SUBSCRIBER_ID) @ Byte NL # paused_stream items) [] =
    (Inr (if items = [] then since else lr_sequence (snd (last items))),
     AuReady # map (AuRecord \<circ> stream_record \<circ> snd) items)"
proof -
  let ?hello = "''v1 subscribed '' @ UI_SUBSCRIBER_ID"
  have "NL \<notin> set ?hello" "utf8_valid (?hello @ [NL])" "trim_crlf (?hello @ [NL]) = ?hello"
      "length ?hello + 1 \<le> MAX_FRAME_BYTES" "starts_with ''v1 subscribed '' ?hello"
    by (simp_all add: UI_SUBSCRIBER_ID_def trim_crlf_def MAX_FRAME_BYTES_def starts_with_def)
  then show ?thesis
    using session_line [of ?hello "\<lambda>_. False" 0 "\<lambda>_. True" since "paused_stream items" "[]"]
      session_paused_stream [of "\<lambda>_. False" items 1 since "[AuReady]"] assms
    by (simp add: tx_send_def)
qed

theorem ui_audit_delivers_witness:
  "ui_session_loop (\<lambda>_. True) (\<lambda>_. False) 0 0
      (map Byte (''v1 subscribed '' @ UI_SUBSCRIBER_ID) @ Byte NL # paused_stream [(2, record_demo 1)]) [] =
    (Inr 1, [AuReady, AuRecord (stream_record (record_demo 1))])"
proof -
  have "length (audit_line (record_demo 1)) < MAX_FRAME_BYTES" by code_simp
  then show ?thesis
    using ui_audit_delivers [of "[(2, record_demo 1)]" 0] by (simp add: streamable_demo) (simp add: record_demo_def)
qed

text \<open>
  A pause inside a line breaks the stream. What was read of the line before the pause is dropped,
  so the rest of it does not parse: the session ends with an error and the record is not delivered.
\<close>

theorem ui_pause_breaks_line:
  "ui_session_loop (\<lambda>_. True) (\<lambda>_. False) 0 0 (map Byte ''v1 a'' @ Quiet # map Byte (''udit 1|hello'' @ [NL])) [] =
     (Inl ''malformed_audit'', [])"
  by code_simp

section \<open>Machine-wide blocks\<close>

text \<open>
  \<open>pkexec interfirectl\<close>: the command line client run as root. It ends with status 0 when \<open>main\<close> returns
  \<open>Ok\<close>, having printed the reply; an error is printed to standard error and ends it with status 1.
\<close>

definition ctl_process :: "(string \<Rightarrow> string) \<Rightarrow> (string \<Rightarrow> 'd exchange) \<Rightarrow> 'd pkexec" where
  "ctl_process debug exch args d =
     (case ctl_main exch args d of
        (Inr out, d) \<Rightarrow> (Inr \<lparr>po_success = True, po_stdout = out, po_stderr = []\<rparr>, d)
      | (Inl e, d) \<Rightarrow> (Inr \<lparr>po_success = False, po_stdout = [], po_stderr = ''Error: '' @ debug e @ [NL]\<rparr>, d))"

abbreviation machine_block_frame :: "string \<Rightarrow> string" where
  "machine_block_frame direction \<equiv> request_frame [''traffic-block'', ''scope=machine'', ''direction='' @ direction]"

lemma ctl_machine_block:
  assumes "direction \<in> {''out'', ''in'', ''all''}"
  shows "ctl_main exch [''interfirectl'', ''--socket='' @ socket, ''traffic'', ''block'', ''--scope=machine'', ''--direction='' @ direction] d =
    exch socket (machine_block_frame direction) d"
proof -
  have "strip_prefix ''--socket='' (''--socket='' @ socket) = Some socket" by (rule strip_prefix_append)
  then show ?thesis
    using assms
    by (auto simp: ctl_main_def ctl_argument_def parse_command_def parse_traffic_command_def request_frame_def)
qed

text \<open>
  The privileged block asks for what the operator chose, but its success says nothing about the
  outcome. The daemon receives a machine-wide block in the chosen direction; the client then reports
  success for every reply, a refusal included, and failure only when no reply was read.
\<close>

theorem machine_block_unverified:
  assumes "direction \<in> {''out'', ''in'', ''all''}"
    and "exch socket (machine_block_frame direction) d = (reply, d')"
  shows "Request_parse (machine_block_frame direction) = Inr (TrafficBlock ''machine'' direction) \<and>
    (traffic_block_machine (ctl_process debug exch) socket direction d = (Inr (), d')) = (\<exists>line. reply = Inr line)"
proof
  show "Request_parse (machine_block_frame direction) = Inr (TrafficBlock ''machine'' direction)"
    using Request_parse_traffic_block [of "''machine''" direction] assms(1) by simp
  show "(traffic_block_machine (ctl_process debug exch) socket direction d = (Inr (), d')) = (\<exists>line. reply = Inr line)"
    unfolding traffic_block_machine_def run_interfirectl_def run_pkexec_def ctl_process_def
      ctl_machine_block [OF assms(1)] assms(2)
    by (cases reply) (simp_all add: finish_output_def Let_def)
qed

theorem machine_block_unverified_witness:
  "traffic_block_machine (ctl_process (\<lambda>e. e) (\<lambda>socket frame (d :: nat). (Inr (''v1 error traffic_block_failed'' @ [NL]), d)))
     ''/run/interfire.sock'' ''out'' 0 = (Inr (), 0)"
  using machine_block_unverified [of "''out''" "\<lambda>socket frame (d :: nat). (Inr (''v1 error traffic_block_failed'' @ [NL]), d)"
      "''/run/interfire.sock''" 0 "Inr (''v1 error traffic_block_failed'' @ [NL])" 0 "\<lambda>e. e"]
  by simp

end
