(* ===== verification/UiProfile.thy ===== *)
theory UiProfile
  imports Operator Complex_Main
begin

text \<open>
  The memory and CPU figures of the desktop client's profiling page (\<open>ui/src/proc_sample.rs\<close> and
  \<open>refresh_profiling\<close> of \<open>ui/src/app.rs\<close>). The sample of the own process is read by code of
  its own, which is shown to measure what the daemon's \<open>sample_self\<close> measures. Percentages are exact rational numbers here; the rounding of \<open>f64\<close> is not
  modelled.
\<close>

text \<open>
  \<open>ProcSample::sample_self\<close>; \<open>fields\<close> is an iterator, so the system time is the field after the twelfth.
  A \<open>ProcSample\<close> has the fields of \<open>self_metrics\<close>.
\<close>

fun first_rss :: "string list \<Rightarrow> io_error + u64" where
  "first_rss [] = Inl InvalidData"
| "first_rss (line # lines) =
     (case strip_prefix ''VmRSS:'' line of
        Some rest \<Rightarrow>
          (case split_whitespace rest of
             [] \<Rightarrow> Inl InvalidData
           | kib # _ \<Rightarrow> (case parse_word kib of None \<Rightarrow> Inl InvalidData | Some n \<Rightarrow> Inr n))
      | None \<Rightarrow> first_rss lines)"

definition read_vm_rss_kib :: "procfs \<Rightarrow> io_error + u64" where
  "read_vm_rss_kib P =
     (case proc_read_to_string P ''/proc/self/status'' of
        Inl e \<Rightarrow> Inl e
      | Inr status \<Rightarrow> first_rss (str_lines status))"

definition read_cpu_jiffies :: "procfs \<Rightarrow> io_error + u64" where
  "read_cpu_jiffies P =
     (case proc_read_to_string P ''/proc/self/stat'' of
        Inl e \<Rightarrow> Inl e
      | Inr line \<Rightarrow>
          (case rsplit_once (CHR '')'') line of
             None \<Rightarrow> Inl InvalidData
           | Some (_, rest) \<Rightarrow>
               (case drop 11 (split_whitespace (trim_start rest)) of
                  utime # stime # _ \<Rightarrow>
                    (case (parse_word utime, parse_word stime) of
                       (Some utime, Some stime) \<Rightarrow> Inr (saturating_add utime stime)
                     | _ \<Rightarrow> Inl InvalidData)
                | _ \<Rightarrow> Inl InvalidData)))"

definition ProcSample_sample_self :: "procfs \<Rightarrow> u32 \<Rightarrow> io_error + self_metrics" where
  "ProcSample_sample_self P pid =
     (case read_vm_rss_kib P of
        Inl e \<Rightarrow> Inl e
      | Inr rss_kib \<Rightarrow>
          (case read_cpu_jiffies P of
             Inl e \<Rightarrow> Inl e
           | Inr cpu_jiffies \<Rightarrow> Inr \<lparr>sm_pid = pid, sm_rss_kib = rss_kib, sm_cpu_jiffies = cpu_jiffies\<rparr>))"

record cpu_tracker =
  ct_prev :: "(u64 \<times> instant) option"

definition CpuTracker_default :: cpu_tracker where
  "CpuTracker_default = \<lparr>ct_prev = None\<rparr>"

definition CLOCK_TICKS_PER_SEC :: rat where
  "CLOCK_TICKS_PER_SEC = 100"

definition cpu_percent :: "u64 \<Rightarrow> instant \<Rightarrow> u64 \<Rightarrow> instant \<Rightarrow> rat option" where
  "cpu_percent prev_jiffies prev_at next_jiffies next_at =
     (let elapsed = next_at - prev_at
      in if elapsed < 50000000 then None
         else
           let delta = unat next_jiffies - unat prev_jiffies;
               ticks = CLOCK_TICKS_PER_SEC;
               secs = of_nat elapsed / 1000000000
           in if ticks \<le> 0 \<or> secs \<le> 0 then None
              else Some (of_nat (min delta 4294967295) / (ticks * secs) * 100))"

definition CpuTracker_push :: "u64 \<Rightarrow> instant \<Rightarrow> cpu_tracker \<Rightarrow> rat option \<times> cpu_tracker" where
  "CpuTracker_push cpu_jiffies now t =
     (Option.bind (ct_prev t) (\<lambda>(prev_jiffies, prev_at). cpu_percent prev_jiffies prev_at cpu_jiffies now),
      t\<lparr>ct_prev := Some (cpu_jiffies, now)\<rparr>)"

record profiling_snapshot =
  pf_ui_pid :: u32
  pf_ui_rss_kib :: u64
  pf_ui_cpu_pct :: "rat option"
  pf_daemon_pid :: "u32 option"
  pf_daemon_rss_kib :: "u64 option"
  pf_daemon_cpu_pct :: "rat option"

text \<open>The snapshot with the two trackers that belong to it.\<close>

record profiler =
  pf_snapshot :: profiling_snapshot
  pf_ui_cpu :: cpu_tracker
  pf_daemon_cpu :: cpu_tracker

definition profiler_default :: profiler where
  "profiler_default = \<lparr>pf_snapshot = \<lparr>pf_ui_pid = 0, pf_ui_rss_kib = 0, pf_ui_cpu_pct = None, pf_daemon_pid = None,
     pf_daemon_rss_kib = None, pf_daemon_cpu_pct = None\<rparr>, pf_ui_cpu = CpuTracker_default,
     pf_daemon_cpu = CpuTracker_default\<rparr>"

definition profile_ui :: "instant \<Rightarrow> io_error + self_metrics \<Rightarrow> profiler \<Rightarrow> profiler" where
  "profile_ui now sample p =
     (case sample of
        Inl _ \<Rightarrow> p
      | Inr s \<Rightarrow>
          (let (pct, t) = CpuTracker_push (sm_cpu_jiffies s) now (pf_ui_cpu p)
           in p\<lparr>pf_ui_cpu := t, pf_snapshot := (pf_snapshot p)\<lparr>pf_ui_pid := sm_pid s, pf_ui_rss_kib := sm_rss_kib s,
                pf_ui_cpu_pct := pct\<rparr>\<rparr>))"

definition profile_daemon :: "instant \<Rightarrow> (u32 \<times> u64 \<times> u64) option \<Rightarrow> profiler \<Rightarrow> profiler" where
  "profile_daemon now daemon p =
     (case daemon of
        Some (pid, rss_kib, cpu_jiffies) \<Rightarrow>
          (let (pct, t) = CpuTracker_push cpu_jiffies now (pf_daemon_cpu p)
           in p\<lparr>pf_daemon_cpu := t, pf_snapshot := (pf_snapshot p)\<lparr>pf_daemon_pid := Some pid,
                pf_daemon_rss_kib := Some rss_kib, pf_daemon_cpu_pct := pct\<rparr>\<rparr>)
      | None \<Rightarrow>
          p\<lparr>pf_daemon_cpu := CpuTracker_default, pf_snapshot := (pf_snapshot p)\<lparr>pf_daemon_pid := None,
            pf_daemon_rss_kib := None, pf_daemon_cpu_pct := None\<rparr>\<rparr>)"

definition refresh_profiling ::
    "instant \<Rightarrow> io_error + self_metrics \<Rightarrow> (u32 \<times> u64 \<times> u64) option \<Rightarrow> profiler \<Rightarrow> profiler" where
  "refresh_profiling now sample daemon p = profile_daemon now daemon (profile_ui now sample p)"

section \<open>Figures\<close>

text \<open>\<open>elapsed * percent\<close> is the CPU time used, so a figure is the average over its interval.\<close>

lemma cpu_percent_Some:
  assumes "cpu_percent j1 t1 j2 t2 = Some pct" "unat j2 - unat j1 \<le> 4294967295"
  shows "0 \<le> pct \<and> pct * of_nat (t2 - t1) = of_nat (unat j2 - unat j1) * 1000000000"
proof -
  define e j where "e = t2 - t1" and "j = unat j2 - unat j1"
  have "50000000 \<le> e" and pct: "pct = of_nat j / (100 * (of_nat e / 1000000000)) * 100"
    using assms unfolding cpu_percent_def Let_def CLOCK_TICKS_PER_SEC_def e_def [symmetric] j_def [symmetric]
    by (auto simp: min_absorb1 split: if_splits)
  then have "(0 :: rat) < of_nat e" by simp
  then show ?thesis unfolding pct e_def [symmetric] j_def [symmetric] by (simp add: field_simps)
qed

text \<open>The client and the daemon read the same figures from the same files.\<close>

lemma first_rss_eq: "first_rss ls = vm_rss_lines ls"
  by (induction ls) (simp_all add: nth_opt_def split: option.split list.split)

lemma and_then_ok_or: "and_then (ok_or e v) f = (case v of None \<Rightarrow> Inl e | Some x \<Rightarrow> f x)"
  by (cases v) simp_all

lemma read_cpu_eq:
  "read_cpu_jiffies P = and_then (proc_read_to_string P ''/proc/self/stat'') parse_cpu_jiffies"
proof (cases "proc_read_to_string P ''/proc/self/stat''")
  case (Inr line)
  have pair: "(case drop 11 fds of utime # stime # _ \<Rightarrow> f utime stime | _ \<Rightarrow> Inl InvalidData) =
      and_then (ok_or InvalidData (nth_opt 11 fds)) (\<lambda>u. and_then (ok_or InvalidData (nth_opt 12 fds)) (f u))"
    for fds :: "string list" and f :: "string \<Rightarrow> string \<Rightarrow> io_error + u64"
  proof (cases "11 < length fds")
    case True
    then have "drop 11 fds = fds ! 11 # drop 12 fds" by (simp add: Cons_nth_drop_Suc [symmetric])
    then show ?thesis
      using True by (cases "12 < length fds") (simp_all add: nth_opt_def Cons_nth_drop_Suc [symmetric])
  qed (simp add: nth_opt_def)
  show ?thesis
    by (simp add: read_cpu_jiffies_def Inr parse_cpu_jiffies_def pair and_then_ok_or Let_def split: option.split)
qed (simp add: read_cpu_jiffies_def)

lemma ui_sample_same: "ProcSample_sample_self P pid = sample_self P pid"
proof -
  have as_case: "and_then r f = (case r of Inl e \<Rightarrow> Inl e | Inr x \<Rightarrow> f x)" for r and f :: "_ \<Rightarrow> io_error + 'b"
    by (cases r) simp_all
  show ?thesis
    by (simp add: ProcSample_sample_self_def sample_self_def read_vm_rss_kib_def first_rss_eq read_cpu_eq
        parse_vm_rss_kib_def as_case split: sum.split)
qed

text \<open>
  A daemon that comes back starts afresh. After a poll without the daemon's figures nothing of it
  is shown, and the first figures after that carry no percentage, so none is ever computed across a
  restart of the daemon.
\<close>

theorem profiling_forgets_daemon:
  "let gone = refresh_profiling t1 s1 None p; back = refresh_profiling t2 s2 (Some (pid, rss, jiffies)) gone
   in pf_daemon_pid (pf_snapshot gone) = None \<and> pf_daemon_rss_kib (pf_snapshot gone) = None \<and>
      pf_daemon_cpu_pct (pf_snapshot gone) = None \<and> pf_daemon_pid (pf_snapshot back) = Some pid \<and>
      pf_daemon_rss_kib (pf_snapshot back) = Some rss \<and> pf_daemon_cpu_pct (pf_snapshot back) = None"
  by (auto simp: refresh_profiling_def profile_daemon_def profile_ui_def CpuTracker_push_def CpuTracker_default_def
      Let_def split: sum.split)

end
