(* ===== verification/UiApp.thy ===== *)
theory UiApp
  imports UiIpc UiProfile Prompts
begin

text \<open>
  The desktop client's window (\<open>ui/src/app.rs\<close>, with \<open>applications_view.rs\<close>, \<open>rss_probe.rs\<close>, \<open>theme.rs\<close> and the
  arguments of \<open>main.rs\<close>): its state, the poll, and every handler the views and the tray call. Input
  fields belong to the widget library, so their texts are part of the state and typing is an input;
  what the window shows is in \<open>UiRender\<close>. \<open>ua_audit\<close> is the channel from the audit thread, \<open>ua_confirm\<close> the cell the tray
  writes, \<open>ua_tray\<close> what the tray was last told.
\<close>

section \<open>Process viewers\<close>

datatype process_viewer = Htop | Atop | Btop | TopViewer

fun ProcessViewer_label :: "process_viewer \<Rightarrow> string" where
  "ProcessViewer_label Htop = ''htop''"
| "ProcessViewer_label Atop = ''atop''"
| "ProcessViewer_label Btop = ''btop''"
| "ProcessViewer_label TopViewer = ''top''"

definition ProcessViewer_argv :: "process_viewer \<Rightarrow> u32 \<Rightarrow> string list" where
  "ProcessViewer_argv viewer pid =
     (if viewer = Htop \<or> viewer = TopViewer then [ProcessViewer_label viewer, ''-p'', show_word pid]
      else [ProcessViewer_label viewer])"

text \<open>\<open>on_path\<close> asks the shell for a program, \<open>spawn\<close> says whether a program could be started.\<close>

definition try_open_viewer ::
    "(string \<Rightarrow> bool) \<Rightarrow> (string \<Rightarrow> string list \<Rightarrow> bool) \<Rightarrow> process_viewer \<Rightarrow> u32 \<Rightarrow> string + unit" where
  "try_open_viewer on_path spawn viewer pid =
     (if \<not> on_path (ProcessViewer_label viewer)
      then Inl (ProcessViewer_label viewer @ '' is not installed (not on PATH)'')
      else
        let argv = ProcessViewer_argv viewer pid;
            candidates = [(''gnome-terminal'', ''--'' # argv), (''x-terminal-emulator'', [''-e'', join [SP] argv]),
                          (''xdg-terminal-exec'', argv)]
        in if list_ex (\<lambda>(term, term_argv). spawn term term_argv) candidates then Inr ()
           else Inl (''could not launch '' @ ProcessViewer_label viewer @ '' for pid '' @ show_word pid @
                  '' (install a terminal emulator)''))"

section \<open>State\<close>

datatype rss_probe_mode = ProbeIdle | ProbePromptLoad

definition RssProbeMode_parse :: "string \<Rightarrow> rss_probe_mode option" where
  "RssProbeMode_parse raw =
     (if raw = ''idle'' then Some ProbeIdle else if raw = ''prompt-load'' then Some ProbePromptLoad else None)"

definition ui_argument :: "string \<Rightarrow> string \<times> rss_probe_mode option \<Rightarrow> string \<times> rss_probe_mode option" where
  "ui_argument argument = (\<lambda>(socket, probe).
     case strip_prefix ''--socket='' argument of
       Some value \<Rightarrow> (value, probe)
     | None \<Rightarrow>
         (case strip_prefix ''--rss-probe='' argument of
            Some value \<Rightarrow> (socket, RssProbeMode_parse value)
          | None \<Rightarrow> (socket, probe)))"

definition ui_parse_args :: "string list \<Rightarrow> string \<times> rss_probe_mode option" where
  "ui_parse_args args = fold ui_argument args (DEFAULT_SOCKET_PATH, None)"

definition software_renderer :: "string option \<Rightarrow> string option \<Rightarrow> bool" where
  "software_renderer native_gpu wgpu_backend \<longleftrightarrow> native_gpu \<noteq> Some ''1'' \<and> wgpu_backend = None"

datatype chrome_preference = ChromeSystem | ChromeLight | ChromeDark

record ui_add_form =
  uf_id :: string
  uf_executable :: string
  uf_port :: string
  uf_verdict :: rule_verdict_chip
  uf_error :: "string option"

record ui_app =
  ua_section :: ui_section
  ua_socket :: string
  ua_link :: daemon_link
  ua_tray_state :: tray_state
  ua_prompts :: "prompt_row list"
  ua_rules :: "rule_row list"
  ua_selected_rule :: "u64 option"
  ua_rules_message :: "string option"
  ua_add_form :: "ui_add_form option"
  ua_processes :: "process_row list"
  ua_selected_process :: "(u32 \<times> u64) option"
  ua_viewer_message :: "string option"
  ua_network :: "network_status_body option"
  ua_network_message :: "string option"
  ua_alert :: "connection_alert option"
  ua_log :: log_buffer
  ua_audit :: "audit_event list"
  ua_rss_probe :: "rss_probe_mode option"
  ua_profiler :: profiler
  ua_chrome_pref :: chrome_preference
  ua_traffic_scope_machine :: bool
  ua_traffic_direction :: string
  ua_fw_confirm :: "confirm_kind option"
  ua_filter :: list_filter
  ua_filter_input :: "string option"
  ua_custom_limit_input :: "string option"
  ua_menu_open :: bool
  ua_about_open :: bool
  ua_preferences_open :: bool
  ua_verdict_select_open :: bool
  ua_limit_select_open :: bool
  ua_stats_summary :: "stats_summary_body option"
  ua_stats_hosts :: "stats_row list"
  ua_stats_procs :: "stats_row list"
  ua_stats_addrs :: "stats_row list"
  ua_stats_ports :: "stats_row list"
  ua_stats_users :: "stats_row list"
  ua_tray :: "tray_state option"
  ua_confirm :: "confirm_kind option mutex"

text \<open>
  What lies outside the window, with its state \<open>'d\<close>: the daemon's socket, \<open>pkexec\<close>, the programs a viewer
  needs, the clock and the own entry of \<open>/proc\<close>.
\<close>

record 'd ui_env =
  ue_exch :: "'d exchange"
  ue_pkexec :: "'d pkexec"
  ue_on_path :: "string \<Rightarrow> bool"
  ue_spawn :: "string \<Rightarrow> string list \<Rightarrow> bool"
  ue_now :: "'d \<Rightarrow> instant"
  ue_sample :: "'d \<Rightarrow> io_error + self_metrics"

definition ui_App_new :: "'d ui_env \<Rightarrow> 'd \<Rightarrow> string \<Rightarrow> bool \<Rightarrow> ui_app" where
  "ui_App_new E d socket has_tray =
     (let link = UiDown ''connecting''; tray_state = TrayState_from_link link
      in \<lparr>ua_section = SecEvents, ua_socket = socket, ua_link = link, ua_tray_state = tray_state,
          ua_prompts = [], ua_rules = [], ua_selected_rule = None, ua_rules_message = None,
          ua_add_form = None, ua_processes = [], ua_selected_process = None, ua_viewer_message = None,
          ua_network = None, ua_network_message = None, ua_alert = None, ua_log = LogBuffer_new,
          ua_audit = [], ua_rss_probe = None,
          ua_profiler = refresh_profiling (ue_now E d) (ue_sample E d) None profiler_default, ua_chrome_pref = ChromeSystem,
          ua_traffic_scope_machine = False, ua_traffic_direction = ''out'', ua_fw_confirm = None,
          ua_filter = ListFilter_default, ua_filter_input = None, ua_custom_limit_input = None,
          ua_menu_open = False, ua_about_open = False, ua_preferences_open = False,
          ua_verdict_select_open = False, ua_limit_select_open = False, ua_stats_summary = None,
          ua_stats_hosts = [], ua_stats_procs = [], ua_stats_addrs = [], ua_stats_ports = [],
          ua_stats_users = [], ua_tray = (if has_tray then Some TrUnavailable else None),
          ua_confirm = Healthy None\<rparr>)"

definition tray_set_state :: "tray_state \<Rightarrow> ui_app \<Rightarrow> ui_app" where
  "tray_set_state s a = a\<lparr>ua_tray := map_option (\<lambda>_. s) (ua_tray a)\<rparr>"

definition fixture_prompt :: "nat \<Rightarrow> prompt_row" where
  "fixture_prompt n = \<lparr>pw_id = word_of_nat n, pw_executable = ''/usr/bin/rss-probe-'' @ show_nat n,
     pw_destination = ''203.0.113.10'', pw_port = 443, pw_protocol = ''tcp'', pw_remaining_secs = 30\<rparr>"

definition fixture_prompts :: "prompt_row list" where
  "fixture_prompts = map fixture_prompt [1..<MAX_PENDING_PROMPTS + 1]"

definition fixture_log :: log_buffer where
  "fixture_log = fold (\<lambda>n. push_line (word_of_nat n) ''rss-probe-load'')
     [1..<MAX_LOG_RECORDS_PER_SUBSCRIBER + 1] LogBuffer_new"

definition apply_rss_probe :: "rss_probe_mode \<Rightarrow> ui_app \<Rightarrow> ui_app" where
  "apply_rss_probe mode a =
     (let a = a\<lparr>ua_rss_probe := Some mode\<rparr>
      in case mode of
           ProbeIdle \<Rightarrow> a
         | ProbePromptLoad \<Rightarrow>
             tray_set_state TrPrompting
               (a\<lparr>ua_prompts := fixture_prompts, ua_alert := Some (from_prompt (hd fixture_prompts)),
                  ua_log := fixture_log, ua_section := SecEvents, ua_tray_state := TrPrompting\<rparr>))"

definition attach_filter_input :: "ui_app \<Rightarrow> ui_app" where
  "attach_filter_input a =
     a\<lparr>ua_filter_input := (case ua_filter_input a of None \<Rightarrow> Some [] | t \<Rightarrow> t),
       ua_custom_limit_input := (case ua_custom_limit_input a of None \<Rightarrow> Some [] | t \<Rightarrow> t)\<rparr>"

definition build_root :: "'d ui_env \<Rightarrow> 'd \<Rightarrow> string \<Rightarrow> rss_probe_mode option \<Rightarrow> bool \<Rightarrow> ui_app" where
  "build_root E d socket probe has_tray =
     (let a = attach_filter_input (ui_App_new E d socket has_tray)
      in case probe of Some mode \<Rightarrow> apply_rss_probe mode a | None \<Rightarrow> a)"

section \<open>Poll\<close>

fun audit_event_log :: "audit_event \<Rightarrow> log_buffer \<Rightarrow> log_buffer" where
  "audit_event_log AuReady b = set_subscribed True b"
| "audit_event_log (AuRecord record) b = push_line (asr_sequence record) (asr_message record) b"
| "audit_event_log (AuDown _) b = set_subscribed False b"

definition drain_audit_events :: "ui_app \<Rightarrow> ui_app" where
  "drain_audit_events a = a\<lparr>ua_log := fold audit_event_log (ua_audit a) (ua_log a), ua_audit := []\<rparr>"

definition take_confirm :: "ui_app \<Rightarrow> ui_app" where
  "take_confirm a =
     (let (kind, cell) = confirm_take (ua_confirm a); a = a\<lparr>ua_confirm := cell\<rparr>
      in case kind of
           None \<Rightarrow> a
         | Some kind \<Rightarrow> if kind = OpenTraffic then a\<lparr>ua_section := SecTraffic\<rparr> else a\<lparr>ua_fw_confirm := Some kind\<rparr>)"

definition apply_snapshot :: "poll_snapshot \<Rightarrow> ui_app \<Rightarrow> ui_app" where
  "apply_snapshot snap a =
     (let a = a\<lparr>ua_prompts := ps_prompts snap, ua_rules := ps_rules snap, ua_processes := ps_processes snap,
            ua_network := ps_network snap, ua_stats_summary := ps_stats_summary snap,
            ua_stats_hosts := ps_stats_hosts snap, ua_stats_procs := ps_stats_procs snap,
            ua_stats_addrs := ps_stats_addrs snap, ua_stats_ports := ps_stats_ports snap,
            ua_stats_users := ps_stats_users snap\<rparr>;
          a = (case ua_selected_rule a of
                 Some i \<Rightarrow> if list_ex (\<lambda>row. rr_id row = i) (ua_rules a) then a else a\<lparr>ua_selected_rule := None\<rparr>
               | None \<Rightarrow> a);
          a = (case ua_selected_process a of
                 Some key \<Rightarrow>
                   if list_ex (\<lambda>row. pr_pid row = fst key \<and> pr_start_ticks row = snd key) (ua_processes a) then a
                   else a\<lparr>ua_selected_process := None\<rparr>
               | None \<Rightarrow> a);
          a = a\<lparr>ua_alert := advance (ua_alert a) (ua_prompts a)\<rparr>;
          next = TrayState_from_link (ua_link a)
      in if next \<noteq> ua_tray_state a then tray_set_state next (a\<lparr>ua_tray_state := next\<rparr>) else a)"

definition daemon_metrics :: "daemon_link \<Rightarrow> (u32 \<times> u64 \<times> u64) option" where
  "daemon_metrics link =
     (case link of
        UiUp status _ \<Rightarrow>
          (case (ds_pid status, ds_rss_kib status, ds_cpu_jiffies status) of
             (Some pid, Some rss_kib, Some cpu_jiffies) \<Rightarrow> Some (pid, rss_kib, cpu_jiffies)
           | _ \<Rightarrow> None)
      | UiDown _ \<Rightarrow> None)"

definition refresh_from_daemon :: "'d ui_env \<Rightarrow> ui_app \<times> 'd \<Rightarrow> ui_app \<times> 'd" where
  "refresh_from_daemon E = (\<lambda>(a, d).
     let a = drain_audit_events (take_confirm a);
         (snap, d) = poll_snapshot_of (ue_exch E) d;
         a = a\<lparr>ua_link := ps_link snap,
           ua_profiler := refresh_profiling (ue_now E d) (ue_sample E d) (daemon_metrics (ps_link snap)) (ua_profiler a)\<rparr>
     in (if ua_rss_probe a \<noteq> Some ProbePromptLoad then apply_snapshot snap a else a, d))"

section \<open>Navigation and filter\<close>

definition ui_select :: "ui_section \<Rightarrow> ui_app \<Rightarrow> ui_app" where
  "ui_select s a = a\<lparr>ua_section := s, ua_menu_open := False, ua_verdict_select_open := False, ua_limit_select_open := False\<rparr>"

definition toggle_app_menu :: "ui_app \<Rightarrow> ui_app" where
  "toggle_app_menu a =
     a\<lparr>ua_menu_open := \<not> ua_menu_open a, ua_verdict_select_open := False, ua_limit_select_open := False\<rparr>"

definition focus_main_window :: "ui_app \<Rightarrow> ui_app" where
  "focus_main_window a = a\<lparr>ua_section := SecEvents, ua_menu_open := False, ua_preferences_open := False\<rparr>"

definition open_preferences :: "ui_app \<Rightarrow> ui_app" where
  "open_preferences a = a\<lparr>ua_preferences_open := True, ua_section := SecPreferences, ua_menu_open := False\<rparr>"

definition close_preferences :: "ui_app \<Rightarrow> ui_app" where
  "close_preferences a =
     (let a = a\<lparr>ua_preferences_open := False\<rparr>
      in if ua_section a = SecPreferences then a\<lparr>ua_section := SecEvents\<rparr> else a)"

definition open_about :: "ui_app \<Rightarrow> ui_app" where
  "open_about a = a\<lparr>ua_about_open := True, ua_menu_open := False\<rparr>"

definition close_about :: "ui_app \<Rightarrow> ui_app" where
  "close_about a = a\<lparr>ua_about_open := False\<rparr>"

definition quit_app :: "ui_app \<Rightarrow> ui_app" where
  "quit_app a = a\<lparr>ua_menu_open := False\<rparr>"

text \<open>\<open>open_network\<close> and \<open>open_profiling\<close>.\<close>

definition open_secondary :: "ui_section \<Rightarrow> ui_app \<Rightarrow> ui_app" where
  "open_secondary s a = a\<lparr>ua_section := s, ua_menu_open := False\<rparr>"

definition toggle_verdict_select :: "ui_app \<Rightarrow> ui_app" where
  "toggle_verdict_select a =
     a\<lparr>ua_verdict_select_open := \<not> ua_verdict_select_open a, ua_limit_select_open := False, ua_menu_open := False\<rparr>"

definition toggle_limit_select :: "ui_app \<Rightarrow> ui_app" where
  "toggle_limit_select a =
     a\<lparr>ua_limit_select_open := \<not> ua_limit_select_open a, ua_verdict_select_open := False, ua_menu_open := False\<rparr>"

text \<open>The handlers \<open>set_filter_verdict_all\<close> to \<open>set_filter_verdict_prompt\<close>.\<close>

definition set_filter_verdict :: "verdict_filter \<Rightarrow> ui_app \<Rightarrow> ui_app" where
  "set_filter_verdict v a = a\<lparr>ua_filter := (ua_filter a)\<lparr>lf_verdict := v\<rparr>, ua_verdict_select_open := False\<rparr>"

text \<open>The handlers \<open>set_filter_limit_50\<close> to \<open>set_filter_limit_all\<close>, by the entry of the menu.\<close>

datatype limit_entry = Limit50 | Limit100 | Limit200 | Limit300 | LimitEntryAll

fun entry_limit :: "limit_entry \<Rightarrow> result_limit" where
  "entry_limit Limit50 = LimitPreset 50"
| "entry_limit Limit100 = LimitPreset 100"
| "entry_limit Limit200 = LimitPreset 200"
| "entry_limit Limit300 = LimitPreset 300"
| "entry_limit LimitEntryAll = LimitAll"

definition set_filter_limit :: "limit_entry \<Rightarrow> ui_app \<Rightarrow> ui_app" where
  "set_filter_limit e a = a\<lparr>ua_filter := (ua_filter a)\<lparr>lf_limit := entry_limit e\<rparr>, ua_limit_select_open := False\<rparr>"

definition set_filter_limit_custom :: "ui_app \<Rightarrow> ui_app" where
  "set_filter_limit_custom a =
     (let a = a\<lparr>ua_filter := (ua_filter a)\<lparr>lf_limit := LimitCustom (ResultLimit_effective (lf_limit (ua_filter a)))\<rparr>,
            ua_limit_select_open := False\<rparr>
      in a\<lparr>ua_custom_limit_input :=
           map_option (\<lambda>_. show_nat (ResultLimit_effective (lf_limit (ua_filter a)))) (ua_custom_limit_input a)\<rparr>)"

definition clamp :: "nat \<Rightarrow> nat \<Rightarrow> nat \<Rightarrow> nat" where
  "clamp lo hi n = (if n < lo then lo else if hi < n then hi else n)"

definition apply_custom_limit :: "ui_app \<Rightarrow> ui_app" where
  "apply_custom_limit a =
     (let raw = (case ua_custom_limit_input a of Some t \<Rightarrow> t | None \<Rightarrow> []);
          parsed = clamp 1 2000 (case parse_usize (trim raw) of Some n \<Rightarrow> n | None \<Rightarrow> 100)
      in a\<lparr>ua_filter := (ua_filter a)\<lparr>lf_limit := LimitCustom parsed\<rparr>\<rparr>)"

definition clear_list_filter :: "ui_app \<Rightarrow> ui_app" where
  "clear_list_filter a =
     a\<lparr>ua_filter := ListFilter_clear (ua_filter a), ua_verdict_select_open := False, ua_limit_select_open := False,
       ua_filter_input := map_option (\<lambda>_. []) (ua_filter_input a)\<rparr>"

definition filter_text_from_input :: "ui_app \<Rightarrow> string" where
  "filter_text_from_input a = (case ua_filter_input a of Some t \<Rightarrow> t | None \<Rightarrow> [])"

text \<open>The filter a frame is drawn with, and the counts of its filter bar.\<close>

definition render_filter :: "ui_app \<Rightarrow> list_filter" where
  "render_filter a = (ua_filter a)\<lparr>lf_text := filter_text_from_input a\<rparr>"

definition filter_counts_for :: "ui_app \<Rightarrow> usize \<times> usize" where
  "filter_counts_for a =
     (let f = render_filter a
      in case ua_section a of
           SecEvents \<Rightarrow> events_filter_counts (LogBuffer_lines (ua_log a)) f
         | SecRules \<Rightarrow> rules_filter_counts (ua_rules a) f
         | SecHosts \<Rightarrow> stats_filter_counts (ua_stats_hosts a) f
         | SecAddresses \<Rightarrow> stats_filter_counts (ua_stats_addrs a) f
         | SecPorts \<Rightarrow> stats_filter_counts (ua_stats_ports a) f
         | SecUsers \<Rightarrow> stats_filter_counts (ua_stats_users a) f
         | _ \<Rightarrow> (0, 0))"

definition set_chrome_preference :: "chrome_preference \<Rightarrow> ui_app \<Rightarrow> ui_app" where
  "set_chrome_preference preference a = a\<lparr>ua_chrome_pref := preference\<rparr>"

section \<open>Selection and alert\<close>

definition select_rule :: "u64 \<Rightarrow> ui_app \<Rightarrow> ui_app" where
  "select_rule i a = a\<lparr>ua_selected_rule := Some i\<rparr>"

definition select_process :: "u32 \<Rightarrow> u64 \<Rightarrow> ui_app \<Rightarrow> ui_app" where
  "select_process pid start_ticks a = a\<lparr>ua_selected_process := Some (pid, start_ticks), ua_viewer_message := None\<rparr>"

definition open_process_viewer :: "'d ui_env \<Rightarrow> process_viewer \<Rightarrow> u32 \<Rightarrow> ui_app \<Rightarrow> ui_app" where
  "open_process_viewer E viewer pid a =
     a\<lparr>ua_viewer_message := Some (case try_open_viewer (ue_on_path E) (ue_spawn E) viewer pid of
          Inr _ \<Rightarrow> ''opened '' @ ProcessViewer_label viewer @ '' for pid '' @ show_word pid
        | Inl message \<Rightarrow> message)\<rparr>"

definition select_log_row :: "usize \<Rightarrow> ui_app \<Rightarrow> ui_app" where
  "select_log_row index a = a\<lparr>ua_log := LogBuffer_select index (ua_log a)\<rparr>"

definition set_scope :: "alert_scope \<Rightarrow> ui_app \<Rightarrow> ui_app" where
  "set_scope scope a = a\<lparr>ua_alert := map_option (\<lambda>alert. alert\<lparr>ca_scope := scope\<rparr>) (ua_alert a)\<rparr>"

definition toggle_details :: "ui_app \<Rightarrow> ui_app" where
  "toggle_details a =
     a\<lparr>ua_alert := map_option (\<lambda>alert. alert\<lparr>ca_details_open := \<not> ca_details_open alert\<rparr>) (ua_alert a)\<rparr>"

definition submit_verdict :: "'d ui_env \<Rightarrow> alert_verdict \<Rightarrow> ui_app \<times> 'd \<Rightarrow> ui_app \<times> 'd" where
  "submit_verdict E verdict = (\<lambda>(a, d).
     case Option.bind (ua_alert a) (answer_frame verdict) of
       None \<Rightarrow> (a, d)
     | Some frame \<Rightarrow>
         (case send_expect_pong (ue_exch E) frame d of
            (Inr _, d) \<Rightarrow> refresh_from_daemon E (a\<lparr>ua_alert := None\<rparr>, d)
          | (Inl message, d) \<Rightarrow>
              (a\<lparr>ua_alert := map_option (\<lambda>alert. alert\<lparr>ca_status_message := Some message\<rparr>) (ua_alert a)\<rparr>, d)))"

section \<open>Rules\<close>

definition begin_add_rule :: "ui_app \<Rightarrow> ui_app" where
  "begin_add_rule a =
     (if ua_add_form a \<noteq> None then a
      else a\<lparr>ua_add_form := Some \<lparr>uf_id = show_word (ui_next_rule_id (ua_rules a)), uf_executable = [],
               uf_port = ''443'', uf_verdict = RvDeny, uf_error = None\<rparr>,
             ua_rules_message := None\<rparr>)"

definition cancel_add_rule :: "ui_app \<Rightarrow> ui_app" where
  "cancel_add_rule a = a\<lparr>ua_add_form := None\<rparr>"

definition set_add_verdict :: "rule_verdict_chip \<Rightarrow> ui_app \<Rightarrow> ui_app" where
  "set_add_verdict verdict a = a\<lparr>ua_add_form := map_option (\<lambda>form. form\<lparr>uf_verdict := verdict\<rparr>) (ua_add_form a)\<rparr>"

definition form_error :: "string \<Rightarrow> ui_app \<Rightarrow> ui_app" where
  "form_error message a = a\<lparr>ua_add_form := map_option (\<lambda>form. form\<lparr>uf_error := Some message\<rparr>) (ua_add_form a)\<rparr>"

definition submit_add_rule :: "'d ui_env \<Rightarrow> ui_app \<times> 'd \<Rightarrow> ui_app \<times> 'd" where
  "submit_add_rule E = (\<lambda>(a, d).
     case ua_add_form a of
       None \<Rightarrow> (a, d)
     | Some form \<Rightarrow>
         (case validate_new_rule (uf_id form) (uf_executable form) (uf_verdict form) (uf_port form) of
            Inl message \<Rightarrow> (form_error message a, d)
          | Inr parsed \<Rightarrow>
              (case ui_add_rule (ue_exch E) (nw_id parsed) (nw_executable parsed) (nw_verdict parsed) (nw_port parsed) d of
                 (Inr _, d) \<Rightarrow>
                   refresh_from_daemon E
                     (a\<lparr>ua_add_form := None, ua_selected_rule := Some (nw_id parsed),
                        ua_rules_message := Some (''added rule '' @ show_word (nw_id parsed))\<rparr>, d)
               | (Inl message, d) \<Rightarrow> (form_error message a, d))))"

definition ui_delete_selected_rule :: "'d ui_env \<Rightarrow> ui_app \<times> 'd \<Rightarrow> ui_app \<times> 'd" where
  "ui_delete_selected_rule E = (\<lambda>(a, d).
     case ua_selected_rule a of
       None \<Rightarrow> (a, d)
     | Some i \<Rightarrow>
         (case ui_delete_rule (ue_exch E) i d of
            (Inr _, d) \<Rightarrow>
              refresh_from_daemon E
                (a\<lparr>ua_selected_rule := None, ua_rules_message := Some (''deleted rule '' @ show_word i)\<rparr>, d)
          | (Inl message, d) \<Rightarrow> (a\<lparr>ua_rules_message := Some message\<rparr>, d)))"

section \<open>Firewall, traffic and daemon\<close>

text \<open>The shape these handlers share: a message and a poll on success, the error text otherwise.\<close>

definition network_action ::
    "'d ui_env \<Rightarrow> ('d \<Rightarrow> (string + unit) \<times> 'd) \<Rightarrow> string \<Rightarrow> ui_app \<times> 'd \<Rightarrow> ui_app \<times> 'd" where
  "network_action E act ok = (\<lambda>(a, d).
     case act d of
       (Inr _, d) \<Rightarrow> refresh_from_daemon E (a\<lparr>ua_network_message := Some ok\<rparr>, d)
     | (Inl message, d) \<Rightarrow> (a\<lparr>ua_network_message := Some message\<rparr>, d))"

definition install_network_table :: "'d ui_env \<Rightarrow> ui_app \<times> 'd \<Rightarrow> ui_app \<times> 'd" where
  "install_network_table E = network_action E (ui_install_network (ue_exch E)) ''installed InterFire nftables table''"

definition remove_network_table :: "'d ui_env \<Rightarrow> ui_app \<times> 'd \<Rightarrow> ui_app \<times> 'd" where
  "remove_network_table E = network_action E (ui_remove_network (ue_exch E)) ''removed InterFire nftables table''"

definition refresh_network_status :: "'d ui_env \<Rightarrow> ui_app \<times> 'd \<Rightarrow> ui_app \<times> 'd" where
  "refresh_network_status E = (\<lambda>(a, d). refresh_from_daemon E (a\<lparr>ua_network_message := None\<rparr>, d))"

definition pause_firewall :: "'d ui_env \<Rightarrow> ui_app \<times> 'd \<Rightarrow> ui_app \<times> 'd" where
  "pause_firewall E = network_action E (ui_pause (ue_exch E)) ''rules paused''"

definition resume_firewall :: "'d ui_env \<Rightarrow> ui_app \<times> 'd \<Rightarrow> ui_app \<times> 'd" where
  "resume_firewall E = network_action E (ui_resume (ue_exch E))
     ''rules started (stop other queue firewalls first if present)''"

definition block_traffic :: "'d ui_env \<Rightarrow> ui_app \<times> 'd \<Rightarrow> ui_app \<times> 'd" where
  "block_traffic E = (\<lambda>(a, d).
     network_action E
       (if ua_traffic_scope_machine a
        then traffic_block_machine (ue_pkexec E) (ua_socket a) (ua_traffic_direction a)
        else ui_traffic_block (ue_exch E) ''user'' (ua_traffic_direction a))
       (''traffic blocked ('' @ (if ua_traffic_scope_machine a then ''machine'' else ''user'') @ '')'') (a, d))"

definition unblock_traffic :: "'d ui_env \<Rightarrow> ui_app \<times> 'd \<Rightarrow> ui_app \<times> 'd" where
  "unblock_traffic E = (\<lambda>(a, d).
     network_action E
       (if ua_traffic_scope_machine a then traffic_unblock_machine (ue_pkexec E) (ua_socket a)
        else ui_traffic_unblock (ue_exch E) ''user'')
       ''traffic unblocked'' (a, d))"

definition ui_stop_daemon :: "'d ui_env \<Rightarrow> ui_app \<times> 'd \<Rightarrow> ui_app \<times> 'd" where
  "ui_stop_daemon E = network_action E (service_stop_daemon (ue_pkexec E))
     ''daemon stop requested (Traffic Block may remain in kernel)''"

definition ui_start_daemon :: "'d ui_env \<Rightarrow> ui_app \<times> 'd \<Rightarrow> ui_app \<times> 'd" where
  "ui_start_daemon E = network_action E (service_start_daemon (ue_pkexec E)) ''daemon start requested''"

definition set_traffic_scope :: "bool \<Rightarrow> ui_app \<Rightarrow> ui_app" where
  "set_traffic_scope machine a = a\<lparr>ua_traffic_scope_machine := machine\<rparr>"

datatype traffic_direction_button = DirOut | DirIn | DirAll

fun direction_text :: "traffic_direction_button \<Rightarrow> string" where
  "direction_text DirOut = ''out''"
| "direction_text DirIn = ''in''"
| "direction_text DirAll = ''all''"

text \<open>The handlers \<open>set_traffic_direction_out\<close> to \<open>set_traffic_direction_all\<close>.\<close>

definition set_traffic_direction :: "traffic_direction_button \<Rightarrow> ui_app \<Rightarrow> ui_app" where
  "set_traffic_direction b a = a\<lparr>ua_traffic_direction := direction_text b\<rparr>"

text \<open>The handlers that ask for a confirmation, by the button pressed.\<close>

datatype confirm_button = AskPause | AskResume | AskBlock | AskUnblock | AskStop | AskStart

fun button_confirm :: "confirm_button \<Rightarrow> confirm_kind" where
  "button_confirm AskPause = RulesPause"
| "button_confirm AskResume = RulesResume"
| "button_confirm AskBlock = ConfirmTrafficBlock"
| "button_confirm AskUnblock = ConfirmTrafficUnblock"
| "button_confirm AskStop = DaemonStop"
| "button_confirm AskStart = DaemonStart"

definition request_confirm :: "confirm_button \<Rightarrow> ui_app \<Rightarrow> ui_app" where
  "request_confirm b a = a\<lparr>ua_fw_confirm := Some (button_confirm b)\<rparr>"

definition open_traffic_tab :: "ui_app \<Rightarrow> ui_app" where
  "open_traffic_tab a = a\<lparr>ua_section := SecTraffic\<rparr>"

definition cancel_fw_confirm :: "ui_app \<Rightarrow> ui_app" where
  "cancel_fw_confirm a = a\<lparr>ua_fw_confirm := None\<rparr>"

definition confirm_fw_action :: "'d ui_env \<Rightarrow> ui_app \<times> 'd \<Rightarrow> ui_app \<times> 'd" where
  "confirm_fw_action E = (\<lambda>(a, d).
     let kind = ua_fw_confirm a; st = (a\<lparr>ua_fw_confirm := None\<rparr>, d)
     in case kind of
          Some RulesPause \<Rightarrow> pause_firewall E st
        | Some RulesResume \<Rightarrow> resume_firewall E st
        | Some ConfirmTrafficBlock \<Rightarrow> block_traffic E st
        | Some ConfirmTrafficUnblock \<Rightarrow> unblock_traffic E st
        | Some DaemonStop \<Rightarrow> ui_stop_daemon E st
        | Some DaemonStart \<Rightarrow> ui_start_daemon E st
        | Some OpenTraffic \<Rightarrow> st
        | None \<Rightarrow> st)"

end
