(* ===== verification/UiRun.thy ===== *)
theory UiRun
  imports UiApp
begin

text \<open>
  What holds in every run of the desktop client. An input is a call of one of the handlers of
  \<open>UiApp\<close> by a view, the poll timer, the tray (\<open>spawn_tray_action_loop\<close> of \<open>ui/src/main.rs\<close>), the audit
  thread, or the keyboard in an input field; a run is a list of inputs in any order.
\<close>

section \<open>Inputs\<close>

datatype ui_input =
    UiTick
  | UiTray "tray_action list"
  | UiAudit audit_event
  | UiTypeFilter string
  | UiTypeLimit string
  | UiTypeRule "string \<times> string \<times> string"
  | UiSelect ui_section
  | UiToggleMenu | UiFocusMain | UiOpenPreferences | UiClosePreferences | UiOpenAbout | UiCloseAbout | UiQuit
  | UiOpenSecondary ui_section
  | UiToggleVerdict | UiToggleLimit
  | UiFilterVerdict verdict_filter
  | UiFilterLimit limit_entry
  | UiFilterCustom | UiApplyCustom | UiClearFilter
  | UiChrome chrome_preference
  | UiSelectRule u64
  | UiSelectProcess u32 u64
  | UiViewer process_viewer u32
  | UiLogRow usize
  | UiScope alert_scope
  | UiDetails
  | UiVerdict alert_verdict
  | UiBeginAdd | UiCancelAdd
  | UiAddVerdict rule_verdict_chip
  | UiSubmitAdd | UiDeleteRule
  | UiInstall | UiRemove | UiRefreshNetwork
  | UiAsk confirm_button
  | UiOpenTraffic
  | UiTrafficScope bool
  | UiTrafficDirection traffic_direction_button
  | UiCancelConfirm | UiConfirm

definition type_rule :: "string \<times> string \<times> string \<Rightarrow> ui_app \<Rightarrow> ui_app" where
  "type_rule = (\<lambda>(i, executable, port) a.
     a\<lparr>ua_add_form := map_option (\<lambda>form. form\<lparr>uf_id := i, uf_executable := executable, uf_port := port\<rparr>) (ua_add_form a)\<rparr>)"

fun ui_local :: "'d ui_env \<Rightarrow> ui_input \<Rightarrow> ui_app \<Rightarrow> ui_app" where
  "ui_local E (UiTray actions) a = a\<lparr>ua_confirm := snd (snd (tray_actions actions False (ua_confirm a)))\<rparr>"
| "ui_local E (UiAudit e) a = a\<lparr>ua_audit := ua_audit a @ [e]\<rparr>"
| "ui_local E (UiTypeFilter t) a = a\<lparr>ua_filter_input := map_option (\<lambda>_. t) (ua_filter_input a)\<rparr>"
| "ui_local E (UiTypeLimit t) a = a\<lparr>ua_custom_limit_input := map_option (\<lambda>_. t) (ua_custom_limit_input a)\<rparr>"
| "ui_local E (UiTypeRule t) a = type_rule t a"
| "ui_local E (UiSelect s) a = ui_select s a"
| "ui_local E UiToggleMenu a = toggle_app_menu a"
| "ui_local E UiFocusMain a = focus_main_window a"
| "ui_local E UiOpenPreferences a = open_preferences a"
| "ui_local E UiClosePreferences a = close_preferences a"
| "ui_local E UiOpenAbout a = open_about a"
| "ui_local E UiCloseAbout a = close_about a"
| "ui_local E UiQuit a = quit_app a"
| "ui_local E (UiOpenSecondary s) a = open_secondary s a"
| "ui_local E UiToggleVerdict a = toggle_verdict_select a"
| "ui_local E UiToggleLimit a = toggle_limit_select a"
| "ui_local E (UiFilterVerdict v) a = set_filter_verdict v a"
| "ui_local E (UiFilterLimit e) a = set_filter_limit e a"
| "ui_local E UiFilterCustom a = set_filter_limit_custom a"
| "ui_local E UiApplyCustom a = apply_custom_limit a"
| "ui_local E UiClearFilter a = clear_list_filter a"
| "ui_local E (UiChrome p) a = set_chrome_preference p a"
| "ui_local E (UiSelectRule i) a = select_rule i a"
| "ui_local E (UiSelectProcess pid t) a = select_process pid t a"
| "ui_local E (UiViewer v pid) a = open_process_viewer E v pid a"
| "ui_local E (UiLogRow i) a = select_log_row i a"
| "ui_local E (UiScope s) a = set_scope s a"
| "ui_local E UiDetails a = toggle_details a"
| "ui_local E UiBeginAdd a = begin_add_rule a"
| "ui_local E UiCancelAdd a = cancel_add_rule a"
| "ui_local E (UiAddVerdict v) a = set_add_verdict v a"
| "ui_local E (UiAsk b) a = request_confirm b a"
| "ui_local E UiOpenTraffic a = open_traffic_tab a"
| "ui_local E (UiTrafficScope m) a = set_traffic_scope m a"
| "ui_local E (UiTrafficDirection b) a = set_traffic_direction b a"
| "ui_local E UiCancelConfirm a = cancel_fw_confirm a"
| "ui_local E x a = a"

fun ui_step :: "'d ui_env \<Rightarrow> ui_input \<Rightarrow> ui_app \<times> 'd \<Rightarrow> ui_app \<times> 'd" where
  "ui_step E UiTick st = refresh_from_daemon E st"
| "ui_step E (UiVerdict v) st = submit_verdict E v st"
| "ui_step E UiSubmitAdd st = submit_add_rule E st"
| "ui_step E UiDeleteRule st = ui_delete_selected_rule E st"
| "ui_step E UiInstall st = install_network_table E st"
| "ui_step E UiRemove st = remove_network_table E st"
| "ui_step E UiRefreshNetwork st = refresh_network_status E st"
| "ui_step E UiConfirm st = confirm_fw_action E st"
| "ui_step E x st = (ui_local E x (fst st), snd st)"

section \<open>Invariant\<close>

text \<open>
  The log is bounded and its selection valid; the direction is one of the three; the confirmation is
  one that has an action; the limit shows at least one row; the tray shows the state derived from
  the last poll, and the alert is answerable exactly when the polled list holds an answerable
  prompt, of which it is one. The last two are suspended by the memory probe.
\<close>

definition alert_live :: "connection_alert option \<Rightarrow> prompt_row list \<Rightarrow> bool" where
  "alert_live alert prompts \<longleftrightarrow>
     (case alert of
        None \<Rightarrow> \<not> list_ex PromptRow_can_answer prompts
      | Some al \<Rightarrow> can_submit al = list_ex PromptRow_can_answer prompts \<and>
          (\<not> can_submit al \<or> ca_prompt al \<in> set prompts))"

definition ui_wf :: "ui_app \<Rightarrow> bool" where
  "ui_wf a \<longleftrightarrow>
     log_wf (ua_log a) \<and> ua_traffic_direction a \<in> {''out'', ''in'', ''all''} \<and> ua_fw_confirm a \<noteq> Some OpenTraffic \<and>
     1 \<le> ResultLimit_effective (lf_limit (ua_filter a)) \<and>
     ua_tray a \<in> {None, Some (ua_tray_state a)} \<and>
     (ua_rss_probe a = Some ProbePromptLoad \<or>
      ua_tray_state a = TrayState_from_link (ua_link a) \<and> alert_live (ua_alert a) (ua_prompts a))"

lemma advance_live: "alert_live (advance current prompts) prompts"
proof (cases "advance current prompts")
  case None
  then have "find PromptRow_can_answer prompts = None"
    by (auto simp: advance_def Let_def split: option.splits if_splits)
  then show ?thesis using None by (auto simp: alert_live_def find_None_iff list_ex_iff)
next
  case (Some al)
  then show ?thesis using advance_Some [OF Some] by (auto simp: alert_live_def)
qed

lemma audit_log_wf: "log_wf b \<Longrightarrow> log_wf (fold audit_event_log evs b)"
proof (induction evs arbitrary: b)
  case (Cons e evs)
  then show ?case by (cases e) (simp_all add: push_line_wf, simp_all add: set_subscribed_def log_wf_def)
qed simp

text \<open>Only these fields matter for the invariant.\<close>

lemma ui_wf_cong:
  assumes "ui_wf a" "ua_log b = ua_log a" "ua_traffic_direction b = ua_traffic_direction a"
    "ua_fw_confirm b = ua_fw_confirm a" "lf_limit (ua_filter b) = lf_limit (ua_filter a)" "ua_tray b = ua_tray a"
    "ua_tray_state b = ua_tray_state a" "ua_rss_probe b = ua_rss_probe a" "ua_link b = ua_link a"
    "ua_alert b = ua_alert a" "ua_prompts b = ua_prompts a"
  shows "ui_wf b"
  using assms by (simp add: ui_wf_def)

lemma take_confirm_wf: "ui_wf a \<Longrightarrow> ui_wf (take_confirm a)"
  by (cases "ua_confirm a") (simp_all add: take_confirm_def confirm_take_def ui_wf_def Let_def split: option.split)

lemma drain_wf: "ui_wf a \<Longrightarrow> ui_wf (drain_audit_events a)"
  by (simp add: drain_audit_events_def ui_wf_def audit_log_wf)

lemma apply_snapshot_fields:
  "ua_log (apply_snapshot snap a) = ua_log a" "ua_traffic_direction (apply_snapshot snap a) = ua_traffic_direction a"
  "ua_fw_confirm (apply_snapshot snap a) = ua_fw_confirm a" "ua_filter (apply_snapshot snap a) = ua_filter a"
  "ua_rss_probe (apply_snapshot snap a) = ua_rss_probe a" "ua_link (apply_snapshot snap a) = ua_link a"
  "ua_tray_state (apply_snapshot snap a) = TrayState_from_link (ua_link a)"
  "ua_prompts (apply_snapshot snap a) = ps_prompts snap" "ua_rules (apply_snapshot snap a) = ps_rules snap"
  "ua_processes (apply_snapshot snap a) = ps_processes snap"
  "ua_alert (apply_snapshot snap a) = advance (ua_alert a) (ps_prompts snap)"
  "ua_tray (apply_snapshot snap a) =
     (if ua_tray_state a = TrayState_from_link (ua_link a) then ua_tray a
      else map_option (\<lambda>_. TrayState_from_link (ua_link a)) (ua_tray a))"
  by (simp_all add: apply_snapshot_def tray_set_state_def Let_def split: option.splits)

lemma refresh_wf:
  assumes "ui_wf a \<or> ui_wf (a\<lparr>ua_alert := al\<rparr>)"
  shows "ui_wf (fst (refresh_from_daemon E (a, d)))"
proof -
  let ?b = "drain_audit_events (take_confirm a)"
  have wf: "ui_wf ?b \<or> ui_wf (?b\<lparr>ua_alert := al\<rparr>)"
  proof (rule disjE [OF assms])
    assume "ui_wf (a\<lparr>ua_alert := al\<rparr>)"
    then have "ui_wf (drain_audit_events (take_confirm (a\<lparr>ua_alert := al\<rparr>)))" by (intro drain_wf take_confirm_wf)
    moreover have "drain_audit_events (take_confirm (a\<lparr>ua_alert := al\<rparr>)) = ?b\<lparr>ua_alert := al\<rparr>"
      by (simp add: drain_audit_events_def take_confirm_def case_prod_unfold Let_def split: option.split)
    ultimately show ?thesis by simp
  qed (simp add: drain_wf take_confirm_wf)
  obtain snap d' where p: "poll_snapshot_of (ue_exch E) d = (snap, d')" by fastforce
  show ?thesis
  proof (cases "ua_rss_probe ?b = Some ProbePromptLoad")
    case True
    then show ?thesis using wf by (auto simp: refresh_from_daemon_def p ui_wf_def Let_def)
  next
    case False
    then show ?thesis
      using wf by (auto simp: refresh_from_daemon_def p Let_def ui_wf_def apply_snapshot_fields advance_live)
  qed
qed

lemmas ui_edits = type_rule_def ui_select_def toggle_app_menu_def focus_main_window_def open_preferences_def
  close_preferences_def open_about_def close_about_def quit_app_def open_secondary_def toggle_verdict_select_def
  toggle_limit_select_def set_filter_verdict_def set_chrome_preference_def select_rule_def select_process_def
  open_process_viewer_def begin_add_rule_def cancel_add_rule_def set_add_verdict_def open_traffic_tab_def
  set_traffic_scope_def form_error_def

lemmas ui_filters = set_filter_limit_def set_filter_limit_custom_def apply_custom_limit_def clear_list_filter_def
  ListFilter_clear_def ListFilter_default_def ResultLimit_default_def clamp_def FILTER_HARD_CAP_def

lemma alert_live_edit:
  "alert_live (map_option (\<lambda>al. al\<lparr>ca_scope := s\<rparr>) alert) prompts = alert_live alert prompts"
  "alert_live (map_option (\<lambda>al. al\<lparr>ca_details_open := f al\<rparr>) alert) prompts = alert_live alert prompts"
  "alert_live (map_option (\<lambda>al. al\<lparr>ca_status_message := m\<rparr>) alert) prompts = alert_live alert prompts"
  by (cases alert; simp add: alert_live_def can_submit_def)+

lemma button_confirm_action: "button_confirm b \<noteq> OpenTraffic"
  by (cases b) simp_all

lemma entry_limit_pos: "1 \<le> ResultLimit_effective (entry_limit e)"
  by (cases e) (simp_all add: FILTER_HARD_CAP_def)

lemma ui_local_wf: "ui_wf a \<Longrightarrow> ui_wf (ui_local E x a)"
proof (cases x)
  case (UiFilterLimit e)
  assume "ui_wf a"
  then show ?thesis using entry_limit_pos [of e] by (simp add: UiFilterLimit set_filter_limit_def ui_wf_def)
next
  case (UiLogRow i)
  assume "ui_wf a"
  then show ?thesis
    using log_step_wf [of "ua_log a" "LogSelect i"] by (simp add: UiLogRow select_log_row_def ui_wf_def)
next
  case (UiTrafficDirection b)
  assume "ui_wf a"
  then show ?thesis by (cases b) (simp_all add: UiTrafficDirection set_traffic_direction_def ui_wf_def)
qed (simp_all add: ui_wf_def ui_edits ui_filters set_scope_def toggle_details_def alert_live_edit
      request_confirm_def button_confirm_action cancel_fw_confirm_def Let_def case_prod_unfold)

lemma ui_wf_messages [simp]:
  "ui_wf (a\<lparr>ua_network_message := m\<rparr>) = ui_wf a" "ui_wf (a\<lparr>ua_rules_message := m\<rparr>) = ui_wf a"
  "ui_wf (a\<lparr>ua_add_form := form\<rparr>) = ui_wf a" "ui_wf (a\<lparr>ua_selected_rule := i\<rparr>) = ui_wf a"
  "ui_wf (form_error t a) = ui_wf a"
  by (simp_all add: ui_wf_def form_error_def)

lemma network_action_wf: "ui_wf a \<Longrightarrow> ui_wf (fst (network_action E act ok (a, d)))"
  by (simp add: network_action_def refresh_wf split: prod.split sum.split)

lemmas ui_network_actions = install_network_table_def remove_network_table_def pause_firewall_def resume_firewall_def
  block_traffic_def unblock_traffic_def ui_stop_daemon_def ui_start_daemon_def

lemma submit_verdict_wf: "ui_wf a \<Longrightarrow> ui_wf (fst (submit_verdict E v (a, d)))"
proof -
  assume wf: "ui_wf a"
  have "ui_wf (fst (refresh_from_daemon E (a\<lparr>ua_alert := None\<rparr>, d')))" for d'
    by (rule refresh_wf [of _ "ua_alert a"]) (simp add: wf)
  moreover have "ui_wf (a\<lparr>ua_alert := map_option (\<lambda>al. al\<lparr>ca_status_message := m\<rparr>) (ua_alert a)\<rparr>)" for m
    using wf by (simp add: ui_wf_def alert_live_edit)
  ultimately show ?thesis
    using wf by (simp add: submit_verdict_def split: option.split prod.split sum.split)
qed

lemma submit_add_wf: "ui_wf a \<Longrightarrow> ui_wf (fst (submit_add_rule E (a, d)))"
  by (simp add: submit_add_rule_def refresh_wf split: option.split prod.split sum.split)

lemma delete_wf: "ui_wf a \<Longrightarrow> ui_wf (fst (ui_delete_selected_rule E (a, d)))"
  by (simp add: ui_delete_selected_rule_def refresh_wf split: option.split prod.split sum.split)

lemma confirm_wf: "ui_wf a \<Longrightarrow> ui_wf (fst (confirm_fw_action E (a, d)))"
proof -
  assume "ui_wf a"
  then have "ui_wf (a\<lparr>ua_fw_confirm := None\<rparr>)" by (simp add: ui_wf_def)
  then show ?thesis
    by (auto simp: confirm_fw_action_def Let_def ui_network_actions network_action_wf
        split: option.split confirm_kind.split)
qed

interpretation desktop: bounded_machine "ui_step E" "\<lambda>st. ui_wf (fst st)" "\<lambda>_. LOG_MAX_AUDIT_LINES"
  "\<lambda>st. length (lb_lines (ua_log (fst st)))" for E
proof (unfold_locales, goal_cases)
  case (1 st x)
  obtain a d where st: "st = (a, d)" by (cases st)
  have "ui_wf (fst (refresh_network_status E (a, d)))"
    using 1 st by (simp add: refresh_network_status_def refresh_wf)
  then show ?case
    using 1 st
    by (cases x) (simp_all add: refresh_wf submit_verdict_wf submit_add_wf delete_wf confirm_wf
        ui_local_wf install_network_table_def remove_network_table_def network_action_wf del: ui_local.simps)
next
  case (3 st)
  then show ?case by (simp add: ui_wf_def log_wf_def)
qed simp

section \<open>Runs\<close>

lemma fixture_log_wf: "log_wf (fold (\<lambda>n. push_line (word_of_nat n) m) ns b)" if "log_wf b"
  using that by (induction ns arbitrary: b) (simp_all add: push_line_wf)

lemma build_root_wf: "ui_wf (build_root E d socket probe has_tray)"
proof -
  have log: "log_wf LogBuffer_new" by (simp add: log_wf_def LogBuffer_new_def)
  have "ui_wf (attach_filter_input (ui_App_new E d socket has_tray))" "ua_rss_probe (attach_filter_input (ui_App_new E d socket has_tray)) = None"
    by (simp_all add: attach_filter_input_def ui_App_new_def ui_wf_def log alert_live_def ListFilter_default_def
        ResultLimit_default_def FILTER_HARD_CAP_def)
  moreover from this(1,2) have "ui_wf (apply_rss_probe mode (attach_filter_input (ui_App_new E d socket has_tray)))" for mode
    using fixture_log_wf [OF log]
    by (cases mode) (auto simp: apply_rss_probe_def tray_set_state_def ui_wf_def fixture_log_def)
  ultimately show ?thesis by (simp add: build_root_def Let_def split: option.split)
qed

abbreviation ui_run :: "'d ui_env \<Rightarrow> string \<Rightarrow> rss_probe_mode option \<Rightarrow> bool \<Rightarrow> ui_input list \<Rightarrow> 'd \<Rightarrow> ui_app \<times> 'd" where
  "ui_run E socket probe has_tray xs d \<equiv> fold (ui_step E) xs (build_root E d socket probe has_tray, d)"


text \<open>
  C36: the desktop client answers only prompts that are still open. In every run without the memory
  probe, when the alert lets the operator submit, the prompt is in the list of the last poll and had
  time left there, and the frame sent is read by the daemon as the answer to that prompt with the
  verdict pressed and the scope chosen.
\<close>

theorem ui_answers_live_prompt:
  assumes "fst (ui_run E socket probe has_tray xs d) = a" "ua_rss_probe a \<noteq> Some ProbePromptLoad"
    and "ua_alert a = Some alert" "answer_frame verdict alert = Some frame"
  shows "ca_prompt alert \<in> set (ua_prompts a) \<and> PromptRow_can_answer (ca_prompt alert) \<and>
    Request_parse frame = Inr (PromptAnswer (pw_id (ca_prompt alert)) (AlertVerdict_as_str verdict) (AlertScope_as_str (ca_scope alert)))"
proof -
  have "ui_wf a"
    using desktop.run_wf [of "(build_root E d socket probe has_tray, d)" E xs] assms(1) by (auto simp: build_root_wf)
  moreover have sub: "can_submit alert"
    using assms(4) by (simp add: answer_frame_def split: if_splits)
  ultimately have "ca_prompt alert \<in> set (ua_prompts a)" "PromptRow_can_answer (ca_prompt alert)"
    using assms(2,3) by (auto simp: ui_wf_def alert_live_def can_submit_def)
  moreover have "token (AlertVerdict_as_str verdict)" "token (AlertScope_as_str (ca_scope alert))"
    by (cases verdict; cases "ca_scope alert"; simp add: token_literal plain_def)+
  then have "Request_parse (request_frame [''prompt-answer'', show_word (pw_id (ca_prompt alert)), AlertVerdict_as_str verdict,
      AlertScope_as_str (ca_scope alert)]) = Inr (PromptAnswer (pw_id (ca_prompt alert)) (AlertVerdict_as_str verdict) (AlertScope_as_str (ca_scope alert)))"
    by (intro Request_parse_prompt_answer) simp_all
  ultimately show ?thesis
    using assms(4) sub by (simp add: answer_frame_def request_frame_def)
qed

text \<open>
  After every poll the selections refer to what is shown. When a poll completes without the
  memory probe, a selected rule is one of the listed rules and a selected process one of the listed
  processes, the tray has been told the state of this poll, and nothing is left in the audit channel.
\<close>

theorem ui_poll_consistent:
  assumes "ui_wf a" "ua_rss_probe a \<noteq> Some ProbePromptLoad" "refresh_from_daemon E (a, d) = (b, d')"
  shows "(case ua_selected_rule b of None \<Rightarrow> True | Some i \<Rightarrow> i \<in> rr_id ` set (ua_rules b)) \<and>
    (case ua_selected_process b of None \<Rightarrow> True
     | Some key \<Rightarrow> key \<in> (\<lambda>row. (pr_pid row, pr_start_ticks row)) ` set (ua_processes b)) \<and>
    ua_tray b \<in> {None, Some (TrayState_from_link (ua_link b))} \<and> ua_audit b = []"
proof -
  obtain snap where p: "poll_snapshot_of (ue_exch E) d = (snap, d')"
    using assms(3) by (auto simp: refresh_from_daemon_def Let_def split: prod.splits)
  let ?a = "drain_audit_events (take_confirm a)"
  let ?c = "?a\<lparr>ua_link := ps_link snap, ua_profiler :=
    refresh_profiling (ue_now E d') (ue_sample E d') (daemon_metrics (ps_link snap)) (ua_profiler ?a)\<rparr>"
  have "ua_rss_probe ?c \<noteq> Some ProbePromptLoad"
    using assms(2) by (simp add: drain_audit_events_def take_confirm_def case_prod_unfold Let_def split: option.split)
  then have b: "b = apply_snapshot snap ?c" using assms(3) p by (simp add: refresh_from_daemon_def Let_def)
  have "ui_wf b" using refresh_wf [of a None E d] assms(1,3) by simp
  then have "ua_tray b \<in> {None, Some (TrayState_from_link (ua_link b))}"
    by (auto simp: ui_wf_def b apply_snapshot_fields)
  moreover have "ua_audit b = []"
    by (simp add: b apply_snapshot_def tray_set_state_def drain_audit_events_def Let_def split: option.split)
  moreover have "case ua_selected_rule b of None \<Rightarrow> True | Some i \<Rightarrow> i \<in> rr_id ` set (ua_rules b)"
    by (auto simp: b apply_snapshot_def tray_set_state_def Let_def list_ex_iff split: option.split)
  moreover have "case ua_selected_process b of None \<Rightarrow> True
     | Some key \<Rightarrow> key \<in> (\<lambda>row. (pr_pid row, pr_start_ticks row)) ` set (ua_processes b)"
    by (force simp: b apply_snapshot_def tray_set_state_def Let_def list_ex_iff split: option.split)
  ultimately show ?thesis by blast
qed

section \<open>Witnesses\<close>

definition exch_prompting :: "unit exchange" where
  "exch_prompting frame d =
     (if starts_with ''v1 status'' frame
      then Inr (''v1 status enforcement=nfqueue observation=ebpf ipc_version=1'' @ [NL])
      else if starts_with ''v1 prompt-list'' frame then Inr (''v1 prompts 4|/bin/x|1.2.3.4|443|tcp|30'' @ [NL])
      else Inl ''refused'', d)"

definition env_prompting :: "unit ui_env" where
  "env_prompting = \<lparr>ue_exch = exch_prompting, ue_pkexec = (\<lambda>_ d. (Inl ''none'', d)), ue_on_path = (\<lambda>_. False),
     ue_spawn = (\<lambda>_ _. False), ue_now = (\<lambda>_. 0), ue_sample = (\<lambda>_. Inl NotFound)\<rparr>"

definition prompt_four :: prompt_row where
  "prompt_four = \<lparr>pw_id = 4, pw_executable = ''/bin/x'', pw_destination = ''1.2.3.4'', pw_port = 443,
     pw_protocol = ''tcp'', pw_remaining_secs = 30\<rparr>"

lemmas prompting_eval = fetch_def one_shot_def exch_prompting_def MAX_FRAME_BYTES_def starts_with_def num_def
  parse_word_def parse_uint_def digit_val_def

lemma prompting_prompts: "ui_fetch_prompts exch_prompting () = (Inr [prompt_four], ())"
  by (simp add: prompting_eval ui_fetch_prompts_def PromptRow_parse_frame_def list_payload_def trim_crlf_def
      numeral_3_eq_3 check_version_def field_def PromptRow_parse_row_def prompt_four_def unwrap_or_def)

lemma prompting_status: "\<exists>st. ui_fetch_status exch_prompting () = (Inr st, ())"
proof -
  have "kv_fields ''status'' (join [SP] (''v1'' # ''status'' # [''enforcement=nfqueue'', ''observation=ebpf'', ''ipc_version=1'']) @ [NL]) =
      Inr [''enforcement=nfqueue'', ''observation=ebpf'', ''ipc_version=1'']"
    by (rule kv_fields_join) (auto simp: token_literal plain_def)
  then show ?thesis
    by (simp add: prompting_eval ui_fetch_status_def DaemonStatus_parse_def status_field_def on_key_def
        status_row_empty_def Let_def)
qed

lemma prompting_poll: "ps_prompts (fst (poll_snapshot_of exch_prompting ())) = [prompt_four]"
proof -
  obtain st where "ui_fetch_status exch_prompting () = (Inr st, ())" using prompting_status by blast
  then show ?thesis
    by (simp add: poll_snapshot_of_def prompting_prompts or_default_def case_prod_unfold Let_def)
qed

lemma prompting_run:
  "ua_alert (fst (ui_run env_prompting ''s'' None True [UiTick] ())) = Some (from_prompt prompt_four)"
  "ua_rss_probe (fst (ui_run env_prompting ''s'' None True [UiTick] ())) = None"
proof -
  let ?c = "drain_audit_events (take_confirm (build_root env_prompting () ''s'' None True))"
  have c: "ua_rss_probe ?c = None" "ua_alert ?c = None"
    by (simp_all add: drain_audit_events_def take_confirm_def confirm_take_def build_root_def attach_filter_input_def
        ui_App_new_def Let_def)
  obtain snap where p: "poll_snapshot_of exch_prompting () = (snap, ())"
    using prod.exhaust_sel [of "poll_snapshot_of exch_prompting ()"] by (metis old.unit.exhaust)
  then have "fst (ui_run env_prompting ''s'' None True [UiTick] ()) =
      apply_snapshot snap (?c\<lparr>ua_link := ps_link snap, ua_profiler := refresh_profiling 0 (Inl NotFound) (daemon_metrics (ps_link snap)) (ua_profiler ?c)\<rparr>)"
    using c by (simp add: refresh_from_daemon_def Let_def) (simp add: env_prompting_def)
  moreover have "advance None [prompt_four] = Some (from_prompt prompt_four)"
    by (simp add: advance_def PromptRow_can_answer_def prompt_four_def)
  ultimately show "ua_alert (fst (ui_run env_prompting ''s'' None True [UiTick] ())) = Some (from_prompt prompt_four)"
      "ua_rss_probe (fst (ui_run env_prompting ''s'' None True [UiTick] ())) = None"
    using prompting_poll c p by (simp_all add: apply_snapshot_fields)
qed

lemma prompting_frame:
  "answer_frame AlDeny (from_prompt prompt_four) = Some (''v1 prompt-answer 4 deny once'' @ [NL])"
  by code_simp

theorem ui_answers_live_prompt_witness:
  "Request_parse (''v1 prompt-answer 4 deny once'' @ [NL]) = Inr (PromptAnswer 4 ''deny'' ''once'')"
  using ui_answers_live_prompt [OF refl _ prompting_run(1) prompting_frame] prompting_run(2)
  by (simp add: from_prompt_def prompt_four_def)

theorem ui_poll_consistent_witness:
  "ua_audit (fst (refresh_from_daemon env_prompting (build_root env_prompting () ''s'' None True, ()))) = []"
proof -
  have "ua_rss_probe (build_root env_prompting () ''s'' None True) \<noteq> Some ProbePromptLoad"
    by (simp add: build_root_def attach_filter_input_def ui_App_new_def Let_def)
  from ui_poll_consistent [OF build_root_wf this, of env_prompting "()"] show ?thesis
    by (cases "refresh_from_daemon env_prompting (build_root env_prompting () ''s'' None True, ())") simp
qed

end
