(* ===== verification/EndToEnd.thy ===== *)
theory EndToEnd
  imports Daemon TuiMain UiRun
begin

text \<open>
  The clients connected to the daemon: the socket exchange of a client is one connection served by
  \<open>handle\<close>, and the contract the clients rely on (\<open>control_link\<close>) holds for it.
\<close>

section \<open>The daemon behind the socket\<close>

text \<open>\<open>read_line\<close>: the bytes up to and including the first line feed.\<close>

definition first_line :: "string \<Rightarrow> string" where
  "first_line s = takeWhile (\<lambda>c. c \<noteq> NL) s @ (if NL \<in> set s then [NL] else [])"

definition peer_conn :: "u32 option \<Rightarrow> io_error + string \<Rightarrow> conn" where
  "peer_conn peer line = \<lparr>cn_peer = peer, cn_line = line, cn_write = None\<rparr>"

definition daemon_exchange :: "'k host \<Rightarrow> (nat \<Rightarrow> instant) \<Rightarrow> u32 option \<Rightarrow> 'k world exchange" where
  "daemon_exchange H t peer frame w =
     (let line = first_line frame;
          c = peer_conn peer (if utf8_valid line then Inr line else Inl InvalidData);
          (_, out, w) = handle H t c w;
          reply = first_line out
      in (if utf8_valid reply then Inr reply else Inl ''stream did not contain valid UTF-8'', w))"

text \<open>The daemon carried a request out: its handler answered \<open>pong\<close>.\<close>

definition daemon_served :: "'k host \<Rightarrow> (nat \<Rightarrow> instant) \<Rightarrow> u32 option \<Rightarrow> request \<Rightarrow> 'k world \<Rightarrow> 'k world \<Rightarrow> bool" where
  "daemon_served H t peer r w w' \<longleftrightarrow> dispatch H (peer_conn peer (Inr [])) t r w = (Some RPong, w')"

lemma first_line_append_NL: "NL \<notin> set xs \<Longrightarrow> first_line (xs @ [NL]) = xs @ [NL]"
  by (induction xs) (auto simp: first_line_def)

lemma first_line_pong: "starts_with ''v1 pong'' (first_line (Response_encode r)) \<longleftrightarrow> r = RPong"
  by (cases r) (simp_all add: first_line_def starts_with_def)

lemma dispatch_peer: "dispatch H (peer_conn peer l1) t r = dispatch H (peer_conn peer l2) t r"
  by (cases r)
    (simp_all add: fun_eq_iff status_handler_def rule_delete_def rule_add_def prompt_answer_def dns_note_def
      network_mutate_def enforcement_mutate_def traffic_mutate_def mode_mutate_def peer_may_mutate_def peer_conn_def)

lemma exchange_reply:
  assumes "wire_ok frame" "Request_parse frame = Inr r" "subscription r = None"
  shows "daemon_exchange H t peer frame w =
    (case dispatch H (peer_conn peer (Inr [])) t r w of
       (Some response, w) \<Rightarrow>
         (let reply = first_line (Response_encode response)
          in (if utf8_valid reply then Inr reply else Inl ''stream did not contain valid UTF-8'', w))
     | (None, w) \<Rightarrow> (Inr [], w))"
proof -
  have line: "first_line frame = frame" "utf8_valid frame" "length frame \<le> MAX_FRAME_BYTES"
    using assms(1) by (auto simp: wire_ok_def first_line_append_NL)
  obtain x w1 where d: "dispatch H (peer_conn peer (Inr [])) t r w = (x, w1)" by fastforce
  then have "dispatch H (peer_conn peer (Inr frame)) t r w = (x, w1)"
    by (simp add: dispatch_peer [of H peer "Inr frame" t r "Inr []"])
  then have "handle H t (peer_conn peer (Inr frame)) w =
      (case x of Some response \<Rightarrow> (Inr (), Response_encode response, w1)
       | None \<Rightarrow> (Inl (OtherError ''handler panicked''), [], w1))"
    using assms(2,3) line(3) by (simp add: handle_def peer_conn_def write_response_def Let_def split: option.split)
  then show ?thesis
    using line by (cases x) (simp_all add: daemon_exchange_def d first_line_def [of "[]"] Let_def)
qed

lemma subscription_not_served:
  assumes "wire_ok frame" "Request_parse frame = Inr (AuditSubscribe i since)"
  shows "\<nexists>line w'. daemon_exchange H t peer frame w = (Inr line, w') \<and> starts_with ''v1 pong'' line"
proof -
  have line: "first_line frame = frame" "utf8_valid frame" "length frame \<le> MAX_FRAME_BYTES"
    using assms(1) by (auto simp: wire_ok_def first_line_append_NL)
  have "\<exists>r. r \<noteq> RPong \<and> fst (snd (handle H t (peer_conn peer (Inr frame)) w)) = Response_encode r"
    using assms(2) line
    by (cases "sh_audit (w_shared w)")
      (auto simp: handle_def audit_subscribe_def peer_conn_def write_response_def case_prod_unfold Let_def)
  then obtain r where "r \<noteq> RPong" "fst (snd (handle H t (peer_conn peer (Inr frame)) w)) = Response_encode r" by blast
  then show ?thesis
    using line first_line_pong [of r] by (auto simp: daemon_exchange_def case_prod_unfold Let_def)
qed

interpretation daemon: control_link "daemon_exchange H t peer" "daemon_served H t peer" for H t peer
proof (unfold_locales, goal_cases)
  case (1 frame r w w')
  show ?case
  proof (cases "subscription r")
    case None
    have pong: "first_line (Response_encode RPong) = ''v1 pong'' @ [NL]" "utf8_valid (''v1 pong'' @ [NL])"
      by (simp_all add: first_line_def)
    show ?thesis
    proof (cases "dispatch H (peer_conn peer (Inr [])) t r w")
      case (Pair x w1)
      show ?thesis
      proof (cases x)
        case (Some response)
        then show ?thesis
          using exchange_reply [OF 1 None, of H t peer w] Pair first_line_pong [of response] pong
          by (auto simp: daemon_served_def Let_def starts_with_def MAX_FRAME_BYTES_def)
      qed (use exchange_reply [OF 1 None, of H t peer w] Pair in \<open>auto simp: daemon_served_def starts_with_def\<close>)
    qed
  next
    case (Some s)
    then obtain i since where "r = AuditSubscribe i since" by (cases r) auto
    then show ?thesis
      using subscription_not_served [OF 1(1), of i since H t peer w] 1(2)
      by (fastforce simp: daemon_served_def err_def reply_def)
  qed
qed

section \<open>Commands of the terminal client\<close>

lemma listing_exchange:
  assumes "ws \<in> {[''rule-list''], [''prompt-list'']}"
  shows "same_policy w (snd (daemon_exchange H t peer (request_frame ws) w))"
proof -
  have wire: "wire_ok (request_frame ws)"
    using assms clean_labels(1,2) by (intro request_frame_wire) (auto simp: request_frame_def MAX_FRAME_BYTES_def)
  show ?thesis
    using assms exchange_reply [OF wire, of _ H t peer w] prompt_list_same [of w t] listing_same(2) [of w]
    by (auto simp: Request_parse_plain case_prod_unfold Let_def split: option.split)
qed

lemma fetch_snd: "snd (fetch exch frame parse m d) = snd (exch frame d)"
  by (auto simp: fetch_def one_shot_def split: prod.split sum.split)

lemma refresh_with_snd: "snd (refresh_with get wrap d) = snd (get d)"
  by (auto simp: refresh_with_def split: prod.split sum.split)

lemma refresh_same:
  assumes "command_refresh (daemon_exchange H t peer) c w = (evs, w')"
  shows "same_policy w w'"
proof -
  have "w' = snd (command_refresh (daemon_exchange H t peer) c w)" using assms by simp
  then show ?thesis
    using listing_exchange [of "[''rule-list'']" w H t peer] listing_exchange [of "[''prompt-list'']" w H t peer]
    by (cases c) (simp_all add: refresh_with_snd fetch_snd fetch_rules_def fetch_prompts_def request_frame_def)
qed



section \<open>Actions of the desktop client\<close>

datatype ui_action =
    ActAdd u64 string string u16
  | ActDelete u64
  | ActAnswer connection_alert alert_verdict
  | ActBlock string
  | ActUnblock
  | ActInstall | ActRemove | ActPause | ActResume

fun ui_perform :: "'d exchange \<Rightarrow> ui_action \<Rightarrow> 'd \<Rightarrow> (string + unit) \<times> 'd" where
  "ui_perform exch (ActAdd i executable verdict port) d = ui_add_rule exch i executable verdict port d"
| "ui_perform exch (ActDelete i) d = ui_delete_rule exch i d"
| "ui_perform exch (ActAnswer alert verdict) d =
     (case answer_frame verdict alert of Some frame \<Rightarrow> send_expect_pong exch frame d | None \<Rightarrow> (Inl [], d))"
| "ui_perform exch (ActBlock direction) d = ui_traffic_block exch ''user'' direction d"
| "ui_perform exch ActUnblock d = ui_traffic_unblock exch ''user'' d"
| "ui_perform exch ActInstall d = ui_install_network exch d"
| "ui_perform exch ActRemove d = ui_remove_network exch d"
| "ui_perform exch ActPause d = ui_pause exch d"
| "ui_perform exch ActResume d = ui_resume exch d"

text \<open>Most actions carry what a command of the terminal client carries; the others are plain words.\<close>

fun ui_command :: "ui_action \<Rightarrow> ipc_command + string \<times> request" where
  "ui_command (ActAdd i executable verdict port) = Inl (AddRule i executable verdict port)"
| "ui_command (ActDelete i) = Inl (DeleteRule i)"
| "ui_command (ActAnswer alert verdict) =
     Inl (AnswerPrompt (pw_id (ca_prompt alert)) (AlertVerdict_as_str verdict) (AlertScope_as_str (ca_scope alert)))"
| "ui_command (ActBlock direction) = Inl (CmdTrafficBlock ''user'' direction)"
| "ui_command ActUnblock = Inl (CmdTrafficUnblock ''user'')"
| "ui_command ActInstall = Inr (''network-install'', NetworkInstall)"
| "ui_command ActRemove = Inr (''network-remove'', NetworkRemove)"
| "ui_command ActPause = Inr (''pause'', Pause)"
| "ui_command ActResume = Inr (''resume'', Resume)"

definition ui_words :: "ui_action \<Rightarrow> string list" where
  "ui_words act = (case ui_command act of Inl c \<Rightarrow> command_words c | Inr (w, _) \<Rightarrow> [w])"

definition ui_asks :: "ui_action \<Rightarrow> request" where
  "ui_asks act = (case ui_command act of Inl c \<Rightarrow> command_request c | Inr (_, r) \<Rightarrow> r)"

fun ui_action_ok :: "ui_action \<Rightarrow> bool" where
  "ui_action_ok (ActAdd i executable verdict port) \<longleftrightarrow> clean_word executable \<and> verdict \<in> {''allow'', ''deny'', ''prompt''}"
| "ui_action_ok (ActAnswer alert verdict) \<longleftrightarrow> can_submit alert"
| "ui_action_ok (ActBlock direction) \<longleftrightarrow> direction \<in> {''out'', ''in'', ''all''}"
| "ui_action_ok act \<longleftrightarrow> True"

lemma alert_words: "AlertVerdict_as_str v \<in> {''allow'', ''deny''}" "AlertScope_as_str s \<in> {''once'', ''session'', ''permanent''}"
  by (cases v; simp) (cases s; simp)

lemma ui_frame_wire:
  assumes "ui_action_ok act" "length (request_frame (ui_words act)) \<le> MAX_FRAME_BYTES"
  shows "wire_ok (request_frame (ui_words act)) \<and> Request_parse (request_frame (ui_words act)) = Inr (ui_asks act)"
proof (cases "ui_command act")
  case (Inl c)
  then have "command_ok c" using assms(1) alert_words by (cases act) auto
  then show ?thesis
    using command_wire [of c] command_frame_understood [of c] assms(2) by (simp add: ui_words_def ui_asks_def Inl)
next
  case (Inr wr)
  have clean: "clean_word ''network-install''" "clean_word ''network-remove''" "clean_word ''pause''" "clean_word ''resume''"
    by (rule clean_literal; simp add: plain_def)+
  from Inr have "(ui_words act, ui_asks act) \<in> {([''network-install''], NetworkInstall), ([''network-remove''], NetworkRemove),
      ([''pause''], Pause), ([''resume''], Resume)}"
    by (cases act) (auto simp: ui_words_def ui_asks_def)
  then show ?thesis
    using clean assms(2) request_frame_wire [of "ui_words act"] by (auto simp: Request_parse_plain)
qed

lemma ui_perform_frame:
  "ui_action_ok act \<Longrightarrow> ui_perform exch act d = send_expect_pong exch (request_frame (ui_words act)) d"
  by (cases act)
    (simp_all add: ui_words_def request_frame_def ui_add_rule_def ui_delete_rule_def ui_traffic_block_def
      ui_traffic_unblock_def ui_install_network_def ui_remove_network_def ui_pause_def ui_resume_def answer_frame_def)



end
