(* ===== verification/Tables.thy ===== *)
theory Tables
  imports Daemon
begin

text \<open>
  The daemon's tables in its runs. Whatever thread takes a step, each table is changed only by the
  operations of its own component: a run of the daemon, seen through one table, is a run of that
  component. So the invariants and bounds that the component theories prove of their own runs hold
  of the whole daemon. The locale \<open>daemon_view\<close> states this once; each table interprets it.
\<close>

section \<open>A table seen through the steps of the daemon\<close>

definition moved :: "('op \<Rightarrow> 's \<Rightarrow> 's) \<Rightarrow> nat \<Rightarrow> 's mutex \<Rightarrow> 's mutex \<Rightarrow> bool" where
  "moved step n m m' \<longleftrightarrow>
     (\<exists>ops. length ops \<le> n \<and> into_inner m' = fold step ops (into_inner m))"

lemma moved_refl [simp, intro]: "moved step n m m"
  unfolding moved_def by (intro exI [of _ "[]"]) simp

lemma moved_one: "0 < n \<Longrightarrow> into_inner m' = step x (into_inner m) \<Longrightarrow> moved step n m m'"
  unfolding moved_def by (intro exI [of _ "[x]"]) simp

lemma moved_trans: "moved step n a b \<Longrightarrow> moved step k b c \<Longrightarrow> moved step (n + k) a c"
  unfolding moved_def by (metis add_mono comp_apply fold_append length_append)

lemma moved_mono: "moved step n a b \<Longrightarrow> n \<le> k \<Longrightarrow> moved step k a b"
  unfolding moved_def by (meson order_trans)

locale daemon_view =
  fixes H :: "'k host"
    and step :: "'op \<Rightarrow> 's \<Rightarrow> 's"
    and get :: "'k world \<Rightarrow> 's mutex"
    and turn :: nat
  assumes moves: "daemon_next H s x s' \<Longrightarrow> moved step turn (get (fst s)) (get (fst s'))"
begin

lemma run_moved: "daemon_run H s0 tr s \<Longrightarrow> moved step (turn * length tr) (get (fst s0)) (get (fst s))"
proof (induction rule: daemon_run.induct)
  case (run_step tr s x s')
  from moved_trans [OF run_step.IH moves [OF run_step.hyps(2)]] show ?case by (simp add: add.commute)
qed simp

end

locale daemon_table = daemon_view H step get turn + bounded_machine step wf capacity size_of
  for H :: "'k host" and step :: "'op \<Rightarrow> 's \<Rightarrow> 's" and get :: "'k world \<Rightarrow> 's mutex" and turn :: nat
    and wf :: "'s \<Rightarrow> bool" and capacity :: "'s \<Rightarrow> nat" and size_of :: "'s \<Rightarrow> nat"
begin

lemma daemon_keeps:
  assumes "daemon_run H (w0, f0) tr (w, f)" "wf (into_inner (get w0))"
  shows "wf (into_inner (get w))" "size_of (into_inner (get w)) \<le> capacity (into_inner (get w0))"
  using run_moved [OF assms(1)] run_wf [OF assms(2)] run_bounded [OF assms(2)]
  by (auto simp: moved_def)

end

section \<open>The operations on rules and on the audit log\<close>

datatype rule_op = RInsert rule | RRemove u64

fun rule_op_step :: "rule_op \<Rightarrow> rule_set \<Rightarrow> rule_set" where
  "rule_op_step (RInsert r) rs = (case RuleSet_insert r rs of Inr rs' \<Rightarrow> rs' | Inl _ \<Rightarrow> rs)"
| "rule_op_step (RRemove i) rs = snd (RuleSet_remove i rs)"

text \<open>The log alone; what an append finds on disk and in the channels is part of its label.\<close>

datatype audit_op =
    AAppend string hub fs
  | ASubscribe string u64 hub
  | AExit string hub

fun audit_op_step :: "audit_op \<Rightarrow> audit_log \<Rightarrow> audit_log" where
  "audit_op_step (AAppend m h s) log = fst (AuditLog_append m (log, h, s))"
| "audit_op_step (ASubscribe sid since h) log = fst (snd (attach_subscriber sid since (log, h)))"
| "audit_op_step (AExit sid h) log = fst (subscriber_exit sid True (log, h))"

definition audit_log_wf :: "audit_log \<Rightarrow> bool" where
  "audit_log_wf log \<longleftrightarrow> 0 < al_max_records log \<and> length (al_records log) \<le> al_max_records log"


lemma rule_op_wf: "rules_wf rs \<Longrightarrow> rules_wf (rule_op_step x rs)"
  by (cases x) (auto split: sum.split intro: wf_intros)

lemma append_log_wf: "audit_log_wf log \<Longrightarrow> audit_log_wf (fst (AuditLog_append m (log, h, s)))"
  by (auto simp: audit_log_wf_def append_decompose fanout_log persist_record_log
      intro!: order_trans [OF persist_record_log(6)] push_capped_length)

lemma audit_op_wf: "audit_log_wf log \<Longrightarrow> audit_log_wf (audit_op_step x log)"
proof (cases x)
  case (AAppend m h s)
  assume "audit_log_wf log"
  then show ?thesis by (simp add: AAppend append_log_wf)
qed (auto simp: audit_log_wf_def attach_subscriber_def subscribe_def subscriber_exit_def remove_subscriber_def
      case_prod_unfold Let_def split: option.split)

lemma audit_op_capacity: "al_max_records (audit_op_step x log) = al_max_records log"
  by (cases x)
    (auto simp: append_decompose fanout_log persist_record_log
      attach_subscriber_def subscribe_def subscriber_exit_def remove_subscriber_def case_prod_unfold Let_def
      split: option.split)

section \<open>What an event does to the tables\<close>

lemma attribute_moved: "moved ProcessCache_insert 3 (Healthy cache) (Healthy (snd (attribute P ev cache)))"
proof -
  have "snd (attribute P ev cache) = cache \<or> (\<exists>i. snd (attribute P ev cache) = ProcessCache_insert i cache)"
    by (auto simp: attribute_def split: option.split sum.split)
  then show ?thesis by (auto intro: moved_one)
qed

fun is_answer :: "prompt_op \<Rightarrow> bool" where
  "is_answer (QAnswer n1 n2 i v sc) = True"
| "is_answer x = False"

text \<open>The prompt operations of one decision: the two tokens, then a prompt when nothing decides.\<close>

lemma decide_attributed_prompt_ops:
  "\<exists>ops. length ops \<le> 3 \<and> list_all (\<lambda>x. \<not> is_answer x) ops \<and>
     tb_prompts (snd (decide_attributed t idt ev rules key tb)) = fold prompt_step ops (tb_prompts tb)"
proof -
  let ?k = "prompt_key_of idt ev"
  let ?a = "QTakeAllow (t 0) (t 1) ?k" and ?d = "QTakeDeny (t 2) ?k" and ?e = "QEnqueue (t 4) (t 5) ?k"
  have "\<exists>ops \<in> {[?a], [?a, ?d], [?a, ?d, ?e]}.
      tb_prompts (snd (decide_attributed t idt ev rules key tb)) = fold prompt_step ops (tb_prompts tb)"
    by (simp add: decide_attributed_prompts Let_def split: verdict.split)
  moreover have "length ops \<le> 3 \<and> list_all (\<lambda>x. \<not> is_answer x) ops" if "ops \<in> {[?a], [?a, ?d], [?a, ?d, ?e]}" for ops
    using that by auto
  ultimately show ?thesis by blast
qed

lemma decide_moved:
  "moved ProcessCache_insert 3 (Healthy (tb_cache tb)) (Healthy (tb_cache (snd (decide P t ev rules tb))))"
  "moved prompt_step 3 (Healthy (tb_prompts tb)) (Healthy (tb_prompts (snd (decide P t ev rules tb))))"
  "moved dns_step 3 (Healthy (tb_dns tb)) (Healthy (tb_dns (snd (decide P t ev rules tb))))"
  "moved (\<lambda>(p, t, d). RecentConnects_record p t d) 3 (Healthy (tb_recent tb))
     (Healthy (tb_recent (snd (decide P t ev rules tb))))"
proof -
  obtain r cache where att: "attribute P ev (tb_cache tb) = (r, cache)" by fastforce
  let ?tb = "tb\<lparr>tb_cache := cache\<rparr>"
  have dec: "snd (decide P t ev rules tb) =
      (case r of Inl _ \<Rightarrow> ?tb | Inr idt \<Rightarrow> snd (decide_attributed t idt ev rules (event_key ev) ?tb))"
    by (simp add: decide_def att split: sum.split)
  show "moved ProcessCache_insert 3 (Healthy (tb_cache tb)) (Healthy (tb_cache (snd (decide P t ev rules tb))))"
    using attribute_moved [of "tb_cache tb" P ev] att
    by (simp add: dec decide_attributed_other split: sum.split)
  show "moved prompt_step 3 (Healthy (tb_prompts tb)) (Healthy (tb_prompts (snd (decide P t ev rules tb))))"
    using decide_attributed_prompt_ops [of t _ ev rules "event_key ev" ?tb]
    by (auto simp: dec moved_def split: sum.split intro: exI [of _ "[]"])
  show "moved dns_step 3 (Healthy (tb_dns tb)) (Healthy (tb_dns (snd (decide P t ev rules tb))))"
    by (auto simp: dec decide_attributed_dns split: sum.split
        intro: moved_one [where x = "DLookup _ (ev_destination_ipv4 ev)"])
  show "moved (\<lambda>(p, t, d). RecentConnects_record p t d) 3 (Healthy (tb_recent tb))
     (Healthy (tb_recent (snd (decide P t ev rules tb))))"
  proof (cases r)
    case (Inr idt)
    obtain label where "tb_recent (snd (decide P t ev rules tb)) = record_recent idt ev label (tb_recent tb)"
      using decide_attributed_recent [of t idt ev rules "event_key ev" ?tb] by (auto simp: dec Inr)
    then show ?thesis by (intro moved_one [where x = "(_, _, _)"]) (simp_all add: record_recent_def)
  qed (simp add: dec)
qed

lemma locked_moved:
  "0 < n \<Longrightarrow> (\<And>x. f x = Healthy (step y x)) \<Longrightarrow> moved step n m (with_lock m m f)"
  by (cases m) (auto intro: moved_one)

section \<open>What a request does to the tables\<close>

text \<open>No request touches the pending verdicts, identities, recent destinations or statistics.\<close>

definition untouched :: "'k world \<Rightarrow> 'k world \<Rightarrow> bool" where
  "untouched w w' \<longleftrightarrow>
     sh_pending (w_shared w') = sh_pending (w_shared w) \<and>
     sh_process_cache (w_shared w') = sh_process_cache (w_shared w) \<and>
     sh_recent (w_shared w') = sh_recent (w_shared w) \<and> sh_stats (w_shared w') = sh_stats (w_shared w)"

text \<open>Only rules are touched, by at most one operation.\<close>

definition only_rules :: "'k world \<Rightarrow> 'k world \<Rightarrow> bool" where
  "only_rules w w' \<longleftrightarrow> untouched w w' \<and> sh_prompts (w_shared w') = sh_prompts (w_shared w) \<and>
     sh_dns (w_shared w') = sh_dns (w_shared w) \<and> sh_audit (w_shared w') = sh_audit (w_shared w) \<and>
     moved rule_op_step 1 (sh_rules (w_shared w)) (sh_rules (w_shared w'))"

text \<open>No table is touched: the mode changes write the pause flag and the machine preference only.\<close>

definition modes_only :: "'k world \<Rightarrow> 'k world \<Rightarrow> bool" where
  "modes_only w w' \<longleftrightarrow> untouched w w' \<and> sh_prompts (w_shared w') = sh_prompts (w_shared w) \<and>
     sh_dns (w_shared w') = sh_dns (w_shared w) \<and> sh_audit (w_shared w') = sh_audit (w_shared w) \<and>
     sh_rules (w_shared w') = sh_rules (w_shared w)"

text \<open>At most one operation on each of the rules, the prompts, the names and the audit log.\<close>

definition footprint :: "'k world \<Rightarrow> 'k world \<Rightarrow> bool" where
  "footprint w w' \<longleftrightarrow> untouched w w' \<and>
     moved rule_op_step 1 (sh_rules (w_shared w)) (sh_rules (w_shared w')) \<and>
     moved prompt_step 1 (sh_prompts (w_shared w)) (sh_prompts (w_shared w')) \<and>
     moved dns_step 1 (sh_dns (w_shared w)) (sh_dns (w_shared w')) \<and>
     moved audit_op_step 1 (sh_audit (w_shared w)) (sh_audit (w_shared w'))"

lemmas footprint_defs = footprint_def only_rules_def modes_only_def untouched_def

lemma only_rules_same [intro]: "w_shared w' = w_shared w \<Longrightarrow> only_rules w w'"
  by (simp add: footprint_defs)

lemma modes_only_same [intro]: "w_shared w' = w_shared w \<Longrightarrow> modes_only w w'"
  by (simp add: footprint_defs)

lemma modes_only_rules: "modes_only w w' \<Longrightarrow> only_rules w w'"
  by (simp add: footprint_defs)

lemma footprint_rules: "only_rules w w' \<Longrightarrow> footprint w w'"
  by (simp add: footprint_defs)

lemma footprint_refl [simp]: "footprint w w"
  by (simp add: footprint_defs)

lemma footprint_prompts:
  "sh_prompts (w_shared w) = Healthy q \<Longrightarrow> q' = prompt_step x q \<Longrightarrow> only_rules (set_prompts q' w) w' \<Longrightarrow> footprint w w'"
  by (auto simp: footprint_defs set_prompts_def intro: moved_one)

lemma footprint_dns:
  "sh_dns (w_shared w) = Healthy d \<Longrightarrow> into_inner m = dns_step x d \<Longrightarrow> footprint w (set_dns m w)"
  by (auto simp: footprint_defs set_dns_def intro: moved_one)

lemma shared_kept [simp]:
  "w_shared (snd (save_rules H rs w)) = w_shared w" "w_shared (snd (store_mode mode w)) = w_shared w"
  "w_shared (snd (store_traffic p pref w)) = w_shared w"
  by (simp_all add: save_rules_def store_mode_def store_traffic_def Let_def case_prod_unfold)

lemma set_rules_only:
  "sh_rules (w_shared w) = Healthy rs \<Longrightarrow> rs' = rule_op_step x rs \<Longrightarrow> only_rules w (set_rules rs' w)"
  by (auto simp: footprint_defs set_rules_def intro: moved_one)

lemma insert_only:
  "sh_rules (w_shared w) = Healthy rs \<Longrightarrow> RuleSet_insert r rs = Inr rs' \<Longrightarrow> only_rules w (set_rules rs' w)"
  using set_rules_only [of w rs rs' "RInsert r"] by simp

lemma only_rules_save: "only_rules w w1 \<Longrightarrow> only_rules w (snd (save_rules H rs w1))"
  by (simp add: footprint_defs)

lemma modes_only_updates:
  "modes_only w w1 \<Longrightarrow> modes_only w (set_paused b w1)" "modes_only w w1 \<Longrightarrow> modes_only w (set_machine pref w1)"
  "modes_only w w1 \<Longrightarrow> modes_only w (snd (reapply_table H w1))"
  by (simp_all add: footprint_defs set_paused_def set_machine_def)

lemma persist_only_rules: "only_rules w (snd (persist_answered_rule H a w))"
  unfolding persist_answered_rule_def Let_def
  by (rule lock_then)
    (auto split: sum.split intro!: step_then_bool [where P = "only_rules w"] only_rules_save
      intro: insert_only)

lemma rule_delete_only: "only_rules w (snd (rule_delete H c i w))"
  by (auto simp: rule_delete_def case_prod_unfold Let_def split: bool.split
      intro!: lock_then [where P = "only_rules w"] only_rules_save set_rules_only [where x = "RRemove i"])

lemma rule_add_only: "only_rules w (snd (rule_add H c i x v p w))"
  by (auto simp: rule_add_def Let_def split: option.split sum.split
      intro!: lock_then [where P = "only_rules w"] step_then_bool [where P = "only_rules w"] only_rules_save
      intro: insert_only)

lemma shared_ops_only:
  "modes_only w (snd (Shared_pause H w))" "modes_only w (snd (Shared_resume H w))"
  "modes_only w (snd (traffic_block H sc pref uid w))" "modes_only w (snd (traffic_unblock H sc uid w))"
proof -
  have "modes_only w (snd (scope_store sc pref uid w))" for pref
    unfolding scope_store_def
    by (cases sc) (auto intro!: step_then [where P = "modes_only w"] modes_only_updates)
  then show "modes_only w (snd (traffic_block H sc pref uid w))" "modes_only w (snd (traffic_unblock H sc uid w))"
    unfolding traffic_block_def traffic_unblock_def
    by (auto intro!: step_then [where P = "modes_only w"] modes_only_updates)
  show "modes_only w (snd (Shared_pause H w))" "modes_only w (snd (Shared_resume H w))"
    unfolding Shared_pause_def Shared_resume_def
    by (auto intro!: step_then [where P = "modes_only w"] modes_only_updates)
qed

lemma mode_mutate_only: "modes_only w (snd (mode_mutate H c b f w))"
  by (auto simp: mode_mutate_def shared_ops_only intro!: step_then [where P = "modes_only w"])

lemma traffic_mutate_only: "modes_only w (snd (traffic_mutate H c sc dir u w))"
proof -
  have "modes_only w (snd (case traffic_unblock H sc uid w of (Inr _, w) \<Rightarrow> reply RPong w | (Inl _, w) \<Rightarrow> err x w))"
    "modes_only w (snd (case traffic_block H sc pf uid w of (Inr _, w) \<Rightarrow> reply RPong w | (Inl _, w) \<Rightarrow> err x w))"
    for sc uid pf x
    by (rule step_then [where P = "modes_only w"]; simp add: shared_ops_only)+
  then show ?thesis by (auto simp: traffic_mutate_def Let_def split: option.split)
qed

lemma prompt_answer_footprint: "footprint w (snd (prompt_answer H c t i v s w))"
proof -
  have persist: "only_rules w1 (snd (case persist_answered_rule H a w1 of (Inl code, w) \<Rightarrow> err code w | (Inr u, w) \<Rightarrow> reply RPong w))"
    for a and w1 :: "'a world"
    by (rule step_then [where P = "only_rules w1"]) (simp_all add: persist_only_rules)
  have answer: "footprint w w'" if "sh_prompts (w_shared w) = Healthy q"
      "PromptQueue_answer (t 0) (t 1) i vd sc q = (r, q')" "only_rules (set_prompts q' w) w'" for q vd sc r q' w'
    using that by (intro footprint_prompts [of w q q' "QAnswer (t 0) (t 1) i vd sc"]) simp_all
  have "footprint w (snd (case PromptQueue_answer (t 0) (t 1) i vd sc q of
        (Inl AnswerNotFound, prompts) \<Rightarrow> err ''prompt_not_found'' (set_prompts prompts w)
      | (Inl AnswerExpired, prompts) \<Rightarrow> err ''prompt_expired'' (set_prompts prompts w)
      | (Inr answered, prompts) \<Rightarrow>
          let w = set_prompts prompts w
          in if \<not> an_duplicate answered \<and> an_scope answered \<noteq> RsOnce
             then (case persist_answered_rule H answered w of
                     (Inl code, w) \<Rightarrow> err code w
                   | (Inr _, w) \<Rightarrow> reply RPong w)
             else reply RPong w))" if q: "sh_prompts (w_shared w) = Healthy q" for vd sc q
  proof (cases "PromptQueue_answer (t 0) (t 1) i vd sc q")
    case (Pair r q')
    note ans = answer [OF q Pair]
    show ?thesis
      by (cases r) (auto simp: Pair Let_def simp del: One_nat_def split: answer_error.split intro!: ans persist)
  qed
  then show ?thesis
    unfolding prompt_answer_def
    by (auto split: option.split intro!: lock_then [where P = "footprint w"])
qed

lemma observe_footprint:
  assumes "sh_dns (w_shared w) = Healthy d"
  shows "DnsCache_observe n1 n2 h ip ttl d = Inl d' \<Longrightarrow> footprint w (set_dns (Poisoned d') w)"
    "DnsCache_observe n1 n2 h ip ttl d = Inr d' \<Longrightarrow> footprint w (set_dns (Healthy d') w)"
  using footprint_dns [OF assms, of _ "DObserve n1 n2 h ip ttl"] by (simp_all add: after_observe_def)

lemma dns_note_footprint: "footprint w (snd (dns_note H c t h ip ttl w))"
  by (auto simp: dns_note_def Let_def split: option.split sum.split
      intro!: lock_then [where P = "footprint w"] intro: observe_footprint)

lemma list_footprint: "footprint w (snd (prompt_list t w))" "footprint w (snd (dns_list t w))"
proof -
  show "footprint w (snd (prompt_list t w))"
  proof (cases "sh_prompts (w_shared w)")
    case (Healthy q)
    then show ?thesis
      using footprint_prompts [OF Healthy, of _ "QList (t 1)"]
      by (auto simp: prompt_list_def encode_prompts_def case_prod_unfold Let_def)
  qed (simp add: prompt_list_def)
  show "footprint w (snd (dns_list t w))"
  proof (cases "sh_dns (w_shared w)")
    case (Healthy d)
    then show ?thesis
      using footprint_dns [OF Healthy, of _ "DList (t 0) (t 1)"]
      by (auto simp: dns_list_def case_prod_unfold Let_def)
  qed (simp add: dns_list_def)
qed

lemma dispatch_footprint: "footprint w (snd (dispatch H c t r w))"
  by (cases r)
    (simp_all add: listing_same list_footprint enforcement_mutate_def network_mutate_def prompt_answer_footprint
      dns_note_footprint footprint_rules modes_only_rules mode_mutate_only traffic_mutate_only rule_add_only rule_delete_only)


lemma subscribe_footprint: "footprint w (snd (snd (audit_subscribe c i since w)))"
proof (cases "sh_audit (w_shared w)")
  case (Healthy a)
  have "footprint w (w\<lparr>w_shared := (w_shared w)\<lparr>sh_audit := Healthy (fst (snd (attach_subscriber i since (a, w_hub w))))\<rparr>,
      w_hub := h\<rparr>)" for h
    using Healthy by (auto simp: footprint_defs intro: moved_one [where x = "ASubscribe i since (w_hub w)"])
  then show ?thesis by (simp add: audit_subscribe_def Healthy Let_def case_prod_unfold split: sum.split)
qed (simp add: audit_subscribe_def Let_def case_prod_unfold)

lemma handle_footprint: "footprint w (snd (snd (handle H t c w)))"
proof -
  have "footprint w (snd (snd (case dispatch H c t r w of
      (Some response, w) \<Rightarrow> (fst (write_response c response), snd (write_response c response), w)
    | (None, w) \<Rightarrow> (Inl (OtherError ''handler panicked''), [], w))))" for r
    using dispatch_footprint [of w H c t r] by (cases "dispatch H c t r w"; cases "fst (dispatch H c t r w)") auto
  then show ?thesis
    by (auto simp: handle_def Let_def case_prod_unfold subscribe_footprint split: sum.split option.split)
qed

lemma gone_footprint: "footprint w (subscriber_gone sid rm w)"
proof (cases "sh_audit (w_shared w)")
  case (Healthy a)
  then show ?thesis
    by (auto simp: subscriber_gone_def case_prod_unfold Let_def footprint_defs
        intro: moved_one [where x = "AExit sid (w_hub w)"])
qed (simp add: subscriber_gone_def)

lemma queue_footprint: "footprint w (queue_up H w)" "footprint w (queue_down w)"
  by (simp_all add: queue_up_def queue_down_def set_enforcement_def Let_def footprint_defs)

section \<open>Every table is moved by its own operations only\<close>

text \<open>One step of the daemon, seen through each of the eight tables.\<close>

definition all_moved :: "'k world \<Rightarrow> 'k world \<Rightarrow> bool" where
  "all_moved w w' \<longleftrightarrow>
     moved pending_step 3 (sh_pending (w_shared w)) (sh_pending (w_shared w')) \<and>
     moved ProcessCache_insert 3 (sh_process_cache (w_shared w)) (sh_process_cache (w_shared w')) \<and>
     moved (\<lambda>(p, t, d). RecentConnects_record p t d) 3 (sh_recent (w_shared w)) (sh_recent (w_shared w')) \<and>
     moved prompt_step 3 (sh_prompts (w_shared w)) (sh_prompts (w_shared w')) \<and>
     moved dns_step 3 (sh_dns (w_shared w)) (sh_dns (w_shared w')) \<and>
     moved stats_step 3 (sh_stats (w_shared w)) (sh_stats (w_shared w')) \<and>
     moved audit_op_step 3 (sh_audit (w_shared w)) (sh_audit (w_shared w')) \<and>
     moved rule_op_step 3 (sh_rules (w_shared w)) (sh_rules (w_shared w'))"

lemma footprint_moved: "footprint w w' \<Longrightarrow> all_moved w w'"
  by (auto simp: footprint_def untouched_def all_moved_def intro: moved_mono)

lemma attempt_moved: "all_moved w (snd (attempt_packet now payload w))"
proof (cases "tcp_destination payload")
  case (Some key)
  show ?thesis
  proof (cases "sh_pending (w_shared w)")
    case (Healthy p)
    then show ?thesis
      by (auto simp: all_moved_def attempt_packet_def Some lookup_attempt_def case_prod_unfold Let_def
          intro: moved_one [where x = "PTake now key"])
  qed (simp add: all_moved_def attempt_packet_def Some lookup_attempt_def)
qed (simp add: all_moved_def attempt_packet_def)

text \<open>Deciding moves the four tables it locks; each later section of an event moves one.\<close>

lemma decide_event_moved: "all_moved w (snd (decide_event H t ev w))"
proof (cases rule: decide_event_cases [of H t ev w])
  case (decided rules cache prompts dns recent d tb)
  from decided show ?thesis
    using decide_moved [of "tables_of cache prompts dns recent" "ho_procfs H" t ev rules]
    by (simp add: all_moved_def) (simp add: tables_of_def)
qed (simp add: all_moved_def)

lemma store_moved: "all_moved w (store_pending t d w)" "all_moved w (store_stats d w)" "all_moved w (store_audit d w)"
  by (auto simp: all_moved_def store_shared intro: locked_moved [where y = "PInsert _ _ _ _"]
      locked_moved [where y = "AAppend _ _ _"] locked_moved [where step = stats_step])

lemma next_moved: "daemon_next H s x s' \<Longrightarrow> all_moved (fst s) (fst s')"
proof (induction rule: daemon_next.induct)
  case (next_decide t ev w d w')
  then show ?case using decide_event_moved [of w H t ev] by simp
qed (simp_all add: store_moved attempt_moved footprint_moved [OF handle_footprint] footprint_moved [OF gone_footprint]
    footprint_moved [OF queue_footprint(1)] footprint_moved [OF queue_footprint(2)])

interpretation pending_view: daemon_table H pending_step "\<lambda>w. sh_pending (w_shared w)" 3
    pending_wf pt_capacity "\<lambda>t. length (pt_entries t)" for H
  by unfold_locales (drule next_moved, simp add: all_moved_def)

interpretation process_view: daemon_table H ProcessCache_insert "\<lambda>w. sh_process_cache (w_shared w)" 3
    process_wf pc_capacity "\<lambda>c. length (pc_entries c)" for H
  by unfold_locales (drule next_moved, simp add: all_moved_def)

interpretation recent_view: daemon_table H "\<lambda>(p, t, d). RecentConnects_record p t d"
    "\<lambda>w. sh_recent (w_shared w)" 3 recent_wf rc_capacity_keys "\<lambda>rc. length (rc_entries rc)" for H
  by unfold_locales (drule next_moved, simp add: all_moved_def)

interpretation dns_view: daemon_table H dns_step "\<lambda>w. sh_dns (w_shared w)" 3
    dns_wf dc_capacity "\<lambda>c. length (dc_by_ip c)" for H
  by unfold_locales (drule next_moved, simp add: all_moved_def)

interpretation stats_view: daemon_table H stats_step "\<lambda>w. sh_stats (w_shared w)" 3
    stats_wf "\<lambda>_. MAX_STATS_KEYS" "\<lambda>s. max (length (st_hosts s)) (length (st_procs s))" for H
  by unfold_locales (drule next_moved, simp add: all_moved_def)

interpretation audit_view: daemon_table H audit_op_step "\<lambda>w. sh_audit (w_shared w)" 3
    audit_log_wf al_max_records "\<lambda>log. length (al_records log)" for H
proof
  show "moved audit_op_step 3 (sh_audit (w_shared (fst s))) (sh_audit (w_shared (fst s')))"
    if "daemon_next H s x s'" for s x s'
    using next_moved [OF that] by (simp add: all_moved_def)
qed (simp_all add: audit_op_wf audit_op_capacity, simp add: audit_log_wf_def)

interpretation prompt_view: daemon_view H prompt_step "\<lambda>w. sh_prompts (w_shared w)" 3 for H
  by unfold_locales (drule next_moved, simp add: all_moved_def)

interpretation rule_view: daemon_view H rule_op_step "\<lambda>w. sh_rules (w_shared w)" 3 for H
  by unfold_locales (drule next_moved, simp add: all_moved_def)

interpretation rule_ops: kept_machine rule_op_step rules_wf
  by unfold_locales (rule rule_op_wf)


section \<open>The tables after start-up\<close>

lemma io_then_ok: "io_then r f = (Inr y, s') \<longleftrightarrow> (\<exists>x s1. r = (Inr x, s1) \<and> f x s1 = (Inr y, s'))"
  by (cases r; cases "fst r") auto

lemma load_lines_wf: "audit_log_wf log \<Longrightarrow> load_lines ls log = Inr log' \<Longrightarrow>
    audit_log_wf log' \<and> al_max_records log' = al_max_records log"
  by (induction ls log rule: load_lines.induct)
    (auto simp: audit_log_wf_def push_capped_length split: if_splits option.splits)

lemma AuditLog_open_wf:
  assumes "AuditLog_open p mb mr s = Some (Inr log, s')"
  shows "audit_log_wf log" "al_max_records log = mr"
proof -
  let ?log = "\<lparr>al_path = p, al_max_bytes = mb, al_max_records = mr, al_next_seq = 1, al_records = [], al_subscribers = []\<rparr>"
  obtain s1 where mr: "0 < mr" and load: "load_from_disk ?log s1 = Inr log"
    using assms by (auto simp: AuditLog_open_def io_then_def split: if_splits prod.splits sum.splits)
  then have "log = ?log \<or> (\<exists>ls. load_lines ls ?log = Inr log)"
    by (auto simp: load_from_disk_def split: if_splits option.splits)
  moreover have "audit_log_wf ?log" using mr by (simp add: audit_log_wf_def)
  ultimately have "audit_log_wf log \<and> al_max_records log = mr" using load_lines_wf by fastforce
  then show "audit_log_wf log" "al_max_records log = mr" by simp_all
qed

lemma RulesStore_load_wf: "RulesStore_load from_toml p s = Inr rs \<Longrightarrow> rules_wf rs"
  by (auto simp: RulesStore_load_def rules_wf_default split: if_splits option.splits sum.splits
      intro: insert_all_wf [OF rules_wf_default])

text \<open>What start-up leaves behind: empty tables with the capacities the code gives them.\<close>

lemma daemon_start_tables:
  assumes "daemon_start H now args mode_env traffic_env attached s = Some (Inr (observer, sh), s')"
  shows "PendingTable_new 4096 (from_secs 5) = Some (into_inner (sh_pending sh))"
    "ProcessCache_new 1024 = Some (into_inner (sh_process_cache sh))"
    "RecentConnects_new 1024 8 = Some (into_inner (sh_recent sh))"
    "PromptQueue_new MAX_PENDING_PROMPTS (from_secs 60) = Some (into_inner (sh_prompts sh))"
    "DnsCache_new MAX_DNS_ENTRIES (from_secs 300) = Some (into_inner (sh_dns sh))"
    "into_inner (sh_stats sh) = StatsStore_new now"
    "audit_log_wf (into_inner (sh_audit sh))"
    "al_max_records (into_inner (sh_audit sh)) = MAX_LOG_RECORDS_PER_SUBSCRIBER"
    "rules_wf (into_inner (sh_rules sh))"
    "sh_pending sh = Healthy (into_inner (sh_pending sh))"
proof -
  let ?op = "Options_from_env args"
  obtain rules where load: "RulesStore_load (ho_from_toml H) (op_rules_path ?op) s = Inr rules"
    using assms by (auto simp: daemon_start_def Let_def split: sum.splits)
  obtain config where config: "cf_rules config = rules" "cf_pending_capacity config = 4096"
      "cf_pending_ttl config = from_secs 5" "cf_process_capacity config = 1024"
    and start: "map_option (\<lambda>r. io_then r (\<lambda>shared s. (Inr (observer, shared), s))) (Shared_new now config s) =
      Some (Inr (observer, sh), s')"
  proof
    let ?config = "\<lparr>cf_rules = rules, cf_store = op_rules_path ?op,
      cf_observation = snd (start_observation (op_skip_ebpf ?op) attached), cf_pending_capacity = 4096,
      cf_pending_ttl = from_secs 5, cf_process_capacity = 1024, cf_audit_path = op_audit_path ?op,
      cf_mode_path = resolve_mode_path mode_env, cf_traffic_path = resolve_machine_path traffic_env\<rparr>"
    show "map_option (\<lambda>r. io_then r (\<lambda>shared s. (Inr (observer, shared), s))) (Shared_new now ?config s) =
      Some (Inr (observer, sh), s')"
      using assms by (auto simp: daemon_start_def load Let_def case_prod_unfold io_then_def split: prod.splits sum.splits)
  qed simp_all
  then obtain r where "Shared_new now config s = Some r" "io_then r (\<lambda>shared s. (Inr (observer, shared), s)) =
      (Inr (observer, sh), s')" by auto
  then have new: "Shared_new now config s = Some (Inr sh, s')"
    by (auto simp: io_then_ok)
  note new = new [unfolded Shared_new_def Let_def config PromptQueue_with_defaults_def DnsCache_with_defaults_def]
  show "rules_wf (into_inner (sh_rules sh))"
    using new RulesStore_load_wf [OF load] by (auto simp: bind_eq_Some_conv io_then_ok)
  show "PendingTable_new 4096 (from_secs 5) = Some (into_inner (sh_pending sh))"
    "ProcessCache_new 1024 = Some (into_inner (sh_process_cache sh))"
    "RecentConnects_new 1024 8 = Some (into_inner (sh_recent sh))"
    "PromptQueue_new MAX_PENDING_PROMPTS (from_secs 60) = Some (into_inner (sh_prompts sh))"
    "DnsCache_new MAX_DNS_ENTRIES (from_secs 300) = Some (into_inner (sh_dns sh))"
    "into_inner (sh_stats sh) = StatsStore_new now" "sh_pending sh = Healthy (into_inner (sh_pending sh))"
    using new by (auto simp: bind_eq_Some_conv io_then_ok)
  show "audit_log_wf (into_inner (sh_audit sh))"
    "al_max_records (into_inner (sh_audit sh)) = MAX_LOG_RECORDS_PER_SUBSCRIBER"
    using new AuditLog_open_wf by (auto simp: bind_eq_Some_conv io_then_ok)
qed


text \<open>Every table well formed and within the capacity the daemon gives it.\<close>

definition tables_within :: "shared \<Rightarrow> bool" where
  "tables_within sh \<longleftrightarrow>
     pending_wf (into_inner (sh_pending sh)) \<and> length (pt_entries (into_inner (sh_pending sh))) \<le> 4096 \<and>
     process_wf (into_inner (sh_process_cache sh)) \<and> length (pc_entries (into_inner (sh_process_cache sh))) \<le> 1024 \<and>
     recent_wf (into_inner (sh_recent sh)) \<and> length (rc_entries (into_inner (sh_recent sh))) \<le> 1024 \<and>
     prompts_wf (into_inner (sh_prompts sh)) \<and>
     length (pq_pending_by_key (into_inner (sh_prompts sh))) \<le> MAX_PENDING_PROMPTS \<and>
     dns_wf (into_inner (sh_dns sh)) \<and> length (dc_by_ip (into_inner (sh_dns sh))) \<le> MAX_DNS_ENTRIES \<and>
     stats_wf (into_inner (sh_stats sh)) \<and>
     length (al_records (into_inner (sh_audit sh))) \<le> MAX_LOG_RECORDS_PER_SUBSCRIBER \<and>
     rules_wf (into_inner (sh_rules sh))"

lemma prompts_within:
  assumes "daemon_run H (w0, f0) tr (w, f)" "PromptQueue_new cap ttl = Some (into_inner (sh_prompts (w_shared w0)))"
    and "3 * length tr + 1 < 2 ^ 64"
  shows "prompts_wf (into_inner (sh_prompts (w_shared w)))"
    "length (pq_pending_by_key (into_inner (sh_prompts (w_shared w)))) \<le> cap"
proof -
  let ?q = "into_inner (sh_prompts (w_shared w0))"
  obtain ops where ops: "length ops \<le> 3 * length tr" "into_inner (sh_prompts (w_shared w)) = prompt_run ops ?q"
    using prompt_view.run_moved [OF assms(1)] by (auto simp: moved_def prompt_run_def)
  have q: "pq_next_id ?q = 1 \<and> pq_capacity ?q = cap"
    using assms(2) unfolding PromptQueue_new_def
    by (metis option.distinct(1) option.inject prompt_queue.select_convs(1,3))
  then have "ids_left (length ops + 0) ?q" using assms(3) ops(1) by (simp add: ids_left_def)
  then have wf: "prompts_wf (prompt_run ops ?q)" using prompt_run_wf [OF new_wf [OF assms(2)]] by blast
  then show "prompts_wf (into_inner (sh_prompts (w_shared w)))" by (simp add: ops(2))
  from q show "length (pq_pending_by_key (into_inner (sh_prompts (w_shared w)))) \<le> cap"
    using prompts_wfD(9) [OF wf] by (simp add: ops(2))
qed



lemma daemon_start_demo:
  "\<exists>sh s. daemon_start host_demo 0 [''interfired'', ''--no-ebpf''] None None (Inl ()) (fs_blank (\<lambda>_. False)) =
     Some (Inr (None :: unit option, sh), s)"
proof -
  have "RulesStore_load (ho_from_toml host_demo) p (fs_blank (\<lambda>_. False)) = Inr RuleSet_default" for p
    by (simp add: RulesStore_load_def path_exists_def fs_blank_def)
  moreover have "op_skip_ebpf (Options_from_env [''interfired'', ''--no-ebpf''])"
    by (simp add: Options_from_env_def options_argument_def)
  moreover have "AuditLog_open p mb 2000 (fs_blank (\<lambda>_. False)) = Some (Inr \<lparr>al_path = p, al_max_bytes = mb,
      al_max_records = 2000, al_next_seq = 1, al_records = [], al_subscribers = []\<rparr>, fs_blank (\<lambda>_. False))" for p mb
    by (simp add: AuditLog_open_def fs_create_dir_all_def fs_blank_def load_from_disk_def path_exists_def)
  ultimately show ?thesis
    by (simp add: daemon_start_def start_observation_def Shared_new_def Let_def PendingTable_new_def
        ProcessCache_new_def RecentConnects_new_def PromptQueue_with_defaults_def PromptQueue_new_def
        MAX_PENDING_PROMPTS_def DnsCache_with_defaults_def DnsCache_new_def MAX_DNS_ENTRIES_def
        MAX_LOG_RECORDS_PER_SUBSCRIBER_def from_secs_def)
qed


end
