(* ===== verification/Provenance.thy ===== *)
theory Provenance
  imports Tables
begin

text \<open>
  Where permissions come from. In a run of the daemon every rule and every once-allow token can be
  traced to the step that created it: a request of a peer that may change the policy. Together
  with the pending verdicts this traces an accepted packet back to the start-up rules or to such a
  request. The locale \<open>provenance\<close> states the tracing once.
\<close>

section \<open>Facts with a cause\<close>

text \<open>Some step of the run caused \<open>x\<close>, in the state the run had then.\<close>

definition caused_by ::
    "'k host \<Rightarrow> ('k world \<Rightarrow> daemon_step \<Rightarrow> 'x \<Rightarrow> bool) \<Rightarrow> 'k dstate \<Rightarrow> daemon_step list \<Rightarrow> 'x \<Rightarrow> bool" where
  "caused_by H cause s0 tr x \<longleftrightarrow>
     (\<exists>tr1 s tr2 w1 f1. tr = tr1 @ s # tr2 \<and> daemon_run H s0 tr1 (w1, f1) \<and> cause w1 s x)"

lemma caused_by_snoc: "caused_by H cause s0 tr x \<Longrightarrow> caused_by H cause s0 (tr @ [s]) x"
  unfolding caused_by_def by (metis append_Cons append_assoc)

lemma caused_by_last: "daemon_run H s0 tr s1 \<Longrightarrow> cause (fst s1) s x \<Longrightarrow> caused_by H cause s0 (tr @ [s]) x"
  unfolding caused_by_def by (metis prod.collapse)

lemma caused_by_Nil [simp]: "\<not> caused_by H cause s0 [] x"
  by (simp add: caused_by_def)

locale provenance =
  fixes H :: "'k host"
    and inv :: "'k world \<Rightarrow> bool"
    and facts :: "'k world \<Rightarrow> 'x set"
    and cause :: "'k world \<Rightarrow> daemon_step \<Rightarrow> 'x \<Rightarrow> bool"
  assumes inv_next: "inv (fst s) \<Longrightarrow> daemon_next H s y s' \<Longrightarrow> inv (fst s')"
    and arises: "inv (fst s) \<Longrightarrow> daemon_next H s y s' \<Longrightarrow> x \<in> facts (fst s') \<Longrightarrow>
      x \<in> facts (fst s) \<or> cause (fst s) y x"
begin

lemma run_inv: "daemon_run H s0 tr s \<Longrightarrow> inv (fst s0) \<Longrightarrow> inv (fst s)"
  by (induction rule: daemon_run.induct) (auto intro: inv_next)

lemma traced:
  assumes "daemon_run H s0 tr s" "inv (fst s0)" "x \<in> facts (fst s)"
  shows "x \<in> facts (fst s0) \<or> caused_by H cause s0 tr x"
  using assms
proof (induction rule: daemon_run.induct)
  case (run_step tr s y s')
  from arises [OF run_inv [OF run_step.hyps(1) run_step.prems(1)] run_step.hyps(2) run_step.prems(2)]
  show ?case
  proof
    assume "x \<in> facts (fst s)"
    with run_step.IH run_step.prems(1) show ?thesis by (auto intro: caused_by_snoc)
  next
    assume "cause (fst s) y x"
    then show ?thesis by (rule disjI2 [OF caused_by_last [OF run_step.hyps(1)]])
  qed
qed simp

end

section \<open>What a request asks for\<close>

text \<open>The request of a connection whose frame \<open>handle\<close> accepts.\<close>

definition request_of :: "conn \<Rightarrow> request option" where
  "request_of c =
     (case cn_line c of
        Inl _ \<Rightarrow> None
      | Inr frame \<Rightarrow> if MAX_FRAME_BYTES < length frame then None
          else case Request_parse frame of Inl _ \<Rightarrow> None | Inr r \<Rightarrow> Some r)"

lemma handle_world:
  "snd (snd (handle H t c w)) =
     (case request_of c of
        None \<Rightarrow> w
      | Some r \<Rightarrow> (case subscription r of
            Some (i, since) \<Rightarrow> snd (snd (audit_subscribe c i since w))
          | None \<Rightarrow> snd (dispatch H c t r w)))"
  by (auto simp: handle_def request_of_def case_prod_unfold Let_def split: sum.split option.split)

lemma subscription_Some: "subscription r = Some (i, since) \<Longrightarrow> r = AuditSubscribe i since"
  by (cases r) auto

text \<open>The answer that a connection gives to an open prompt, with the key it is about.\<close>

definition gives_answer :: "'k host \<Rightarrow> 'k world \<Rightarrow> daemon_step \<Rightarrow> answered \<Rightarrow> instant \<Rightarrow> bool" where
  "gives_answer H w s a at \<longleftrightarrow>
     (\<exists>t c i v sc q vd rs. s = SRequest t c \<and> peer_may_mutate H c \<and> request_of c = Some (PromptAnswer i v sc) \<and>
        parse_answer_verdict v = Some vd \<and> parse_rule_scope sc = Some rs \<and> sh_prompts (w_shared w) = Healthy q \<and>
        fst (PromptQueue_answer (t 0) (t 1) i vd rs q) = Inr a \<and> \<not> an_duplicate a \<and> at = t 1)"

text \<open>The step is an allow-once answer for the key, given at the time of the token.\<close>

definition grants_once :: "'k host \<Rightarrow> 'k world \<Rightarrow> daemon_step \<Rightarrow> prompt_key \<times> instant \<Rightarrow> bool" where
  "grants_once H w s = (\<lambda>(key, at).
     \<exists>a. gives_answer H w s a at \<and> an_key a = key \<and> an_verdict a = Allow \<and> an_scope a = RsOnce)"

text \<open>The step asks for a rule, directly or by an answer for the session or for good.\<close>

definition asks_rule :: "'k host \<Rightarrow> 'k world \<Rightarrow> daemon_step \<Rightarrow> rule \<Rightarrow> bool" where
  "asks_rule H w s r \<longleftrightarrow>
     (\<exists>t c v port. s = SRequest t c \<and> peer_may_mutate H c \<and>
        request_of c = Some (RuleAdd (rule_id r) (rule_executable r) v port) \<and>
        rule_port r = Some port \<and> parse_rule_verdict v = Some (rule_verdict r)) \<or>
     (\<exists>a at. gives_answer H w s a at \<and> an_scope a \<noteq> RsOnce \<and> rule_executable r = pk_executable (an_key a) \<and>
        rule_port r = Some (pk_port (an_key a)) \<and> rule_verdict r = an_verdict a)"

definition rules_in :: "'k world \<Rightarrow> rule set" where
  "rules_in w = set (rs_rules (into_inner (sh_rules (w_shared w))))"

definition tokens_in :: "'k world \<Rightarrow> (prompt_key \<times> instant) set" where
  "tokens_in w = {(k, at). map_of (pq_once_allows (into_inner (sh_prompts (w_shared w)))) k = Some at}"

section \<open>Rules\<close>

lemma rule_add_rules:
  assumes "r \<in> rules_in (snd (rule_add H c i x v p w))"
  shows "r \<in> rules_in w \<or> peer_may_mutate H c \<and> rule_id r = i \<and> rule_executable r = x \<and>
    rule_port r = Some p \<and> parse_rule_verdict v = Some (rule_verdict r)"
proof (cases "sh_rules (w_shared w)")
  case (Healthy rs)
  show ?thesis
    using assms
    by (auto simp: rule_add_def Healthy Let_def rules_in_def set_rules_def RuleSet_insert_def save_rules_def
        case_prod_unfold split: if_splits option.splits sum.splits bool.splits)
qed (use assms in \<open>auto simp: rule_add_def split: if_splits\<close>)


lemma rule_delete_rules: "r \<in> rules_in (snd (rule_delete H c i w)) \<Longrightarrow> r \<in> rules_in w"
  by (cases "sh_rules (w_shared w)")
    (auto simp: rule_delete_def Let_def rules_in_def set_rules_def RuleSet_remove_def save_rules_def
      case_prod_unfold split: if_splits bool.splits)

lemma persist_rules:
  assumes "r \<in> rules_in (snd (persist_answered_rule H a w))"
  shows "r \<in> rules_in w \<or> rule_executable r = pk_executable (an_key a) \<and>
    rule_port r = Some (pk_port (an_key a)) \<and> rule_verdict r = an_verdict a"
proof (cases "sh_rules (w_shared w)")
  case (Healthy rs)
  show ?thesis
    using assms
    by (auto simp: persist_answered_rule_def Healthy Let_def rules_in_def set_rules_def RuleSet_insert_def
        save_rules_def case_prod_unfold split: if_splits sum.splits bool.splits)
qed (use assms in \<open>simp add: persist_answered_rule_def\<close>)

text \<open>What \<open>prompt-answer\<close> can do: nothing to rules and prompts, or one answer, perhaps with a rule.\<close>

lemma prompt_answer_cases:
  fixes H :: "'k host" and w :: "'k world"
  obtains "snd (prompt_answer H c t i v s w) = w"
  | q vd sc r q' where "peer_may_mutate H c" "parse_answer_verdict v = Some vd" "parse_rule_scope s = Some sc"
      "sh_prompts (w_shared w) = Healthy q" "PromptQueue_answer (t 0) (t 1) i vd sc q = (r, q')"
      "snd (prompt_answer H c t i v s w) = set_prompts q' w \<or>
       (\<exists>a. r = Inr a \<and> \<not> an_duplicate a \<and> an_scope a \<noteq> RsOnce \<and>
          snd (prompt_answer H c t i v s w) = snd (persist_answered_rule H a (set_prompts q' w)))"
proof (cases "\<exists>q vd sc. peer_may_mutate H c \<and> parse_answer_verdict v = Some vd \<and> parse_rule_scope s = Some sc \<and>
    sh_prompts (w_shared w) = Healthy q")
  case True
  then obtain q vd sc where h: "peer_may_mutate H c" "parse_answer_verdict v = Some vd"
      "parse_rule_scope s = Some sc" "sh_prompts (w_shared w) = Healthy q" by blast
  obtain r q' where ans: "PromptQueue_answer (t 0) (t 1) i vd sc q = (r, q')" by fastforce
  have reply: "snd (case x of (Inl code, w) \<Rightarrow> err code w | (Inr _, w) \<Rightarrow> reply RPong w) = snd x"
    for x :: "(string + unit) \<times> 'k world" by (auto split: prod.split sum.split)
  have "snd (prompt_answer H c t i v s w) = set_prompts q' w \<or>
       (\<exists>a. r = Inr a \<and> \<not> an_duplicate a \<and> an_scope a \<noteq> RsOnce \<and>
          snd (prompt_answer H c t i v s w) = snd (persist_answered_rule H a (set_prompts q' w)))"
    by (cases r) (auto simp: prompt_answer_def h ans Let_def reply simp del: One_nat_def split: answer_error.split)
  with that(2) [OF h ans] show ?thesis by blast
next
  case False
  then have "snd (prompt_answer H c t i v s w) = w"
    by (cases "sh_prompts (w_shared w)") (auto simp: prompt_answer_def split: option.split)
  with that(1) show ?thesis by blast
qed

lemma answer_not_duplicate:
  "fst (PromptQueue_answer n1 n2 i v sc q) = Inr a \<Longrightarrow> \<not> an_duplicate a \<Longrightarrow> an_verdict a = v \<and> an_scope a = sc"
  by (auto simp: PromptQueue_answer_def Let_def split: option.splits if_splits)

lemma prompt_answer_rules:
  assumes "r \<in> rules_in (snd (prompt_answer H c t i v s w))" "request_of c = Some (PromptAnswer i v s)"
  shows "r \<in> rules_in w \<or> asks_rule H w (SRequest t c) r"
proof (rule prompt_answer_cases [of H c t i v s w])
  fix q vd sc res q'
  assume h: "peer_may_mutate H c" "parse_answer_verdict v = Some vd" "parse_rule_scope s = Some sc"
      "sh_prompts (w_shared w) = Healthy q" "PromptQueue_answer (t 0) (t 1) i vd sc q = (res, q')"
    and "snd (prompt_answer H c t i v s w) = set_prompts q' w \<or>
       (\<exists>a. res = Inr a \<and> \<not> an_duplicate a \<and> an_scope a \<noteq> RsOnce \<and>
          snd (prompt_answer H c t i v s w) = snd (persist_answered_rule H a (set_prompts q' w)))"
  from this(6) show ?thesis
  proof
    assume "snd (prompt_answer H c t i v s w) = set_prompts q' w"
    then show ?thesis using assms(1) by (simp add: rules_in_def set_prompts_def)
  next
    assume "\<exists>a. res = Inr a \<and> \<not> an_duplicate a \<and> an_scope a \<noteq> RsOnce \<and>
          snd (prompt_answer H c t i v s w) = snd (persist_answered_rule H a (set_prompts q' w))"
    then obtain a where a: "res = Inr a" "\<not> an_duplicate a" "an_scope a \<noteq> RsOnce"
      "snd (prompt_answer H c t i v s w) = snd (persist_answered_rule H a (set_prompts q' w))" by blast
    have "gives_answer H w (SRequest t c) a (t 1)"
      unfolding gives_answer_def using h a(1,2) assms(2) by auto
    with a(3,4) assms(1) persist_rules [of r H a "set_prompts q' w"] show ?thesis
      by (auto simp: asks_rule_def rules_in_def set_prompts_def)
  qed
qed (use assms(1) in simp)

lemma rules_in_requests:
  "rules_in (snd (mode_mutate H c b f w)) = rules_in w"
  "rules_in (snd (traffic_mutate H c sc dir u w)) = rules_in w"
  "rules_in (snd (prompt_list t w)) = rules_in w" "rules_in (snd (dns_list t w)) = rules_in w"
  "rules_in (snd (dns_note H c t h ip ttl w)) = rules_in w"
  "rules_in (snd (snd (audit_subscribe c i since w))) = rules_in w"
proof -
  have same: "rules_in w' = rules_in w" if "same_policy w w'" for w'
    using that by (auto simp: rules_in_def same_policy_def)
  show "rules_in (snd (prompt_list t w)) = rules_in w" "rules_in (snd (dns_list t w)) = rules_in w"
    by (rule same, rule prompt_list_same dns_list_same)+
  show "rules_in (snd (dns_note H c t h ip ttl w)) = rules_in w"
    by (cases "sh_dns (w_shared w)")
      (auto simp: dns_note_def Let_def set_dns_def rules_in_def split: option.split sum.split)
  show "rules_in (snd (snd (audit_subscribe c i since w))) = rules_in w"
    using audit_subscribe_same [of w c i since] by (auto simp: rules_in_def same_but_audit_def)
qed (use mode_mutate_only [of w H c b f] traffic_mutate_only [of w H c sc dir u] in
      \<open>simp_all add: rules_in_def modes_only_def\<close>)

lemma request_rules:
  assumes "r \<in> rules_in (snd (snd (handle H t c w)))"
  shows "r \<in> rules_in w \<or> asks_rule H w (SRequest t c) r"
proof (cases "request_of c")
  case (Some q)
  show ?thesis
  proof (cases "subscription q")
    case None
    then have "r \<in> rules_in (snd (dispatch H c t q w))" using assms by (simp add: handle_world Some)
    then show ?thesis
      using Some rule_delete_rules [of r H c _ w] rule_add_rules [of r H c _ _ _ _ w]
        prompt_answer_rules [of r H c t _ _ _ w]
      by (cases q)
        (auto simp: listing_same enforcement_mutate_def network_mutate_def rules_in_requests asks_rule_def)
  qed (use assms in \<open>auto simp: handle_world Some rules_in_requests split: prod.splits\<close>)
qed (use assms in \<open>simp add: handle_world\<close>)


lemma queue_kept:
  "sh_rules (w_shared (queue_up H w)) = sh_rules (w_shared w)" "sh_rules (w_shared (queue_down w)) = sh_rules (w_shared w)"
  "sh_prompts (w_shared (queue_up H w)) = sh_prompts (w_shared w)"
  "sh_prompts (w_shared (queue_down w)) = sh_prompts (w_shared w)"
  by (simp_all add: queue_up_def queue_down_def set_enforcement_def Let_def)

lemma gone_kept:
  "sh_rules (w_shared (subscriber_gone sid rm w)) = sh_rules (w_shared w)"
  "sh_prompts (w_shared (subscriber_gone sid rm w)) = sh_prompts (w_shared w)"
  by (cases "sh_audit (w_shared w)"; simp add: subscriber_gone_def case_prod_unfold Let_def)+

lemma attempt_kept:
  "sh_rules (w_shared (snd (attempt_packet now payload w))) = sh_rules (w_shared w)"
  "sh_prompts (w_shared (snd (attempt_packet now payload w))) = sh_prompts (w_shared w)"
  by (simp_all add: attempt_packet_def case_prod_unfold Let_def split: option.split)

lemma decide_event_rules: "sh_rules (w_shared (snd (decide_event H t ev w))) = sh_rules (w_shared w)"
  by (cases rule: decide_event_cases [of H t ev w]) simp_all

interpretation rule_origin: provenance H "\<lambda>_. True" rules_in "asks_rule H" for H
proof
  fix s y s' r
  assume "daemon_next H s y s'" "r \<in> rules_in (fst s')"
  then show "r \<in> rules_in (fst s) \<or> asks_rule H (fst s) y r"
  proof (induction rule: daemon_next.induct)
    case (next_decide t ev w d w')
    then show ?case using decide_event_rules [of H t ev w] by (simp add: rules_in_def)
  next
    case (next_request w f t c)
    then show ?case using request_rules by simp
  qed (simp_all add: rules_in_def store_shared gone_kept attempt_kept queue_kept)
qed simp

section \<open>Tokens\<close>

abbreviation allows_of :: "'k world \<Rightarrow> (prompt_key \<times> instant) list" where
  "allows_of w \<equiv> pq_once_allows (into_inner (sh_prompts (w_shared w)))"

lemma fold_tokens:
  assumes "list_all (\<lambda>x. \<not> is_answer x) ops" "hm_wf (pq_once_allows q)"
    and "map_of (pq_once_allows (fold prompt_step ops q)) k = Some at"
  shows "map_of (pq_once_allows q) k = Some at"
  using assms
proof (induction ops arbitrary: q)
  case (Cons x ops)
  then have "map_of (pq_once_allows (prompt_step x q)) k = Some at"
    using prompt_step_allows_hm_wf [of q x] by simp
  from prompt_step_allows [OF this Cons.prems(2)] Cons.prems(1) show ?case by auto
qed simp

lemma decide_prompt_ops:
  "\<exists>ops. list_all (\<lambda>x. \<not> is_answer x) ops \<and>
     tb_prompts (snd (decide P t ev rules tb)) = fold prompt_step ops (tb_prompts tb)"
proof -
  obtain r c where att: "attribute P ev (tb_cache tb) = (r, c)" by fastforce
  show ?thesis
  proof (cases r)
    case (Inl e)
    then show ?thesis by (intro exI [of _ "[]"]) (simp add: decide_def att)
  next
    case (Inr idt)
    then show ?thesis
      using decide_attributed_prompt_ops [of t idt ev rules "event_key ev" "tb\<lparr>tb_cache := c\<rparr>"]
      by (auto simp: decide_def att)
  qed
qed

lemma event_tokens:
  assumes "hm_wf (allows_of w)" "x \<in> tokens_in (snd (decide_event H t ev w))"
  shows "x \<in> tokens_in w"
proof (cases rule: decide_event_cases [of H t ev w])
  case (decided rules cache prompts dns recent d tb)
  then obtain ops where ops: "list_all (\<lambda>x. \<not> is_answer x) ops" "tb_prompts tb = fold prompt_step ops prompts"
    using decide_prompt_ops [of "ho_procfs H" t ev rules "tables_of cache prompts dns recent"]
    by (auto simp: tables_of_def)
  then have "allows_of (snd (decide_event H t ev w)) = pq_once_allows (fold prompt_step ops prompts)"
    by (simp add: decided)
  with assms fold_tokens [OF ops(1)] decided(3) show ?thesis by (auto simp: tokens_in_def)
qed (use assms(2) in simp)

lemma prompt_answer_tokens:
  assumes "hm_wf (allows_of w)" "x \<in> tokens_in (snd (prompt_answer H c t i v s w))"
    and "request_of c = Some (PromptAnswer i v s)"
  shows "x \<in> tokens_in w \<or> grants_once H w (SRequest t c) x"
proof (rule prompt_answer_cases [of H c t i v s w])
  fix q vd sc res q'
  assume h: "peer_may_mutate H c" "parse_answer_verdict v = Some vd" "parse_rule_scope s = Some sc"
      "sh_prompts (w_shared w) = Healthy q" "PromptQueue_answer (t 0) (t 1) i vd sc q = (res, q')"
    and "snd (prompt_answer H c t i v s w) = set_prompts q' w \<or>
       (\<exists>a. res = Inr a \<and> \<not> an_duplicate a \<and> an_scope a \<noteq> RsOnce \<and>
          snd (prompt_answer H c t i v s w) = snd (persist_answered_rule H a (set_prompts q' w)))"
  then have q': "sh_prompts (w_shared (snd (prompt_answer H c t i v s w))) = Healthy q'"
    using persist_only_rules [of "set_prompts q' w" H] by (auto simp: only_rules_def set_prompts_def)
  obtain k at where x: "x = (k, at)" by fastforce
  have tok: "map_of (pq_once_allows (prompt_step (QAnswer (t 0) (t 1) i vd sc) q)) k = Some at"
    using assms(2) h(5) by (simp add: tokens_in_def x q')
  show ?thesis
    using prompt_step_allows [OF tok] assms(1,3) h
    by (fastforce simp: tokens_in_def x grants_once_def gives_answer_def)
qed (use assms(2) in simp)


lemma prompts_kept:
  "sh_prompts (w_shared (snd (mode_mutate H c b f w))) = sh_prompts (w_shared w)"
  "sh_prompts (w_shared (snd (traffic_mutate H c sc dir u w))) = sh_prompts (w_shared w)"
  "sh_prompts (w_shared (snd (rule_add H c i x v p w))) = sh_prompts (w_shared w)"
  "sh_prompts (w_shared (snd (rule_delete H c i w))) = sh_prompts (w_shared w)"
  "sh_prompts (w_shared (snd (dns_note H c t h ip ttl w))) = sh_prompts (w_shared w)"
  "sh_prompts (w_shared (snd (dns_list t w))) = sh_prompts (w_shared w)"
  "sh_prompts (w_shared (snd (snd (audit_subscribe c sid since w)))) = sh_prompts (w_shared w)"
proof -
  show "sh_prompts (w_shared (snd (mode_mutate H c b f w))) = sh_prompts (w_shared w)"
    "sh_prompts (w_shared (snd (traffic_mutate H c sc dir u w))) = sh_prompts (w_shared w)"
    using mode_mutate_only [of w H c b f] traffic_mutate_only [of w H c sc dir u] by (simp_all add: modes_only_def)
  show "sh_prompts (w_shared (snd (rule_add H c i x v p w))) = sh_prompts (w_shared w)"
    "sh_prompts (w_shared (snd (rule_delete H c i w))) = sh_prompts (w_shared w)"
    using rule_add_only [of w H c i x v p] rule_delete_only [of w H c i] by (simp_all add: only_rules_def)
  show "sh_prompts (w_shared (snd (dns_note H c t h ip ttl w))) = sh_prompts (w_shared w)"
    "sh_prompts (w_shared (snd (dns_list t w))) = sh_prompts (w_shared w)"
    by (cases "sh_dns (w_shared w)"; auto simp: dns_note_def dns_list_def case_prod_unfold Let_def set_dns_def
        split: option.split sum.split)+
  show "sh_prompts (w_shared (snd (snd (audit_subscribe c sid since w)))) = sh_prompts (w_shared w)"
    using audit_subscribe_same [of w c sid since] by (auto simp: same_but_audit_def)
qed

lemma prompt_list_tokens:
  assumes "hm_wf (allows_of w)" "x \<in> tokens_in (snd (prompt_list t w))"
  shows "x \<in> tokens_in w"
proof (cases "sh_prompts (w_shared w)")
  case (Healthy q)
  have "sh_prompts (w_shared (snd (prompt_list t w))) = Healthy (fold prompt_step [QList (t 1)] q)"
    by (simp add: prompt_list_def encode_prompts_def Healthy case_prod_unfold Let_def set_prompts_def)
  then show ?thesis
    using fold_tokens [of "[QList (t 1)]" q] assms Healthy by (auto simp: tokens_in_def simp del: fold_simps)
qed (use assms(2) in \<open>simp add: prompt_list_def\<close>)

lemma request_tokens:
  assumes "hm_wf (allows_of w)" "x \<in> tokens_in (snd (snd (handle H t c w)))"
  shows "x \<in> tokens_in w \<or> grants_once H w (SRequest t c) x"
proof (cases "request_of c")
  case (Some q)
  show ?thesis
  proof (cases "subscription q")
    case None
    then have "x \<in> tokens_in (snd (dispatch H c t q w))" using assms(2) by (simp add: handle_world Some)
    then show ?thesis
      using Some prompt_list_tokens [OF assms(1)] prompt_answer_tokens [OF assms(1)]
      by (cases q)
        (auto simp: tokens_in_def listing_same enforcement_mutate_def network_mutate_def prompts_kept)
  qed (use assms(2) in \<open>auto simp: handle_world Some tokens_in_def prompts_kept split: prod.splits\<close>)
qed (use assms(2) in \<open>simp add: handle_world\<close>)

interpretation token_origin: provenance H "\<lambda>w. hm_wf (allows_of w)" tokens_in "grants_once H" for H
proof
  fix s y s'
  assume "hm_wf (allows_of (fst s))" and step: "daemon_next H s y s'"
  then show "hm_wf (allows_of (fst s'))"
    using prompt_view.moves [OF step] prompt_run_allows_hm_wf by (auto simp: moved_def prompt_run_def)
next
  fix s y s' x
  assume inv: "hm_wf (allows_of (fst s))" and step: "daemon_next H s y s'" "x \<in> tokens_in (fst s')"
  from step inv show "x \<in> tokens_in (fst s) \<or> grants_once H (fst s) y x"
  proof (induction rule: daemon_next.induct)
    case (next_decide t ev w d w')
    then show ?case using event_tokens [of w x H t ev] by simp
  next
    case (next_request w f t c)
    then show ?case using request_tokens [of w x H t c] by simp
  qed (simp_all add: tokens_in_def store_shared gone_kept attempt_kept queue_kept)
qed

section \<open>No packet without permission\<close>

lemma allow_step_token:
  assumes "fst (take_once_allow n1 n2 k q)" "hm_wf (pq_once_allows q)"
  obtains at where "map_of (pq_once_allows q) k = Some at" "n2 \<le> at + pq_ttl q"
proof -
  obtain at where at: "map_of (pq_once_allows (PromptQueue_expire n1 q)) k = Some at"
      "n2 \<le> at + pq_ttl (PromptQueue_expire n1 q)"
    using assms(1)
    by (cases "map_of (pq_once_allows (PromptQueue_expire n1 q)) k") (auto simp: take_once_allow_def Let_def)
  have "map_of (pq_once_allows q) k = Some at"
    using at(1) map_of_filter_val [OF assms(2), of "\<lambda>v. n1 \<le> v + pq_ttl q" k]
    by (simp add: expire_once_allows split: option.splits if_splits)
  moreover have "pq_ttl (PromptQueue_expire n1 q) = pq_ttl q"
    by (simp add: PromptQueue_expire_def Let_def)
  ultimately show ?thesis using at(2) that by simp
qed


text \<open>An accepting decision rests on a matching allow rule or on a token that has not run out.\<close>

lemma accept_grounds:
  assumes "event_decision H t ev w = Some d" "d_packet_verdict d = Accept" "hm_wf (allows_of w)"
  obtains idt where "fst (attribute (ho_procfs H) ev (into_inner (sh_process_cache (w_shared w)))) = Inr idt"
    "(\<exists>r cn. r \<in> rules_in w \<and> rule_verdict r = Allow \<and> Rule_matches r cn \<and>
        conn_executable cn = display (pi_executable idt) \<and> conn_address cn = V4 (event_octets ev) \<and>
        conn_port cn = ev_destination_port ev) \<or>
     (\<exists>at. (prompt_key_of idt ev, at) \<in> tokens_in w \<and>
        t 1 \<le> at + pq_ttl (into_inner (sh_prompts (w_shared w))))"
proof -
  obtain rules cache prompts dns recent where locks: "sh_rules (w_shared w) = Healthy rules"
      "sh_process_cache (w_shared w) = Healthy cache" "sh_prompts (w_shared w) = Healthy prompts"
    and d: "d = fst (decide (ho_procfs H) t ev rules (tables_of cache prompts dns recent))"
    using assms(1) by (cases rule: decide_event_cases [of H t ev w]) (auto, metis fst_conv)
  let ?tb = "tables_of cache prompts dns recent"
  have "d_packet_verdict (fst (decide (ho_procfs H) t ev rules ?tb)) = Accept" using assms(2) d by simp
  then obtain idt cache' where att: "attribute (ho_procfs H) ev cache = (Inr idt, cache')"
    and why: "fst (take_once_allow (t 0) (t 1) (prompt_key_of idt ev) prompts) \<or>
        RuleSet_verdict_for rules (fst (connection_from (t 3) idt ev dns)) = Allow"
    by (auto simp: decide_def Let_def decide_attributed_verdict tables_of_def
        split: prod.splits sum.splits verdict.splits if_splits)
  show ?thesis
  proof (rule that)
    show "fst (attribute (ho_procfs H) ev (into_inner (sh_process_cache (w_shared w)))) = Inr idt"
      by (simp add: locks att)
    from why show "(\<exists>r cn. r \<in> rules_in w \<and> rule_verdict r = Allow \<and> Rule_matches r cn \<and>
        conn_executable cn = display (pi_executable idt) \<and> conn_address cn = V4 (event_octets ev) \<and>
        conn_port cn = ev_destination_port ev) \<or>
     (\<exists>at. (prompt_key_of idt ev, at) \<in> tokens_in w \<and>
        t 1 \<le> at + pq_ttl (into_inner (sh_prompts (w_shared w))))"
    proof
      assume "fst (take_once_allow (t 0) (t 1) (prompt_key_of idt ev) prompts)"
      then show ?thesis
        using allow_step_token [of "t 0" "t 1" "prompt_key_of idt ev" prompts] assms(3) locks(3)
        by (auto simp: tokens_in_def)
    next
      let ?cn = "fst (connection_from (t 3) idt ev dns)"
      assume allow: "RuleSet_verdict_for rules ?cn = Allow"
      have cn: "conn_executable ?cn = display (pi_executable idt)" "conn_address ?cn = V4 (event_octets ev)"
          "conn_port ?cn = ev_destination_port ev"
        by (simp_all add: connection_from_def case_prod_unfold Let_def)
      obtain r where "r \<in> set (rs_rules rules)" "Rule_matches r ?cn" "rule_verdict r = Allow"
        using allow by (cases rule: verdict_for_cases [of rules ?cn]) auto
      then show ?thesis using cn locks(1) by (auto simp: rules_in_def)
    qed
  qed
qed


text \<open>
  The state in which a run starts: an empty pending table and an empty prompt queue, with their
  times to live. Start-up creates it, with five seconds and sixty.
\<close>

definition fresh_start :: "duration \<Rightarrow> duration \<Rightarrow> 'k world \<Rightarrow> bool" where
  "fresh_start ttl token_ttl w \<longleftrightarrow>
     (\<exists>cap p qcap. sh_pending (w_shared w) = Healthy p \<and> PendingTable_new cap ttl = Some p \<and>
        PromptQueue_new qcap token_ttl = Some (into_inner (sh_prompts (w_shared w))))"

lemma daemon_start_fresh:
  assumes "daemon_start H now args mode_env traffic_env attached s = Some (Inr (observer, w_shared w), s')"
  shows "fresh_start (from_secs 5) (from_secs 60) w"
  unfolding fresh_start_def using daemon_start_tables(1,4,10) [OF assms] by metis

lemma fresh_tokens:
  assumes "fresh_start ttl token_ttl w0" "daemon_run H (w0, Idle) tr (w, f)"
  shows "tokens_in w0 = {}" "hm_wf (allows_of w0)" "hm_wf (allows_of w)"
    "pq_ttl (into_inner (sh_prompts (w_shared w))) = token_ttl"
proof -
  obtain qcap where "PromptQueue_new qcap token_ttl = Some (into_inner (sh_prompts (w_shared w0)))"
    using assms(1) unfolding fresh_start_def by blast
  then have q: "allows_of w0 = [] \<and> pq_ttl (into_inner (sh_prompts (w_shared w0))) = token_ttl"
    unfolding PromptQueue_new_def by (metis option.distinct(1) option.inject prompt_queue.select_convs(2,7))
  then show "tokens_in w0 = {}" "hm_wf (allows_of w0)" by (simp_all add: tokens_in_def)
  then show "hm_wf (allows_of w)" using token_origin.run_inv [OF assms(2)] by simp
  show "pq_ttl (into_inner (sh_prompts (w_shared w))) = token_ttl"
    using prompt_view.run_moved [OF assms(2)] q prompt_run_fields(2) by (auto simp: moved_def prompt_run_def)
qed

end
