(* ===== verification/Delivery.thy ===== *)
theory Delivery
  imports Provenance
begin

text \<open>
  The other direction: what the daemon decided takes effect. A stored verdict reaches the packet of
  its connection whatever happens meanwhile, as long as the packet comes within the time to live
  and the table has room; and as long as no peer with permission sends anything, the policy stays
  what it was.
\<close>

section \<open>A verdict waits for its packet\<close>

lemma expire_length: "pending_wf t \<Longrightarrow> length (pt_entries (PendingTable_expire now t)) \<le> length (pt_entries t)"
  using expire_loop_wf [of now "pt_ttl t" "pt_order t" "pt_entries t"]
  by (auto simp: pending_wf_def PendingTable_expire_def split: prod.split)

lemma fifo_put_room:
  assumes "fifo_wf cap s" "length (snd s) < cap"
  shows "length (snd (fifo_put cap k v s)) \<le> Suc (length (snd s))"
    "k' \<noteq> k \<Longrightarrow> map_of (snd (fifo_put cap k v s)) k' = map_of (snd s) k'"
proof -
  obtain ord m where s: "s = (ord, m)" by (cases s)
  have "fifo_put cap k v s = (if k \<in> keys m then (ord, AList.update k v m) else (ord @ [k], AList.update k v m))"
    using assms by (simp add: s fifo_put_old fifo_put_new fifo_add_eq)
  then show "length (snd (fifo_put cap k v s)) \<le> Suc (length (snd s))"
    "k' \<noteq> k \<Longrightarrow> map_of (snd (fifo_put cap k v s)) k' = map_of (snd s) k'"
    using assms(1)
    by (auto simp: s fifo_wf_def hm_len_update_old hm_len_update_fresh map_of_update_eq)
qed

text \<open>With room in the table an insertion for another destination keeps a fresh entry.\<close>

lemma insert_room:
  assumes "pending_wf t" "length (pt_entries t) < pt_capacity t"
  shows "length (pt_entries (PendingTable_insert n1 n2 k v t)) \<le> Suc (length (pt_entries t))"
    "k' \<noteq> k \<Longrightarrow> map_of (pt_entries t) k' = Some e \<Longrightarrow> entry_fresh n1 (pt_ttl t) e \<Longrightarrow>
       map_of (pt_entries (PendingTable_insert n1 n2 k v t)) k' = Some e"
proof -
  let ?t = "PendingTable_expire n1 t"
  have room: "length (snd (pt_order ?t, pt_entries ?t)) < pt_capacity t"
    using expire_length [OF assms(1), of n1] assms(2) by simp
  note put = fifo_put_room [OF expire_fifo_wf [OF assms(1)] room]
  show "length (pt_entries (PendingTable_insert n1 n2 k v t)) \<le> Suc (length (pt_entries t))"
    using put(1) expire_length [OF assms(1), of n1]
    by (simp add: insert_as_fifo_put Let_def) (meson Suc_le_mono order_trans)
  show "map_of (pt_entries (PendingTable_insert n1 n2 k v t)) k' = Some e"
    if "k' \<noteq> k" "map_of (pt_entries t) k' = Some e" "entry_fresh n1 (pt_ttl t) e"
    using put(2) [OF that(1)] that(2,3) expire_lookup [OF assms(1), of n1 k']
    by (simp add: insert_as_fifo_put Let_def)
qed

lemma take_room:
  assumes "pending_wf t"
  shows "length (pt_entries (snd (PendingTable_take now k t))) \<le> length (pt_entries t)"
    "k' \<noteq> k \<Longrightarrow> map_of (pt_entries t) k' = Some e \<Longrightarrow> entry_fresh now (pt_ttl t) e \<Longrightarrow>
       map_of (pt_entries (snd (PendingTable_take now k t))) k' = Some e"
  using expire_length [OF assms, of now] AList.length_delete_le [of k "pt_entries (PendingTable_expire now t)"]
    expire_lookup [OF assms, of now k']
  by (auto simp: PendingTable_take_def Let_def map_of_delete_eq)

text \<open>The state in which an entry waits, in a table with at most \<open>n\<close> entries.\<close>

definition waiting :: "nat \<Rightarrow> duration \<Rightarrow> dest_key \<Rightarrow> pending_entry \<Rightarrow> nat \<Rightarrow> 'k world \<Rightarrow> bool" where
  "waiting cap ttl key e n w \<longleftrightarrow>
     (\<exists>p. sh_pending (w_shared w) = Healthy p \<and> pending_wf p \<and> pt_capacity p = cap \<and> pt_ttl p = ttl \<and>
        map_of (pt_entries p) key = Some e \<and> length (pt_entries p) \<le> n)"

text \<open>The clock of the steps that expire entries.\<close>

fun step_before :: "instant \<Rightarrow> daemon_step \<Rightarrow> bool" where
  "step_before now (SStore t ev d) = (t 6 \<le> now)"
| "step_before now (SAttempt n payload) = (n \<le> now)"
| "step_before now x = True"

lemma entry_fresh_mono: "entry_fresh now ttl e \<Longrightarrow> n \<le> now \<Longrightarrow> entry_fresh n ttl e"
  by (simp add: entry_fresh_def)

lemma waiting_quiet: "waiting cap ttl key e n w \<Longrightarrow> pending_kept w w' \<Longrightarrow> waiting cap ttl key e (Suc n) w'"
  by (auto simp: waiting_def)

lemma waiting_store:
  assumes "waiting cap ttl key e n w" "n < cap" "d_key d \<noteq> key" "entry_fresh (t 6) ttl e"
  shows "waiting cap ttl key e (Suc n) (store_pending t d w)"
proof -
  obtain p where p: "sh_pending (w_shared w) = Healthy p" "pending_wf p" "pt_capacity p = cap" "pt_ttl p = ttl"
      "map_of (pt_entries p) key = Some e" "length (pt_entries p) \<le> n"
    using assms(1) unfolding waiting_def by blast
  have room: "length (pt_entries p) < pt_capacity p" using p assms(2) by simp
  show ?thesis
    using p assms(3,4) insert_room(2) [OF p(2) room, where ?n1.0 = "t 6" and k = "d_key d" and k' = key and e = e]
    by (auto simp: waiting_def store_shared insert_wf intro: order_trans [OF insert_room(1) [OF p(2) room]])
qed

lemma waiting_attempt:
  assumes "waiting cap ttl key e n w" "tcp_destination payload \<noteq> Some key" "entry_fresh now ttl e"
  shows "waiting cap ttl key e (Suc n) (snd (attempt_packet now payload w))"
proof (cases "tcp_destination payload")
  case None
  then show ?thesis using waiting_quiet [OF assms(1)] by (simp add: attempt_packet_def)
next
  case (Some k)
  obtain p where p: "sh_pending (w_shared w) = Healthy p" "pending_wf p" "pt_capacity p = cap" "pt_ttl p = ttl"
      "map_of (pt_entries p) key = Some e" "length (pt_entries p) \<le> n"
    using assms(1) unfolding waiting_def by blast
  from p assms(2,3) Some show ?thesis
    using take_room(1) [OF p(2), where now = now and k = k] take_room(2) [OF p(2), where now = now and k = k and k' = key and e = e]
    by (auto simp: waiting_def attempt_packet_def lookup_attempt_def case_prod_unfold Let_def take_wf)
qed

text \<open>The destination a verdict in flight is for.\<close>

definition flight_keyed :: "flight \<Rightarrow> bool" where
  "flight_keyed f \<longleftrightarrow> (\<forall>t ev d. f = ToStore t ev d \<longrightarrow> d_key d = event_key ev)"

lemma next_keyed: "daemon_next H s x s' \<Longrightarrow> flight_keyed (snd s) \<Longrightarrow> flight_keyed (snd s')"
proof (induction rule: daemon_next.induct)
  case (next_decide t ev w d w')
  then have "d = Some d1 \<Longrightarrow> d_key d1 = event_key ev" for d1 using decision_key [of H t ev w d1] by simp
  then show ?case by (cases d) (simp_all add: flight_keyed_def after_decision_def)
qed (simp_all add: flight_keyed_def)

lemma waiting_next:
  assumes "daemon_next H s x s'" "waiting cap ttl key e n (fst s)" "n < cap" "flight_keyed (snd s)"
    and "step_key x \<noteq> Some key" "step_before now x" "entry_fresh now ttl e"
  shows "waiting cap ttl key e (Suc n) (fst s')"
  using assms
proof (induction rule: daemon_next.induct)
  case (next_decide t ev w d w')
  then show ?case using waiting_quiet decide_event_pending [of H t ev w] by simp
next
  case (next_store w t ev d)
  then show ?case using waiting_store [of cap ttl key e n w d t] by (auto simp: flight_keyed_def intro: entry_fresh_mono)
next
  case (next_attempt w f n' payload)
  then show ?case using waiting_attempt [of cap ttl key e n w payload n'] by (auto intro: entry_fresh_mono)
next
  case (next_request w f t c)
  then show ?case using waiting_quiet [OF _ handle_pending] by simp
next
  case (next_gone w f sid rm)
  then show ?case using waiting_quiet [OF _ subscriber_gone_pending] by simp
next
  case (next_up w f)
  then show ?case using waiting_quiet [OF _ queue_pending(1)] by simp
next
  case (next_down w f)
  then show ?case using waiting_quiet [OF _ queue_pending(2)] by simp
qed (simp_all add: waiting_quiet store_shared)

lemma waiting_run:
  assumes "daemon_run H s tr s'" "waiting cap ttl key e n (fst s)" "flight_keyed (snd s)" "n + length tr \<le> cap"
    and "\<forall>x \<in> set tr. step_key x \<noteq> Some key \<and> step_before now x" "entry_fresh now ttl e"
  shows "waiting cap ttl key e (n + length tr) (fst s') \<and> flight_keyed (snd s')"
  using assms
proof (induction rule: daemon_run.induct)
  case (run_step tr s' x s'')
  then show ?case
    using waiting_next [OF run_step.hyps(2), of cap ttl key e "n + length tr" now] next_keyed [OF run_step.hyps(2)]
    by simp
qed simp

lemma waiting_take:
  "waiting cap ttl key e n w \<Longrightarrow> entry_fresh now ttl e \<Longrightarrow> tcp_destination payload = Some key \<Longrightarrow>
     fst (attempt_packet now payload w) = Some (pe_verdict e)"
  using pending_peek_eq
  by (fastforce simp: waiting_def attempt_packet_def lookup_attempt_def pending_peek_def case_prod_unfold Let_def)

text \<open>
  C2: a decided connection gets its verdict. When the observation thread has decided an event and
  stored the verdict, its packet gets exactly this verdict at the next attempt of the queue thread,
  whatever sections of other events, packets, requests and stream ends of other destinations come
  between, provided the attempt is within the time to live by a clock that does not run backwards
  and fewer steps come between than the table has places left.
\<close>

theorem decided_connection_delivered:
  assumes "event_decision H t ev w0 = Some d" "sh_pending (w_shared w1) = Healthy p" "pending_wf p"
    and "daemon_run H (w1, ToStore t ev d) (SStore t ev d # tr) (w, f)"
    and "\<forall>x \<in> set tr. step_key x \<noteq> Some (event_key ev) \<and> step_before now x"
    and "length (pt_entries p) + length tr < pt_capacity p" "now - t 7 \<le> pt_ttl p"
    and "tcp_destination payload = Some (event_key ev)"
  shows "fst (attempt_packet now payload w) = Some (d_packet_verdict d)"
proof -
  let ?e = "\<lparr>pe_verdict = d_packet_verdict d, pe_inserted_at = t 7\<rparr>"
  let ?n = "Suc (length (pt_entries p))"
  have room: "length (pt_entries p) < pt_capacity p" using assms(6) by simp
  have run: "daemon_run H (store_pending t d w1, ToCount d) tr (w, f)" using run_first [OF assms(4)] by (auto simp: daemon_store)
  have "waiting (pt_capacity p) (pt_ttl p) (event_key ev) ?e ?n (store_pending t d w1)"
    using assms(2,3) insert_room(1) [OF assms(3) room] decision_key [OF assms(1)]
    by (simp add: waiting_def store_shared insert_wf insert_lookup_same)
  moreover have fresh: "entry_fresh now (pt_ttl p) ?e" using assms(7) by (simp add: entry_fresh_def)
  ultimately have "waiting (pt_capacity p) (pt_ttl p) (event_key ev) ?e (?n + length tr) w"
    using waiting_run [OF run, of "pt_capacity p" "pt_ttl p" "event_key ev" ?e ?n now] assms(5,6)
    by (simp add: flight_keyed_def)
  from waiting_take [OF this fresh assms(8)] show ?thesis by simp
qed

section \<open>A policy nobody may change\<close>

text \<open>The rules, the enforcement mode, the kill switch and where they are stored.\<close>

definition same_rules_and_modes :: "'k world \<Rightarrow> 'k world \<Rightarrow> bool" where
  "same_rules_and_modes w w' \<longleftrightarrow>
     sh_rules (w_shared w') = sh_rules (w_shared w) \<and> sh_paused (w_shared w') = sh_paused (w_shared w) \<and>
     sh_machine_traffic (w_shared w') = sh_machine_traffic (w_shared w) \<and>
     sh_store (w_shared w') = sh_store (w_shared w) \<and> sh_mode_path (w_shared w') = sh_mode_path (w_shared w) \<and>
     sh_traffic_path (w_shared w') = sh_traffic_path (w_shared w)"

lemma same_rules_trans:
  "same_rules_and_modes a b \<Longrightarrow> same_rules_and_modes b c \<Longrightarrow> same_rules_and_modes a c"
  by (simp add: same_rules_and_modes_def)

lemma store_kernel:
  "w_kernel (store_pending t d w) = w_kernel w" "w_kernel (store_stats d w) = w_kernel w"
  "w_kernel (store_audit d w) = w_kernel w"
  by (cases "sh_pending (w_shared w)"; cases "sh_stats (w_shared w)"; cases "sh_audit (w_shared w)";
      simp add: store_pending_def store_stats_def store_audit_def case_prod_unfold Let_def)+

lemma decide_policy:
  "same_rules_and_modes w (snd (decide_event H t ev w)) \<and> w_kernel (snd (decide_event H t ev w)) = w_kernel w"
  by (cases rule: decide_event_cases [of H t ev w]) (simp_all add: same_rules_and_modes_def)

lemma refused_policy:
  assumes "\<not> peer_may_mutate H c"
  shows "same_rules_and_modes w (snd (snd (handle H t c w))) \<and> w_kernel (snd (snd (handle H t c w))) = w_kernel w"
proof -
  have same: "same_rules_and_modes w w' \<and> w_kernel w' = w_kernel w" if "same_policy w w' \<or> same_but_audit w w'" for w'
    using that by (auto simp: same_policy_def same_but_audit_def same_rules_and_modes_def)
  have refl: "same_rules_and_modes w w" by (simp add: same_rules_and_modes_def)
  show ?thesis
    using same [OF disjI1, OF dispatch_unauthorized [OF assms]] same [OF disjI2, OF audit_subscribe_same] refl
    by (auto simp: handle_world split: option.split)
qed

lemma next_policy:
  assumes "daemon_next H s x s'" "\<And>t c. x = SRequest t c \<Longrightarrow> \<not> peer_may_mutate H c"
  shows "same_rules_and_modes (fst s) (fst s') \<and> (x \<noteq> SQueueUp \<longrightarrow> w_kernel (fst s') = w_kernel (fst s))"
  using assms
proof (induction rule: daemon_next.induct)
  case (next_decide t ev w d w')
  then show ?case using decide_policy [of w H t ev] by simp
next
  case (next_request w f t c)
  then show ?case using refused_policy [of H c w t] by simp
next
  case (next_gone w f sid rm)
  then show ?case
    by (cases "sh_audit (w_shared w)")
      (simp_all add: same_rules_and_modes_def subscriber_gone_def case_prod_unfold Let_def)
qed (simp_all add: same_rules_and_modes_def store_shared store_kernel attempt_packet_def queue_up_def queue_down_def
    set_enforcement_def case_prod_unfold Let_def split: option.split)

lemma run_policy:
  assumes "daemon_run H s0 tr s" "\<forall>t c. SRequest t c \<in> set tr \<longrightarrow> \<not> peer_may_mutate H c"
  shows "same_rules_and_modes (fst s0) (fst s) \<and> (SQueueUp \<notin> set tr \<longrightarrow> w_kernel (fst s) = w_kernel (fst s0))"
  using assms
proof (induction rule: daemon_run.induct)
  case (run_step tr s x s')
  then show ?case using next_policy [OF run_step.hyps(2)] by (auto intro: same_rules_trans)
qed (simp add: same_rules_and_modes_def)

text \<open>
  C3: nobody without permission moves the policy. In every run in which no peer that may change the
  policy sends a request, whatever else is sent, observed or queued, for however long: the rules,
  the enforcement mode and the kill switch are those of the start, no allow-once token appears,
  and the kernel's table changes only when the queue thread binds its queue.
\<close>

theorem policy_frozen_without_operator:
  assumes "daemon_run H (w0, f0) tr (w, f)" "\<forall>t c. SRequest t c \<in> set tr \<longrightarrow> \<not> peer_may_mutate H c"
    and "hm_wf (allows_of w0)"
  shows "same_rules_and_modes w0 w \<and> tokens_in w \<subseteq> tokens_in w0 \<and> (SQueueUp \<notin> set tr \<longrightarrow> w_kernel w = w_kernel w0)"
proof -
  have "\<not> caused_by H (grants_once H) (w0, f0) tr x" for x
    using assms(2) by (fastforce simp: caused_by_def grants_once_def gives_answer_def)
  then have "tokens_in w \<subseteq> tokens_in w0"
    using token_origin.traced [OF assms(1)] assms(3) by auto
  with run_policy [OF assms(1,2)] show ?thesis by simp
qed

section \<open>Witnesses\<close>

definition world_allow :: "(string option) world" where
  "world_allow = set_rules \<lparr>rs_rules = [\<lparr>rule_id = 1, rule_executable = ''/bin/x'', rule_protocol = None,
     rule_direction = None, rule_address = None, rule_hostname = None, rule_port = None,
     rule_verdict = Allow, rule_scope = Permanent\<rparr>]\<rparr> world_demo"

lemma world_allow_shared:
  "sh_rules (w_shared world_allow) = Healthy \<lparr>rs_rules = [\<lparr>rule_id = 1, rule_executable = ''/bin/x'',
      rule_protocol = None, rule_direction = None, rule_address = None, rule_hostname = None, rule_port = None,
      rule_verdict = Allow, rule_scope = Permanent\<rparr>]\<rparr>"
  "sh_process_cache (w_shared world_allow) = Healthy (tb_cache tables_demo)"
  "sh_prompts (w_shared world_allow) = Healthy queue_demo" "sh_dns (w_shared world_allow) = Healthy dns_demo"
  "sh_recent (w_shared world_allow) = Healthy recent_demo" "sh_pending (w_shared world_allow) = Healthy pending_two"
  "ho_procfs host_demo = procfs_none"
  by (simp_all add: world_allow_def set_rules_def world_demo_def shared_demo_def tables_demo_def host_demo_def)

lemma world_allow_accepts:
  "\<exists>d. event_decision host_demo (\<lambda>_. 0) event_demo world_allow = Some d \<and> d_packet_verdict d = Accept"
proof -
  have exe: "display (pi_executable (identity_demo 2)) = ''/bin/x''"
    unfolding display_def identity_demo_def process_identity.select_convs
    by (rule utf8_lossy_valid) (rule utf8_valid_ascii, auto)
  have "d_packet_verdict (fst (decide procfs_none (\<lambda>_. 0) event_demo \<lparr>rs_rules = [\<lparr>rule_id = 1,
      rule_executable = ''/bin/x'', rule_protocol = None, rule_direction = None, rule_address = None,
      rule_hostname = None, rule_port = None, rule_verdict = Allow, rule_scope = Permanent\<rparr>]\<rparr>
      (tables_of (tb_cache tables_demo) queue_demo dns_demo recent_demo))) = Accept"
    by (simp add: decide_def tables_of_def attribute_demo decide_attributed_verdict prompts_eval consume_once_deny_def
        RuleSet_verdict_for_def Rule_matches_def connection_from_def hostname_for_def max_by_key_def
        case_prod_unfold exe)
  then show ?thesis by (simp add: decide_event_def world_allow_shared case_prod_unfold Let_def)
qed

definition packet_demo :: "u8 list" where
  "packet_demo = tcp_packet (replicate 8 0) (replicate 6 0) [127, 0, 0, 1] [0, 0] [1, 187] []"

lemma packet_demo_key: "tcp_destination packet_demo = Some (event_key event_demo)"
  by (simp add: packet_demo_def tcp_packet_destination event_key_def event_demo_def from_be_bytes_def from_le_bytes_def)

lemma pending_two_new: "PendingTable_new 2 5 = Some pending_two"
  by (simp add: PendingTable_new_def pending_two_def)

theorem decided_connection_delivered_witness:
  "\<exists>d w1 w f. decide_event host_demo (\<lambda>_. 0) event_demo world_allow = (Some d, w1) \<and>
     daemon_run host_demo (w1, ToStore (\<lambda>_. 0) event_demo d)
       [SStore (\<lambda>_. 0) event_demo d, SRequest (\<lambda>_. 0) (conn_demo None ''v1 status'')] (w, f) \<and>
     fst (attempt_packet 4 packet_demo w) = Some Accept"
proof -
  obtain d where d: "event_decision host_demo (\<lambda>_. 0) event_demo world_allow = Some d" "d_packet_verdict d = Accept"
    using world_allow_accepts by blast
  then obtain w1 where dec: "decide_event host_demo (\<lambda>_. 0) event_demo world_allow = (Some d, w1)"
    by (metis prod.collapse)
  have pending: "sh_pending (w_shared w1) = Healthy pending_two"
    using decide_event_pending [of host_demo "\<lambda>_. 0" event_demo world_allow] dec world_allow_shared(6) by simp
  obtain w f where run: "daemon_run host_demo (w1, ToStore (\<lambda>_. 0) event_demo d)
      [SStore (\<lambda>_. 0) event_demo d, SRequest (\<lambda>_. 0) (conn_demo None ''v1 status'')] (w, f)"
    using run_step [OF daemon_run_one [OF next_store] next_request] by fastforce
  have "fst (attempt_packet 4 packet_demo w) = Some (d_packet_verdict d)"
    by (rule decided_connection_delivered [OF d(1) pending PendingTable_new_wf [OF pending_two_new] run])
      (simp_all add: packet_demo_key pending_two_def)
  with d(2) run dec show ?thesis by auto
qed

theorem policy_frozen_without_operator_witness:
  "\<exists>d w f. daemon_run host_demo (world_allow, Idle)
       [SRequest (\<lambda>_. 0) (conn_demo None ''v1 pause''), SDecide (\<lambda>_. 0) event_demo d] (w, f) \<and>
     same_rules_and_modes world_allow w \<and> tokens_in w \<subseteq> tokens_in world_allow"
proof -
  let ?c = "conn_demo None ''v1 pause''"
  obtain d w f where run: "daemon_run host_demo (world_allow, Idle)
      [SRequest (\<lambda>_. 0) ?c, SDecide (\<lambda>_. 0) event_demo d] (w, f)"
    using run_step [OF daemon_run_one [OF next_request] next_decide [OF prod.collapse [symmetric]]] by fastforce
  have "\<not> peer_may_mutate host_demo ?c" by (simp add: peer_may_mutate_def conn_demo_def)
  moreover have "hm_wf (allows_of world_allow)" by (simp add: world_allow_shared queue_demo_def)
  ultimately show ?thesis using policy_frozen_without_operator [OF run] run by auto
qed

end
