(* ===== verification/Locks.thy ===== *)
theory Locks
  imports Prelude
begin

text \<open>
  Threads that take mutexes. An operation is the sequence of locks it takes and gives back; a
  thread has the locks it holds, what is left of its operation, and the operations still to come.
  Any thread may move at any time, a \<open>lock()\<close> call only while no thread holds the lock; after any
  action of an operation the thread may also leave it, giving back what it holds, which covers
  every early return and every poisoned lock.

  The locale \<open>lock_order\<close> is the discipline that makes this safe: there is a rank such that every
  operation takes locks upwards only. Then runs are bounded, no lock is held twice, and a state in
  which nothing can move is one in which every thread has finished.
\<close>

section \<open>Threads and their steps\<close>

datatype 'l lock_op = Acquire 'l | Release 'l

datatype 'l lock_thread =
  Thread (held: "'l list") (todo: "'l lock_op list") (later: "'l lock_op list list")

definition starting :: "'l lock_op list list \<Rightarrow> 'l lock_thread" where
  "starting ops = Thread [] [] ops"

definition finished :: "'l lock_thread \<Rightarrow> bool" where
  "finished t \<longleftrightarrow> t = Thread [] [] []"

inductive thread_step :: "('l \<Rightarrow> bool) \<Rightarrow> 'l lock_thread \<Rightarrow> 'l lock_thread \<Rightarrow> bool" for free where
  begin_op: "thread_step free (Thread [] [] (ops # ls)) (Thread [] ops ls)"
| refuse_op: "thread_step free (Thread [] [] (ops # ls)) (Thread [] [] ls)"
| acquire: "free l \<Longrightarrow> thread_step free (Thread h (Acquire l # ops) ls) (Thread (l # h) ops ls)"
| acquire_leave: "free l \<Longrightarrow> thread_step free (Thread h (Acquire l # ops) ls) (Thread (l # h) (map Release (l # h)) ls)"
| release: "thread_step free (Thread h (Release l # ops) ls) (Thread (remove1 l h) ops ls)"
| release_leave: "thread_step free (Thread h (Release l # ops) ls) (Thread (remove1 l h) (map Release (remove1 l h)) ls)"

inductive_simps thread_step_acquire: "thread_step free (Thread h (Acquire l # ops) ls) t'"

definition lock_free :: "'l lock_thread list \<Rightarrow> 'l \<Rightarrow> bool" where
  "lock_free ts l \<longleftrightarrow> (\<forall>t\<in>set ts. l \<notin> set (held t))"

inductive lock_step :: "'l lock_thread list \<Rightarrow> 'l lock_thread list \<Rightarrow> bool" where
  lock_stepI: "i < length ts \<Longrightarrow> thread_step (lock_free ts) (ts ! i) t' \<Longrightarrow> lock_step ts (ts[i := t'])"

lemma acquire_step:
  assumes "i < length ts" "ts ! i = Thread h (Acquire l # ops) ls" "lock_free ts l"
  shows "lock_step ts (ts[i := Thread (l # h) ops ls])"
  using lock_stepI [OF assms(1)] acquire [of "lock_free ts" l h ops ls, OF assms(3)] by (simp add: assms(2))

lemma begin_step:
  assumes "i < length ts" "ts ! i = Thread [] [] (ops # ls)"
  shows "lock_step ts (ts[i := Thread [] ops ls])"
  using lock_stepI [OF assms(1)] begin_op [of "lock_free ts" ops ls] by (simp add: assms(2))

section \<open>Scripts that take locks upwards\<close>

fun well_locked :: "('l \<Rightarrow> nat) \<Rightarrow> 'l list \<Rightarrow> 'l lock_op list \<Rightarrow> bool" where
  "well_locked rank h [] \<longleftrightarrow> h = []"
| "well_locked rank h (Acquire l # ops) \<longleftrightarrow> (\<forall>k\<in>set h. rank k < rank l) \<and> well_locked rank (l # h) ops"
| "well_locked rank h (Release l # ops) \<longleftrightarrow> l \<in> set h \<and> well_locked rank (remove1 l h) ops"

text \<open>The locks an operation takes.\<close>

fun acquired :: "'l lock_op list \<Rightarrow> 'l set" where
  "acquired [] = {}"
| "acquired (Acquire l # ops) = insert l (acquired ops)"
| "acquired (Release l # ops) = acquired ops"

lemma acquired_append [simp]: "acquired (xs @ ys) = acquired xs \<union> acquired ys"
  by (induction xs rule: acquired.induct) auto

lemma well_locked_leave: "well_locked rank h (map Release h)"
  by (induction h) auto

lemma well_locked_length: "well_locked rank h ops \<Longrightarrow> length h \<le> length ops"
  by (induction rank h ops rule: well_locked.induct) (auto simp: length_remove1 split: if_splits)

lemma well_locked_append:
  "well_locked rank h xs \<Longrightarrow> well_locked rank [] ys \<Longrightarrow> well_locked rank h (xs @ ys)"
  by (induction rank h xs rule: well_locked.induct) auto

section \<open>The cost of what is left\<close>

fun thread_cost :: "'l lock_thread \<Rightarrow> nat" where
  "thread_cost (Thread h ops ls) = length ops + sum_list (map (\<lambda>ops. Suc (length ops)) ls)"

definition threads_cost :: "'l lock_thread list \<Rightarrow> nat" where
  "threads_cost ts = sum_list (map thread_cost ts)"

text \<open>What every thread keeps: its locks are those its operation expects, and no lock twice.\<close>

fun thread_ok :: "('l \<Rightarrow> nat) \<Rightarrow> 'l lock_thread \<Rightarrow> bool" where
  "thread_ok rank (Thread h ops ls) \<longleftrightarrow> distinct h \<and> well_locked rank h ops \<and> (\<forall>ops\<in>set ls. well_locked rank [] ops)"

definition exclusive :: "'l lock_thread list \<Rightarrow> bool" where
  "exclusive ts \<longleftrightarrow> (\<forall>i < length ts. \<forall>j < length ts. i \<noteq> j \<longrightarrow> set (held (ts ! i)) \<inter> set (held (ts ! j)) = {})"

lemma thread_step_ok: "thread_step free t t' \<Longrightarrow> thread_ok rank t \<Longrightarrow> thread_ok rank t'"
  by (induction rule: thread_step.induct) (auto simp: well_locked_leave distinct_remove1)

lemma thread_step_cost: "thread_step free t t' \<Longrightarrow> thread_ok rank t \<Longrightarrow> thread_cost t' < thread_cost t"
  by (induction rule: thread_step.induct)
    (auto simp: length_remove1 dest: well_locked_length split: if_splits)

lemma thread_step_held: "thread_step free t t' \<Longrightarrow> l \<in> set (held t') \<Longrightarrow> l \<in> set (held t) \<or> free l"
  by (induction rule: thread_step.induct) (auto dest: set_remove1_subset [THEN subsetD])

text \<open>A thread that cannot move has finished or waits for a lock above all it holds.\<close>

lemma thread_blocked:
  assumes "\<And>t'. \<not> thread_step free t t'" "thread_ok rank t" "\<not> finished t"
  obtains l ops where "todo t = Acquire l # ops" "\<not> free l" "\<forall>k\<in>set (held t). rank k < rank l"
proof (cases t)
  case (Thread h ops ls)
  show ?thesis
  proof (cases ops)
    case Nil
    with Thread assms show ?thesis by (cases ls) (auto simp: finished_def intro: thread_step.intros)
  next
    case (Cons a rest)
    with Thread assms that show ?thesis by (cases a) (auto intro: thread_step.intros)
  qed
qed

section \<open>The lock order\<close>

locale lock_order =
  fixes rank :: "'l \<Rightarrow> nat" and script :: "'op \<Rightarrow> 'l lock_op list" and allowed :: "'op \<Rightarrow> bool"
  assumes ordered: "allowed x \<Longrightarrow> well_locked rank [] (script x)"
begin

definition sound :: "'l lock_thread list \<Rightarrow> bool" where
  "sound ts \<longleftrightarrow> (\<forall>t\<in>set ts. thread_ok rank t) \<and> exclusive ts"

lemma start_sound:
  assumes "\<forall>ops\<in>set plans. \<forall>x\<in>set ops. allowed x"
  shows "sound (map (\<lambda>ops. starting (map script ops)) plans)"
  using assms ordered by (auto simp: sound_def starting_def exclusive_def)

lemma step_sound:
  assumes "lock_step ts ts'" "sound ts"
  shows "sound ts'"
  using assms
proof (induction rule: lock_step.induct)
  case (lock_stepI i ts t')
  then have ok: "thread_ok rank t'" by (auto simp: sound_def intro: thread_step_ok)
  have apart: "set (held t') \<inter> set (held (ts ! j)) = {}" if "j < length ts" "j \<noteq> i" for j
    using that lock_stepI thread_step_held [OF lock_stepI.hyps(2)]
    by (fastforce simp: sound_def exclusive_def lock_free_def)
  have "exclusive (ts[i := t'])"
    unfolding exclusive_def
  proof (intro allI impI)
    fix a b
    assume "a < length (ts[i := t'])" "b < length (ts[i := t'])" "a \<noteq> b"
    with lock_stepI.prems apart show "set (held (ts[i := t'] ! a)) \<inter> set (held (ts[i := t'] ! b)) = {}"
      by (cases "a = i"; cases "b = i") (auto simp: sound_def exclusive_def)
  qed
  with ok lock_stepI.prems show ?case by (auto simp: sound_def dest: set_update_subset_insert [THEN subsetD])
qed

lemma step_cost:
  assumes "lock_step ts ts'" "sound ts"
  shows "threads_cost ts' < threads_cost ts"
  using assms
proof (induction rule: lock_step.induct)
  case (lock_stepI i ts t')
  then have "thread_cost t' < thread_cost (ts ! i)" by (auto simp: sound_def intro: thread_step_cost)
  moreover have "thread_cost (ts ! i) \<le> threads_cost ts"
    using lock_stepI.hyps(1) by (auto simp: threads_cost_def intro: member_le_sum_list)
  ultimately show ?case
    using lock_stepI.hyps(1) by (simp add: threads_cost_def map_update sum_list_update)
qed

text \<open>Runs are bounded by the number of actions the threads have to do.\<close>

lemma run_sound: "(lock_step ^^ n) ts ts' \<Longrightarrow> sound ts \<Longrightarrow> sound ts' \<and> n + threads_cost ts' \<le> threads_cost ts"
proof (induction n arbitrary: ts')
  case (Suc n)
  then obtain mid where "(lock_step ^^ n) ts mid" "lock_step mid ts'" by auto
  with Suc step_sound step_cost show ?case by fastforce
qed simp

text \<open>Nothing can move only when all is done: among the locks waited for, take one of highest rank;
  its owner waits for a higher one.\<close>

lemma no_deadlock:
  assumes "sound ts" "\<And>ts'. \<not> lock_step ts ts'" "t \<in> set ts"
  shows "finished t"
proof (rule ccontr)
  assume "\<not> finished t"
  define waits where "waits = {l. \<exists>u\<in>set ts. \<exists>ops. todo u = Acquire l # ops}"
  have stuck: "\<not> thread_step (lock_free ts) u u'" if "u \<in> set ts" for u u'
    using that assms(2) by (auto simp: in_set_conv_nth intro: lock_stepI)
  have blocked: "\<exists>l ops. todo u = Acquire l # ops \<and> \<not> lock_free ts l \<and> (\<forall>k\<in>set (held u). rank k < rank l)"
    if "u \<in> set ts" "\<not> finished u" for u
    using thread_blocked [of "lock_free ts" u rank] stuck that assms(1) by (metis sound_def)
  have "waits \<subseteq> (\<lambda>u. case todo u of Acquire l # ops \<Rightarrow> l) ` set ts" unfolding waits_def by force
  then have "finite waits" by (rule finite_subset) simp
  moreover have "waits \<noteq> {}" using blocked [OF assms(3) \<open>\<not> finished t\<close>] assms(3) by (auto simp: waits_def)
  ultimately obtain l where l: "l \<in> waits" "\<And>k. k \<in> waits \<Longrightarrow> rank k \<le> rank l"
    using Max_in [of "rank ` waits"] Max_ge [of "rank ` waits"] by fastforce
  from l(1) obtain u ops where u: "u \<in> set ts" "todo u = Acquire l # ops" by (auto simp: waits_def)
  then have "\<not> finished u" by (auto simp: finished_def)
  with blocked [OF u(1)] u obtain v where v: "v \<in> set ts" "l \<in> set (held v)" by (auto simp: lock_free_def)
  then have "\<not> finished v" by (auto simp: finished_def)
  with blocked [OF v(1)] v l(2) show False by (fastforce simp: waits_def)
qed

lemma runs_to_the_end:
  assumes "\<forall>ops\<in>set plans. \<forall>x\<in>set ops. allowed x"
    and "(lock_step ^^ n) (map (\<lambda>ops. starting (map script ops)) plans) ts"
  shows "n \<le> sum_list (map (\<lambda>ops. sum_list (map (\<lambda>x. Suc (length (script x))) ops)) plans)"
    and "exclusive ts" and "(\<forall>ts'. \<not> lock_step ts ts') \<Longrightarrow> \<forall>t\<in>set ts. finished t"
proof -
  have cost: "threads_cost (map (\<lambda>ops. starting (map script ops)) plans) =
      sum_list (map (\<lambda>ops. sum_list (map (\<lambda>x. Suc (length (script x))) ops)) plans)"
    by (simp add: threads_cost_def starting_def o_def)
  note sd = run_sound [OF assms(2) start_sound [OF assms(1)]]
  from sd show "n \<le> sum_list (map (\<lambda>ops. sum_list (map (\<lambda>x. Suc (length (script x))) ops)) plans)"
    by (simp add: cost)
  from sd show "exclusive ts" by (simp add: sound_def)
  assume "\<forall>ts'. \<not> lock_step ts ts'"
  with sd no_deadlock show "\<forall>t\<in>set ts. finished t" by blast
qed

end

end
