(* ===== verification/LockOrder.thy ===== *)
theory LockOrder
  imports Locks Provenance
begin

text \<open>
  The mutexes of \<open>Shared\<close> and the order in which the daemon's operations take them: the
  observation thread's \<open>handle_event\<close>, the queue thread's \<open>lookup_verdict\<close>, one thread per
  connection running \<open>handle\<close>, and the threads of the audit streams.

  A step of a daemon's run changes a table only when its operation takes the table's lock. All
  operations but one take their locks along one rank, so that any number of threads running them
  comes to an end. The exception is \<open>process_list\<close>, which asks for the rules last where
  \<open>handle_event\<close> asks for them first: the two can block each other for good.
\<close>

section \<open>What each operation locks\<close>

datatype lock_id = LRules | LPending | LProcessCache | LRecent | LPrompts | LDns | LAudit | LStats | LTraffic

type_synonym lock_script = "lock_id lock_op list"

definition section_of :: "lock_id \<Rightarrow> lock_script" where
  "section_of l = [Acquire l, Release l]"

text \<open>\<open>handle_event\<close>: five nested locks for the decision, given back by hand in reverse order, then
  three sections.\<close>

definition event_locks :: lock_script where
  "event_locks =
     [Acquire LRules, Acquire LProcessCache, Acquire LPrompts, Acquire LDns, Acquire LRecent,
      Release LRecent, Release LDns, Release LPrompts, Release LProcessCache, Release LRules] @
     section_of LPending @ section_of LStats @ section_of LAudit"

text \<open>One attempt of \<open>lookup_verdict\<close>.\<close>

definition attempt_locks :: lock_script where
  "attempt_locks = section_of LPending"

text \<open>The callback of an audit stream that ends.\<close>

definition gone_locks :: lock_script where
  "gone_locks = section_of LAudit"

text \<open>\<open>pause\<close> and \<open>resume\<close> read the machine preference in \<open>reapply_table\<close>; the machine scope of
  \<open>traffic_block\<close> and \<open>traffic_unblock\<close> writes it before that.\<close>

definition mode_locks :: lock_script where
  "mode_locks = section_of LTraffic"

definition traffic_locks :: "string \<Rightarrow> lock_script" where
  "traffic_locks scope = (if scope = ''machine'' then section_of LTraffic else []) @ mode_locks"

text \<open>The guards of \<open>process_list\<close> are given back when the function ends, the last taken first.\<close>

definition process_list_locks :: lock_script where
  "process_list_locks =
     [Acquire LProcessCache, Acquire LRecent, Acquire LRules, Release LRules, Release LRecent, Release LProcessCache]"

definition stats_summary_locks :: lock_script where
  "stats_summary_locks = [Acquire LStats, Acquire LRules, Release LRules, Release LStats]"

fun request_locks :: "request \<Rightarrow> lock_script" where
  "request_locks Ping = []"
| "request_locks Status = section_of LTraffic @ section_of LTraffic @ section_of LTraffic"
| "request_locks RuleList = section_of LRules"
| "request_locks (RuleAdd i x v p) = section_of LRules"
| "request_locks (RuleDelete i) = section_of LRules"
| "request_locks PromptList = section_of LPrompts"
| "request_locks (PromptAnswer i v s) = section_of LPrompts @ section_of LRules"
| "request_locks DnsList = section_of LDns"
| "request_locks (DnsNote h ip ttl) = section_of LDns"
| "request_locks (AuditTail n) = section_of LAudit"
| "request_locks (AuditSubscribe i since) = section_of LAudit"
| "request_locks ProcessList = process_list_locks"
| "request_locks NetworkStatusReq = []"
| "request_locks NetworkInstall = mode_locks"
| "request_locks NetworkRemove = mode_locks"
| "request_locks Pause = mode_locks"
| "request_locks Resume = mode_locks"
| "request_locks (TrafficBlock scope direction) = traffic_locks scope"
| "request_locks (TrafficUnblock scope) = traffic_locks scope"
| "request_locks StatsSummaryReq = stats_summary_locks"
| "request_locks StatsHosts = section_of LStats"
| "request_locks StatsProcs = section_of LStats"
| "request_locks StatsAddrs = section_of LStats"
| "request_locks StatsPorts = section_of LStats"
| "request_locks StatsUsers = section_of LStats"

datatype daemon_op = OpEvent | OpAttempt | OpRequest request | OpGone

fun op_locks :: "daemon_op \<Rightarrow> lock_script" where
  "op_locks OpEvent = event_locks"
| "op_locks OpAttempt = attempt_locks"
| "op_locks (OpRequest r) = request_locks r"
| "op_locks OpGone = gone_locks"

definition daemon_threads :: "daemon_op list list \<Rightarrow> lock_id lock_thread list" where
  "daemon_threads plans = map (\<lambda>ops. starting (map op_locks ops)) plans"

definition plans_cost :: "daemon_op list list \<Rightarrow> nat" where
  "plans_cost plans = sum_list (map (\<lambda>ops. sum_list (map (\<lambda>x. Suc (length (op_locks x))) ops)) plans)"

lemmas script_defs = section_of_def event_locks_def attempt_locks_def gone_locks_def mode_locks_def
  traffic_locks_def process_list_locks_def stats_summary_locks_def

section \<open>Tables change under their locks\<close>

fun table_kept :: "lock_id \<Rightarrow> 'k world \<Rightarrow> 'k world \<Rightarrow> bool" where
  "table_kept LRules w w' \<longleftrightarrow> sh_rules (w_shared w') = sh_rules (w_shared w)"
| "table_kept LPending w w' \<longleftrightarrow> sh_pending (w_shared w') = sh_pending (w_shared w)"
| "table_kept LProcessCache w w' \<longleftrightarrow> sh_process_cache (w_shared w') = sh_process_cache (w_shared w)"
| "table_kept LRecent w w' \<longleftrightarrow> sh_recent (w_shared w') = sh_recent (w_shared w)"
| "table_kept LPrompts w w' \<longleftrightarrow> sh_prompts (w_shared w') = sh_prompts (w_shared w)"
| "table_kept LDns w w' \<longleftrightarrow> sh_dns (w_shared w') = sh_dns (w_shared w)"
| "table_kept LAudit w w' \<longleftrightarrow> sh_audit (w_shared w') = sh_audit (w_shared w)"
| "table_kept LStats w w' \<longleftrightarrow> sh_stats (w_shared w') = sh_stats (w_shared w)"
| "table_kept LTraffic w w' \<longleftrightarrow> sh_machine_traffic (w_shared w') = sh_machine_traffic (w_shared w)"

text \<open>The locks that one step of a run takes.\<close>

fun step_locks :: "daemon_step \<Rightarrow> lock_id set" where
  "step_locks (SDecide t ev d) = {LRules, LProcessCache, LPrompts, LDns, LRecent}"
| "step_locks (SStore t ev d) = {LPending}"
| "step_locks SCount = {LStats}"
| "step_locks SLog = {LAudit}"
| "step_locks (SAttempt now payload) = acquired attempt_locks"
| "step_locks (SRequest t c) = (case request_of c of None \<Rightarrow> {} | Some r \<Rightarrow> acquired (request_locks r))"
| "step_locks (SGone sid rm) = acquired gone_locks"
| "step_locks SQueueUp = {}"
| "step_locks SQueueDown = {}"

lemma event_step_locks:
  "step_locks (SDecide t ev d) \<union> step_locks (SStore t ev d') \<union> step_locks SCount \<union> step_locks SLog = acquired event_locks"
  by (auto simp: script_defs)

definition changes_within :: "lock_id set \<Rightarrow> 'k world \<Rightarrow> 'k world \<Rightarrow> bool" where
  "changes_within L w w' \<longleftrightarrow> (\<forall>l. l \<notin> L \<longrightarrow> table_kept l w w')"

lemma all_locks:
  "(\<forall>l. P l) \<longleftrightarrow> P LRules \<and> P LPending \<and> P LProcessCache \<and> P LRecent \<and> P LPrompts \<and> P LDns \<and> P LAudit \<and>
     P LStats \<and> P LTraffic"
  by (metis lock_id.exhaust)

lemmas changes_within_tables = changes_within_def all_locks

lemma changes_within_shared [intro, simp]: "w_shared w' = w_shared w \<Longrightarrow> changes_within L w w'"
  by (simp add: changes_within_tables)

lemma changes_within_trans: "changes_within L w w1 \<Longrightarrow> changes_within L w1 w2 \<Longrightarrow> changes_within L w w2"
  by (auto simp: changes_within_tables)

lemma changes_within_updates:
  "LRules \<in> L \<Longrightarrow> changes_within L w (set_rules rs w)" "LPrompts \<in> L \<Longrightarrow> changes_within L w (set_prompts q w)"
  "LDns \<in> L \<Longrightarrow> changes_within L w (set_dns m w)" "LTraffic \<in> L \<Longrightarrow> changes_within L w (set_machine pref w)"
  "changes_within L w (set_paused b w)"
  by (simp_all add: changes_within_tables set_rules_def set_prompts_def set_dns_def set_machine_def set_paused_def)

lemma changes_within_after:
  "LRules \<in> L \<Longrightarrow> changes_within L w w1 \<Longrightarrow> changes_within L w (set_rules rs w1)"
  "LTraffic \<in> L \<Longrightarrow> changes_within L w w1 \<Longrightarrow> changes_within L w (set_machine pref w1)"
  "changes_within L w w1 \<Longrightarrow> changes_within L w (set_paused b w1)" "changes_within L w w1 \<Longrightarrow> changes_within L w (snd (reapply_table H w1))"
  "changes_within L w w1 \<Longrightarrow> changes_within L w (snd (save_rules H rs w1))"
  by (erule changes_within_trans, simp add: changes_within_updates)+

text \<open>What the handlers of the requests change.\<close>

lemma rules_within:
  assumes "LRules \<in> L"
  shows "changes_within L w (snd (persist_answered_rule H a w))" "changes_within L w (snd (rule_delete H c i w))"
    "changes_within L w (snd (rule_add H c i x v p w))"
  unfolding persist_answered_rule_def rule_delete_def rule_add_def Let_def case_prod_unfold
  using assms
  by (auto split: sum.split option.split bool.split
      intro!: lock_then [where P = "changes_within L w"] step_then_bool [where P = "changes_within L w"] changes_within_after)

lemma prompt_answer_within:
  assumes "LPrompts \<in> L" "LRules \<in> L"
  shows "changes_within L w (snd (prompt_answer H c t i v s w))"
proof -
  have "changes_within L w (snd (persist_answered_rule H a (set_prompts q w)))" for a q
    using changes_within_trans [OF changes_within_updates(2) rules_within(1)] assms by blast
  with assms show ?thesis
    unfolding prompt_answer_def Let_def case_prod_unfold
    by (auto simp: changes_within_updates split: sum.split option.split answer_error.split
        intro!: lock_then [where P = "changes_within L w"])
qed

lemma names_within:
  "LPrompts \<in> L \<Longrightarrow> changes_within L w (snd (prompt_list t w))" "LDns \<in> L \<Longrightarrow> changes_within L w (snd (dns_list t w))"
  "LDns \<in> L \<Longrightarrow> changes_within L w (snd (dns_note H c t h ip ttl w))"
  unfolding prompt_list_def encode_prompts_def dns_list_def dns_note_def Let_def case_prod_unfold
  by (auto simp: changes_within_updates split: sum.split option.split intro!: lock_then [where P = "changes_within L w"])

lemma modes_within:
  assumes "LTraffic \<in> L"
  shows "changes_within L w (snd (Shared_pause H w))" "changes_within L w (snd (Shared_resume H w))"
    "changes_within L w (snd (traffic_block H sc pref uid w))" "changes_within L w (snd (traffic_unblock H sc uid w))"
proof -
  have "changes_within L w (snd (scope_store sc pref uid w))" for pref
    unfolding scope_store_def using assms
    by (cases sc) (auto intro!: step_then [where P = "changes_within L w"] changes_within_after)
  then show "changes_within L w (snd (traffic_block H sc pref uid w))" "changes_within L w (snd (traffic_unblock H sc uid w))"
    unfolding traffic_block_def traffic_unblock_def
    by (auto intro!: step_then [where P = "changes_within L w"] changes_within_after)
  show "changes_within L w (snd (Shared_pause H w))" "changes_within L w (snd (Shared_resume H w))"
    unfolding Shared_pause_def Shared_resume_def
    by (auto intro!: step_then [where P = "changes_within L w"] changes_within_after)
qed

lemma mode_requests_within:
  assumes "LTraffic \<in> L"
  shows "changes_within L w (snd (mode_mutate H c b f w))" "changes_within L w (snd (traffic_mutate H c sc dir u w))"
proof -
  show "changes_within L w (snd (mode_mutate H c b f w))"
    using assms by (auto simp: mode_mutate_def modes_within intro!: step_then [where P = "changes_within L w"])
  have "changes_within L w (snd (case traffic_unblock H sc uid w of (Inr _, w) \<Rightarrow> reply RPong w | (Inl _, w) \<Rightarrow> err x w))"
    "changes_within L w (snd (case traffic_block H sc pf uid w of (Inr _, w) \<Rightarrow> reply RPong w | (Inl _, w) \<Rightarrow> err x w))"
    for sc uid pf x
    by (rule step_then [where P = "changes_within L w"]; simp add: modes_within assms)+
  then show "changes_within L w (snd (traffic_mutate H c sc dir u w))"
    by (auto simp: traffic_mutate_def Let_def split: option.split)
qed

lemma dispatch_within: "changes_within (acquired (request_locks r)) w (snd (dispatch H c t r w))"
  by (cases r)
    (simp_all add: script_defs listing_same rules_within prompt_answer_within names_within enforcement_mutate_def
      network_mutate_def mode_requests_within)

lemma audit_within: "same_but_audit w w' \<Longrightarrow> changes_within {LAudit} w w'"
  by (auto simp: same_but_audit_def changes_within_tables)

lemma subscriber_gone_same: "same_but_audit w (subscriber_gone sid rm w)"
proof (cases "sh_audit (w_shared w)")
  case (Healthy a)
  then show ?thesis by (cases rm) (auto simp: subscriber_gone_def case_prod_unfold Let_def same_but_audit_def [of w "w\<lparr>w_shared := _, w_hub := _\<rparr>"])
qed (simp add: subscriber_gone_def)

lemma handle_within: "changes_within (step_locks (SRequest t c)) w (snd (snd (handle H t c w)))"
proof (cases "request_of c")
  case (Some r)
  show ?thesis
  proof (cases "subscription r")
    case None
    with Some show ?thesis by (simp add: handle_world dispatch_within)
  next
    case (Some sub)
    then obtain i since where "r = AuditSubscribe i since" "sub = (i, since)" using subscription_Some by (cases sub) auto
    with \<open>request_of c = Some r\<close> show ?thesis
      using audit_within [OF audit_subscribe_same, of w c i since] by (simp add: handle_world script_defs)
  qed
qed (simp add: handle_world)

text \<open>A step of a run changes a table only when its operation takes the table's mutex.\<close>

lemma tables_change_under_locks:
  assumes "daemon_next H s x s'" "\<not> table_kept l (fst s) (fst s')"
  shows "l \<in> step_locks x"
proof -
  from assms(1) have "changes_within (step_locks x) (fst s) (fst s')"
  proof (induction rule: daemon_next.induct)
    case (next_decide t ev w d w')
    then show ?case by (cases rule: decide_event_cases [of H t ev w]) (auto simp: changes_within_tables)
  next
    case (next_request w f t c)
    then show ?case using handle_within [of t c w H] by simp
  next
    case (next_attempt w f now payload)
    then show ?case
      by (simp add: changes_within_tables attempt_packet_def script_defs case_prod_unfold Let_def split: option.split)
  next
    case (next_gone w f sid rm)
    then show ?case using audit_within [OF subscriber_gone_same] by (simp add: script_defs)
  qed (simp_all add: changes_within_tables store_shared queue_up_def queue_down_def set_enforcement_def Let_def)
  with assms(2) show ?thesis by (auto simp: changes_within_def)
qed

section \<open>The order\<close>

fun lock_rank :: "lock_id \<Rightarrow> nat" where
  "lock_rank LStats = 0"
| "lock_rank LRules = 1"
| "lock_rank LProcessCache = 2"
| "lock_rank LPrompts = 3"
| "lock_rank LDns = 4"
| "lock_rank LRecent = 5"
| "lock_rank LPending = 6"
| "lock_rank LAudit = 7"
| "lock_rank LTraffic = 8"

definition keeps_order :: "daemon_op \<Rightarrow> bool" where
  "keeps_order x \<longleftrightarrow> x \<noteq> OpRequest ProcessList"

lemma request_ordered: "r \<noteq> ProcessList \<Longrightarrow> well_locked lock_rank [] (request_locks r)"
  by (cases r) (simp_all add: script_defs)

interpretation daemon_locks: lock_order lock_rank op_locks keeps_order
proof
  show "well_locked lock_rank [] (op_locks x)" if "keeps_order x" for x
    using that by (cases x) (simp_all add: keeps_order_def request_ordered script_defs)
qed

lemma order_needed: "\<not> well_locked rank [] event_locks \<or> \<not> well_locked rank [] process_list_locks"
  by (auto simp: script_defs)

text \<open>
  C5: every number of threads, each with any sequence of the daemon's operations other than the
  process list, comes to an end, whatever the interleaving and whichever operations leave early:
  a run of the threads has at most as many steps as the operations have actions, at no moment do
  two threads hold the same mutex, and a state in which no thread can move is one in which every
  thread has finished and holds nothing. So neither the observation thread nor a client ever
  waits for good for a lock.
\<close>

theorem daemon_never_deadlocks:
  assumes "\<forall>ops\<in>set plans. OpRequest ProcessList \<notin> set ops"
    and "(lock_step ^^ n) (daemon_threads plans) ts"
  shows "n \<le> plans_cost plans \<and> exclusive ts \<and> ((\<exists>ts'. lock_step ts ts') \<or> (\<forall>t\<in>set ts. finished t))"
proof -
  have "\<forall>ops\<in>set plans. \<forall>x\<in>set ops. keeps_order x" using assms(1) by (auto simp: keeps_order_def)
  from daemon_locks.runs_to_the_end [OF this assms(2) [unfolded daemon_threads_def]]
  show ?thesis unfolding plans_cost_def by blast
qed

theorem daemon_never_deadlocks_witness:
  "2 \<le> plans_cost [[OpEvent], [OpRequest StatsSummaryReq]] \<and>
   exclusive [Thread [] event_locks [], Thread [] stats_summary_locks []] \<and>
   (\<exists>ts'. lock_step [Thread [] event_locks [], Thread [] stats_summary_locks []] ts')"
proof -
  let ?plans = "[[OpEvent], [OpRequest StatsSummaryReq]]"
  let ?mid = "[Thread [] event_locks [], Thread [] [] [stats_summary_locks]]"
  have "lock_step (daemon_threads ?plans) ?mid"
    using begin_step [of 0 "daemon_threads ?plans" event_locks "[]"] by (simp add: daemon_threads_def starting_def)
  moreover have "lock_step ?mid [Thread [] event_locks [], Thread [] stats_summary_locks []]"
    using begin_step [of 1 ?mid stats_summary_locks "[]"] by simp
  ultimately have run: "(lock_step ^^ 2) (daemon_threads ?plans) [Thread [] event_locks [], Thread [] stats_summary_locks []]"
    by (auto simp: numeral_2_eq_2)
  show ?thesis using daemon_never_deadlocks [OF _ run] by (auto simp: finished_def script_defs)
qed

section \<open>The exception\<close>

text \<open>Two threads that hold what the other waits for: neither moves again, whatever others do.\<close>

lemma deadlock_stays:
  assumes "lock_step\<^sup>*\<^sup>* ts ts'" "i < length ts" "j < length ts"
    and "ts ! i = Thread h1 (Acquire l1 # o1) ls1" "ts ! j = Thread h2 (Acquire l2 # o2) ls2"
    and "l1 \<in> set h2" "l2 \<in> set h1"
  shows "length ts' = length ts \<and> ts' ! i = ts ! i \<and> ts' ! j = ts ! j"
  using assms(1)
proof (induction rule: rtranclp_induct)
  case (step mid ts')
  from step.hyps(2) step.IH assms(2-) show ?case
  proof (induction rule: lock_step.induct)
    case (lock_stepI k ts2 t')
    then have "\<not> lock_free ts2 l1" "\<not> lock_free ts2 l2"
      unfolding lock_free_def by (metis lock_thread.sel(1) nth_mem)+
    with lock_stepI have "k \<noteq> i" "k \<noteq> j" by (auto simp: thread_step_acquire)
    with lock_stepI show ?case by simp
  qed
qed simp

text \<open>What is left of the two operations once the first has one lock and the second has two.\<close>

definition event_rest :: lock_script where
  "event_rest = tl (tl event_locks)"

definition process_list_rest :: lock_script where
  "process_list_rest = tl (tl (tl process_list_locks))"

lemma crossing:
  "event_locks = Acquire LRules # Acquire LProcessCache # event_rest"
  "process_list_locks = Acquire LProcessCache # Acquire LRecent # Acquire LRules # process_list_rest"
  by (simp_all add: event_rest_def process_list_rest_def script_defs)

text \<open>The state in which both wait for each other.\<close>

definition crossed :: "lock_script list \<Rightarrow> lock_script list \<Rightarrow> lock_id lock_thread list \<Rightarrow> lock_id lock_thread list" where
  "crossed es rs ts =
     Thread [LRules] (Acquire LProcessCache # event_rest) es #
     Thread [LRecent, LProcessCache] (Acquire LRules # process_list_rest) rs # ts"

lemma crossed_reached:
  assumes "\<forall>t\<in>set ts. held t = []"
  shows "lock_step\<^sup>*\<^sup>* (Thread [] [] (event_locks # es) # Thread [] [] (process_list_locks # rs) # ts) (crossed es rs ts)"
proof -
  have free: "lock_free (t # u # ts) l \<longleftrightarrow> l \<notin> set (held t) \<and> l \<notin> set (held u)" for t u l
    using assms by (auto simp: lock_free_def)
  let ?e0 = "Thread [] event_locks es" and ?e1 = "Thread [LRules] (Acquire LProcessCache # event_rest) es"
  let ?p0 = "Thread [] process_list_locks rs"
  let ?p1 = "Thread [LProcessCache] (Acquire LRecent # Acquire LRules # process_list_rest) rs"
  have "lock_step (Thread [] [] (event_locks # es) # Thread [] [] (process_list_locks # rs) # ts)
      (?e0 # Thread [] [] (process_list_locks # rs) # ts)" (is "lock_step ?start _")
    using begin_step [of 0 ?start] by simp
  moreover have "lock_step (?e0 # Thread [] [] (process_list_locks # rs) # ts) (?e0 # ?p0 # ts)"
    using begin_step [of 1 "?e0 # Thread [] [] (process_list_locks # rs) # ts"] by simp
  moreover have "lock_step (?e0 # ?p0 # ts) (?e1 # ?p0 # ts)"
    using acquire_step [of 0 "?e0 # ?p0 # ts"] by (simp add: free crossing)
  moreover have "lock_step (?e1 # ?p0 # ts) (?e1 # ?p1 # ts)"
    using acquire_step [of 1 "?e1 # ?p0 # ts"] by (simp add: free crossing)
  moreover have "lock_step (?e1 # ?p1 # ts) (crossed es rs ts)"
    using acquire_step [of 1 "?e1 # ?p1 # ts"] by (simp add: free crossed_def)
  ultimately show ?thesis by (meson converse_rtranclp_into_rtranclp rtranclp.rtrancl_refl)
qed

text \<open>Taking the rules first, as \<open>handle_event\<close> does, would bring the process list into the order.\<close>

lemma process_list_reordered:
  "well_locked lock_rank [] [Acquire LRules, Acquire LProcessCache, Acquire LRecent,
     Release LRecent, Release LProcessCache, Release LRules]"
  by simp

text \<open>An event being decided and a process list asked for at the same time: the observation thread
  holds the rules and waits for the identities, the client's thread holds the identities and waits
  for the rules. From there on neither moves, whatever further threads do and whatever the two
  still had to do; the rules stay locked, so every later event and rule change waits as well.\<close>

theorem process_list_deadlock:
  "\<exists>ts. lock_step\<^sup>*\<^sup>* (daemon_threads ((OpEvent # events) # (OpRequest ProcessList # requests) # others)) ts \<and>
     (\<forall>ts'. lock_step\<^sup>*\<^sup>* ts ts' \<longrightarrow> \<not> finished (ts' ! 0) \<and> \<not> finished (ts' ! 1) \<and> \<not> lock_free ts' LRules)"
proof -
  let ?c = "crossed (map op_locks events) (map op_locks requests) (map (\<lambda>ops. starting (map op_locks ops)) others)"
  have "lock_step\<^sup>*\<^sup>* (daemon_threads ((OpEvent # events) # (OpRequest ProcessList # requests) # others)) ?c"
    using crossed_reached [of "map (\<lambda>ops. starting (map op_locks ops)) others"]
    by (simp add: daemon_threads_def starting_def)
  moreover have "length ts' = length ?c \<and> ts' ! 0 = ?c ! 0 \<and> ts' ! 1 = ?c ! 1" if "lock_step\<^sup>*\<^sup>* ?c ts'" for ts'
    using deadlock_stays [OF that, of 0 1 "[LRules]" LProcessCache event_rest "map op_locks events"
      "[LRecent, LProcessCache]" LRules process_list_rest "map op_locks requests"] by (simp add: crossed_def)
  then have "\<not> finished (ts' ! 0) \<and> \<not> finished (ts' ! 1) \<and> \<not> lock_free ts' LRules" if "lock_step\<^sup>*\<^sup>* ?c ts'" for ts'
    using that by (cases ts') (fastforce simp: finished_def lock_free_def crossed_def)+
  ultimately show ?thesis by blast
qed

end
