(* ===== verification/LockReads.thy ===== *)
theory LockReads
  imports LockOrder
begin

text \<open>
  The other half of what the lists of locks say: an operation also reads only the tables whose
  locks it takes. Two states that differ in other tables only give the same reply.
\<close>

definition alike :: "lock_id set \<Rightarrow> 'k world \<Rightarrow> 'k world \<Rightarrow> bool" where
  "alike L w v \<longleftrightarrow> w_fs v = w_fs w \<and> w_hub v = w_hub w \<and> w_kernel v = w_kernel w \<and>
     w_mode_seq v = w_mode_seq w \<and> w_traffic_seq v = w_traffic_seq w \<and>
     sh_store (w_shared v) = sh_store (w_shared w) \<and> sh_mode_path (w_shared v) = sh_mode_path (w_shared w) \<and>
     sh_traffic_path (w_shared v) = sh_traffic_path (w_shared w) \<and> sh_paused (w_shared v) = sh_paused (w_shared w) \<and>
     sh_bind_state (w_shared v) = sh_bind_state (w_shared w) \<and> sh_observation (w_shared v) = sh_observation (w_shared w) \<and>
     (\<forall>l\<in>L. table_kept l w v)"

lemma listings_alike:
  "alike {LRules} w v \<Longrightarrow> fst (rule_list w) = fst (rule_list v)"
  "alike {LAudit} w v \<Longrightarrow> fst (audit_tail n w) = fst (audit_tail n v)"
  "alike {LStats} w v \<Longrightarrow> fst (stats_list k w) = fst (stats_list k v)"
  "alike {LStats, LRules} w v \<Longrightarrow> fst (stats_summary_handler H now w) = fst (stats_summary_handler H now v)"
  "alike {LProcessCache, LRecent, LRules} w v \<Longrightarrow> fst (process_list w) = fst (process_list v)"
  "alike {LPrompts} w v \<Longrightarrow> fst (prompt_list t w) = fst (prompt_list t v)"
  "alike {LDns} w v \<Longrightarrow> fst (dns_list t w) = fst (dns_list t v)"
  "alike {LDns} w v \<Longrightarrow> fst (dns_note H c t h ip ttl w) = fst (dns_note H c t h ip ttl v)"
  unfolding alike_def rule_list_def audit_tail_def stats_list_def stats_summary_handler_def process_list_def prompt_list_def
    dns_list_def dns_note_def
  by (simp_all add: with_lock_def reply_def err_def Let_def case_prod_unfold split: option.split sum.split)

lemma status_alike: "alike {LTraffic} w v \<Longrightarrow> fst (status_handler H c w) = fst (status_handler H c v)"
  by (simp add: alike_def status_handler_def reply_def Let_def Shared_enforcement_def Shared_observation_def
      Shared_traffic_def machine_preference_def user_preference_def traffic_effective_def is_traffic_blocked_def bind_label_def)

lemma rule_changes_alike:
  "alike {LRules} w v \<Longrightarrow> fst (rule_delete H c i w) = fst (rule_delete H c i v)"
  "alike {LRules} w v \<Longrightarrow> fst (rule_add H c i x vd p w) = fst (rule_add H c i x vd p v)"
  "alike {LRules} w v \<Longrightarrow> fst (persist_answered_rule H a w) = fst (persist_answered_rule H a v)"
  unfolding alike_def rule_delete_def rule_add_def persist_answered_rule_def save_rules_def set_rules_def
  by (simp_all add: with_lock_def reply_def err_def Let_def case_prod_unfold split: option.split sum.split bool.split)

lemma answer_alike:
  assumes "alike {LPrompts, LRules} w v"
  shows "fst (prompt_answer H c t i vd s w) = fst (prompt_answer H c t i vd s v)"
proof -
  have "alike {LRules} (set_prompts q w) (set_prompts q v)" for q
    using assms by (simp add: alike_def set_prompts_def)
  then have persist: "fst (persist_answered_rule H a (set_prompts q v)) = fst (persist_answered_rule H a (set_prompts q w))" for a q
    using rule_changes_alike(3) by metis
  have "sh_prompts (w_shared v) = sh_prompts (w_shared w)" using assms by (simp add: alike_def)
  then show ?thesis
    unfolding prompt_answer_def
    by (simp add: with_lock_def reply_def err_def Let_def case_prod_unfold persist
        split: option.split sum.split bool.split answer_error.split)
qed

text \<open>The parts of a mode change, seen from outside.\<close>

definition looks :: "lock_id set \<Rightarrow> ('k world \<Rightarrow> 'a \<times> 'k world) \<Rightarrow> bool" where
  "looks L f \<longleftrightarrow> (\<forall>w v. alike L w v \<longrightarrow> fst (f w) = fst (f v) \<and> alike L (snd (f w)) (snd (f v)))"

lemma looks_return: "looks L (Pair x)" "looks L (reply r)" "looks L (err code)"
  by (simp_all add: looks_def reply_def err_def)

lemma looks_then:
  assumes "looks L f" "\<And>e. looks L (h e)" "looks L g"
  shows "looks L (\<lambda>w. case f w of (Inl e, w) \<Rightarrow> h e w | (Inr _, w) \<Rightarrow> g w)"
  unfolding looks_def
proof (intro allI impI)
  fix w v :: "'a world"
  assume "alike L w v"
  then have "fst (f w) = fst (f v)" "alike L (snd (f w)) (snd (f v))" using assms(1) by (auto simp: looks_def)
  with assms(2,3) show "fst (case f w of (Inl e, w) \<Rightarrow> h e w | (Inr _, w) \<Rightarrow> g w) =
        fst (case f v of (Inl e, w) \<Rightarrow> h e w | (Inr _, w) \<Rightarrow> g w) \<and>
      alike L (snd (case f w of (Inl e, w) \<Rightarrow> h e w | (Inr _, w) \<Rightarrow> g w))
        (snd (case f v of (Inl e, w) \<Rightarrow> h e w | (Inr _, w) \<Rightarrow> g w))"
    by (cases "f w"; cases "f v"; cases "fst (f w)") (simp_all add: looks_def)
qed

lemma looks_after: "looks L f \<Longrightarrow> (\<And>w v. alike L w v \<Longrightarrow> alike L (g w) (g v)) \<Longrightarrow> looks L (\<lambda>w. f (g w))"
  by (simp add: looks_def)

lemma looks_if:
  "(\<And>w v. alike L w v \<Longrightarrow> P v = P w) \<Longrightarrow> looks L f \<Longrightarrow> looks L g \<Longrightarrow> looks L (\<lambda>w. if P w then f w else g w)"
  by (simp add: looks_def)

lemma looks_cong: "looks L g \<Longrightarrow> (\<And>w. f w = g w) \<Longrightarrow> looks L f"
  by (simp add: looks_def)

lemma mode_parts_look:
  "looks {LTraffic} (store_mode m)" "looks {LTraffic} (reapply_table H)"
  "looks {LTraffic} (\<lambda>w. store_traffic (sh_traffic_path (w_shared w)) pref w)"
  "looks {LTraffic} (\<lambda>w. store_traffic (user_path (sh_traffic_path (w_shared w)) uid) pref w)"
  by (simp_all add: looks_def alike_def store_mode_def store_traffic_def reapply_table_def Let_def case_prod_unfold
      machine_preference_def rules_mode_def queue_bound_def bind_label_def)

lemma memory_alike:
  "alike {LTraffic} w v \<Longrightarrow> alike {LTraffic} (set_paused b w) (set_paused b v)"
  "alike {LTraffic} w v \<Longrightarrow> alike {LTraffic} (set_machine pref w) (set_machine pref v)"
  by (simp_all add: alike_def set_paused_def set_machine_def)

lemma mode_changes_look:
  "looks {LTraffic} (Shared_pause H)" "looks {LTraffic} (Shared_resume H)"
  "looks {LTraffic} (traffic_block H sc pref uid)" "looks {LTraffic} (traffic_unblock H sc uid)"
proof -
  have scope: "looks {LTraffic} (scope_store sc pref uid)" for pref
  proof (cases sc)
    case ScMachine
    have "looks {LTraffic} (\<lambda>w. (Inr (), set_machine pref w))"
      by (simp add: looks_def memory_alike)
    from looks_then [OF mode_parts_look(3) looks_return(1) this] show ?thesis
      by (rule looks_cong) (simp add: ScMachine scope_store_def)
  next
    case ScUser
    from mode_parts_look(4) show ?thesis by (rule looks_cong) (simp add: ScUser scope_store_def)
  qed
  have paused: "looks {LTraffic} (\<lambda>w. case store_mode mode w of (Inl e, w) \<Rightarrow> (Inl e, w)
      | (Inr _, w) \<Rightarrow> reapply_table H (set_paused flag w))" for mode flag
    by (rule looks_then [OF mode_parts_look(1) looks_return(1) looks_after [OF mode_parts_look(2)]]) (rule memory_alike(1))
  then show "looks {LTraffic} (Shared_pause H)" by (rule looks_cong) (simp add: Shared_pause_def)
  show "looks {LTraffic} (Shared_resume H)"
    by (rule looks_cong [OF looks_if [OF _ looks_return(1) paused [of False Active],
            of "\<lambda>w. bind_label (w_shared w) \<noteq> ''nfqueue''"] Shared_resume_def])
      (simp add: alike_def bind_label_def)
  have block: "looks {LTraffic} (\<lambda>w. case scope_store sc pref uid w of (Inl e, w) \<Rightarrow> (Inl e, w)
      | (Inr _, w) \<Rightarrow> reapply_table H w)" for pref
    by (rule looks_then [OF scope looks_return(1) mode_parts_look(2)])
  then show "looks {LTraffic} (traffic_unblock H sc uid)" by (rule looks_cong) (simp add: traffic_unblock_def)
  show "looks {LTraffic} (traffic_block H sc pref uid)"
    using block by (cases "pref = TOpen") (simp_all add: looks_def traffic_block_def)
qed

lemma mode_requests_look:
  "looks {LTraffic} (mode_mutate H c b f)" "looks {LTraffic} (traffic_mutate H c sc dir u)"
proof -
  have answered: "looks {LTraffic} (\<lambda>w. case f w of (Inr _, w) \<Rightarrow> reply RPong w | (Inl _, w) \<Rightarrow> err code w)"
    if "looks {LTraffic} f" for f :: "'a world \<Rightarrow> (io_error + unit) \<times> 'a world" and code
    by (rule looks_then [OF that looks_return(3,2)])
  show "looks {LTraffic} (mode_mutate H c b f)"
  proof (cases "peer_may_mutate H c")
    case True
    have "looks {LTraffic} (if b then Shared_pause H else Shared_resume H)" by (simp add: mode_changes_look)
    from answered [OF this, of f] show ?thesis by (rule looks_cong) (simp add: mode_mutate_def True)
  qed (simp add: looks_def mode_mutate_def looks_return [unfolded looks_def])
  show "looks {LTraffic} (traffic_mutate H c sc dir u)"
  proof (cases "cn_peer c")
    case None
    then show ?thesis by (simp add: looks_def traffic_mutate_def looks_return [unfolded looks_def])
  next
    case (Some uid)
    note look = answered [OF mode_changes_look(3), unfolded looks_def] answered [OF mode_changes_look(4), unfolded looks_def]
    show ?thesis
      using look by (simp add: looks_def traffic_mutate_def Some Let_def looks_return [unfolded looks_def] split: option.split)
  qed
qed

lemma traffic_locks_taken: "acquired (traffic_locks scope) = {LTraffic}"
  by (simp add: script_defs)

lemma requests_read_locked_tables:
  assumes "alike (acquired (request_locks r)) w v"
  shows "fst (dispatch H c t r w) = fst (dispatch H c t r v)"
  using assms
  by (cases r)
    (simp_all add: traffic_locks_taken, simp_all add: script_defs listings_alike status_alike rule_changes_alike answer_alike enforcement_mutate_def
      network_mutate_def mode_requests_look [unfolded looks_def] insert_commute reply_def err_def, auto simp: alike_def)

lemma decisions_read_locked_tables:
  assumes "alike (step_locks (SDecide t ev d)) w v"
  shows "fst (decide_event H t ev w) = fst (decide_event H t ev v)"
  using assms
  by (cases "sh_rules (w_shared w)"; cases "sh_process_cache (w_shared w)"; cases "sh_prompts (w_shared w)";
      cases "sh_dns (w_shared w)"; cases "sh_recent (w_shared w)")
    (simp_all add: alike_def decide_event_def Let_def case_prod_unfold)

text \<open>
  C6: the tables of the daemon are used under their locks. A step of a run, of any thread, changes a
  table only when the operation takes the table's mutex; the reply to a request is the same in any
  two states that agree on the tables the request locks and on what is not a table, whatever the
  other tables hold; and so is the decision of a connect event. The sequences of locks that the
  absence of deadlock is proved about are in this sense those the modelled operations need.
\<close>

theorem tables_used_under_locks:
  "(daemon_next H s x s' \<longrightarrow> (\<forall>l. table_kept l (fst s) (fst s') \<or> l \<in> step_locks x)) \<and>
   (alike (acquired (request_locks r)) w v \<longrightarrow> fst (dispatch H c t r w) = fst (dispatch H c t r v)) \<and>
   (alike (step_locks (SDecide t ev d)) w v \<longrightarrow> fst (decide_event H t ev w) = fst (decide_event H t ev v))"
  using tables_change_under_locks requests_read_locked_tables decisions_read_locked_tables by metis

definition denied_demo :: decision where
  "denied_demo = \<lparr>d_key = \<lparr>dk_ipv4 = 1, dk_port = 443\<rparr>, d_packet_verdict = Drop, d_attributed = False,
     d_prompt_id = None, d_stats = None\<rparr>"

definition world_counted :: "(string option) world" where
  "world_counted = store_stats denied_demo world_demo"

theorem tables_used_under_locks_witness:
  "\<not> table_kept LStats world_demo world_counted \<and> LStats \<in> step_locks SCount \<and>
   fst (dispatch host_demo (conn_demo None []) (\<lambda>_. 0) RuleList world_demo) =
     fst (dispatch host_demo (conn_demo None []) (\<lambda>_. 0) RuleList world_counted)"
proof -
  have moved: "\<not> table_kept LStats world_demo world_counted"
    by (simp add: world_counted_def store_stats_def denied_demo_def world_demo_def shared_demo_def StatsStore_new_def
        record_unattributed_deny_def saturating_add_def)
  have "alike (acquired (request_locks RuleList)) world_demo world_counted"
    by (simp add: alike_def script_defs world_counted_def store_stats_def world_demo_def shared_demo_def)
  moreover have "daemon_next host_demo (world_demo, ToCount denied_demo) SCount (world_counted, ToLog denied_demo)"
    unfolding world_counted_def by (rule next_count)
  ultimately show ?thesis
    using moved tables_used_under_locks [of host_demo "(world_demo, ToCount denied_demo)" SCount
        "(world_counted, ToLog denied_demo)" RuleList world_demo world_counted "conn_demo None []" "\<lambda>_. 0"]
    by simp
qed

end
