(* ===== verification/ModeRaces.thy ===== *)
theory ModeRaces
  imports Shared
begin

text \<open>
  The mode changes of \<open>Shared\<close> broken into the actions that other threads can come between: writing
  the mode file, setting the value in memory, reading what the table is built from, and handing the
  table to \<open>nft\<close>. Each connection has its own thread and no lock covers a mode change, so the
  actions of two of them interleave in any order.

  Alone, the actions are exactly \<open>pause\<close>, \<open>resume\<close>, \<open>traffic_block\<close> and \<open>traffic_unblock\<close>. Two at
  once can leave the mode file and the memory apart, and can take the kernel's table away after a
  block was reported as set; two machine-wide blocks at once are safe in every interleaving. A call
  of \<open>nft\<close> is one action here.
\<close>

section \<open>What the table is built from\<close>

record table_plan =
  tp_machine :: traffic_preference
  tp_users :: "(u32 \<times> traffic_preference) list"
  tp_rules :: enforcement_mode
  tp_queue_bound :: bool

text \<open>The first four lines of \<open>reapply_table\<close>, and the rest of it.\<close>

definition read_plan :: "'k world \<Rightarrow> table_plan" where
  "read_plan w =
     \<lparr>tp_machine = machine_preference (w_shared w),
      tp_users = load_user_blocks (sh_traffic_path (w_shared w)) (w_fs w),
      tp_rules = rules_mode (w_shared w), tp_queue_bound = queue_bound (w_shared w)\<rparr>"

definition apply_plan :: "'k host \<Rightarrow> table_plan \<Rightarrow> 'k \<Rightarrow> (io_error + unit) \<times> 'k" where
  "apply_plan H p k =
     (let rules_active = (tp_rules p = Active);
          machine_blocks = is_blocked (tp_machine p);
          users_block = list_ex (\<lambda>u. is_blocked (snd u)) (tp_users p)
      in if \<not> machine_blocks \<and> \<not> users_block \<and> \<not> rules_active then nft_remove (ho_nft H) k
         else if \<not> machine_blocks \<and> \<not> users_block \<and> rules_active then
           (if tp_queue_bound p then nft_install (ho_nft H) k else nft_remove (ho_nft H) k)
         else install_composed (ho_nft H)
           \<lparr>tc_machine = tp_machine p, tc_users = tp_users p,
            tc_rules_active = (rules_active \<and> \<not> wants_out (tp_machine p)), tc_queue_bound = tp_queue_bound p\<rparr> k)"

lemma reapply_plan:
  "reapply_table H w = (let (r, k) = apply_plan H (read_plan w) (w_kernel w) in (r, w\<lparr>w_kernel := k\<rparr>))"
  by (simp add: reapply_table_def apply_plan_def read_plan_def Let_def)

section \<open>A mode change as a thread\<close>

datatype mode_op = MPause | MResume | MBlock traffic_scope traffic_preference u32 | MUnblock traffic_scope u32

datatype mode_thread =
    MStore mode_op
  | MSet mode_op
  | MRead
  | MApply table_plan
  | MDone "io_error + unit"

text \<open>What is checked before the file is written, the file itself, and the value in memory.\<close>

fun mode_guard :: "mode_op \<Rightarrow> 'k world \<Rightarrow> io_error option" where
  "mode_guard MResume w =
     (if bind_label (w_shared w) \<noteq> ''nfqueue''
      then Some (OtherError ''NFQUEUE not bound; cannot start enforcement'') else None)"
| "mode_guard (MBlock scope pref uid) w =
     (if pref = TOpen then Some (OtherError ''traffic block requires out, in, or all'') else None)"
| "mode_guard op w = None"

fun mode_file :: "mode_op \<Rightarrow> 'k world \<Rightarrow> (io_error + unit) \<times> 'k world" where
  "mode_file MPause w = store_mode Paused w"
| "mode_file MResume w = store_mode Active w"
| "mode_file (MBlock scope pref uid) w = store_traffic (block_path scope uid (w_shared w)) pref w"
| "mode_file (MUnblock scope uid) w = store_traffic (block_path scope uid (w_shared w)) TOpen w"

fun mode_memory :: "mode_op \<Rightarrow> 'k world \<Rightarrow> 'k world" where
  "mode_memory MPause w = set_paused True w"
| "mode_memory MResume w = set_paused False w"
| "mode_memory (MBlock scope pref uid) w = (case scope of ScMachine \<Rightarrow> set_machine pref w | ScUser \<Rightarrow> w)"
| "mode_memory (MUnblock scope uid) w = (case scope of ScMachine \<Rightarrow> set_machine TOpen w | ScUser \<Rightarrow> w)"

fun mode_step :: "'k host \<Rightarrow> mode_thread \<Rightarrow> 'k world \<Rightarrow> mode_thread \<times> 'k world" where
  "mode_step H (MStore op) w =
     (case mode_guard op w of
        Some e \<Rightarrow> (MDone (Inl e), w)
      | None \<Rightarrow> (case mode_file op w of (Inl e, w) \<Rightarrow> (MDone (Inl e), w) | (Inr _, w) \<Rightarrow> (MSet op, w)))"
| "mode_step H (MSet op) w = (MRead, mode_memory op w)"
| "mode_step H MRead w = (MApply (read_plan w), w)"
| "mode_step H (MApply p) w = (let (r, k) = apply_plan H p (w_kernel w) in (MDone r, w\<lparr>w_kernel := k\<rparr>))"
| "mode_step H (MDone r) w = (MDone r, w)"

text \<open>The operation in one piece.\<close>

fun mode_change :: "'k host \<Rightarrow> mode_op \<Rightarrow> 'k world \<Rightarrow> (io_error + unit) \<times> 'k world" where
  "mode_change H MPause w = Shared_pause H w"
| "mode_change H MResume w = Shared_resume H w"
| "mode_change H (MBlock scope pref uid) w = traffic_block H scope pref uid w"
| "mode_change H (MUnblock scope uid) w = traffic_unblock H scope uid w"

text \<open>Two mode changes at once: the schedule says which of them moves, \<open>True\<close> for the second.\<close>

fun race :: "'k host \<Rightarrow> bool list \<Rightarrow> mode_thread \<times> mode_thread \<times> 'k world \<Rightarrow> mode_thread \<times> mode_thread \<times> 'k world" where
  "race H [] s = s"
| "race H (False # sched) (a, b, w) = (let (a, w) = mode_step H a w in race H sched (a, b, w))"
| "race H (True # sched) (a, b, w) = (let (b, w) = mode_step H b w in race H sched (a, b, w))"

lemma race_append: "race H (xs @ ys) s = race H ys (race H xs s)"
proof (induction xs arbitrary: s)
  case (Cons x xs)
  then show ?case by (cases s; cases x) (simp_all add: case_prod_unfold Let_def)
qed simp

section \<open>One after the other\<close>

lemma mode_change_parts:
  "mode_change H op w =
     (case mode_guard op w of
        Some e \<Rightarrow> (Inl e, w)
      | None \<Rightarrow> (case mode_file op w of (Inl e, w) \<Rightarrow> (Inl e, w) | (Inr _, w) \<Rightarrow> reapply_table H (mode_memory op w)))"
  by (cases op)
    (auto simp: Shared_pause_def Shared_resume_def traffic_block_def traffic_unblock_def scope_store_def block_path_def
      split: traffic_scope.split prod.split sum.split)

lemma race_first_alone:
  assumes "mode_change H op w = (r, w')"
  shows "race H [False, False, False, False] (MStore op, b, w) = (MDone r, b, w')"
  using assms by (auto simp: mode_change_parts reapply_plan split: option.splits prod.splits sum.splits)

lemma race_second_alone:
  assumes "mode_change H op w = (r, w')"
  shows "race H [True, True, True, True] (a, MStore op, w) = (a, MDone r, w')"
  using assms by (auto simp: mode_change_parts reapply_plan split: option.splits prod.splits sum.splits)

text \<open>Without overlap the two are the two operations in turn, in either order.\<close>

lemma race_in_turn:
  assumes "mode_change H op w = (r, w1)" "mode_change H op' w1 = (r', w2)"
  shows "race H ([False, False, False, False] @ [True, True, True, True]) (MStore op, MStore op', w) = (MDone r, MDone r', w2)"
  using race_first_alone [OF assms(1)] race_second_alone [OF assms(2)] by (simp only: race_append)

section \<open>At the same time\<close>

text \<open>A pause and a resume of which each does its second action in the other order than its first:
  both files and both values are written, the last file says active and the last value says paused.
  The daemon goes on paused, and after a restart enforces again.\<close>

theorem pause_resume_race:
  assumes "bind_label (w_shared w) = ''nfqueue''" "store_mode Paused w = (Inr (), w1)" "store_mode Active w1 = (Inr (), w2)"
    and "has_file_name (sh_mode_path (w_shared w))" "\<not> fails (w_fs w) (ReadFile (sh_mode_path (w_shared w)))"
  shows "\<exists>sched r r' w'. race H sched (MStore MPause, MStore MResume, w) = (MDone r, MDone r', w') \<and>
    sh_paused (w_shared w') \<and> enforcement_load (sh_mode_path (w_shared w')) (w_fs w') = Active"
proof -
  note s1 = store_mode_outcome [OF assms(2,4,5)]
  have f: "fails (w_fs w1) = fails (w_fs w)"
    using assms(2) mode.store_fails [of "sh_mode_path (w_shared w)" "w_mode_seq w" Paused "w_fs w"]
    by (auto simp: store_mode_def Let_def case_prod_unfold)
  have "has_file_name (sh_mode_path (w_shared w1))" "\<not> fails (w_fs w1) (ReadFile (sh_mode_path (w_shared w1)))"
    using assms(4,5) s1(1) f by simp_all
  note s2 = store_mode_outcome [OF assms(3) this]
  have g: "mode_guard MResume w1 = None" "mode_guard MPause w = None" using assms(1) s1(1) by simp_all
  let ?w3 = "set_paused True (set_paused False w2)"
  obtain r k where k: "apply_plan H (read_plan ?w3) (w_kernel ?w3) = (r, k)" by fastforce
  obtain r' k' where k': "apply_plan H (read_plan (?w3\<lparr>w_kernel := k\<rparr>)) k = (r', k')" by fastforce
  have "race H [False, True, True, False, False, False, True, True] (MStore MPause, MStore MResume, w) =
      (MDone r, MDone r', ?w3\<lparr>w_kernel := k'\<rparr>)"
    using assms(2,3) g k k' by simp
  moreover have "enforcement_load (sh_mode_path (w_shared (?w3\<lparr>w_kernel := k'\<rparr>))) (w_fs (?w3\<lparr>w_kernel := k'\<rparr>)) = Active"
    using s2 s1 by simp
  moreover have "sh_paused (w_shared (?w3\<lparr>w_kernel := k'\<rparr>))" by (simp add: set_paused_def)
  ultimately show ?thesis by blast
qed

text \<open>A pause that has read its table before a machine-wide block came, and hands it over after the
  block has reported success: the table is removed, while memory and disk both say blocked.\<close>

theorem block_undone_by_pause:
  assumes "\<And>k. owned (snd (nft_delete (ho_nft H) k)) = None" "store_mode Paused w = (Inr (), w1)"
    and "\<not> is_blocked (machine_preference (w_shared w1))" "load_user_blocks (sh_traffic_path (w_shared w1)) (w_fs w1) = []"
    and "traffic_block H ScMachine pref uid (set_paused True w1) = (Inr (), w2)"
  shows "\<exists>sched r w'. race H sched (MStore MPause, MStore (MBlock ScMachine pref uid), w) = (MDone r, MDone (Inr ()), w') \<and>
    owned (w_kernel w') = None \<and> is_blocked (machine_preference (w_shared w'))"
proof -
  let ?w = "set_paused True w1" and ?op = "MBlock ScMachine pref uid"
  have plan: "apply_plan H (read_plan ?w) k = nft_remove (ho_nft H) k" for k
    using assms(3,4) by (simp add: apply_plan_def read_plan_def set_paused_def rules_mode_def machine_preference_def)
  have start: "race H [False, False, False] (MStore MPause, MStore ?op, w) = (MApply (read_plan ?w), MStore ?op, ?w)"
    using assms(2) by simp
  have block: "race H [True, True, True, True] (MApply (read_plan ?w), MStore ?op, ?w) = (MApply (read_plan ?w), MDone (Inr ()), w2)"
    using race_second_alone [of H ?op ?w "Inr ()" w2] assms(5) by simp
  obtain r k where k: "nft_remove (ho_nft H) (w_kernel w2) = (r, k)" by fastforce
  have "race H ([False, False, False] @ [True, True, True, True] @ [False]) (MStore MPause, MStore ?op, w) =
      (MDone r, MDone (Inr ()), w2\<lparr>w_kernel := k\<rparr>)"
    unfolding race_append start block by (simp add: plan k)
  moreover have "owned (w_kernel (w2\<lparr>w_kernel := k\<rparr>)) = None"
    using k assms(1) [of "w_kernel w2"] by (auto simp: nft_remove_def split: prod.splits sum.splits)
  moreover have "is_blocked (machine_preference (w_shared (w2\<lparr>w_kernel := k\<rparr>)))"
    using assms(5) by (auto simp: traffic_block_def scope_store_def reapply_plan set_machine_def machine_preference_def
        is_blocked_def Let_def split: if_splits prod.splits sum.splits)
  ultimately show ?thesis by blast
qed

section \<open>What overlapping blocks keep\<close>

text \<open>Where every thread at work asks for a machine-wide block, no interleaving loses it: whatever
  plan is applied was read after some block was set, and no block is taken back.\<close>

definition machine_blocked :: "'k world \<Rightarrow> bool" where
  "machine_blocked w \<longleftrightarrow> is_blocked (machine_preference (w_shared w))"

definition block_installed :: "('k \<Rightarrow> string option) \<Rightarrow> 'k \<Rightarrow> bool" where
  "block_installed owned k \<longleftrightarrow> (\<exists>c. owned k = Some (compose_traffic_script c) \<and> is_blocked (tc_machine c))"

fun blocking :: "('k \<Rightarrow> string option) \<Rightarrow> 'k world \<Rightarrow> mode_thread \<Rightarrow> bool" where
  "blocking owned w (MStore op) \<longleftrightarrow> (\<exists>pref uid. op = MBlock ScMachine pref uid)"
| "blocking owned w (MSet op) \<longleftrightarrow> (\<exists>pref uid. op = MBlock ScMachine pref uid \<and> is_blocked pref)"
| "blocking owned w MRead \<longleftrightarrow> machine_blocked w"
| "blocking owned w (MApply p) \<longleftrightarrow> machine_blocked w \<and> is_blocked (tp_machine p)"
| "blocking owned w (MDone r) \<longleftrightarrow> (r = Inr () \<longrightarrow> machine_blocked w \<and> block_installed owned (w_kernel w))"

text \<open>\<open>nft\<close> accepts every script it is given.\<close>

definition nft_accepts :: "'k nft_program \<Rightarrow> bool" where
  "nft_accepts N \<longleftrightarrow> (\<forall>s k. \<exists>out k'. nft_load N s k = (Exited out, k') \<and> no_success out)"

lemma blocked_plan_installs:
  assumes "nft_lawful (ho_nft H) owned" "\<And>k. owned (snd (nft_delete (ho_nft H) k)) = None" "nft_accepts (ho_nft H)"
    and "is_blocked (tp_machine p)"
  shows "\<exists>k'. apply_plan H p k = (Inr (), k') \<and> block_installed owned k'"
proof -
  define c where "c = \<lparr>tc_machine = tp_machine p, tc_users = tp_users p,
    tc_rules_active = (tp_rules p = Active \<and> \<not> wants_out (tp_machine p)), tc_queue_bound = tp_queue_bound p\<rparr>"
  have blocked: "is_blocked (tc_machine c)" using assms(4) by (simp add: c_def)
  then have script: "compose_traffic_script c \<noteq> []" by (intro compose_nonempty) simp
  have plan: "apply_plan H p k = install_composed (ho_nft H) c k"
    using assms(4) by (simp add: apply_plan_def c_def)
  obtain out k' where "nft_load (ho_nft H) (compose_traffic_script c) (snd (nft_remove (ho_nft H) k)) = (Exited out, k')" "no_success out"
    using assms(3) unfolding nft_accepts_def by meson
  then have "install_composed (ho_nft H) c k = (Inr (), k')"
    using script by (simp add: install_composed_def load_script_def finish_traffic_install_def)
  with install_composed_owned [OF assms(1,2) script this] blocked plan show ?thesis
    by (auto simp: block_installed_def)
qed

lemma machine_blocked_kept:
  "machine_blocked (snd (store_traffic p pref w)) = machine_blocked w" "machine_blocked (w\<lparr>w_kernel := k\<rparr>) = machine_blocked w"
  "machine_blocked (set_machine pref w) = is_blocked pref"
  by (simp_all add: machine_blocked_def store_traffic_def Let_def case_prod_unfold set_machine_def machine_preference_def)

text \<open>One step of a blocking thread, for itself and for any other.\<close>

lemma blocking_step:
  assumes "nft_lawful (ho_nft H) owned" "\<And>k. owned (snd (nft_delete (ho_nft H) k)) = None" "nft_accepts (ho_nft H)"
    and "mode_step H t w = (t', w')" "blocking owned w t"
  shows "blocking owned w' t'" and "blocking owned w u \<Longrightarrow> blocking owned w' u"
proof -
  have kept: "(machine_blocked w \<longrightarrow> machine_blocked w') \<and>
      (block_installed owned (w_kernel w) \<longrightarrow> block_installed owned (w_kernel w')) \<and> blocking owned w' t'"
  proof (cases t)
    case (MStore op)
    with assms(5) obtain pref uid where op: "op = MBlock ScMachine pref uid" by auto
    have k: "w_kernel (snd (store_traffic p pref w)) = w_kernel w" for p
      by (simp add: store_traffic_def Let_def case_prod_unfold)
    obtain r w1 where st: "store_traffic (block_path ScMachine uid (w_shared w)) pref w = (r, w1)" by fastforce
    from st k machine_blocked_kept(1) have "w_kernel w1 = w_kernel w" "machine_blocked w1 = machine_blocked w" by (metis snd_conv)+
    with MStore op st assms(4) show ?thesis
      by (cases r) (auto simp: is_blocked_def split: if_splits)
  next
    case (MSet op)
    with assms(4,5) show ?thesis by (auto simp: machine_blocked_kept) (simp add: set_machine_def)
  next
    case MRead
    with assms(4,5) show ?thesis by (auto simp: machine_blocked_def read_plan_def)
  next
    case (MApply p)
    with assms(5) blocked_plan_installs [OF assms(1-3), of p "w_kernel w"] assms(4) show ?thesis
      by (auto simp: machine_blocked_kept)
  next
    case (MDone r)
    with assms(4,5) show ?thesis by auto
  qed
  then show "blocking owned w' t'" by simp
  assume "blocking owned w u"
  with kept show "blocking owned w' u" by (cases u) auto
qed

lemma blocking_race:
  assumes "nft_lawful (ho_nft H) owned" "\<And>k. owned (snd (nft_delete (ho_nft H) k)) = None" "nft_accepts (ho_nft H)"
    and "race H sched (a, b, w) = (a', b', w')" "blocking owned w a" "blocking owned w b"
  shows "blocking owned w' a' \<and> blocking owned w' b'"
  using assms(4-)
proof (induction sched arbitrary: a b w)
  case (Cons x sched)
  show ?case
  proof (cases x)
    case True
    obtain c v where c: "mode_step H b w = (c, v)" by fastforce
    with Cons True blocking_step [OF assms(1-3) c] show ?thesis by simp
  next
    case False
    obtain c v where c: "mode_step H a w = (c, v)" by fastforce
    with Cons False blocking_step [OF assms(1-3) c] show ?thesis by simp
  qed
qed simp

theorem overlapping_blocks_in_force:
  assumes "nft_lawful (ho_nft H) owned" "\<And>k. owned (snd (nft_delete (ho_nft H) k)) = None" "nft_accepts (ho_nft H)"
    and "race H sched (MStore (MBlock ScMachine pref uid), MStore (MBlock ScMachine pref' uid'), w) = (MDone (Inr ()), b, w')"
  shows "block_installed owned (w_kernel w') \<and> is_blocked (machine_preference (w_shared w'))"
  using blocking_race [OF assms] by (simp add: machine_blocked_def)

section \<open>The races on a host\<close>

lemma demo_parents: "path_parent ''/v/m'' = Some ''/v''" "path_parent ''/v/t'' = Some ''/v''"
  by (simp_all add: path_parent_def rsplit_once_def)

lemma demo_pause:
  "fst (store_mode Paused world_demo) = Inr ()" "w_shared (snd (store_mode Paused world_demo)) = shared_demo"
  "fails (w_fs (snd (store_mode Paused world_demo))) = (\<lambda>_. False)"
  "files (w_fs (snd (store_mode Paused world_demo))) = [(''/v/m'', ''paused'' @ [NL])]"
proof -
  have t: "''/v/m'' \<noteq> with_extension ''/v/m'' (''tmp.'' @ show_word (0 :: u64))"
    using with_extension_neq [of "''/v/m''"] demo_paths by metis
  show "fst (store_mode Paused world_demo) = Inr ()" "w_shared (snd (store_mode Paused world_demo)) = shared_demo"
  "fails (w_fs (snd (store_mode Paused world_demo))) = (\<lambda>_. False)"
  "files (w_fs (snd (store_mode Paused world_demo))) = [(''/v/m'', ''paused'' @ [NL])]"
    using t by (simp_all add: store_mode_def enforcement_store_def write_replace_def ensure_parent_def fs_defs fs_blank_def Let_def
        hm_simps world_demo_def shared_demo_def demo_parents)
qed

lemma demo_block:
  "\<exists>w1 w2. store_mode Paused world_demo = (Inr (), w1) \<and> w_shared w1 = shared_demo \<and>
     load_user_blocks (sh_traffic_path (w_shared w1)) (w_fs w1) = [] \<and>
     traffic_block host_demo ScMachine TAll 0 (set_paused True w1) = (Inr (), w2)"
proof -
  obtain w1 where w1: "store_mode Paused world_demo = (Inr (), w1)" "w_shared w1 = shared_demo"
    "fails (w_fs w1) = (\<lambda>_. False)" "files (w_fs w1) = [(''/v/m'', ''paused'' @ [NL])]"
    using demo_pause by (cases "store_mode Paused world_demo") simp
  have users: "load_user_blocks (sh_traffic_path (w_shared w1)) (w_fs w1) = []"
    using w1(3,4) by (simp add: w1(2) shared_demo_def load_user_blocks_def demo_paths Let_def fs_read_dir_def user_block_def rsplit_once_def demo_parents List.map_filter_def)
  have "with_extension ''/v/t'' (''tmp.'' @ show_word (w_traffic_seq w1)) \<noteq> ''/v/t''"
    by (rule with_extension_neq) (simp add: demo_paths)
  then obtain w2 where w2: "store_traffic ''/v/t'' TAll (set_paused True w1) = (Inr (), w2)"
    using w1(2-4) by (simp add: store_traffic_def traffic_store_def write_replace_def ensure_parent_def
        demo_parents fs_defs Let_def hm_simps set_paused_def shared_demo_def)
  let ?w = "set_machine TAll w2"
  have store: "scope_store ScMachine TAll 0 (set_paused True w1) = (Inr (), ?w)"
    using w2 by (simp add: scope_store_def set_paused_def w1(2) shared_demo_def)
  have blocked: "is_blocked (tc_machine (compose_of ?w))"
    by (simp add: compose_of_def machine_preference_def set_machine_def is_blocked_def)
  have "fst (install_composed (ho_nft host_demo) (compose_of ?w) (w_kernel ?w)) = Inr ()"
    using compose_nonempty [of "compose_of ?w"] blocked
    by (simp add: install_composed_def load_script_def host_demo_def nft_demo_def finish_traffic_install_def)
  then obtain w3 where "traffic_block host_demo ScMachine TAll 0 (set_paused True w1) = (Inr (), w3)"
    using store reapply_blocked [of ?w host_demo] blocked
    by (cases "install_composed (ho_nft host_demo) (compose_of ?w) (w_kernel ?w)") (auto simp: traffic_block_def)
  with w1 users show ?thesis by blast
qed

theorem block_undone_demo:
  "\<exists>sched r w'. race host_demo sched (MStore MPause, MStore (MBlock ScMachine TAll 0), world_demo) =
      (MDone r, MDone (Inr ()), w') \<and> w_kernel w' = None \<and> is_blocked (machine_preference (w_shared w'))"
proof -
  obtain w1 w2 where "store_mode Paused world_demo = (Inr (), w1)" "w_shared w1 = shared_demo"
      "load_user_blocks (sh_traffic_path (w_shared w1)) (w_fs w1) = []"
      "traffic_block host_demo ScMachine TAll 0 (set_paused True w1) = (Inr (), w2)"
    using demo_block by blast
  then show ?thesis
    using block_undone_by_pause [of "\<lambda>k. k" host_demo world_demo w1 TAll 0 w2]
    by (simp add: host_demo_def nft_demo_def shared_demo_def machine_preference_def is_blocked_def)
qed

end
