(* ===== verification/PendingSpec.thy ===== *)
theory PendingSpec
  imports Pending
begin

text \<open>
  The table of pending verdicts against the specification it implements: a plain list of
  destinations with their verdicts, oldest first, in which an operation first forgets what is older
  than the time to live. The hash map, the order queue, the stale keys that \<open>take\<close> leaves in it and
  the eviction loop are not visible from outside.

  The locale \<open>refines\<close> is the general argument: where each step of an implementation returns what
  the specification returns and abstracts to the specification's step, so does every run.
\<close>

section \<open>Refinement of a machine with outputs\<close>

locale refines =
  fixes step :: "'op \<Rightarrow> 's \<Rightarrow> 'out \<times> 's" and spec :: "'op \<Rightarrow> 'a \<Rightarrow> 'out \<times> 'a"
    and abs :: "'s \<Rightarrow> 'a" and wf :: "'s \<Rightarrow> bool"
  assumes step_wf: "wf s \<Longrightarrow> wf (snd (step x s))"
    and step_out: "wf s \<Longrightarrow> fst (step x s) = fst (spec x (abs s))"
    and step_abs: "wf s \<Longrightarrow> abs (snd (step x s)) = snd (spec x (abs s))"

text \<open>A run, with what each operation returned.\<close>

fun outputs :: "('op \<Rightarrow> 's \<Rightarrow> 'out \<times> 's) \<Rightarrow> 'op list \<Rightarrow> 's \<Rightarrow> 'out list \<times> 's" where
  "outputs step [] s = ([], s)"
| "outputs step (x # xs) s =
     (let (out, s) = step x s; (outs, s) = outputs step xs s in (out # outs, s))"

context refines
begin

lemma run_refines:
  "wf s \<Longrightarrow> wf (snd (outputs step xs s)) \<and> fst (outputs step xs s) = fst (outputs spec xs (abs s)) \<and>
     abs (snd (outputs step xs s)) = snd (outputs spec xs (abs s))"
  by (induction xs arbitrary: s) (simp_all add: case_prod_unfold Let_def step_wf step_out step_abs)

end

section \<open>The specification\<close>

definition spec_fresh :: "instant \<Rightarrow> duration \<Rightarrow> (dest_key \<times> pending_entry) list \<Rightarrow> (dest_key \<times> pending_entry) list" where
  "spec_fresh now ttl xs = filter (\<lambda>(k, e). entry_fresh now ttl e) xs"

fun spec_pending ::
    "usize \<Rightarrow> duration \<Rightarrow> pending_op \<Rightarrow> (dest_key \<times> pending_entry) list
       \<Rightarrow> packet_verdict option \<times> (dest_key \<times> pending_entry) list" where
  "spec_pending cap ttl (PInsert now1 now2 k v) xs =
     (None, spec_put cap k \<lparr>pe_verdict = v, pe_inserted_at = now2\<rparr> (spec_fresh now1 ttl xs))"
| "spec_pending cap ttl (PTake now k) xs =
     (map_option pe_verdict (map_of (spec_fresh now ttl xs) k), filter (\<lambda>(k', e). k' \<noteq> k) (spec_fresh now ttl xs))"

text \<open>What the table's operations return: \<open>insert\<close> nothing, \<open>take\<close> a verdict or none.\<close>

fun pending_out :: "pending_op \<Rightarrow> pending_table \<Rightarrow> packet_verdict option \<times> pending_table" where
  "pending_out (PInsert now1 now2 k v) t = (None, PendingTable_insert now1 now2 k v t)"
| "pending_out (PTake now k) t = PendingTable_take now k t"

text \<open>The entries in the order of the queue, without the keys that have none.\<close>

definition pending_abs :: "pending_table \<Rightarrow> (dest_key \<times> pending_entry) list" where
  "pending_abs t = fifo_abs (filter (\<lambda>k. k \<in> keys (pt_entries t)) (pt_order t), pt_entries t)"

section \<open>The table implements it\<close>

lemma pending_abs_fifo: "set (pt_order t) \<subseteq> keys (pt_entries t) \<Longrightarrow> pending_abs t = fifo_abs (pt_order t, pt_entries t)"
  by (simp add: pending_abs_def subset_eq filter_id_conv)

lemma map_of_graph: "map_of (map (\<lambda>k. (k, f k)) ks) k = (if k \<in> set ks then Some (f k) else None)"
  by (induction ks) auto

lemma pending_abs_lookup:
  assumes "pending_wf t"
  shows "map_of (pending_abs t) k = map_of (pt_entries t) k"
proof (cases "k \<in> keys (pt_entries t)")
  case True
  then show ?thesis
    using assms in_keys_iff [of k "pt_entries t"] by (auto simp: pending_abs_def fifo_abs_def map_of_graph pending_wf_def)
next
  case False
  then show ?thesis using in_keys_iff [of k "pt_entries t"] by (simp add: pending_abs_def fifo_abs_def map_of_graph)
qed

definition alive :: "instant \<Rightarrow> duration \<Rightarrow> (dest_key \<times> pending_entry) list \<Rightarrow> dest_key \<Rightarrow> bool" where
  "alive now ttl m k \<longleftrightarrow> (\<exists>e. map_of m k = Some e \<and> entry_fresh now ttl e)"

lemma expire_loop_order:
  assumes "expire_loop now ttl ord m = (ord', m')" "distinct ord"
  shows "ord' = filter (alive now ttl m) ord"
  using assms
proof (induction ord arbitrary: m ord' m')
  case (Cons x ord)
  have same: "filter (alive now ttl (AList.delete x m)) ord = filter (alive now ttl m) ord"
    using Cons.prems(2) by (intro filter_cong) (auto simp: alive_def map_of_delete_eq)
  have here: "alive now ttl m x \<longleftrightarrow> (case map_of m x of None \<Rightarrow> False | Some e \<Rightarrow> \<not> ttl < now - pe_inserted_at e)"
    by (auto simp: alive_def entry_fresh_def split: option.split)
  from Cons.prems Cons.IH [of m] Cons.IH [of "AList.delete x m"] same show ?case
    by (auto simp: here split: option.splits if_splits prod.splits)
qed simp

lemma expire_abs:
  assumes "pending_wf t"
  shows "fifo_abs (pt_order (PendingTable_expire now t), pt_entries (PendingTable_expire now t)) =
    spec_fresh now (pt_ttl t) (pending_abs t)"
proof -
  let ?m = "pt_entries t" and ?t = "PendingTable_expire now t"
  have ord: "pt_order ?t = filter (alive now (pt_ttl t) ?m) (pt_order t)"
    using assms expire_loop_order [of now "pt_ttl t" "pt_order t" ?m]
    by (auto simp: PendingTable_expire_def pending_wf_def split: prod.split)
  have look: "map_of (pt_entries ?t) k = map_of ?m k" if "alive now (pt_ttl t) ?m k" for k
    using that expire_lookup [OF assms, of now k] by (auto simp: alive_def)
  have pick: "k \<in> keys ?m \<and> entry_fresh now (pt_ttl t) (the (map_of ?m k)) \<longleftrightarrow> alive now (pt_ttl t) ?m k" for k
    using in_keys_iff [of k ?m] by (auto simp: alive_def)
  have "spec_fresh now (pt_ttl t) (pending_abs t) =
      map (\<lambda>k. (k, the (map_of ?m k))) (filter (alive now (pt_ttl t) ?m) (pt_order t))"
    by (simp add: spec_fresh_def pending_abs_def fifo_abs_def filter_map o_def pick conj_commute)
  also have "\<dots> = fifo_abs (pt_order ?t, pt_entries ?t)"
    by (simp add: fifo_abs_def ord look)
  finally show ?thesis by simp
qed

lemma expired_abs: "pending_wf t \<Longrightarrow> pending_abs (PendingTable_expire now t) = spec_fresh now (pt_ttl t) (pending_abs t)"
  using expire_fifo_wf [of t now] by (simp add: pending_abs_fifo fifo_wf_def expire_abs)

lemma insert_abs:
  assumes "pending_wf t"
  shows "pending_abs (PendingTable_insert now1 now2 k v t) =
    spec_put (pt_capacity t) k \<lparr>pe_verdict = v, pe_inserted_at = now2\<rparr> (spec_fresh now1 (pt_ttl t) (pending_abs t))"
proof -
  have "fifo_wf (pt_capacity t) (pt_order (PendingTable_insert now1 now2 k v t), pt_entries (PendingTable_insert now1 now2 k v t))"
    using fifo_put_wf [OF expire_fifo_wf [OF assms, of now1]] by (simp add: insert_as_fifo_put Let_def)
  then show ?thesis
    using fifo_put_refines [OF expire_fifo_wf [OF assms, of now1]]
    by (simp add: pending_abs_fifo fifo_wf_def insert_as_fifo_put Let_def expire_abs [OF assms])
qed

lemma take_abs:
  assumes "pending_wf t"
  shows "fst (PendingTable_take now k t) = map_option pe_verdict (map_of (spec_fresh now (pt_ttl t) (pending_abs t)) k)"
    and "pending_abs (snd (PendingTable_take now k t)) =
      filter (\<lambda>(k', e). k' \<noteq> k) (spec_fresh now (pt_ttl t) (pending_abs t))"
proof -
  let ?t = "PendingTable_expire now t"
  show "fst (PendingTable_take now k t) = map_option pe_verdict (map_of (spec_fresh now (pt_ttl t) (pending_abs t)) k)"
    by (simp add: PendingTable_take_def Let_def expired_abs [OF assms, symmetric] pending_abs_lookup [OF expire_wf [OF assms]])
  show "pending_abs (snd (PendingTable_take now k t)) =
      filter (\<lambda>(k', e). k' \<noteq> k) (spec_fresh now (pt_ttl t) (pending_abs t))"
    unfolding expired_abs [OF assms, symmetric]
    by (simp add: PendingTable_take_def Let_def pending_abs_def fifo_abs_def filter_map o_def keys_delete map_of_delete_eq
        conj_commute cong: filter_cong)
qed

interpretation pending_table: refines pending_out "spec_pending cap ttl" pending_abs
  "\<lambda>t. pending_wf t \<and> pt_capacity t = cap \<and> pt_ttl t = ttl" for cap ttl
proof (unfold_locales, goal_cases)
  case (1 s x)
  then show ?case by (cases x) (auto intro: wf_intros)
next
  case (2 s x)
  then show ?case by (cases x) (auto simp: take_abs(1))
next
  case (3 s x)
  then show ?case by (cases x) (auto simp: insert_abs take_abs(2))
qed

text \<open>
  C18: seen from outside, the table of pending verdicts is a list. Whatever sequence of insertions
  and lookups is made, at whatever times, every lookup returns what the plain list returns in which
  expired entries are dropped first, a known destination is overwritten in place, a new one goes to
  the end and pushes out the oldest when the list is full, and a lookup removes what it found; and
  the table's live entries in their order are that list. The hash map, the order queue and its stale
  keys are an implementation of it.
\<close>

theorem pending_table_is_a_list:
  assumes "PendingTable_new cap ttl = Some t"
  shows "fst (outputs pending_out ops t) = fst (outputs (spec_pending cap ttl) ops []) \<and>
    pending_abs (snd (outputs pending_out ops t)) = snd (outputs (spec_pending cap ttl) ops [])"
proof -
  have "pending_wf t \<and> pt_capacity t = cap \<and> pt_ttl t = ttl" "pending_abs t = []"
    using assms PendingTable_new_wf [OF assms] by (auto simp: PendingTable_new_def pending_abs_def fifo_abs_def split: if_splits)
  with pending_table.run_refines [of t cap ttl ops] show ?thesis by simp
qed

theorem pending_table_is_a_list_witness:
  "fst (outputs pending_out
     [PInsert 1 1 (dest_local 80) Drop, PInsert 2 3 (dest_local 443) Accept, PTake 5 (dest_local 443),
      PTake 5 (dest_local 443), PTake 7 (dest_local 80)] pending_two) = [None, None, Some Accept, None, None]"
proof -
  have new: "PendingTable_new 2 5 = Some pending_two" by (simp add: pending_eval)
  have keys: "dest_local 80 \<noteq> dest_local 443" "dest_local 443 \<noteq> dest_local 80" by (simp_all add: dest_local_def)
  show ?thesis
    unfolding pending_table_is_a_list [OF new, THEN conjunct1]
    by (simp add: keys spec_put_def spec_fresh_def entry_fresh_def) (auto simp: keys)
qed

end
