(* ===== verification/CacheSpec.thy ===== *)
theory CacheSpec
  imports PendingSpec Process Recent
begin

text \<open>
  The other two bounded tables of the decision against their specifications, by the same argument
  as the pending verdicts: the cache of process identities is the list of the identities it
  returns, oldest first; the recent destinations are a list of processes with their rings.
\<close>

section \<open>Process identities\<close>

datatype identity_op = IInsert process_identity | IGet u32 u64 | IList

fun identity_out :: "identity_op \<Rightarrow> process_cache \<Rightarrow> process_identity list \<times> process_cache" where
  "identity_out (IInsert idt) c = ([], ProcessCache_insert idt c)"
| "identity_out (IGet pid ticks) c = (case ProcessCache_get pid ticks c of None \<Rightarrow> [] | Some i \<Rightarrow> [i], c)"
| "identity_out IList c = (ProcessCache_list c, c)"

fun spec_identity :: "usize \<Rightarrow> identity_op \<Rightarrow> process_identity list \<Rightarrow> process_identity list \<times> process_identity list" where
  "spec_identity cap (IInsert idt) xs =
     ([], if identity_key idt \<in> set (map identity_key xs) then xs
          else (if length xs < cap then xs else tl xs) @ [idt])"
| "spec_identity cap (IGet pid ticks) xs = (filter (\<lambda>i. identity_key i = (pid, ticks)) xs, xs)"
| "spec_identity cap IList xs = (xs, xs)"

lemma cache_known:
  "process_wf c \<Longrightarrow> k \<in> set (pc_order c) \<Longrightarrow> \<exists>i. map_of (pc_entries c) k = Some i \<and> identity_key i = k"
  using in_keys_iff [of k "pc_entries c"] by (auto simp: process_wf_def fifo_wf_def)

lemma cache_unknown: "process_wf c \<Longrightarrow> k \<notin> set (pc_order c) \<Longrightarrow> map_of (pc_entries c) k = None"
  using in_keys_iff [of k "pc_entries c"] by (auto simp: process_wf_def fifo_wf_def)

lemma cache_list:
  assumes "process_wf c"
  shows "ProcessCache_list c = map snd (fifo_abs (pc_order c, pc_entries c))"
    "map identity_key (ProcessCache_list c) = pc_order c"
proof -
  note known = cache_known [OF assms]
  have "ProcessCache_list c = map (\<lambda>k. the (map_of (pc_entries c) k)) ks" if "ks = pc_order c" for ks
    using known unfolding ProcessCache_list_def that [symmetric]
    by (induction ks) (auto simp: List.map_filter_def)
  then have list: "ProcessCache_list c = map (\<lambda>k. the (map_of (pc_entries c) k)) (pc_order c)" by simp
  then show "ProcessCache_list c = map snd (fifo_abs (pc_order c, pc_entries c))" by (simp add: fifo_abs_def o_def)
  show "map identity_key (ProcessCache_list c) = pc_order c"
    using known by (force simp: list intro!: map_idI)
qed

lemma cache_insert_abs:
  assumes "process_wf c"
  shows "ProcessCache_list (ProcessCache_insert idt c) = snd (spec_identity (pc_capacity c) (IInsert idt) (ProcessCache_list c))"
proof (cases "map_of (pc_entries c) (identity_key idt)")
  case None
  have wf: "fifo_wf (pc_capacity c) (pc_order c, pc_entries c)" using assms by (simp add: process_wf_def)
  have new: "identity_key idt \<notin> set (pc_order c)"
    using None wf in_keys_iff [of "identity_key idt" "pc_entries c"] by (auto simp: fifo_wf_def)
  have "fifo_abs (pc_order (ProcessCache_insert idt c), pc_entries (ProcessCache_insert idt c)) =
      spec_put (pc_capacity c) (identity_key idt) idt (fifo_abs (pc_order c, pc_entries c))"
    using fifo_put_refines [OF wf] insert_fresh [OF assms None] by simp
  then show ?thesis
    using new cache_list [OF assms] cache_list(1) [OF process_insert_wf [OF assms], of idt]
    by (simp add: spec_put_def fifo_abs_keys map_tl)
next
  case (Some i)
  then have "identity_key idt \<in> set (pc_order c)"
    using assms in_keys_iff [of "identity_key idt" "pc_entries c"] by (auto simp: process_wf_def fifo_wf_def)
  with Some show ?thesis using cache_list(2) [OF assms] by (simp add: insert_known)
qed

lemma cache_get_abs:
  assumes "process_wf c"
  shows "(case ProcessCache_get pid ticks c of None \<Rightarrow> [] | Some i \<Rightarrow> [i]) =
    filter (\<lambda>i. identity_key i = (pid, ticks)) (ProcessCache_list c)"
proof -
  let ?g = "\<lambda>k. the (map_of (pc_entries c) k)" and ?k = "(pid, ticks)"
  have one: "distinct ks \<Longrightarrow> filter ((=) ?k) ks = (if ?k \<in> set ks then [?k] else [])" for ks
    by (induction ks) auto
  have d: "distinct (pc_order c)" using assms by (simp add: process_wf_def fifo_wf_def)
  have "filter (\<lambda>i. identity_key i = ?k) (ProcessCache_list c) = map ?g (filter (\<lambda>k. identity_key (?g k) = ?k) (pc_order c))"
    by (simp add: cache_list(1) [OF assms] fifo_abs_def o_def filter_map)
  also have "filter (\<lambda>k. identity_key (?g k) = ?k) (pc_order c) = filter ((=) ?k) (pc_order c)"
    using cache_known [OF assms] by (intro filter_cong) force+
  finally show ?thesis
    using cache_known [OF assms, of ?k] cache_unknown [OF assms, of ?k]
    by (auto simp: one [OF d] ProcessCache_get_def)
qed

interpretation identities: refines identity_out "spec_identity cap" ProcessCache_list
  "\<lambda>c. process_wf c \<and> pc_capacity c = cap" for cap
proof (unfold_locales, goal_cases)
  case (1 s x)
  then show ?case by (cases x) (auto intro: wf_intros)
next
  case (2 s x)
  then show ?case by (cases x) (auto simp: cache_get_abs)
next
  case (3 s x)
  then show ?case by (cases x) (auto simp: cache_insert_abs)
qed

section \<open>Recent destinations\<close>

datatype recent_op = CRecord u32 u64 recent_dest | CFor u32 u64

fun recent_out :: "recent_op \<Rightarrow> recent_connects \<Rightarrow> recent_dest list \<times> recent_connects" where
  "recent_out (CRecord pid ticks dest) rc = ([], RecentConnects_record pid ticks dest rc)"
| "recent_out (CFor pid ticks) rc = (for_process pid ticks rc, rc)"

text \<open>The ring of a process: the latest verdict of a destination it already lists, or one more row
  at the end and none but the last \<open>per_key\<close> rows.\<close>

definition spec_ring :: "usize \<Rightarrow> recent_dest \<Rightarrow> recent_dest list \<Rightarrow> recent_dest list" where
  "spec_ring per_key dest rows =
     (if dest_id dest \<in> set (map dest_id rows) then map (\<lambda>r. if dest_id r = dest_id dest then dest else r) rows
      else drop (Suc (length rows) - per_key) (rows @ [dest]))"

definition ring_of :: "'k \<Rightarrow> ('k \<times> 'v list) list \<Rightarrow> 'v list" where
  "ring_of k xs = (case map_of xs k of None \<Rightarrow> [] | Some rows \<Rightarrow> rows)"

fun spec_recent ::
    "usize \<Rightarrow> usize \<Rightarrow> recent_op \<Rightarrow> ((u32 \<times> u64) \<times> recent_dest list) list
       \<Rightarrow> recent_dest list \<times> ((u32 \<times> u64) \<times> recent_dest list) list" where
  "spec_recent cap per_key (CRecord pid ticks dest) xs =
     ([], spec_put cap (pid, ticks) (spec_ring per_key dest (ring_of (pid, ticks) xs)) xs)"
| "spec_recent cap per_key (CFor pid ticks) xs = (ring_of (pid, ticks) xs, xs)"

lemma pop_while_full_drop: "0 < n \<Longrightarrow> pop_while_full n rows = drop (Suc (length rows) - n) rows"
  by (induction rows) (auto simp: Suc_diff_le)

lemma dest_eq: "dest_id r = dest_id d \<Longrightarrow> r\<lparr>rd_verdict := rd_verdict d\<rparr> = d"
  by (cases r; cases d) (simp add: dest_id_def)

lemma update_row_map:
  "distinct (map dest_id rows) \<Longrightarrow> dest_id d \<in> dest_id ` set rows \<Longrightarrow>
     update_row d rows = Some (map (\<lambda>r. if dest_id r = dest_id d then d else r) rows)"
proof (induction rows)
  case (Cons r rows)
  show ?case
  proof (cases "dest_id r = dest_id d")
    case True
    with Cons.prems have "map (\<lambda>r. if dest_id r = dest_id d then d else r) rows = rows"
      by (intro map_idI) (auto simp: image_iff)
    with True show ?thesis by (simp add: same_dest_id dest_eq)
  next
    case False
    with Cons show ?thesis by (auto simp: same_dest_id)
  qed
qed simp

lemma push_dest_spec: "ring_wf n rows \<Longrightarrow> 0 < n \<Longrightarrow> push_dest n d rows = spec_ring n d rows"
  using update_row_map [of rows d] update_row_None [of d rows]
  by (auto simp: push_dest_def spec_ring_def ring_wf_def pop_while_full_drop split: option.split)

definition recent_abs :: "recent_connects \<Rightarrow> ((u32 \<times> u64) \<times> recent_dest list) list" where
  "recent_abs rc = fifo_abs (rc_order rc, rc_entries rc)"

lemma recent_ring:
  assumes "recent_wf rc"
  shows "for_process pid ticks rc = ring_of (pid, ticks) (recent_abs rc)"
proof -
  have "set (rc_order rc) = keys (rc_entries rc)" using assms by (simp add: recent_wf_def fifo_wf_def)
  then show ?thesis
    using in_keys_iff [of "(pid, ticks)" "rc_entries rc"]
    by (auto simp: for_process_def ring_of_def recent_abs_def fifo_abs_def map_of_graph split: option.split)
qed

lemma record_abs:
  assumes "recent_wf rc"
  shows "recent_abs (RecentConnects_record pid ticks d rc) =
    snd (spec_recent (rc_capacity_keys rc) (rc_per_key rc) (CRecord pid ticks d) (recent_abs rc))"
proof -
  have wf: "fifo_wf (rc_capacity_keys rc) (rc_order rc, rc_entries rc)" "0 < rc_per_key rc"
    using assms by (simp_all add: recent_wf_def)
  show ?thesis
    using fifo_put_refines [OF wf(1)] push_dest_spec [OF for_process_wf [OF assms] wf(2), of d]
    by (simp add: recent_abs_def record_as_fifo_put Let_def) (simp add: recent_ring [OF assms] recent_abs_def)
qed

interpretation recents: refines recent_out "spec_recent cap per_key" recent_abs
  "\<lambda>rc. recent_wf rc \<and> rc_capacity_keys rc = cap \<and> rc_per_key rc = per_key" for cap per_key
proof (unfold_locales, goal_cases)
  case (1 s x)
  then show ?case by (cases x) (auto intro: wf_intros)
next
  case (2 s x)
  then show ?case by (cases x) (auto simp: recent_ring)
next
  case (3 s x)
  then show ?case by (cases x) (auto simp: record_abs)
qed

text \<open>Both tables, from their construction on.\<close>

theorem caches_are_lists:
  assumes "ProcessCache_new cap = Some c" "RecentConnects_new cap per_key = Some rc"
  shows "fst (outputs identity_out xs c) = fst (outputs (spec_identity cap) xs []) \<and>
    fst (outputs recent_out ys rc) = fst (outputs (spec_recent cap per_key) ys [])"
proof -
  have "process_wf c \<and> pc_capacity c = cap" "ProcessCache_list c = []"
    using ProcessCache_new_wf [OF assms(1)] assms(1)
    by (auto simp: ProcessCache_new_def ProcessCache_list_def List.map_filter_def split: if_splits)
  moreover have "recent_wf rc \<and> rc_capacity_keys rc = cap \<and> rc_per_key rc = per_key" "recent_abs rc = []"
    using RecentConnects_new_wf [OF assms(2)] assms(2)
    by (auto simp: RecentConnects_new_def recent_abs_def fifo_abs_def split: if_splits)
  ultimately show ?thesis
    using identities.run_refines [of c cap xs] recents.run_refines [of rc cap per_key ys] by simp
qed

end
