(* ===== verification/Loader.thy ===== *)
theory Loader
  imports Daemon
begin

text \<open>
  Loading and attaching the probe (\<open>interfire-ebpf/src/loader.rs\<close>, \<open>loader_live.rs\<close>,
  \<open>loader_attach.rs\<close>). The crate \<open>aya\<close> is the parameter \<open>aya\<close>: an object of type \<open>'o\<close> has maps and
  programs by name, and loading or attaching a program gives a changed object or an error \<open>'e\<close>.
  The log of calls an object went through is read by \<open>aya_calls\<close>, so that what was attached can
  be stated.
\<close>

section \<open>The crate\<close>

datatype aya_call = LoadProgram string | AttachProgram string string u64

record ('o, 'e, 'r) aya =
  aya_load :: "u8 list \<Rightarrow> 'e + 'o"
  aya_load_file :: "path \<Rightarrow> 'e + 'o"
  aya_map :: "string \<Rightarrow> 'o \<Rightarrow> bool"
  aya_program :: "string \<Rightarrow> 'o \<Rightarrow> bool"
  aya_as_kprobe :: "string \<Rightarrow> 'o \<Rightarrow> 'e + unit"
  aya_program_load :: "string \<Rightarrow> 'o \<Rightarrow> 'e + 'o"
  aya_program_attach :: "string \<Rightarrow> string \<Rightarrow> u64 \<Rightarrow> 'o \<Rightarrow> 'e + 'o"
  aya_ring :: "string \<Rightarrow> 'o \<Rightarrow> 'e + 'r"
  aya_calls :: "'o \<Rightarrow> aya_call list"

text \<open>
  What the loader relies on: a fresh object has seen no call, a successful call is recorded, and
  neither changes the object's maps.
\<close>

definition aya_lawful :: "('o, 'e, 'r) aya \<Rightarrow> bool" where
  "aya_lawful A \<longleftrightarrow>
     (\<forall>bytes o1. aya_load A bytes = Inr o1 \<longrightarrow> aya_calls A o1 = []) \<and>
     (\<forall>p o1. aya_load_file A p = Inr o1 \<longrightarrow> aya_calls A o1 = []) \<and>
     (\<forall>n o1 o2. aya_program_load A n o1 = Inr o2 \<longrightarrow>
        aya_calls A o2 = aya_calls A o1 @ [LoadProgram n] \<and> (\<forall>m. aya_map A m o2 = aya_map A m o1)) \<and>
     (\<forall>n fn off o1 o2. aya_program_attach A n fn off o1 = Inr o2 \<longrightarrow>
        aya_calls A o2 = aya_calls A o1 @ [AttachProgram n fn off] \<and> (\<forall>m. aya_map A m o2 = aya_map A m o1))"

section \<open>The loader\<close>

definition PROGRAM_NAME :: string where "PROGRAM_NAME = ''interfire_tcp_connect''"
definition EVENT_MAP :: string where "EVENT_MAP = ''EVENTS''"

datatype 'e load_error =
    LBytecode io_error
  | LEbpf 'e
  | LMap 'e
  | MissingSymbol string
  | LAttach 'e

definition LoadError_display :: "(io_error \<Rightarrow> string) \<Rightarrow> ('e \<Rightarrow> string) \<Rightarrow> 'e load_error \<Rightarrow> string" where
  "LoadError_display show_io show_e error =
     (case error of
        LBytecode e \<Rightarrow> ''eBPF bytecode unavailable: '' @ show_io e
      | LEbpf e \<Rightarrow> ''eBPF load failed: '' @ show_e e
      | LMap e \<Rightarrow> ''eBPF map error: '' @ show_e e
      | MissingSymbol name \<Rightarrow> ''eBPF object missing '' @ name
      | LAttach e \<Rightarrow> ''eBPF attach failed: '' @ show_e e)"

datatype observer_status = ObsAttached | ObsDegraded

record 'o observer =
  ob_bpf :: "'o option"

definition placeholder_for_tests :: "'o observer" where
  "placeholder_for_tests = \<lparr>ob_bpf = None\<rparr>"

definition Observer_status :: "'o observer \<Rightarrow> observer_status" where
  "Observer_status ob = ObsAttached"

fun map_err :: "('a \<Rightarrow> 'b) \<Rightarrow> 'a + 'c \<Rightarrow> 'b + 'c" where
  "map_err f (Inl e) = Inl (f e)"
| "map_err f (Inr x) = Inr x"

definition attach_loaded :: "('o, 'e, 'r) aya \<Rightarrow> 'o \<Rightarrow> 'e load_error + 'o observer" where
  "attach_loaded A bpf =
     (if \<not> aya_map A EVENT_MAP bpf then Inl (MissingSymbol EVENT_MAP)
      else if \<not> aya_program A PROGRAM_NAME bpf then Inl (MissingSymbol PROGRAM_NAME)
      else and_then (map_err LAttach (aya_as_kprobe A PROGRAM_NAME bpf)) (\<lambda>_.
           and_then (map_err LAttach (aya_program_load A PROGRAM_NAME bpf)) (\<lambda>bpf.
           and_then (map_err LAttach (aya_program_attach A PROGRAM_NAME ''tcp_v4_connect'' 0 bpf)) (\<lambda>bpf.
           Inr \<lparr>ob_bpf = Some bpf\<rparr>))))"

definition load_and_attach :: "('o, 'e, 'r) aya \<Rightarrow> u8 list \<Rightarrow> 'e load_error + 'o observer" where
  "load_and_attach A bytecode = and_then (map_err LEbpf (aya_load A bytecode)) (attach_loaded A)"

definition load_path_and_attach :: "('o, 'e, 'r) aya \<Rightarrow> path \<Rightarrow> 'e load_error + 'o observer" where
  "load_path_and_attach A p = and_then (map_err LEbpf (aya_load_file A p)) (attach_loaded A)"

text \<open>The bytecode is a file that the build embeds: an argument.\<close>

definition load_embedded_and_attach :: "('o, 'e, 'r) aya \<Rightarrow> u8 list \<Rightarrow> 'e load_error + 'o observer" where
  "load_embedded_and_attach A embedded_bytecode = load_and_attach A embedded_bytecode"

definition ring_buf :: "('o, 'e, 'r) aya \<Rightarrow> 'o observer \<Rightarrow> 'e load_error + 'r" where
  "ring_buf A ob =
     (case ob_bpf ob of
        None \<Rightarrow> Inl (LBytecode (OtherError ''observer has no loaded eBPF object''))
      | Some bpf \<Rightarrow>
          if \<not> aya_map A EVENT_MAP bpf then Inl (MissingSymbol EVENT_MAP)
          else map_err LMap (aya_ring A EVENT_MAP bpf))"

text \<open>The variants compiled for unit tests never touch the crate.\<close>

definition ELF_MAGIC :: string where "ELF_MAGIC = [CHR 0x7F, CHR ''E'', CHR ''L'', CHR ''F'']"

definition load_and_attach_in_tests :: "u8 list \<Rightarrow> 'e load_error + 'o observer" where
  "load_and_attach_in_tests bytecode =
     (if bytecode = [] then Inl (LBytecode (OtherError ''empty bytecode'')) else Inr placeholder_for_tests)"

definition load_path_and_attach_in_tests :: "(io_error + string) \<Rightarrow> 'e load_error + 'o observer" where
  "load_path_and_attach_in_tests file =
     and_then (map_err LBytecode file) (\<lambda>bytes.
       if \<not> starts_with ELF_MAGIC bytes then Inl (LBytecode InvalidData) else Inr placeholder_for_tests)"

definition ring_buf_in_tests :: "'o observer \<Rightarrow> 'e load_error + 'r" where
  "ring_buf_in_tests ob = Inl (LBytecode (OtherError ''ring buffer unavailable under unit tests''))"

section \<open>The observation thread from the loader on\<close>

text \<open>\<open>observe::run\<close> as it is compiled for use: \<open>run_test_early\<close> is false, so the ring is polled.\<close>

definition forced_ring_exit :: bool where "forced_ring_exit = False"

definition run_test_early :: bool where "run_test_early = forced_ring_exit"

text \<open>\<open>read\<close> gives the items the ring delivers, each with the clock during its handling.\<close>

definition observe_run ::
    "'k host \<Rightarrow> ('o, 'e, 'r) aya \<Rightarrow> ('r \<Rightarrow> ((nat \<Rightarrow> instant) \<times> u8 list) list) \<Rightarrow> 'o observer \<Rightarrow> 'k world \<Rightarrow> 'k world" where
  "observe_run H A read ob w =
     (if run_test_early then w else poll_ring H (case ring_buf A ob of Inl e \<Rightarrow> Inl e | Inr ring \<Rightarrow> Inr (read ring)) w)"

section \<open>What an attached probe means\<close>

lemma map_err_Inr [simp]: "map_err f r = Inr x \<longleftrightarrow> r = Inr x"
  by (cases r) auto

lemma attach_loaded_ok:
  assumes "aya_lawful A" "attach_loaded A o0 = Inr ob"
  shows "\<exists>bpf. ob = \<lparr>ob_bpf = Some bpf\<rparr> \<and> aya_map A EVENT_MAP bpf \<and>
    aya_calls A bpf = aya_calls A o0 @ [LoadProgram PROGRAM_NAME, AttachProgram PROGRAM_NAME ''tcp_v4_connect'' 0]"
proof -
  obtain o1 o2 where h: "aya_map A EVENT_MAP o0" "aya_program_load A PROGRAM_NAME o0 = Inr o1"
      "aya_program_attach A PROGRAM_NAME ''tcp_v4_connect'' 0 o1 = Inr o2" "ob = \<lparr>ob_bpf = Some o2\<rparr>"
    using assms(2) by (auto simp: attach_loaded_def split: if_splits)
  with assms(1) show ?thesis unfolding aya_lawful_def by auto
qed

text \<open>
  C28: the daemon says \<open>attached\<close> only when the probe is attached. Start-up reports \<open>attached\<close> exactly
  when the probe was not switched off and loading succeeded; then the object is one whose program
  was loaded and attached to \<open>tcp_v4_connect\<close> in this order and nothing else, its event map is
  there, and the observation thread fails at most in opening that map. In every other case it
  reports \<open>degraded\<close> and starts no observation thread.
\<close>

theorem attached_means_probing:
  assumes "aya_lawful A" "start_observation skip (load_embedded_and_attach A bytes) = (observer, label)"
  shows "(label = ''attached'' \<longleftrightarrow> \<not> skip \<and> (\<exists>ob. load_embedded_and_attach A bytes = Inr ob)) \<and>
    (label = ''attached'' \<longrightarrow> (\<exists>bpf. observer = Some \<lparr>ob_bpf = Some bpf\<rparr> \<and>
       aya_calls A bpf = [LoadProgram PROGRAM_NAME, AttachProgram PROGRAM_NAME ''tcp_v4_connect'' 0] \<and>
       ring_buf A \<lparr>ob_bpf = Some bpf\<rparr> = map_err LMap (aya_ring A EVENT_MAP bpf))) \<and>
    (label \<noteq> ''attached'' \<longrightarrow> label = ''degraded'' \<and> observer = None)"
proof (cases "skip \<or> (\<exists>e. load_embedded_and_attach A bytes = Inl e)")
  case True
  then have "observer = None" "label = ''degraded''"
    using assms(2) by (auto simp: start_observation_def split: if_splits)
  with True show ?thesis by auto
next
  case False
  then obtain ob where ob: "load_embedded_and_attach A bytes = Inr ob" "\<not> skip" by (metis sum.exhaust)
  then obtain o0 where o0: "aya_load A bytes = Inr o0" "attach_loaded A o0 = Inr ob"
    by (auto simp: load_embedded_and_attach_def load_and_attach_def)
  have "aya_calls A o0 = []" using assms(1) o0(1) by (simp add: aya_lawful_def)
  moreover have "observer = Some ob" "label = ''attached''"
    using assms(2) ob by (auto simp: start_observation_def)
  ultimately show ?thesis
    using attach_loaded_ok [OF assms(1) o0(2)] ob by (auto simp: ring_buf_def)
qed

text \<open>An object as its event map, its program and the calls it went through.\<close>

definition aya_demo :: "(aya_call list, string, unit) aya" where
  "aya_demo = \<lparr>aya_load = (\<lambda>bytes. if bytes = [] then Inl ''empty'' else Inr []), aya_load_file = (\<lambda>_. Inl ''no file''),
     aya_map = (\<lambda>m _. m = EVENT_MAP), aya_program = (\<lambda>n _. n = PROGRAM_NAME), aya_as_kprobe = (\<lambda>_ _. Inr ()),
     aya_program_load = (\<lambda>n o1. Inr (o1 @ [LoadProgram n])),
     aya_program_attach = (\<lambda>n fn off o1. Inr (o1 @ [AttachProgram n fn off])), aya_ring = (\<lambda>_ _. Inr ()),
     aya_calls = (\<lambda>o1. o1)\<rparr>"

theorem attached_means_probing_witness:
  "start_observation False (load_embedded_and_attach aya_demo [1]) =
     (Some \<lparr>ob_bpf = Some [LoadProgram PROGRAM_NAME, AttachProgram PROGRAM_NAME ''tcp_v4_connect'' 0]\<rparr>, ''attached'')"
proof -
  have law: "aya_lawful aya_demo" by (simp add: aya_lawful_def aya_demo_def)
  obtain observer label where st: "start_observation False (load_embedded_and_attach aya_demo [1]) = (observer, label)"
    by fastforce
  have "\<exists>ob. load_embedded_and_attach aya_demo [1] = Inr ob"
    by (simp add: load_embedded_and_attach_def load_and_attach_def attach_loaded_def aya_demo_def)
  then show ?thesis using attached_means_probing [OF law st] st by (auto simp: aya_demo_def)
qed

end
