(* ===== verification/NftDouble.thy ===== *)
theory NftDouble
  imports Nft
begin

text \<open>
  \<open>nft.rs\<close> as it is compiled for unit tests: nine switches force the outcomes of the \<open>nft\<close> program, which
  tests never run. What is shown: whatever switches are set, the code under test behaves like the
  code in use with some \<open>nft\<close> program, so a test never sees an outcome that cannot happen.
\<close>

datatype nft_hook =
    ForceNftOk | ForceNftListMissing | ForceNftListFail | ForceNftListOutput | ForceNftSpawnFail
  | ForceNftStdinUnavailable | ForceNftInstallSuccess | ForceNftInstallReject | ForceNftRemoveReject

type_synonym nft_hooks = "nft_hook \<Rightarrow> bool"

text \<open>Each switch has a guard: arming it sets the switch, dropping it clears it.\<close>

definition nft_guard :: "nft_hook \<Rightarrow> bool \<Rightarrow> nft_hooks \<Rightarrow> nft_hooks" where
  "nft_guard h armed hooks = hooks(h := armed)"

text \<open>A rejected removal runs the program \<open>false\<close>, which fails and prints nothing.\<close>

definition test_nft_remove :: "nft_hooks \<Rightarrow> io_error + unit" where
  "test_nft_remove hooks =
     (if hooks ForceNftOk then Inr ()
      else if hooks ForceNftSpawnFail then Inl (OtherError ''nft spawn failed: forced'')
      else if hooks ForceNftRemoveReject then finish_remove \<lparr>no_success = False, no_stdout = [], no_stderr = []\<rparr>
      else Inl (OtherError ''live nft remove is unavailable under unit tests''))"

definition test_nft_install :: "nft_hooks \<Rightarrow> io_error + unit" where
  "test_nft_install hooks =
     (if hooks ForceNftOk \<or> hooks ForceNftInstallSuccess then Inr ()
      else if hooks ForceNftSpawnFail then Inl (OtherError ''nft spawn failed: forced'')
      else if hooks ForceNftInstallReject then Inl (OtherError ''nft install failed: forced reject'')
      else if hooks ForceNftStdinUnavailable then Inl (OtherError ''nft stdin unavailable'')
      else Inl (OtherError ''live nft install is unavailable under unit tests''))"

definition test_install_composed :: "nft_hooks \<Rightarrow> traffic_compose \<Rightarrow> io_error + unit" where
  "test_install_composed hooks compose =
     (if compose_traffic_script compose = [] then test_nft_remove hooks
      else if hooks ForceNftOk \<or> hooks ForceNftInstallSuccess then Inr ()
      else if hooks ForceNftSpawnFail then Inl (OtherError ''nft spawn failed: forced'')
      else if hooks ForceNftInstallReject then Inl (OtherError ''nft install failed: forced reject'')
      else if hooks ForceNftStdinUnavailable then Inl (OtherError ''nft stdin unavailable'')
      else Inl (OtherError ''live nft install is unavailable under unit tests''))"

definition FORCED_LISTING :: string where
  "FORCED_LISTING = ''table inet interfire { chain output { meta l4proto tcp ct state new queue num 4242 } }''"

definition test_list_owned_table :: "nft_hooks \<Rightarrow> list_error + string" where
  "test_list_owned_table hooks =
     (if hooks ForceNftListMissing then Inl ListMissing
      else if hooks ForceNftListFail then Inl (ListFailed ''forced list failure'')
      else if hooks ForceNftListOutput then Inr FORCED_LISTING
      else if hooks ForceNftSpawnFail then Inl (ListFailed ''nft spawn failed: forced'')
      else Inl ListMissing)"

definition test_nft_status :: "nft_hooks \<Rightarrow> network_status_body" where
  "test_nft_status hooks =
     (case test_list_owned_table hooks of
        Inr stdout \<Rightarrow> classify_list_output stdout
      | Inl ListMissing \<Rightarrow> body NtMissing ''none''
      | Inl (ListFailed _) \<Rightarrow> body NtMissing ''none'')"

section \<open>The program a test stands for\<close>

definition nft_ended :: "bool \<Rightarrow> string \<Rightarrow> string \<Rightarrow> nft_output" where
  "nft_ended success out err = \<lparr>no_success = success, no_stdout = out, no_stderr = err\<rparr>"

definition forced_program :: "nft_hooks \<Rightarrow> unit nft_program" where
  "forced_program hooks =
     \<lparr>nft_delete = (\<lambda>k. (if hooks ForceNftOk then Inr (nft_ended True [] [])
        else if hooks ForceNftSpawnFail then Inl ''forced''
        else if hooks ForceNftRemoveReject then Inr (nft_ended False [] [])
        else Inl ''absent'', k)),
      nft_load = (\<lambda>_ k. (if hooks ForceNftOk \<or> hooks ForceNftInstallSuccess then Exited (nft_ended True [] [])
        else if hooks ForceNftSpawnFail then SpawnFailed ''forced''
        else if hooks ForceNftInstallReject then Exited (nft_ended False [] ''forced reject'')
        else if hooks ForceNftStdinUnavailable then StdinUnavailable
        else SpawnFailed ''absent'', k)),
      nft_list = (\<lambda>_. if hooks ForceNftListMissing then Inr (nft_ended False [] ''No such file or directory'')
        else if hooks ForceNftListFail then Inr (nft_ended False [] ''forced list failure'')
        else if hooks ForceNftListOutput then Inr (nft_ended True FORCED_LISTING [])
        else if hooks ForceNftSpawnFail then Inl ''forced''
        else Inr (nft_ended False [] ''No such file or directory''))\<rparr>"

lemma forced_listing:
  "interpret_list_output (nft_ended False [] ''No such file or directory'') = Inl ListMissing"
  "interpret_list_output (nft_ended False [] ''forced list failure'') = Inl (ListFailed ''forced list failure'')"
  "interpret_list_output (nft_ended True FORCED_LISTING []) = Inr FORCED_LISTING"
  by code_simp+

lemma list_double: "test_list_owned_table hooks = list_owned_table (forced_program hooks) k"
  by (simp add: test_list_owned_table_def list_owned_table_def forced_program_def forced_listing)

lemma remove_double: "isl (test_nft_remove hooks) = isl (fst (nft_remove (forced_program hooks) k))"
  by (simp add: test_nft_remove_def nft_remove_def forced_program_def nft_ended_def finish_remove_def)

lemma load_double:
  assumes "finish (nft_ended True [] []) = Inr ()" "isl (finish (nft_ended False [] ''forced reject''))"
  shows "isl (test_nft_install hooks) = isl (fst (load_script script finish (forced_program hooks) k))"
  using assms by (simp add: test_nft_install_def load_script_def forced_program_def)

text \<open>
  The switches stand for an \<open>nft\<close> program. For every setting there is a program with which the code in
  use succeeds and fails exactly where the code under test does, in installing the queue table, in
  installing any composed table and in removing it, and with which it lists the table and reports
  its status with the same result.
\<close>

theorem nft_double_faithful:
  "\<exists>N :: unit nft_program.
     isl (test_nft_install hooks) = isl (fst (nft_install N ())) \<and>
     isl (test_nft_remove hooks) = isl (fst (nft_remove N ())) \<and>
     (\<forall>compose. isl (test_install_composed hooks compose) = isl (fst (install_composed N compose ()))) \<and>
     test_list_owned_table hooks = list_owned_table N () \<and> test_nft_status hooks = nft_status N ()"
proof (intro exI conjI allI)
  let ?N = "forced_program hooks"
  show "isl (test_nft_install hooks) = isl (fst (nft_install ?N ()))"
    unfolding nft_install_def by (rule load_double) (simp_all add: finish_install_def nft_ended_def)
  show "isl (test_nft_remove hooks) = isl (fst (nft_remove ?N ()))" by (rule remove_double)
  show "isl (test_install_composed hooks compose) = isl (fst (install_composed ?N compose ()))" for compose
  proof (cases "compose_traffic_script compose = []")
    case False
    then have "test_install_composed hooks compose = test_nft_install hooks"
      by (simp add: test_install_composed_def test_nft_install_def)
    moreover have "isl (test_nft_install hooks) =
        isl (fst (load_script (compose_traffic_script compose) finish_traffic_install ?N (snd (nft_remove ?N ()))))"
      by (rule load_double) (simp_all add: finish_traffic_install_def nft_ended_def)
    ultimately show ?thesis using False by (simp add: install_composed_def)
  qed (simp add: test_install_composed_def install_composed_def remove_double)
  show "test_list_owned_table hooks = list_owned_table ?N ()" by (rule list_double)
  then show "test_nft_status hooks = nft_status ?N ()" by (simp add: test_nft_status_def nft_status_def)
qed

end
