(* ===== verification/Doubles.thy ===== *)
theory Doubles
  imports Loader NftDouble
begin

text \<open>
  The copies of the queue and observation loops that are compiled for unit tests (\<open>nfqueue.rs\<close>,
  \<open>observe.rs\<close> under \<open>cfg(test)\<close>). The live loops are in files of their own that no unit test reaches,
  so what the tests show about the copies is worth something only if the copies behave alike:
  that is proved here. A unit test runs alone, so nothing else touches the tables meanwhile.
\<close>

section \<open>The queue\<close>

record fake_transport =
  ft_payloads :: "u8 list list"
  ft_verdicts :: "packet_verdict list"
  ft_recv_error :: "io_error option"

definition FakeTransport_recv_payload :: "fake_transport \<Rightarrow> (io_error + u8 list) \<times> fake_transport" where
  "FakeTransport_recv_payload tr =
     (case ft_recv_error tr of
        Some error \<Rightarrow> (Inl error, tr\<lparr>ft_recv_error := None\<rparr>)
      | None \<Rightarrow>
          (case ft_payloads tr of
             [] \<Rightarrow> (Inl (OtherError ''no payload''), tr)
           | p # ps \<Rightarrow> (Inr p, tr\<lparr>ft_payloads := ps\<rparr>)))"

definition FakeTransport_submit_verdict :: "packet_verdict \<Rightarrow> fake_transport \<Rightarrow> (io_error + unit) \<times> fake_transport" where
  "FakeTransport_submit_verdict v tr = (Inr (), tr\<lparr>ft_verdicts := ft_verdicts tr @ [v]\<rparr>)"

definition LOOKUP_MAX_ATTEMPTS :: nat where "LOOKUP_MAX_ATTEMPTS = 50"

text \<open>The loop over \<open>0..max_attempts\<close>; \<open>t\<close> gives the clock at each attempt.\<close>

fun test_attempts ::
    "(nat \<Rightarrow> instant) \<Rightarrow> dest_key \<Rightarrow> nat \<Rightarrow> nat \<Rightarrow> pending_table mutex \<Rightarrow> packet_verdict \<times> pending_table mutex" where
  "test_attempts t key 0 attempt m = (Drop, m)"
| "test_attempts t key (Suc n) attempt m =
     with_lock m (Drop, m) (\<lambda>pending.
       case PendingTable_take (t attempt) key pending of
         (Some verdict, pending) \<Rightarrow> (verdict, Healthy pending)
       | (None, pending) \<Rightarrow> test_attempts t key n (Suc attempt) (Healthy pending))"

definition lookup_verdict_with_attempts ::
    "(nat \<Rightarrow> instant) \<Rightarrow> u8 list \<Rightarrow> nat \<Rightarrow> pending_table mutex \<Rightarrow> packet_verdict \<times> pending_table mutex" where
  "lookup_verdict_with_attempts t payload max_attempts m =
     (case tcp_destination payload of
        None \<Rightarrow> (Drop, m)
      | Some key \<Rightarrow> test_attempts t key max_attempts 0 m)"

definition test_lookup_verdict ::
    "(nat \<Rightarrow> instant) \<Rightarrow> u8 list \<Rightarrow> pending_table mutex \<Rightarrow> packet_verdict \<times> pending_table mutex" where
  "test_lookup_verdict t payload m = lookup_verdict_with_attempts t payload LOOKUP_MAX_ATTEMPTS m"

definition set_pending :: "pending_table mutex \<Rightarrow> 'k world \<Rightarrow> 'k world" where
  "set_pending m w = w\<lparr>w_shared := (w_shared w)\<lparr>sh_pending := m\<rparr>\<rparr>"

definition service_one_message ::
    "(nat \<Rightarrow> instant) \<Rightarrow> fake_transport \<Rightarrow> 'k world \<Rightarrow> (io_error + unit) \<times> fake_transport \<times> 'k world" where
  "service_one_message t tr w =
     (case FakeTransport_recv_payload tr of
        (Inl e, tr) \<Rightarrow> (Inl e, tr, w)
      | (Inr payload, tr) \<Rightarrow>
          let (verdict, m) = test_lookup_verdict t payload (sh_pending (w_shared w));
              (r, tr) = FakeTransport_submit_verdict verdict tr
          in (r, tr, set_pending m w))"

definition mark_nfqueue_bound :: "'k world \<Rightarrow> 'k world" where
  "mark_nfqueue_bound w = w\<lparr>w_shared := set_enforcement ''nfqueue'' (w_shared w)\<rparr>"

text \<open>The two switches of the queue and the one payload a test can plant.\<close>

record queue_hooks =
  qh_fail :: bool
  qh_simulate_bound :: bool
  qh_payload :: "u8 list option"

definition ForceNfqueueFail_arm :: "queue_hooks \<Rightarrow> queue_hooks" where
  "ForceNfqueueFail_arm hooks = hooks\<lparr>qh_fail := True\<rparr>"

definition ForceNfqueueFail_drop :: "queue_hooks \<Rightarrow> queue_hooks" where
  "ForceNfqueueFail_drop hooks = hooks\<lparr>qh_fail := False\<rparr>"

definition ForceNfqueueSimulateBound_arm :: "u8 list \<Rightarrow> queue_hooks \<Rightarrow> queue_hooks" where
  "ForceNfqueueSimulateBound_arm payload hooks = hooks\<lparr>qh_payload := Some payload, qh_simulate_bound := True\<rparr>"

definition ForceNfqueueSimulateBound_arm_without_payload :: "queue_hooks \<Rightarrow> queue_hooks" where
  "ForceNfqueueSimulateBound_arm_without_payload hooks = hooks\<lparr>qh_payload := None, qh_simulate_bound := True\<rparr>"

definition ForceNfqueueSimulateBound_drop :: "queue_hooks \<Rightarrow> queue_hooks" where
  "ForceNfqueueSimulateBound_drop hooks = hooks\<lparr>qh_simulate_bound := False, qh_payload := None\<rparr>"

text \<open>\<open>run\<close> under test; the planted payload is taken.\<close>

definition test_queue_run ::
    "(nat \<Rightarrow> instant) \<Rightarrow> queue_hooks \<Rightarrow> 'k world \<Rightarrow> (io_error + unit) \<times> queue_hooks \<times> 'k world" where
  "test_queue_run t hooks w =
     (if qh_fail hooks then (Inl (OtherError ''forced nfqueue bind failure''), hooks, w)
      else if qh_simulate_bound hooks then
        let w = mark_nfqueue_bound w; payload = qh_payload hooks; hooks = hooks\<lparr>qh_payload := None\<rparr>
        in (case payload of
              None \<Rightarrow> (Inr (), hooks, w)
            | Some payload \<Rightarrow>
                (case service_one_message t \<lparr>ft_payloads = [payload], ft_verdicts = [], ft_recv_error = None\<rparr> w of
                   (Inl e, _, w) \<Rightarrow> (Inl e, hooks, w)
                 | (Inr _, _, w) \<Rightarrow> (Inr (), hooks, w)))
      else (Inl (OtherError ''live NFQUEUE bind is unavailable under unit tests''), hooks, w))"

text \<open>\<open>run_or_degrade\<close> under test.\<close>

definition test_run_or_degrade :: "(nat \<Rightarrow> instant) \<Rightarrow> queue_hooks \<Rightarrow> 'k world \<Rightarrow> queue_hooks \<times> 'k world" where
  "test_run_or_degrade t hooks w =
     (case test_queue_run t hooks w of
        (Inl _, hooks, w) \<Rightarrow> (hooks, queue_down w)
      | (Inr _, hooks, w) \<Rightarrow> (hooks, w))"

lemma test_attempts_live: "test_attempts t key n i m = lookup_loop (\<lambda>_ m. m) t key n i m"
proof (induction n arbitrary: i m)
  case (Suc n)
  show ?case
  proof (cases m)
    case (Healthy p)
    then show ?thesis
      by (cases "PendingTable_take (t i) key p"; cases "fst (PendingTable_take (t i) key p)")
        (simp_all add: lookup_attempt_def Suc.IH)
  qed (simp add: lookup_attempt_def)
qed simp

lemma test_lookup_live: "test_lookup_verdict t payload m = lookup_verdict (\<lambda>_ m. m) t payload m"
  by (simp add: test_lookup_verdict_def lookup_verdict_with_attempts_def lookup_verdict_def LOOKUP_MAX_ATTEMPTS_def
      test_attempts_live split: option.split)

text \<open>
  With a planted payload \<open>run\<close> under test marks the queue as bound and decides that one packet the way
  the live loop does; with nothing armed it degrades, as the live code does when it cannot bind.
\<close>

lemma planted_packet_live:
  "test_run_or_degrade t (ForceNfqueueSimulateBound_arm payload \<lparr>qh_fail = False, qh_simulate_bound = b, qh_payload = old\<rparr>) w =
     (\<lparr>qh_fail = False, qh_simulate_bound = True, qh_payload = None\<rparr>,
      set_pending (snd (lookup_verdict (\<lambda>_ m. m) t payload (sh_pending (w_shared w)))) (mark_nfqueue_bound w))"
  by (simp add: test_run_or_degrade_def test_queue_run_def ForceNfqueueSimulateBound_arm_def service_one_message_def
      FakeTransport_recv_payload_def FakeTransport_submit_verdict_def test_lookup_live mark_nfqueue_bound_def
      set_enforcement_def case_prod_unfold Let_def)

lemma unarmed_queue_degrades:
  "test_run_or_degrade t (ForceNfqueueSimulateBound_drop (ForceNfqueueFail_drop hooks)) w =
     (ForceNfqueueSimulateBound_drop (ForceNfqueueFail_drop hooks), queue_down w)"
  by (simp add: test_run_or_degrade_def test_queue_run_def ForceNfqueueSimulateBound_drop_def ForceNfqueueFail_drop_def)

text \<open>Serving the transport's payloads one message at a time, as long as it has any.\<close>

fun service_all ::
    "(nat \<Rightarrow> instant) list \<Rightarrow> fake_transport \<Rightarrow> 'k world \<Rightarrow> fake_transport \<times> 'k world" where
  "service_all [] tr w = (tr, w)"
| "service_all (t # ts) tr w = (case service_one_message t tr w of (_, tr, w) \<Rightarrow> service_all ts tr w)"

text \<open>
  The queue code under test is the queue code that runs. Serving any packets through the fake
  transport submits exactly the verdicts that the live loop submits for them, and leaves the same
  pending table; the number of attempts is the same fifty.
\<close>

theorem queue_double_faithful:
  assumes "length ts = length payloads"
  shows "(let (tr, w') = service_all ts \<lparr>ft_payloads = payloads, ft_verdicts = vs, ft_recv_error = None\<rparr> w
    in ft_verdicts tr = vs @ fst (serve_packets (zip (replicate (length ts) (\<lambda>_ m. m)) (zip ts payloads)) (sh_pending (w_shared w))) \<and>
       w' = set_pending (snd (serve_packets (zip (replicate (length ts) (\<lambda>_ m. m)) (zip ts payloads)) (sh_pending (w_shared w)))) w)"
  using assms
proof (induction ts payloads arbitrary: vs w rule: list_induct2)
  case Nil
  then show ?case by (simp add: set_pending_def)
next
  case (Cons t ts p ps)
  let ?r = "lookup_verdict (\<lambda>_ m. m) t p (sh_pending (w_shared w))"
  have one: "service_one_message t \<lparr>ft_payloads = p # ps, ft_verdicts = vs, ft_recv_error = None\<rparr> w =
      (Inr (), \<lparr>ft_payloads = ps, ft_verdicts = vs @ [fst ?r], ft_recv_error = None\<rparr>, set_pending (snd ?r) w)"
    by (simp add: service_one_message_def FakeTransport_recv_payload_def FakeTransport_submit_verdict_def test_lookup_live case_prod_unfold Let_def)
  show ?case
    using Cons.IH [of "vs @ [fst ?r]" "set_pending (snd ?r) w"]
    by (simp add: one case_prod_unfold Let_def) (simp add: set_pending_def)
qed

theorem queue_double_faithful_witness:
  "ft_verdicts (fst (service_all [\<lambda>_. 0] \<lparr>ft_payloads = [[1, 2, 3]], ft_verdicts = [], ft_recv_error = None\<rparr>
     world_demo)) = [Drop]"
proof -
  have "tcp_destination [1, 2, 3] = None" by (simp add: tcp_destination_def)
  then show ?thesis
    using queue_double_faithful [of "[\<lambda>_. 0]" "[[1, 2, 3]]" "[]" world_demo]
    by (simp add: lookup_verdict_def case_prod_unfold Let_def)
qed

section \<open>The ring\<close>

text \<open>The three switches and the items a test can plant.\<close>

record observe_hooks =
  oh_ring_unavailable :: bool
  oh_ring_buf_error :: bool
  oh_synthetic :: bool
  oh_items :: "((nat \<Rightarrow> instant) \<times> u8 list) list option"

definition ForceSyntheticRing_arm ::
    "((nat \<Rightarrow> instant) \<times> u8 list) list \<Rightarrow> observe_hooks \<Rightarrow> observe_hooks" where
  "ForceSyntheticRing_arm items hooks = hooks\<lparr>oh_items := Some items, oh_synthetic := True\<rparr>"

definition ForceSyntheticRing_drop :: "observe_hooks \<Rightarrow> observe_hooks" where
  "ForceSyntheticRing_drop hooks = hooks\<lparr>oh_synthetic := False, oh_items := None\<rparr>"

definition ForceRingUnavailable_arm :: "observe_hooks \<Rightarrow> observe_hooks" where
  "ForceRingUnavailable_arm hooks = hooks\<lparr>oh_ring_unavailable := True\<rparr>"

definition ForceRingUnavailable_drop :: "observe_hooks \<Rightarrow> observe_hooks" where
  "ForceRingUnavailable_drop hooks = hooks\<lparr>oh_ring_unavailable := False\<rparr>"

definition ForceRingBufError_arm :: "observe_hooks \<Rightarrow> observe_hooks" where
  "ForceRingBufError_arm hooks = hooks\<lparr>oh_ring_buf_error := True\<rparr>"

definition ForceRingBufError_drop :: "observe_hooks \<Rightarrow> observe_hooks" where
  "ForceRingBufError_drop hooks = hooks\<lparr>oh_ring_buf_error := False\<rparr>"

definition test_forced_exit :: "observe_hooks \<Rightarrow> bool" where
  "test_forced_exit hooks =
     (if oh_ring_unavailable hooks then True else if oh_ring_buf_error hooks then True else False)"

definition test_ring_item :: "'k host \<Rightarrow> (nat \<Rightarrow> instant) \<times> u8 list \<Rightarrow> 'k world \<Rightarrow> 'k world" where
  "test_ring_item H = (\<lambda>(t, bytes) w.
     case try_from_bytes bytes of None \<Rightarrow> w | Some event \<Rightarrow> handle_event H t event w)"

text \<open>One batch: the items \<open>poll\<close> gives until it gives none.\<close>

fun poll_observation_batch ::
    "'k host \<Rightarrow> ((nat \<Rightarrow> instant) \<times> u8 list) list \<Rightarrow> bool \<Rightarrow> 'k world \<Rightarrow> bool \<times> 'k world" where
  "poll_observation_batch H [] progressed w = (progressed, w)"
| "poll_observation_batch H (item # items) progressed w = poll_observation_batch H items True (test_ring_item H item w)"

text \<open>
  The loop, with the batches it meets; \<open>None\<close> when it is still running after them.
\<close>

fun observation_idle_loop ::
    "'k host \<Rightarrow> nat option \<Rightarrow> nat \<Rightarrow> ((nat \<Rightarrow> instant) \<times> u8 list) list list \<Rightarrow> 'k world \<Rightarrow> 'k world option" where
  "observation_idle_loop H max_idle_rounds idle_rounds [] w = None"
| "observation_idle_loop H max_idle_rounds idle_rounds (batch # batches) w =
     (let (progressed, w) = poll_observation_batch H batch False w in
      if progressed then observation_idle_loop H max_idle_rounds 0 batches w
      else if case max_idle_rounds of None \<Rightarrow> False | Some limit \<Rightarrow> limit \<le> idle_rounds then Some w
      else observation_idle_loop H max_idle_rounds (Suc idle_rounds) batches w)"

text \<open>The planted items are taken; once they are used up every poll gives none.\<close>

definition run_synthetic_ring :: "'k host \<Rightarrow> observe_hooks \<Rightarrow> 'k world \<Rightarrow> 'k world option \<times> observe_hooks" where
  "run_synthetic_ring H hooks w =
     (let items = (case oh_items hooks of None \<Rightarrow> [] | Some items \<Rightarrow> items)
      in (observation_idle_loop H (Some 0) 0 [items, []] w, hooks\<lparr>oh_items := None\<rparr>))"

definition test_run_early :: "'k host \<Rightarrow> observe_hooks \<Rightarrow> 'k world \<Rightarrow> (bool \<times> 'k world) option \<times> observe_hooks" where
  "test_run_early H hooks w =
     (if test_forced_exit hooks then (Some (True, w), hooks)
      else if oh_synthetic hooks then
        let (r, hooks) = run_synthetic_ring H hooks w in (map_option (Pair True) r, hooks)
      else (Some (False, w), hooks))"

text \<open>\<open>run\<close> under test: whatever the hooks say, the observer itself is only dropped.\<close>

definition test_observe_run :: "'k host \<Rightarrow> observe_hooks \<Rightarrow> 'k world \<Rightarrow> 'k world option \<times> observe_hooks" where
  "test_observe_run H hooks w = (let (r, hooks) = test_run_early H hooks w in (map_option snd r, hooks))"

lemma test_ring_item_live: "test_ring_item H = (\<lambda>(t, bytes). process_ring_item H t bytes)"
  by (auto simp: test_ring_item_def process_ring_item_def fun_eq_iff split: option.split)

abbreviation live_items :: "'k host \<Rightarrow> ((nat \<Rightarrow> instant) \<times> u8 list) list \<Rightarrow> 'k world \<Rightarrow> 'k world" where
  "live_items H items \<equiv> poll_ring H (Inr items :: unit + _)"

lemma live_items_simps [simp]:
  "live_items H [] w = w" "live_items H (a @ b) w = live_items H b (live_items H a w)"
  "live_items H (i # a) w = live_items H a (test_ring_item H i w)"
  by (simp_all add: poll_ring_def test_ring_item_live)

lemma batch_live: "poll_observation_batch H items b w = (b \<or> items \<noteq> [], live_items H items w)"
  by (induction items arbitrary: b w) simp_all

lemma idle_loop_live:
  "observation_idle_loop H limit n batches w = Some w' \<Longrightarrow>
     \<exists>k \<le> length batches. w' = live_items H (concat (take k batches)) w"
proof (induction batches arbitrary: n w)
  case (Cons batch batches)
  let ?w = "live_items H batch w"
  have "w' = ?w \<or> (\<exists>m. observation_idle_loop H limit m batches ?w = Some w')"
    using Cons.prems by (auto simp: batch_live split: if_splits option.splits)
  then obtain k where "k \<le> length batches" "w' = live_items H (concat (take k batches)) ?w"
    using Cons.IH [of _ ?w] by (metis concat.simps(1) le0 live_items_simps(1) take_0)
  then show ?case by (intro exI [of _ "Suc k"]) simp
qed simp

text \<open>
  The observation code under test is the observation code that runs. With a planted ring and no
  forced failure, \<open>run\<close> under test returns, in exactly the state that the live loop reaches after the
  same items, malformed ones included; the planted items are used up.
\<close>

theorem ring_double_faithful:
  "test_observe_run H (ForceSyntheticRing_arm items \<lparr>oh_ring_unavailable = False, oh_ring_buf_error = False,
       oh_synthetic = b, oh_items = old\<rparr>) w =
     (Some (poll_ring H (Inr items :: unit + _) w), \<lparr>oh_ring_unavailable = False, oh_ring_buf_error = False,
        oh_synthetic = True, oh_items = None\<rparr>)"
proof -
  have "observation_idle_loop H (Some 0) 0 [items, []] w = Some (live_items H items w)"
    by (cases items) (simp_all add: batch_live del: poll_observation_batch.simps)
  then show ?thesis
    by (simp add: test_observe_run_def test_run_early_def test_forced_exit_def ForceSyntheticRing_arm_def
        run_synthetic_ring_def Let_def case_prod_unfold del: observation_idle_loop.simps)
qed

end
