(* ===== verification/Tooling.thy ===== *)
theory Tooling
  imports Doubles UiRun Provenance
begin

text \<open>
  What stands around the program: the fuzz target of the request parser, the build scripts that
  name the version, the helpers the unit tests use to bring a component into a state or a
  connection the program itself never makes, and the parts of the window's log that only its tests
  call.
\<close>

section \<open>The fuzz target\<close>

definition fuzz_parse_request :: "string \<Rightarrow> (protocol_error + request) option" where
  "fuzz_parse_request data = (if utf8_valid data then Some (Request_parse data) else None)"

text \<open>Every request that a connection can lead to is one the fuzz target parses: \<open>read_line\<close> only
  accepts valid UTF-8.\<close>

lemma fuzz_covers_daemon:
  assumes "request_of c = Some r" "\<And>frame. cn_line c = Inr frame \<Longrightarrow> utf8_valid frame"
  shows "\<exists>data. fuzz_parse_request data = Some (Inr r)"
  using assms by (auto simp: request_of_def fuzz_parse_request_def split: sum.splits if_splits)

section \<open>The version of a build\<close>

text \<open>What running \<open>git describe\<close> gives: nothing when it cannot be started, else whether it succeeded
  and what it printed.\<close>

definition git_describe :: "(bool \<times> string) option \<Rightarrow> string" where
  "git_describe run =
     (case run of
        None \<Rightarrow> ''unknown''
      | Some (success, stdout) \<Rightarrow>
          if success \<and> utf8_valid stdout
          then let value = trim stdout in if value \<noteq> [] then value else ''unknown''
          else ''unknown'')"

definition build_main :: "string \<Rightarrow> (bool \<times> string) option \<Rightarrow> string list" where
  "build_main dir run =
     [''cargo:rustc-env=INTERFIRE_GIT_DESCRIBE='' @ git_describe run,
      ''cargo:rerun-if-changed='' @ dir @ ''/.git/HEAD'', ''cargo:rerun-if-changed='' @ dir @ ''/.git/refs/heads'']"

definition daemon_build_main :: "(bool \<times> string) option \<Rightarrow> string list" where
  "daemon_build_main run = build_main ''../..'' run"

definition ui_build_main :: "(bool \<times> string) option \<Rightarrow> string list" where
  "ui_build_main run = build_main ''..'' run"

definition ebpf_build_main :: "string list" where
  "ebpf_build_main = [''cargo:rerun-if-changed=bpf/interfire-ebpf-programs'']"

text \<open>A build always has a version, and the daemon and the window name the same commit alike.\<close>

lemma git_describe_named: "git_describe run \<noteq> []"
  by (auto simp: git_describe_def Let_def split: option.split)

lemma builds_agree: "hd (daemon_build_main run) = hd (ui_build_main run)"
  by (simp add: daemon_build_main_def ui_build_main_def build_main_def)

section \<open>A connection without credentials\<close>

text \<open>\<open>/dev/null\<close> as a stream: the peer's credentials cannot be read.\<close>

definition stream_without_peer_creds :: "string \<Rightarrow> conn" where
  "stream_without_peer_creds frame = \<lparr>cn_peer = None, cn_line = Inr frame, cn_write = None\<rparr>"

fun mutating :: "request \<Rightarrow> bool" where
  "mutating (RuleAdd i x v p) = True"
| "mutating (RuleDelete i) = True"
| "mutating (PromptAnswer i v s) = True"
| "mutating (DnsNote h ip ttl) = True"
| "mutating NetworkInstall = True"
| "mutating NetworkRemove = True"
| "mutating Pause = True"
| "mutating Resume = True"
| "mutating (TrafficBlock scope direction) = True"
| "mutating (TrafficUnblock scope) = True"
| "mutating r = False"

lemma mutation_fails_closed:
  assumes "mutating r"
  shows "dispatch H (stream_without_peer_creds frame) t r w = err ''unauthorized'' w"
proof -
  have "\<not> peer_may_mutate H (stream_without_peer_creds frame)"
    by (simp add: peer_may_mutate_def stream_without_peer_creds_def)
  with assms show ?thesis
    by (cases r) (simp_all add: refused_mutations enforcement_mutate_def network_mutate_def)
qed

section \<open>Tables with keys the order queue does not know\<close>

definition PendingTable_insert_orphan :: "instant \<Rightarrow> dest_key \<Rightarrow> packet_verdict \<Rightarrow> pending_table \<Rightarrow> pending_table" where
  "PendingTable_insert_orphan now key verdict t =
     t\<lparr>pt_entries := AList.update key \<lparr>pe_verdict = verdict, pe_inserted_at = now\<rparr> (pt_entries t)\<rparr>"

definition RecentConnects_insert_orphan_key :: "u32 \<Rightarrow> u64 \<Rightarrow> recent_connects \<Rightarrow> recent_connects" where
  "RecentConnects_insert_orphan_key pid start_ticks rc =
     rc\<lparr>rc_entries := AList.update (pid, start_ticks) [] (rc_entries rc)\<rparr>"

definition DnsCache_insert_orphan :: "instant \<Rightarrow> u32 \<Rightarrow> string \<Rightarrow> dns_cache \<Rightarrow> dns_cache option" where
  "DnsCache_insert_orphan now ipv4 hostname c =
     map_option (\<lambda>expires_at. c\<lparr>dc_by_ip := AList.update ipv4
         \<lparr>de_hostname = to_ascii_lowercase hostname, de_expires_at = expires_at\<rparr> (dc_by_ip c)\<rparr>)
       (instant_add now (dc_default_ttl c))"

text \<open>An index that does not fit the key type becomes key 0; with 512 keys none does.\<close>

definition fill_orphan_keys :: "stats_store \<Rightarrow> stats_store" where
  "fill_orphan_keys s =
     fold (\<lambda>i s. s\<lparr>st_hosts := AList.update (''orphan-host-'' @ show_nat i) StatsCounters_default (st_hosts s),
           st_ports := AList.update (if i < 2 ^ 16 then word_of_nat i else 0) StatsCounters_default (st_ports s),
           st_users := AList.update (if i < 2 ^ 32 then word_of_nat i else 0) StatsCounters_default (st_users s)\<rparr>)
       [0..<MAX_STATS_KEYS] s"

text \<open>The programs' own operations never make such a table; even so the eviction loop ends and
  makes room, by emptying the map when the queue has nothing left.\<close>

lemma evict_makes_room: "0 < cap \<Longrightarrow> length (snd (evict cap ord m)) < cap"
  by (induction cap ord m rule: evict.induct) simp_all

lemma orphan_breaks_wf:
  "key \<notin> set (pt_order t) \<Longrightarrow> \<not> pending_wf (PendingTable_insert_orphan now key v t)"
  by (auto simp: pending_wf_def PendingTable_insert_orphan_def keys_update)

lemma orphaned_insert_bounded:
  assumes "0 < pt_capacity t" "map_of (pt_entries (PendingTable_expire now1 t)) key = None"
  shows "length (pt_entries (PendingTable_insert now1 now2 key v t)) \<le> pt_capacity t"
proof -
  obtain ord m where e: "evict (pt_capacity t) (pt_order (PendingTable_expire now1 t))
      (pt_entries (PendingTable_expire now1 t)) = (ord, m)" by fastforce
  then have "length m < pt_capacity t" using evict_makes_room [OF assms(1)] by (metis snd_conv)
  moreover have "length (AList.update key x m) \<le> Suc (length m)" for x by (induction m) auto
  ultimately show ?thesis using assms(2) e by (simp add: PendingTable_insert_def Let_def) (meson Suc_leI le_trans)
qed

section \<open>The window's log in tests\<close>

definition DEFAULT_VIEWPORT_ROWS :: usize where "DEFAULT_VIEWPORT_ROWS = 24"

record visible_log =
  vl_relative_selected :: usize
  vl_items :: "string list"
  vl_start :: usize
  vl_total :: usize

definition visible_window :: "usize \<Rightarrow> log_buffer \<Rightarrow> visible_log" where
  "visible_window viewport_rows b =
     (let total = length (lb_lines b)
      in if total = 0 then \<lparr>vl_relative_selected = 0, vl_items = [], vl_start = 0, vl_total = 0\<rparr>
         else
           let height = max viewport_rows 1;
               selected = min (lb_selected b) (total - 1);
               start = (if total \<le> height then 0 else min (selected - height div 2) (total - height));
               end = min (start + height) total
           in \<lparr>vl_relative_selected = selected - start, vl_items = take (end - start) (drop start (lb_lines b)),
               vl_start = start, vl_total = total\<rparr>)"

definition selected_line :: "log_buffer \<Rightarrow> string option" where
  "selected_line b = (if lb_selected b < length (lb_lines b) then Some (lb_lines b ! lb_selected b) else None)"

text \<open>The window shows as much as fits and has the selected line in it.\<close>

lemma visible_window_shows_selection:
  assumes "log_wf b" "lb_lines b \<noteq> []" "v = visible_window n b"
  shows "length (vl_items v) = min (max n 1) (length (lb_lines b))"
    and "vl_relative_selected v < length (vl_items v)"
    and "Some (vl_items v ! vl_relative_selected v) = selected_line b"
proof -
  let ?total = "length (lb_lines b)"
  define h where "h = max n 1"
  have h: "h div 2 < h" "0 < h" by (auto simp: h_def)
  have sel: "lb_selected b < ?total" using assms(1,2) by (auto simp: log_wf_def)
  define start where "start = (if ?total \<le> h then 0 else min (lb_selected b - h div 2) (?total - h))"
  have v: "v = \<lparr>vl_relative_selected = lb_selected b - start,
      vl_items = take (min (start + h) ?total - start) (drop start (lb_lines b)), vl_start = start, vl_total = ?total\<rparr>"
    using sel assms(2) by (simp add: assms(3) visible_window_def start_def h_def Let_def min_absorb1)
  have start: "start \<le> lb_selected b" "lb_selected b < start + h" "start \<le> ?total - h"
  proof -
    from sel h show "start \<le> lb_selected b" "lb_selected b < start + h" "start \<le> ?total - h"
      unfolding start_def min_def by (auto split: if_splits)
  qed
  with sel have len: "length (vl_items v) = min h ?total" by (auto simp: v min_def)
  then show "length (vl_items v) = min (max n 1) (length (lb_lines b))" by (simp add: h_def)
  show "vl_relative_selected v < length (vl_items v)" using start sel unfolding len by (auto simp: v min_def)
  then show "Some (vl_items v ! vl_relative_selected v) = selected_line b"
    using start sel by (simp add: v selected_line_def)
qed

section \<open>The thread behind the window's log\<close>

text \<open>The flag it watches, what it has sent and the window has not yet drained, and whether there is
  a thread to join: \<open>spawn\<close> may fail.\<close>

record audit_host =
  ah_stop :: bool
  ah_rx :: "audit_event list"
  ah_join :: bool

definition AuditHost_spawn :: "bool \<Rightarrow> audit_host" where
  "AuditHost_spawn started = \<lparr>ah_stop = False, ah_rx = [], ah_join = started\<rparr>"

definition AuditHost_drain :: "audit_host \<Rightarrow> audit_event list \<times> audit_host" where
  "AuditHost_drain h = (ah_rx h, h\<lparr>ah_rx := []\<rparr>)"

definition AuditHost_shutdown :: "audit_host \<Rightarrow> audit_host" where
  "AuditHost_shutdown h = h\<lparr>ah_stop := True, ah_join := False\<rparr>"

definition AuditHost_drop :: "audit_host \<Rightarrow> audit_host" where
  "AuditHost_drop h = AuditHost_shutdown h"

text \<open>Shutting down by hand and then dropping the host joins the thread once.\<close>

lemma audit_host_laws:
  "AuditHost_drop (AuditHost_shutdown h) = AuditHost_shutdown h"
  "fst (AuditHost_drain (snd (AuditHost_drain h))) = []"
  "ah_stop (AuditHost_drop h) \<and> \<not> ah_join (AuditHost_drop h)"
  by (simp_all add: AuditHost_shutdown_def AuditHost_drop_def AuditHost_drain_def)

end
