(* ===== verification/UiTheme.thy ===== *)
theory UiTheme
  imports UiRun
begin

text \<open>
  The colours of the desktop client (\<open>ui/src/theme.rs\<close>): the palette of each mode and the slots of the
  widget crate's theme that are painted with it. The crate is not part of the repository: how it
  represents a colour is a parameter.
\<close>

section \<open>Modes and colours\<close>

text \<open>Colours of the widget crate: parsing, fading, and building one from four numbers.\<close>

record 'c kit =
  kit_parse_hex :: "string \<Rightarrow> 'c option"
  kit_opacity :: "'c \<Rightarrow> rat \<Rightarrow> 'c"
  kit_hsla :: "rat \<Rightarrow> rat \<Rightarrow> rat \<Rightarrow> rat \<Rightarrow> 'c"

definition ACCENT :: string where "ACCENT = ''#F84800''"
definition ACCENT_HOT :: string where "ACCENT_HOT = ''#F03105''"
definition BRAND_DEEP :: string where "BRAND_DEEP = ''#D00000''"
definition ON_ACCENT :: string where "ON_ACCENT = ''#FFFFFF''"
definition DANGER :: string where "DANGER = ''#EF5350''"
definition DANGER_STRONG :: string where "DANGER_STRONG = ''#DC3545''"
definition OK_GREEN :: string where "OK_GREEN = ''#3DDC97''"
definition WARN :: string where "WARN = ''#F5A623''"
definition DARK_CANVAS :: string where "DARK_CANVAS = ''#0E1114''"
definition DARK_SURFACE :: string where "DARK_SURFACE = ''#161B20''"
definition DARK_ELEVATED :: string where "DARK_ELEVATED = ''#1E252C''"
definition DARK_BORDER :: string where "DARK_BORDER = ''#2C3540''"
definition DARK_TEXT :: string where "DARK_TEXT = ''#E8EDF2''"
definition DARK_MUTED :: string where "DARK_MUTED = ''#8B97A5''"
definition LIGHT_CANVAS :: string where "LIGHT_CANVAS = ''#F5F6F8''"
definition LIGHT_SURFACE :: string where "LIGHT_SURFACE = ''#FFFFFF''"
definition LIGHT_ELEVATED :: string where "LIGHT_ELEVATED = ''#ECEFF3''"
definition LIGHT_BORDER :: string where "LIGHT_BORDER = ''#D0D7DE''"
definition LIGHT_TEXT :: string where "LIGHT_TEXT = ''#1F2328''"
definition LIGHT_MUTED :: string where "LIGHT_MUTED = ''#656D76''"

lemmas brand_defs = ACCENT_def ACCENT_HOT_def BRAND_DEEP_def ON_ACCENT_def DANGER_def DANGER_STRONG_def OK_GREEN_def
  WARN_def DARK_CANVAS_def DARK_SURFACE_def DARK_ELEVATED_def DARK_BORDER_def DARK_TEXT_def DARK_MUTED_def
  LIGHT_CANVAS_def LIGHT_SURFACE_def LIGHT_ELEVATED_def LIGHT_BORDER_def LIGHT_TEXT_def LIGHT_MUTED_def

datatype window_appearance = AppLight | AppVibrantLight | AppDark | AppVibrantDark

datatype chrome_mode = ModeDark | ModeLight

fun ChromeMode_from_appearance :: "window_appearance \<Rightarrow> chrome_mode" where
  "ChromeMode_from_appearance AppLight = ModeLight"
| "ChromeMode_from_appearance AppVibrantLight = ModeLight"
| "ChromeMode_from_appearance AppDark = ModeDark"
| "ChromeMode_from_appearance AppVibrantDark = ModeDark"

fun ChromeMode_label :: "chrome_mode \<Rightarrow> string" where
  "ChromeMode_label ModeDark = ''Dark''"
| "ChromeMode_label ModeLight = ''Light''"

definition ChromePreference_ALL :: "chrome_preference list" where
  "ChromePreference_ALL = [ChromeSystem, ChromeLight, ChromeDark]"

fun ChromePreference_label :: "chrome_preference \<Rightarrow> string" where
  "ChromePreference_label ChromeSystem = ''System''"
| "ChromePreference_label ChromeLight = ''Light''"
| "ChromePreference_label ChromeDark = ''Dark''"

fun ChromePreference_resolve :: "chrome_preference \<Rightarrow> window_appearance \<Rightarrow> chrome_mode" where
  "ChromePreference_resolve ChromeSystem appearance = ChromeMode_from_appearance appearance"
| "ChromePreference_resolve ChromeLight appearance = ModeLight"
| "ChromePreference_resolve ChromeDark appearance = ModeDark"

record 'c phoenix_colors =
  px_canvas :: 'c
  px_surface :: 'c
  px_elevated :: 'c
  px_border :: 'c
  px_text :: 'c
  px_muted_fg :: 'c
  px_accent :: 'c
  px_accent_hot :: 'c
  px_brand_deep :: 'c
  px_on_accent :: 'c
  px_danger :: 'c
  px_danger_strong :: 'c
  px_ok :: 'c
  px_warn :: 'c
  px_list_active :: 'c
  px_accent_soft :: 'c
  px_scrim :: 'c
  px_success_fg :: 'c

text \<open>\<open>hex\<close> panics when the kit does not read the text; \<open>None\<close> is a panic.\<close>

definition hex :: "'c kit \<Rightarrow> string \<Rightarrow> 'c option" where
  "hex K value = kit_parse_hex K value"

definition PhoenixColors_for_mode :: "'c kit \<Rightarrow> chrome_mode \<Rightarrow> 'c phoenix_colors option" where
  "PhoenixColors_for_mode K mode =
     Option.bind (hex K ACCENT) (\<lambda>accent.
     Option.bind (hex K (case mode of ModeDark \<Rightarrow> DARK_CANVAS | ModeLight \<Rightarrow> LIGHT_CANVAS)) (\<lambda>canvas.
     Option.bind (hex K (case mode of ModeDark \<Rightarrow> DARK_SURFACE | ModeLight \<Rightarrow> LIGHT_SURFACE)) (\<lambda>surface.
     Option.bind (hex K (case mode of ModeDark \<Rightarrow> DARK_ELEVATED | ModeLight \<Rightarrow> LIGHT_ELEVATED)) (\<lambda>elevated.
     Option.bind (hex K (case mode of ModeDark \<Rightarrow> DARK_BORDER | ModeLight \<Rightarrow> LIGHT_BORDER)) (\<lambda>border.
     Option.bind (hex K (case mode of ModeDark \<Rightarrow> DARK_TEXT | ModeLight \<Rightarrow> LIGHT_TEXT)) (\<lambda>text.
     Option.bind (hex K (case mode of ModeDark \<Rightarrow> DARK_MUTED | ModeLight \<Rightarrow> LIGHT_MUTED)) (\<lambda>muted_fg.
     Option.bind (hex K ACCENT_HOT) (\<lambda>accent_hot.
     Option.bind (hex K BRAND_DEEP) (\<lambda>brand_deep.
     Option.bind (hex K ON_ACCENT) (\<lambda>on_accent.
     Option.bind (hex K DANGER) (\<lambda>danger.
     Option.bind (hex K DANGER_STRONG) (\<lambda>danger_strong.
     Option.bind (hex K OK_GREEN) (\<lambda>ok.
     Option.bind (hex K WARN) (\<lambda>warn.
     Option.bind (hex K (case mode of ModeDark \<Rightarrow> DARK_CANVAS | ModeLight \<Rightarrow> LIGHT_TEXT)) (\<lambda>success_fg.
       Some \<lparr>px_canvas = canvas, px_surface = surface, px_elevated = elevated, px_border = border, px_text = text,
             px_muted_fg = muted_fg, px_accent = accent, px_accent_hot = accent_hot, px_brand_deep = brand_deep,
             px_on_accent = on_accent, px_danger = danger, px_danger_strong = danger_strong, px_ok = ok, px_warn = warn,
             px_list_active = kit_opacity K accent (case mode of ModeDark \<Rightarrow> 0.28 | ModeLight \<Rightarrow> 0.18),
             px_accent_soft = kit_opacity K accent (case mode of ModeDark \<Rightarrow> 0.22 | ModeLight \<Rightarrow> 0.14),
             px_scrim = kit_hsla K 0 0 0 (case mode of ModeDark \<Rightarrow> 0.72 | ModeLight \<Rightarrow> 0.45),
             px_success_fg = success_fg\<rparr>)))))))))))))))"

text \<open>A theme: the colour of each named slot. The assignments of each painter, in order.\<close>

type_synonym 'c theme = "string \<rightharpoonup> 'c"

definition paint_base :: "'c kit \<Rightarrow> 'c phoenix_colors \<Rightarrow> (string \<times> 'c) list" where
  "paint_base K c =
     [(''background'', px_canvas c), (''foreground'', px_text c), (''accordion'', px_canvas c),
      (''border'', px_border c), (''input'', px_border c), (''ring'', px_accent c), (''caret'', px_text c),
      (''selection'', kit_opacity K (px_accent c) 0.45), (''muted'', px_elevated c),
      (''muted_foreground'', px_muted_fg c), (''popover'', px_elevated c), (''popover_foreground'', px_text c),
      (''group_box'', px_surface c), (''group_box_foreground'', px_text c), (''skeleton'', px_elevated c),
      (''overlay'', px_scrim c), (''window_border'', px_border c)]"

definition paint_brand_actions :: "'c phoenix_colors \<Rightarrow> (string \<times> 'c) list" where
  "paint_brand_actions c =
     [(''accent'', px_accent c), (''accent_foreground'', px_on_accent c), (''primary'', px_accent c),
      (''primary_hover'', px_accent_hot c), (''primary_active'', px_brand_deep c),
      (''primary_foreground'', px_on_accent c), (''secondary'', px_elevated c), (''secondary_hover'', px_border c),
      (''secondary_active'', px_border c), (''secondary_foreground'', px_text c),
      (''button'', px_elevated c), (''button_hover'', px_border c), (''button_active'', px_border c),
      (''button_foreground'', px_text c), (''button_primary'', px_accent c), (''button_primary_hover'', px_accent_hot c),
      (''button_primary_active'', px_brand_deep c), (''button_primary_foreground'', px_on_accent c),
      (''button_secondary'', px_elevated c), (''button_secondary_hover'', px_border c),
      (''button_secondary_active'', px_border c), (''button_secondary_foreground'', px_text c),
      (''button_danger'', px_danger_strong c), (''button_danger_hover'', px_danger c),
      (''button_danger_active'', px_brand_deep c), (''button_danger_foreground'', px_on_accent c),
      (''danger'', px_danger_strong c), (''danger_hover'', px_danger c), (''danger_active'', px_brand_deep c),
      (''danger_foreground'', px_on_accent c), (''success'', px_ok c), (''success_hover'', px_ok c),
      (''success_active'', px_ok c), (''success_foreground'', px_success_fg c), (''warning'', px_warn c),
      (''warning_hover'', px_warn c), (''warning_active'', px_warn c), (''warning_foreground'', px_success_fg c),
      (''info'', px_accent c), (''info_hover'', px_accent_hot c), (''info_active'', px_brand_deep c),
      (''info_foreground'', px_on_accent c)]"

definition paint_sidebar_and_lists :: "'c kit \<Rightarrow> 'c phoenix_colors \<Rightarrow> (string \<times> 'c) list" where
  "paint_sidebar_and_lists K c =
     [(''sidebar'', px_canvas c), (''sidebar_foreground'', px_text c), (''sidebar_border'', px_border c),
      (''sidebar_accent'', px_accent c), (''sidebar_accent_foreground'', px_on_accent c),
      (''sidebar_primary'', px_accent c), (''sidebar_primary_foreground'', px_on_accent c),
      (''list'', px_canvas c), (''list_even'', kit_opacity K (px_surface c) 0.55),
      (''list_head'', kit_opacity K (px_surface c) 0.55), (''list_hover'', px_elevated c),
      (''list_active'', px_list_active c), (''list_active_border'', px_accent c),
      (''table'', px_canvas c), (''table_even'', kit_opacity K (px_surface c) 0.55), (''table_head'', px_surface c),
      (''table_head_foreground'', px_muted_fg c), (''table_hover'', px_elevated c), (''table_active'', px_list_active c),
      (''table_active_border'', px_accent c), (''table_row_border'', kit_opacity K (px_border c) 0.7)]"

definition paint_chrome :: "'c kit \<Rightarrow> 'c phoenix_colors \<Rightarrow> (string \<times> 'c) list" where
  "paint_chrome K c =
     [(''tab'', kit_hsla K 0 0 0 0), (''tab_foreground'', px_muted_fg c), (''tab_active'', px_surface c),
      (''tab_active_foreground'', px_text c), (''tab_bar'', px_surface c), (''tab_bar_segmented'', px_surface c),
      (''title_bar'', px_surface c), (''title_bar_border'', px_border c), (''status_bar'', px_surface c),
      (''status_bar_border'', px_border c), (''progress_bar'', px_accent c), (''slider_bar'', px_accent c),
      (''slider_thumb'', px_on_accent c), (''switch'', px_border c), (''switch_thumb'', px_on_accent c),
      (''scrollbar'', kit_hsla K 0 0 0 0), (''scrollbar_thumb'', kit_opacity K (px_muted_fg c) 0.55),
      (''scrollbar_thumb_hover'', px_muted_fg c), (''link'', px_text c), (''link_hover'', px_accent c),
      (''link_active'', px_accent_hot c), (''drag_border'', px_accent c), (''drop_target'', px_accent_soft c),
      (''description_list_label'', px_elevated c), (''description_list_label_foreground'', px_text c)]"

definition paint_phoenix :: "'c kit \<Rightarrow> chrome_mode \<Rightarrow> 'c theme \<Rightarrow> 'c theme option" where
  "paint_phoenix K mode theme =
     map_option (\<lambda>colors. fold (\<lambda>(slot, c) theme. theme(slot \<mapsto> c))
         (paint_base K colors @ paint_brand_actions colors @ paint_sidebar_and_lists K colors @ paint_chrome K colors) theme)
       (PhoenixColors_for_mode K mode)"

text \<open>\<open>kit_theme\<close> is what \<open>Theme::change\<close> makes of the theme for a light or dark kit mode.\<close>

definition apply_phoenix_theme ::
    "'c kit \<Rightarrow> (chrome_mode \<Rightarrow> 'c theme \<Rightarrow> 'c theme) \<Rightarrow> chrome_mode \<Rightarrow> 'c theme \<Rightarrow> 'c theme option" where
  "apply_phoenix_theme K kit_theme mode theme = paint_phoenix K mode (kit_theme mode theme)"

section \<open>Switching\<close>

text \<open>The slots the painters assign, the same in both modes.\<close>

definition painted_slots :: "string list" where
  "painted_slots = (let K = \<lparr>kit_parse_hex = \<lambda>_. Some (), kit_opacity = \<lambda>_ _. (), kit_hsla = \<lambda>_ _ _ _. ()\<rparr>;
       c = the (PhoenixColors_for_mode K ModeDark)
     in map fst (paint_base K c @ paint_brand_actions c @ paint_sidebar_and_lists K c @ paint_chrome K c))"

lemmas painters = paint_base_def paint_brand_actions_def paint_sidebar_and_lists_def paint_chrome_def

lemma painted_slots_eq:
  "map fst (paint_base K c @ paint_brand_actions c @ paint_sidebar_and_lists K c @ paint_chrome K c) = painted_slots"
  by (simp add: painted_slots_def painters Let_def)

lemma fold_assign: "fold (\<lambda>(k, v) m. m(k \<mapsto> v)) xs m = m ++ map_of (rev xs)"
  by (induction xs arbitrary: m) auto

lemma assigned_slot:
  assumes "slot \<in> set (map fst xs)"
  shows "\<exists>c. \<forall>theme. fold (\<lambda>(k, v) m. m(k \<mapsto> v)) xs theme slot = Some c"
proof -
  obtain c where "map_of (rev xs) slot = Some c"
    using assms by (metis map_of_eq_None_iff not_None_eq rev_map set_rev set_map)
  then show ?thesis by (auto simp: fold_assign)
qed

text \<open>What the kit documents of \<open>parse_hex\<close>: it reads a hash sign and six hexadecimal digits.\<close>

definition is_hex_colour :: "string \<Rightarrow> bool" where
  "is_hex_colour s \<longleftrightarrow> length s = 7 \<and> hd s = CHR ''#'' \<and> list_all (\<lambda>c. c \<in> set ''0123456789ABCDEF'') (tl s)"

definition reads_hex :: "'c kit \<Rightarrow> bool" where
  "reads_hex K \<longleftrightarrow> (\<forall>s. is_hex_colour s \<longrightarrow> kit_parse_hex K s \<noteq> None)"

lemma brand_hex:
  "is_hex_colour ACCENT" "is_hex_colour ACCENT_HOT" "is_hex_colour BRAND_DEEP" "is_hex_colour ON_ACCENT"
  "is_hex_colour DANGER" "is_hex_colour DANGER_STRONG" "is_hex_colour OK_GREEN" "is_hex_colour WARN"
  "is_hex_colour DARK_CANVAS" "is_hex_colour DARK_SURFACE" "is_hex_colour DARK_ELEVATED" "is_hex_colour DARK_BORDER"
  "is_hex_colour DARK_TEXT" "is_hex_colour DARK_MUTED" "is_hex_colour LIGHT_CANVAS" "is_hex_colour LIGHT_SURFACE"
  "is_hex_colour LIGHT_ELEVATED" "is_hex_colour LIGHT_BORDER" "is_hex_colour LIGHT_TEXT" "is_hex_colour LIGHT_MUTED"
  by (simp_all add: is_hex_colour_def brand_defs)

lemma for_mode_total:
  assumes "reads_hex K"
  shows "\<exists>c. PhoenixColors_for_mode K mode = Some c"
proof -
  have "hex K s = Some (the (kit_parse_hex K s))" if "is_hex_colour s" for s
    using assms that by (auto simp: reads_hex_def hex_def)
  then show ?thesis by (cases mode) (simp_all add: PhoenixColors_for_mode_def brand_hex)
qed

text \<open>
  Applying a mode never panics, and the colour of a painted slot is a function of the mode alone:
  nothing of the mode before, or of what the kit had there, is left.
\<close>

lemma applied_slot:
  assumes "reads_hex K" "slot \<in> set painted_slots"
  shows "\<exists>c. \<forall>kit_theme theme. \<exists>theme'. apply_phoenix_theme K kit_theme mode theme = Some theme' \<and> theme' slot = Some c"
proof -
  obtain colors where colors: "PhoenixColors_for_mode K mode = Some colors" using for_mode_total [OF assms(1)] by blast
  let ?xs = "paint_base K colors @ paint_brand_actions colors @ paint_sidebar_and_lists K colors @ paint_chrome K colors"
  have "slot \<in> set (map fst ?xs)" using assms(2) by (simp only: painted_slots_eq)
  from assigned_slot [OF this] obtain c where c: "\<forall>theme. fold (\<lambda>(k, v) m. m(k \<mapsto> v)) ?xs theme slot = Some c" ..
  then show ?thesis
    unfolding apply_phoenix_theme_def paint_phoenix_def colors by (intro exI [of _ c] allI) (simp del: fold_append)
qed

end
