(* ===== verification/UiElem.thy ===== *)
theory UiElem
  imports UiTheme
begin

text \<open>
  Elements of the desktop window and the shared controls (\<open>ui/src/chrome.rs\<close>). The widget crate is
  not part of the repository; the model keeps what the sources write down. An element is the tree
  of calls that builds it: its identity, its style calls in order, the handler of a click and its
  children. A handler is the input of \<open>UiRun\<close> it leads to, so that the inputs of a run are what a
  click on some element can cause.
\<close>

section \<open>Elements\<close>

text \<open>A colour of the theme, or one faded to an opacity.\<close>

datatype paint = Slot string | Fade string rat

fun paint_slot :: "paint \<Rightarrow> string" where
  "paint_slot (Slot s) = s"
| "paint_slot (Fade s _) = s"

text \<open>
  Style calls: those without argument by their name, lengths in pixels, colours, and the style while
  the pointer is over the element.
\<close>

datatype style =
    Sty string
  | Px string nat
  | Bg paint
  | TextColor paint
  | BorderColor paint
  | Opacity rat
  | FontFamily string
  | Hover "style list"

text \<open>
  Only an element with an identity can have a handler: the crate's types see to that. An input field
  shows the text it holds.
\<close>

datatype elem =
    Div "style list" "elem list"
  | Stateful string "style list" "ui_input option" "elem list"
  | Img string "style list" string
  | InputField string
  | Label string

text \<open>The clicks an element offers, with the identity of the element that handles each.\<close>

primrec wired :: "elem \<Rightarrow> (string \<times> ui_input) list" where
  "wired (Div ss es) = concat (map wired es)"
| "wired (Stateful i ss h es) = (case h of None \<Rightarrow> [] | Some x \<Rightarrow> [(i, x)]) @ concat (map wired es)"
| "wired (Img i ss src) = []"
| "wired (InputField t) = []"
| "wired (Label t) = []"

text \<open>What can be read, in order.\<close>

primrec texts :: "elem \<Rightarrow> string list" where
  "texts (Div ss es) = concat (map texts es)"
| "texts (Stateful i ss h es) = concat (map texts es)"
| "texts (Img i ss src) = []"
| "texts (InputField t) = [t]"
| "texts (Label t) = [t]"

primrec style_paints :: "style \<Rightarrow> paint list" where
  "style_paints (Sty s) = []"
| "style_paints (Px s n) = []"
| "style_paints (Bg p) = [p]"
| "style_paints (TextColor p) = [p]"
| "style_paints (BorderColor p) = [p]"
| "style_paints (Opacity r) = []"
| "style_paints (FontFamily s) = []"
| "style_paints (Hover ss) = concat (map style_paints ss)"

primrec paints :: "elem \<Rightarrow> paint list" where
  "paints (Div ss es) = concat (map style_paints ss) @ concat (map paints es)"
| "paints (Stateful i ss h es) = concat (map style_paints ss) @ concat (map paints es)"
| "paints (Img i ss src) = concat (map style_paints ss)"
| "paints (InputField t) = []"
| "paints (Label t) = []"

abbreviation when_list :: "bool \<Rightarrow> 'a list \<Rightarrow> 'a list" where
  "when_list b xs \<equiv> (if b then xs else [])"

definition when_some :: "'a option \<Rightarrow> ('a \<Rightarrow> 'b list) \<Rightarrow> 'b list" where
  "when_some x f = (case x of None \<Rightarrow> [] | Some v \<Rightarrow> f v)"

definition styles :: "string list \<Rightarrow> style list" where
  "styles = map Sty"

definition muted_text :: "string \<Rightarrow> elem" where
  "muted_text t = Div [TextColor (Slot ''muted_foreground'')] [Label t]"

section \<open>Controls\<close>

definition PLAY :: string where "PLAY = [CHR 0xE2, CHR 0x96, CHR 0xB6]"
definition PAUSE :: string where "PAUSE = [CHR 0xE2, CHR 0x9D, CHR 0x9A, CHR 0xE2, CHR 0x9D, CHR 0x9A]"
definition DOWN_MARK :: string where "DOWN_MARK = [CHR 0xE2, CHR 0x96, CHR 0xBE]"

definition on_fill :: paint where "on_fill = Slot ''accent''"
definition off_fg :: paint where "off_fg = Slot ''muted_foreground''"

definition styled_btn :: "string \<Rightarrow> string \<Rightarrow> bool \<Rightarrow> bool \<Rightarrow> bool \<Rightarrow> ui_input \<Rightarrow> elem" where
  "styled_btn i label enabled primary ghost on_click =
     Stateful i
       (styles [''px_3'', ''py_1'', ''rounded_md'', ''text_sm'', ''font_semibold''] @
        when_list enabled [Sty ''cursor_pointer''] @
        when_list (\<not> enabled) [Opacity 0.45, Sty ''cursor_not_allowed''] @
        when_list (primary \<and> enabled)
          [Bg (Slot ''accent''), TextColor (Slot ''accent_foreground''), Sty ''border_1'', BorderColor (Slot ''accent'')] @
        when_list (\<not> primary \<and> \<not> ghost)
          [Sty ''border_1'', BorderColor (Slot ''border''), TextColor (Slot ''foreground''), Hover [Bg (Fade ''accent'' 0.12)]] @
        when_list ghost
          [TextColor (Slot ''muted_foreground''), Hover [Bg (Fade ''accent'' 0.1), TextColor (Slot ''foreground'')]])
       (if enabled then Some on_click else None)
       [Label label]"

definition primary_btn :: "string \<Rightarrow> string \<Rightarrow> bool \<Rightarrow> ui_input \<Rightarrow> elem" where
  "primary_btn i label enabled on_click = styled_btn i label enabled True False on_click"

definition secondary_btn :: "string \<Rightarrow> string \<Rightarrow> bool \<Rightarrow> ui_input \<Rightarrow> elem" where
  "secondary_btn i label enabled on_click = styled_btn i label enabled False False on_click"

definition ghost_btn :: "string \<Rightarrow> string \<Rightarrow> bool \<Rightarrow> ui_input \<Rightarrow> elem" where
  "ghost_btn i label enabled on_click = styled_btn i label enabled False True on_click"

definition play_pause_control :: "string \<Rightarrow> string \<Rightarrow> bool \<Rightarrow> bool \<Rightarrow> bool \<Rightarrow> ui_input \<Rightarrow> elem" where
  "play_pause_control i label play enabled active_on on_click =
     (let glyph = (if play then PLAY else PAUSE);
          label_color = (if active_on then on_fill else off_fg);
          btn_bg = (if play \<and> enabled then on_fill else if enabled then Fade ''secondary'' 0.85 else Fade ''muted'' 0.5);
          glyph_fg = (if play \<and> enabled then Slot ''accent_foreground'' else Slot ''foreground'')
      in Stateful i (styles [''flex'', ''items_center'', ''gap_2'']) None
           [Div [Sty ''text_xs'', Sty ''font_semibold'', TextColor label_color] [Label label],
            Stateful (i @ ''-glyph'')
              ([Px ''w'' 28, Px ''h'' 28] @ styles [''rounded_md'', ''flex'', ''items_center'', ''justify_center''] @
               [Bg btn_bg, TextColor glyph_fg, Sty ''text_xs'', Sty ''font_semibold''] @
               when_list enabled [Sty ''cursor_pointer''] @
               when_list (\<not> enabled) [Opacity 0.4, Sty ''cursor_not_allowed''])
              (if enabled then Some on_click else None)
              [Label glyph]])"

datatype pill_kind = PillOn | PillOff | PillWarn | PillDanger | PillInfo

definition upper_char :: "char \<Rightarrow> char" where
  "upper_char c = (if of_char c \<in> {97..122::nat} then char_of (of_char c - 32 :: nat) else c)"

text \<open>\<open>to_uppercase\<close>, on the labels that occur, which are ASCII.\<close>

definition to_uppercase :: "string \<Rightarrow> string" where
  "to_uppercase = map upper_char"

definition state_pill :: "string \<Rightarrow> pill_kind \<Rightarrow> elem" where
  "state_pill label kind =
     (let (fill, fg) =
        (case kind of
           PillOn \<Rightarrow> (Fade ''accent'' 0.22, Slot ''accent'')
         | PillOff \<Rightarrow> (Fade ''muted'' 0.35, off_fg)
         | PillWarn \<Rightarrow> (Fade ''warning'' 0.2, Slot ''warning'')
         | PillDanger \<Rightarrow> (Fade ''danger'' 0.2, Slot ''danger'')
         | PillInfo \<Rightarrow> (Fade ''accent'' 0.18, Slot ''foreground''))
      in Stateful ''state-pill''
           (styles [''px_2'', ''py_1'', ''rounded_md''] @ [Bg fill, Sty ''text_xs'', Sty ''font_semibold'', TextColor fg])
           None [Label (to_uppercase label)])"

definition select_trigger :: "string \<Rightarrow> string \<Rightarrow> bool \<Rightarrow> ui_input \<Rightarrow> elem" where
  "select_trigger i label opened on_click =
     Stateful i
       (styles [''px_2'', ''py_1'', ''rounded_md'', ''border_1''] @
        [BorderColor (if opened then Slot ''accent'' else Slot ''border''),
         Bg (if opened then Fade ''accent'' 0.12 else Slot ''popover''), Sty ''text_xs'', Sty ''cursor_pointer''])
       (Some on_click) [Label (label @ '' '' @ DOWN_MARK)]"

definition select_option :: "string \<Rightarrow> string \<Rightarrow> bool \<Rightarrow> ui_input \<Rightarrow> elem" where
  "select_option i label selected on_click =
     Stateful i
       (styles [''px_2'', ''py_1'', ''rounded_sm'', ''text_xs'', ''cursor_pointer''] @
        when_list selected [Bg (Fade ''accent'' 0.2), Sty ''font_semibold'', TextColor (Slot ''accent'')] @
        when_list (\<not> selected) [Hover [Bg (Fade ''accent'' 0.1)]])
       (Some on_click) [Label label]"

definition select_menu :: "string \<Rightarrow> nat \<Rightarrow> elem list \<Rightarrow> elem" where
  "select_menu i width options =
     Stateful i
       (styles [''absolute'', ''bottom_full'', ''mb_1''] @ [Px ''w'' width] @ styles [''p_1'', ''rounded_md'', ''border_1''] @
        [BorderColor (Slot ''border''), Bg (Slot ''popover'')] @ styles [''shadow_md'', ''v_flex'', ''gap_1''])
       None options"

definition VerdictFilter_ALL :: "verdict_filter list" where
  "VerdictFilter_ALL = [VfAll, VfAllow, VfDeny, VfPrompt]"

fun verdict_option_id :: "verdict_filter \<Rightarrow> string" where
  "verdict_option_id VfAll = ''verdict-opt-all''"
| "verdict_option_id VfAllow = ''verdict-opt-allow''"
| "verdict_option_id VfDeny = ''verdict-opt-deny''"
| "verdict_option_id VfPrompt = ''verdict-opt-prompt''"

definition verdict_select :: "verdict_filter \<Rightarrow> bool \<Rightarrow> elem" where
  "verdict_select current opened =
     Stateful ''verdict-select'' (styles [''relative'', ''v_flex'']) None
       (select_trigger ''verdict-trigger'' (''Verdict: '' @ VerdictFilter_label current) opened UiToggleVerdict #
        when_list opened
          [select_menu ''verdict-menu'' 140
             (map (\<lambda>verdict. select_option (verdict_option_id verdict) (VerdictFilter_label verdict) (current = verdict)
                (UiFilterVerdict verdict)) VerdictFilter_ALL)])"

definition limit_select :: "result_limit \<Rightarrow> bool \<Rightarrow> elem" where
  "limit_select current opened =
     Stateful ''limit-select'' (styles [''relative'', ''v_flex'']) None
       (select_trigger ''limit-trigger'' (''Limit: '' @ ResultLimit_label current) opened UiToggleLimit #
        when_list opened
          [select_menu ''limit-menu'' 160
             [select_option ''limit-opt-50'' ''50'' (current = LimitPreset 50) (UiFilterLimit Limit50),
              select_option ''limit-opt-100'' ''100'' (current = LimitPreset 100) (UiFilterLimit Limit100),
              select_option ''limit-opt-200'' ''200'' (current = LimitPreset 200) (UiFilterLimit Limit200),
              select_option ''limit-opt-300'' ''300'' (current = LimitPreset 300) (UiFilterLimit Limit300),
              select_option ''limit-opt-all'' ''All'' (current = LimitAll) (UiFilterLimit LimitEntryAll),
              select_option ''limit-opt-custom'' (''Custom'' @ ELLIPSIS)
                (case current of LimitCustom _ \<Rightarrow> True | _ \<Rightarrow> False) UiFilterCustom]])"

definition menu_entry :: "string \<Rightarrow> string \<Rightarrow> ui_input \<Rightarrow> elem" where
  "menu_entry i label on_click =
     Stateful i
       (styles [''w_full'', ''px_3'', ''py_2'', ''rounded_sm'', ''text_sm'', ''cursor_pointer''] @
        [Hover [Bg (Fade ''accent'' 0.12)]])
       (Some on_click) [Label label]"

section \<open>Facts about controls\<close>

lemma wired_simps [simp]:
  "wired (styled_btn i label enabled primary ghost x) = when_list enabled [(i, x)]"
  "wired (primary_btn i label enabled x) = when_list enabled [(i, x)]"
  "wired (secondary_btn i label enabled x) = when_list enabled [(i, x)]"
  "wired (ghost_btn i label enabled x) = when_list enabled [(i, x)]"
  "wired (play_pause_control i label play enabled active x) = when_list enabled [(i @ ''-glyph'', x)]"
  "wired (state_pill label kind) = []"
  "wired (select_trigger i label opened x) = [(i, x)]"
  "wired (select_option i label selected x) = [(i, x)]"
  "wired (select_menu i n es) = concat (map wired es)"
  "wired (menu_entry i label x) = [(i, x)]"
  "wired (muted_text t) = []"
  by (simp_all add: styled_btn_def primary_btn_def secondary_btn_def ghost_btn_def play_pause_control_def state_pill_def
      select_trigger_def select_option_def select_menu_def menu_entry_def muted_text_def Let_def case_prod_unfold)

lemma when_some_simps [simp]: "when_some None f = []" "when_some (Some v) f = f v"
  by (simp_all add: when_some_def)

lemma when_some_wired [simp]:
  "concat (map wired (when_some x f)) = when_some x (\<lambda>v. concat (map wired (f v)))" "when_some x (\<lambda>_. []) = []"
  by (cases x; simp)+

lemma when_some_member: "y \<in> set (when_some x f) \<longleftrightarrow> (\<exists>v. x = Some v \<and> y \<in> set (f v))"
  by (cases x) auto

text \<open>Every colour of an element is one that the painters of the theme assign.\<close>

definition painted :: "elem \<Rightarrow> bool" where
  "painted e \<longleftrightarrow> (\<forall>p \<in> set (paints e). paint_slot p \<in> set painted_slots)"

definition painted_style :: "style \<Rightarrow> bool" where
  "painted_style s \<longleftrightarrow> (\<forall>p \<in> set (style_paints s). paint_slot p \<in> set painted_slots)"

lemma slots_used [simp]:
  "''accent'' \<in> set painted_slots" "''accent_foreground'' \<in> set painted_slots" "''border'' \<in> set painted_slots"
  "''muted'' \<in> set painted_slots" "''muted_foreground'' \<in> set painted_slots" "''foreground'' \<in> set painted_slots"
  "''background'' \<in> set painted_slots" "''popover'' \<in> set painted_slots" "''overlay'' \<in> set painted_slots"
  "''danger'' \<in> set painted_slots" "''danger_foreground'' \<in> set painted_slots" "''warning'' \<in> set painted_slots"
  "''secondary'' \<in> set painted_slots" "''group_box'' \<in> set painted_slots"
  by (simp_all add: painted_slots_def painters Let_def)

lemma painted_simps [simp]:
  "painted (Div ss es) \<longleftrightarrow> list_all painted_style ss \<and> list_all painted es"
  "painted (Stateful i ss h es) \<longleftrightarrow> list_all painted_style ss \<and> list_all painted es"
  "painted (Img i ss src) \<longleftrightarrow> list_all painted_style ss"
  "painted (InputField t)" "painted (Label t)"
  "painted_style (Sty s)" "painted_style (Px s n)" "painted_style (Opacity r)" "painted_style (FontFamily s)"
  "painted_style (Bg p) \<longleftrightarrow> paint_slot p \<in> set painted_slots"
  "painted_style (TextColor p) \<longleftrightarrow> paint_slot p \<in> set painted_slots"
  "painted_style (BorderColor p) \<longleftrightarrow> paint_slot p \<in> set painted_slots"
  "painted_style (Hover ss) \<longleftrightarrow> list_all painted_style ss"
  by (auto simp: painted_def painted_style_def list_all_iff)

lemma styles_painted [simp]: "list_all painted_style (styles ss)"
  by (simp add: styles_def list_all_iff)

lemma when_some_painted [simp]: "list_all painted (when_some x f) \<longleftrightarrow> (\<forall>v. x = Some v \<longrightarrow> list_all painted (f v))"
  by (cases x) auto

lemma controls_painted [simp]:
  "painted (styled_btn i label enabled primary ghost x)" "painted (primary_btn i label enabled x)"
  "painted (secondary_btn i label enabled x)" "painted (ghost_btn i label enabled x)"
  "painted (play_pause_control i label play enabled active x)" "painted (state_pill label kind)"
  "painted (select_trigger i label opened x)" "painted (select_option i label selected x)"
  "painted (select_menu i n es) \<longleftrightarrow> list_all painted es" "painted (menu_entry i label x)" "painted (muted_text t)"
  "painted (verdict_select vf b)" "painted (limit_select rl b)"
proof -
  show btn: "painted (styled_btn i label enabled primary ghost x)" for enabled primary ghost
    by (simp add: styled_btn_def)
  show "painted (select_menu i n es) \<longleftrightarrow> list_all painted es" for i n es
    by (simp add: select_menu_def)
  then show "painted (verdict_select vf b)" "painted (limit_select rl b)"
    by (simp_all add: verdict_select_def limit_select_def select_trigger_def select_option_def VerdictFilter_ALL_def)
qed (simp_all add: primary_btn_def secondary_btn_def ghost_btn_def styled_btn_def play_pause_control_def state_pill_def
      select_trigger_def select_option_def menu_entry_def muted_text_def on_fill_def off_fg_def Let_def split: pill_kind.split)

end
