(* ===== verification/UiViews.thy ===== *)
theory UiViews
  imports UiElem
begin

text \<open>
  The views of the desktop client that list things and act on them: the connection alert
  (\<open>alert_view.rs\<close>), the rules (\<open>rules_view.rs\<close>), the observed processes (\<open>applications_view.rs\<close>) and the
  owned table (\<open>network_view.rs\<close>), all under \<open>ui/src\<close>.
\<close>

section \<open>Connection alert\<close>

definition AlertScope_ALL :: "alert_scope list" where
  "AlertScope_ALL = [AlOnce, AlSession, AlPermanent]"

fun AlertScope_label :: "alert_scope \<Rightarrow> string" where
  "AlertScope_label AlOnce = ''once''"
| "AlertScope_label AlSession = ''session''"
| "AlertScope_label AlPermanent = ''permanent''"

definition scope_chip :: "alert_scope \<Rightarrow> bool \<Rightarrow> bool \<Rightarrow> elem" where
  "scope_chip scope selected enabled =
     (let label = AlertScope_label scope
      in Stateful (''scope-'' @ label)
           (styles [''px_2'', ''py_1'', ''rounded_md'', ''border_1''] @ [BorderColor (Slot ''border'')] @
            when_list selected
              [Bg (Slot ''accent''), TextColor (Slot ''accent_foreground''), BorderColor (Slot ''accent'')] @
            when_list enabled [Sty ''cursor_pointer''] @
            when_list (\<not> enabled) [TextColor (Slot ''muted_foreground'')])
           (if enabled then Some (UiScope scope) else None)
           [Label label])"

definition scope_row :: "alert_scope \<Rightarrow> bool \<Rightarrow> elem" where
  "scope_row selected enabled =
     Stateful ''alert-scopes'' (styles [''flex'', ''gap_2'']) None
       (map (\<lambda>scope. scope_chip scope (scope = selected) enabled) AlertScope_ALL)"

definition verdict_chip :: "alert_verdict \<Rightarrow> bool \<Rightarrow> elem" where
  "verdict_chip verdict enabled =
     (let label = AlertVerdict_label verdict;
          is_allow = (verdict = AlAllow)
      in Stateful (''verdict-'' @ label)
           (styles [''flex_1'', ''px_3'', ''py_2'', ''rounded_md'', ''border_1'', ''font_semibold''] @
            when_list is_allow
              [BorderColor (Slot ''accent''), Bg (Slot ''accent''), TextColor (Slot ''accent_foreground'')] @
            when_list (\<not> is_allow)
              [BorderColor (Slot ''danger''), Bg (Slot ''danger''), TextColor (Slot ''danger_foreground'')] @
            when_list enabled [Sty ''cursor_pointer''] @
            when_list (\<not> enabled) [Opacity 0.45, TextColor (Slot ''muted_foreground'')])
           (if enabled then Some (UiVerdict verdict) else None)
           [Label label])"

definition alert_verdict_row :: "bool \<Rightarrow> elem" where
  "alert_verdict_row enabled =
     Stateful ''alert-verdicts'' (styles [''flex'', ''gap_2'']) None
       [verdict_chip AlAllow enabled, verdict_chip AlDeny enabled]"

definition details_toggle :: "bool \<Rightarrow> elem" where
  "details_toggle opened =
     Stateful ''alert-details-toggle''
       [Sty ''text_sm'', TextColor (Slot ''muted_foreground''), Sty ''cursor_pointer'', Hover [TextColor (Slot ''accent'')]]
       (Some UiDetails) [Label (if opened then ''Hide details'' else ''Show details'')]"

definition alert_overlay :: "connection_alert \<Rightarrow> elem" where
  "alert_overlay alert =
     (let enabled = can_submit alert;
          prompt = ca_prompt alert
      in Stateful ''connection-alert''
           (styles [''absolute'', ''inset_0'', ''flex'', ''items_center'', ''justify_center''] @ [Bg (Slot ''overlay'')]) None
           [Stateful ''connection-alert-card''
              ([Px ''w'' 540] @ styles [''max_w_full'', ''p_5'', ''rounded_xl'', ''border_1''] @
               [BorderColor (Fade ''accent'' 0.55), Bg (Slot ''popover'')] @ styles [''shadow_lg'', ''v_flex'', ''gap_3'']) None
              ([Div (styles [''flex'', ''items_center'', ''justify_between''])
                  [Div [Sty ''text_lg'', Sty ''font_semibold'', TextColor (Slot ''foreground'')] [Label ''Connection request''],
                   Div (styles [''px_2'', ''py_1'', ''rounded_md''] @
                        [Bg (Fade ''accent'' 0.2), Sty ''text_xs'', Sty ''font_semibold'', TextColor (Slot ''accent'')])
                     [Label (show_word (pw_remaining_secs prompt) @ ''s'')]],
                Div [Sty ''font_semibold'', TextColor (Slot ''foreground'')] [Label (pw_executable prompt)],
                Div [] [Label (pw_destination prompt @ '':'' @ show_word (pw_port prompt) @ '' ('' @ pw_protocol prompt @ '')'')]] @
               when_list (ca_stale alert)
                 [muted_text ''Expired or resolved elsewhere. Answer controls disabled.''] @
               [muted_text (AlertScope_rule_note (ca_scope alert)),
                scope_row (ca_scope alert) enabled, alert_verdict_row enabled, details_toggle (ca_details_open alert)] @
               when_list (ca_details_open alert)
                 [Div (styles [''v_flex'', ''gap_1'', ''p_3'', ''rounded_md'', ''border_1''] @
                       [BorderColor (Slot ''border''), Bg (Slot ''group_box''), TextColor (Slot ''muted_foreground'')])
                    [Label (''prompt id: '' @ show_word (pw_id prompt)), Label (''protocol: '' @ pw_protocol prompt),
                     Label ''PID + start ticks, cmdline, uid, and cgroup appear when the daemon exposes them.'']] @
               when_some (ca_status_message alert)
                 (\<lambda>message. [Div [TextColor (Slot ''danger'')] [Label (''error: '' @ message)]]))])"

section \<open>Rules\<close>

definition RuleVerdict_ALL :: "rule_verdict_chip list" where
  "RuleVerdict_ALL = [RvAllow, RvDeny, RvPrompt]"

fun RuleVerdict_label :: "rule_verdict_chip \<Rightarrow> string" where
  "RuleVerdict_label RvAllow = ''allow''"
| "RuleVerdict_label RvDeny = ''deny''"
| "RuleVerdict_label RvPrompt = ''prompt''"

definition field_label :: "string \<Rightarrow> elem" where
  "field_label t = Div [Sty ''text_xs'', TextColor (Slot ''muted_foreground'')] [Label t]"

definition rule_line :: "u64 option \<Rightarrow> rule_row \<Rightarrow> elem" where
  "rule_line selected_id rule =
     (let selected = (Some (rr_id rule) = selected_id)
      in Stateful (''rule-'' @ show_word (rr_id rule))
           (styles [''px_2'', ''py_1'', ''rounded_md'', ''cursor_pointer''] @
            when_list selected [Bg (Slot ''accent''), TextColor (Slot ''accent_foreground'')] @
            when_list (\<not> selected) [Hover [Bg (Fade ''accent'' 0.15)]])
           (Some (UiSelectRule (rr_id rule))) [Label (RuleRow_list_label rule)])"

definition rules_table :: "rule_row list \<Rightarrow> u64 option \<Rightarrow> elem" where
  "rules_table rules selected_id =
     Stateful ''rules-table'' (styles [''v_flex'', ''gap_1''] @ [Px ''max_h'' 360, Sty ''overflow_y_scroll'']) None
       (if rules = [] then [muted_text ''No rules loaded. Add a rule or wait for the daemon.'']
        else map (rule_line selected_id) rules)"

definition rule_detail :: "rule_row \<Rightarrow> elem" where
  "rule_detail rule =
     Div (styles [''v_flex'', ''gap_1'', ''pt_2'', ''px_3'', ''py_2'', ''rounded_md'', ''border_1''] @
          [BorderColor (Slot ''border''), Bg (Slot ''background'')])
       [Div [Sty ''font_semibold''] [Label ''Selected''],
        muted_text (''id: '' @ show_word (rr_id rule)), muted_text (''path: '' @ rr_executable rule),
        muted_text (''verdict: '' @ rr_verdict rule), muted_text (''port: '' @ show_word (rr_port rule))]"

definition rules_body :: "rule_row list \<Rightarrow> u64 option \<Rightarrow> string option \<Rightarrow> bool \<Rightarrow> list_filter \<Rightarrow> elem" where
  "rules_body rules selected_id message adding f =
     (let (shown, total) = apply_rows f rules rule_columns
      in Div (styles [''v_flex'', ''gap_2''])
           ([Div (styles [''flex'', ''gap_2''])
               [primary_btn ''add-rule'' ''Add rule'' (\<not> adding) UiBeginAdd,
                secondary_btn ''delete-rule'' ''Delete selected'' (selected_id \<noteq> None \<and> \<not> adding) UiDeleteRule],
             field_label (''id  path  verdict  port  '' @ MIDDOT @ ''  '' @ show_nat (length shown) @ '' of '' @ show_nat total),
             rules_table shown selected_id] @
            when_some (Option.bind selected_id (\<lambda>i. find (\<lambda>row. rr_id row = i) rules)) (\<lambda>rule. [rule_detail rule]) @
            when_some message (\<lambda>m. [muted_text m])))"

definition action_chip :: "string \<Rightarrow> string \<Rightarrow> bool \<Rightarrow> bool \<Rightarrow> ui_input \<Rightarrow> elem" where
  "action_chip i label enabled primary on_click =
     Stateful i
       (styles [''px_3'', ''py_1'', ''rounded_md'', ''border_1''] @
        when_list (primary \<and> enabled)
          [BorderColor (Slot ''accent''), Bg (Slot ''accent''), TextColor (Slot ''accent_foreground'')] @
        when_list (\<not> primary \<or> \<not> enabled) [BorderColor (Slot ''border'')] @
        when_list enabled [Sty ''cursor_pointer''] @
        when_list (\<not> enabled) [TextColor (Slot ''muted_foreground'')])
       (if enabled then Some on_click else None) [Label label]"

definition rule_verdict_row :: "rule_verdict_chip \<Rightarrow> elem" where
  "rule_verdict_row selected =
     Stateful ''add-rule-verdicts'' (styles [''flex'', ''gap_2'']) None
       (map (\<lambda>verdict.
          let is_selected = (verdict = selected);
              label = RuleVerdict_label verdict;
              is_allow = (verdict = RvAllow)
          in Stateful (''add-verdict-'' @ label)
               (styles [''px_2'', ''py_1'', ''rounded_md'', ''border_1'', ''cursor_pointer''] @
                when_list (is_selected \<and> is_allow)
                  [Bg (Slot ''accent''), TextColor (Slot ''accent_foreground''), BorderColor (Slot ''accent'')] @
                when_list (is_selected \<and> \<not> is_allow)
                  [Bg (Slot ''danger''), TextColor (Slot ''danger_foreground''), BorderColor (Slot ''danger'')] @
                when_list (\<not> is_selected) [BorderColor (Slot ''border'')])
               (Some (UiAddVerdict verdict)) [Label label]) RuleVerdict_ALL)"

definition add_rule_overlay :: "ui_add_form \<Rightarrow> elem" where
  "add_rule_overlay form =
     Stateful ''add-rule-overlay''
       (styles [''absolute'', ''inset_0'', ''flex'', ''items_center'', ''justify_center''] @ [Bg (Slot ''overlay'')]) None
       [Stateful ''add-rule-card''
          ([Px ''w'' 500] @ styles [''max_w_full'', ''p_5'', ''rounded_xl'', ''border_1''] @
           [BorderColor (Slot ''border''), Bg (Slot ''popover'')] @ styles [''shadow_lg'', ''v_flex'', ''gap_3'']) None
          ([Div (styles [''text_lg'', ''font_semibold'']) [Label ''Add rule''],
            field_label ''id'', InputField (uf_id form),
            field_label ''executable (absolute path)'', InputField (uf_executable form),
            field_label ''port'', InputField (uf_port form),
            field_label ''verdict'', rule_verdict_row (uf_verdict form)] @
           when_some (uf_error form) (\<lambda>error. [Div [TextColor (Slot ''danger'')] [Label error]]) @
           [Div (styles [''flex'', ''gap_2''])
              [action_chip ''submit-add-rule'' ''Save'' True True UiSubmitAdd,
               action_chip ''cancel-add-rule'' ''Cancel'' True False UiCancelAdd]])]"

section \<open>Applications\<close>

definition ProcessViewer_ALL :: "process_viewer list" where
  "ProcessViewer_ALL = [Htop, Atop, Btop, TopViewer]"

text \<open>\<open>is_on_path\<close> asks the shell with \<open>command -v\<close>; its answer is a parameter.\<close>

definition available_viewers :: "(string \<Rightarrow> bool) \<Rightarrow> process_viewer list" where
  "available_viewers on_path = filter (\<lambda>viewer. on_path (ProcessViewer_label viewer)) ProcessViewer_ALL"

definition process_line :: "(u32 \<times> u64) option \<Rightarrow> process_row \<Rightarrow> elem" where
  "process_line selected row =
     (let key = (pr_pid row, pr_start_ticks row);
          selected_row = (selected = Some key)
      in Stateful (''proc-'' @ show_word (pr_pid row) @ ''-'' @ show_word (pr_start_ticks row))
           (styles [''px_2'', ''py_1'', ''rounded_md'', ''cursor_pointer''] @
            when_list selected_row [Bg (Slot ''accent''), TextColor (Slot ''accent_foreground'')] @
            when_list (\<not> selected_row) [Hover [Bg (Fade ''accent'' 0.15)]])
           (Some (UiSelectProcess (fst key) (snd key))) [Label (ProcessRow_list_label row)])"

definition process_table :: "process_row list \<Rightarrow> (u32 \<times> u64) option \<Rightarrow> elem" where
  "process_table processes selected =
     Stateful ''applications-list'' (styles [''v_flex'', ''gap_1''] @ [Px ''max_h'' 360, Sty ''overflow_y_scroll'']) None
       (if processes = [] then [muted_text ''No observed processes yet. Outbound connects fill this list.'']
        else map (process_line selected) processes)"

definition viewer_label :: "process_viewer \<Rightarrow> u32 \<Rightarrow> string" where
  "viewer_label viewer pid =
     (if viewer \<in> {Htop, TopViewer}
      then ''Open in '' @ ProcessViewer_label viewer @ '' (pid '' @ show_word pid @ '')''
      else ''Open in '' @ ProcessViewer_label viewer)"

definition process_detail :: "(string \<Rightarrow> bool) \<Rightarrow> process_row \<Rightarrow> string option \<Rightarrow> elem" where
  "process_detail on_path row viewer_message =
     (let pid = pr_pid row;
          viewers = available_viewers on_path
      in Div (styles [''v_flex'', ''gap_1'', ''pt_2'', ''border_t_1''])
           ([Div [Sty ''font_semibold''] [Label ''Selected''],
             muted_text (''path: '' @ pr_executable row), muted_text (''cmdline: '' @ pr_cmdline row),
             muted_text (''pid: '' @ show_word pid @ ''  start_ticks: '' @ show_word (pr_start_ticks row) @
               ''  uid: '' @ show_word (pr_uid row)),
             muted_text (''effective rule: '' @ pr_verdict row),
             Div (styles [''font_semibold'', ''mt_2'']) [Label ''Recent destinations''],
             muted_text (if pr_ports row = [] then ''none yet'' else replace_char CHR ''+'' '', '' (pr_ports row)),
             Div (styles [''font_semibold'', ''mt_2'']) [Label ''Open in process viewer'']] @
            (if viewers = [] then [muted_text ''No htop/atop/btop/top found on PATH.'']
             else [Stateful ''open-viewers'' (styles [''flex'', ''gap_2'', ''flex_wrap'']) None
               (map (\<lambda>viewer. Stateful (''open-'' @ ProcessViewer_label viewer)
                  (styles [''px_2'', ''py_1'', ''rounded_md'', ''cursor_pointer''] @ [Bg (Fade ''accent'' 0.2)])
                  (Some (UiViewer viewer pid)) [Label (viewer_label viewer pid)]) viewers)]) @
            when_some viewer_message (\<lambda>message. [muted_text message])))"

definition applications_body ::
    "(string \<Rightarrow> bool) \<Rightarrow> process_row list \<Rightarrow> (u32 \<times> u64) option \<Rightarrow> string option \<Rightarrow> elem" where
  "applications_body on_path processes selected viewer_message =
     Div (styles [''v_flex'', ''gap_2''])
       [Div [Sty ''font_semibold''] [Label ''Observed processes''],
        Div [TextColor (Slot ''muted_foreground''), Sty ''text_xs'']
          [Label ''Firewall-attributed identities only (not a full system process list).''],
        process_table processes selected,
        (case Option.bind selected (\<lambda>key. find (\<lambda>row. pr_pid row = fst key \<and> pr_start_ticks row = snd key) processes) of
           Some row \<Rightarrow> process_detail on_path row viewer_message
         | None \<Rightarrow> muted_text
             ''Select a process to see path, cmdline, uid, start ticks, and recent destinations.'')]"

section \<open>Network\<close>

definition status_panel :: "daemon_link \<Rightarrow> network_status_body option \<Rightarrow> elem" where
  "status_panel link network =
     Div (styles [''v_flex'', ''gap_1'', ''px_3'', ''py_2'', ''rounded_md'', ''border_1''] @
          [BorderColor (Slot ''border''), Bg (Slot ''popover'')])
       (case link of
          UiDown reason \<Rightarrow>
            [Div [Sty ''font_semibold'', TextColor (Slot ''danger'')] [Label ''Daemon unavailable''], muted_text reason]
        | UiUp status _ \<Rightarrow>
            [Div [Sty ''font_semibold''] [Label ''Daemon''],
             muted_text (''enforcement='' @ ds_enforcement status @ ''  observation='' @ ds_observation status)] @
            (case network of
               None \<Rightarrow> [muted_text ''Network status unavailable (malformed or daemon error).'']
             | Some network \<Rightarrow>
                 [Div (styles [''pt_2'', ''font_semibold'']) [Label ''Owned table''],
                  muted_text (NetworkStatus_summary network), muted_text (network_guidance network link)]))"

definition network_body :: "daemon_link \<Rightarrow> network_status_body option \<Rightarrow> string option \<Rightarrow> elem" where
  "network_body link network message =
     (let daemon_up = (case link of UiUp _ _ \<Rightarrow> True | UiDown _ \<Rightarrow> False);
          installed = (case network of None \<Rightarrow> False | Some status \<Rightarrow> ns_state status = NtInstalled);
          table_present = (case network of None \<Rightarrow> False | Some status \<Rightarrow> ns_state status \<noteq> NtMissing)
      in Div (styles [''v_flex'', ''gap_3''])
           ([Div (styles [''text_sm'', ''font_semibold'']) [Label ''InterFire-owned nftables''],
             field_label ''Only table inet interfire. No system firewall or unrelated tables are edited.'',
             Div (styles [''flex'', ''gap_2''])
               [action_chip ''network-install'' ''Install queue rule'' (daemon_up \<and> \<not> installed) True UiInstall,
                action_chip ''network-remove'' ''Remove table'' (daemon_up \<and> table_present) False UiRemove,
                action_chip ''network-refresh'' ''Refresh'' daemon_up False UiRefreshNetwork],
             status_panel link network] @
            when_some message (\<lambda>m. [muted_text m])))"

section \<open>What the views offer\<close>

lemma chip_wired [simp]:
  "wired (action_chip i label enabled primary x) = when_list enabled [(i, x)]"
  "wired (field_label t) = []"
  "wired (scope_chip scope selected enabled) = when_list enabled [(''scope-'' @ AlertScope_label scope, UiScope scope)]"
  "wired (verdict_chip verdict enabled) = when_list enabled [(''verdict-'' @ AlertVerdict_label verdict, UiVerdict verdict)]"
  "wired (details_toggle opened) = [(''alert-details-toggle'', UiDetails)]"
  by (simp_all add: action_chip_def field_label_def scope_chip_def verdict_chip_def details_toggle_def Let_def)

lemma alert_overlay_wired:
  "wired (alert_overlay alert) =
     when_list (can_submit alert)
       (map (\<lambda>scope. (''scope-'' @ AlertScope_label scope, UiScope scope)) AlertScope_ALL @
        [(''verdict-Allow'', UiVerdict AlAllow), (''verdict-Deny'', UiVerdict AlDeny)]) @
     [(''alert-details-toggle'', UiDetails)]"
  by (simp add: alert_overlay_def Let_def scope_row_def alert_verdict_row_def AlertScope_ALL_def)

lemma rules_body_wired:
  "wired (rules_body rules selected_id message adding f) =
     when_list (\<not> adding) [(''add-rule'', UiBeginAdd)] @
     when_list (selected_id \<noteq> None \<and> \<not> adding) [(''delete-rule'', UiDeleteRule)] @
     map (\<lambda>rule. (''rule-'' @ show_word (rr_id rule), UiSelectRule (rr_id rule))) (fst (apply_rows f rules rule_columns))"
  by (simp add: rules_body_def rules_table_def rule_line_def rule_detail_def case_prod_unfold Let_def
      comp_def concat_map_singleton)

lemma add_rule_overlay_wired:
  "wired (add_rule_overlay form) =
     map (\<lambda>v. (''add-verdict-'' @ RuleVerdict_label v, UiAddVerdict v)) RuleVerdict_ALL @
     [(''submit-add-rule'', UiSubmitAdd), (''cancel-add-rule'', UiCancelAdd)]"
  by (simp add: add_rule_overlay_def rule_verdict_row_def RuleVerdict_ALL_def Let_def)

lemma applications_body_wired:
  "set (wired (applications_body on_path processes selected message)) \<subseteq>
     {(''proc-'' @ show_word (pr_pid row) @ ''-'' @ show_word (pr_start_ticks row), UiSelectProcess (pr_pid row) (pr_start_ticks row))
        | row. row \<in> set processes} \<union>
     {(''open-'' @ ProcessViewer_label v, UiViewer v (pr_pid row)) | v row. row \<in> set processes \<and>
        selected = Some (pr_pid row, pr_start_ticks row) \<and> on_path (ProcessViewer_label v)}"
proof -
  have detail: "set (wired (process_detail on_path row message)) =
      {(''open-'' @ ProcessViewer_label v, UiViewer v (pr_pid row)) | v. on_path (ProcessViewer_label v)}" for row
  proof -
    have "v \<in> set ProcessViewer_ALL" for v by (cases v) (simp_all add: ProcessViewer_ALL_def)
    then show ?thesis
      by (auto simp: process_detail_def available_viewers_def Let_def filter_empty_conv split: option.split)
  qed
  show ?thesis
    by (auto simp: applications_body_def process_table_def process_line_def Let_def detail find_Some_iff
        split: option.splits bind_splits if_splits dest!: nth_mem)
qed

lemma network_body_wired:
  "wired (network_body link network message) =
     (let up = (case link of UiUp _ _ \<Rightarrow> True | UiDown _ \<Rightarrow> False)
      in when_list (up \<and> (case network of None \<Rightarrow> True | Some s \<Rightarrow> ns_state s \<noteq> NtInstalled)) [(''network-install'', UiInstall)] @
         when_list (up \<and> (case network of None \<Rightarrow> False | Some s \<Rightarrow> ns_state s \<noteq> NtMissing)) [(''network-remove'', UiRemove)] @
         when_list up [(''network-refresh'', UiRefreshNetwork)])"
  by (simp add: network_body_def status_panel_def Let_def split: option.split daemon_link.split)

lemma views_painted [simp]:
  "painted (alert_overlay alert)" "painted (rules_body rules i message adding f)" "painted (add_rule_overlay form)"
  "painted (applications_body on_path ps sel m)" "painted (network_body link network m)" "painted (field_label t)"
  "painted (action_chip ai al ae ap ax)"
proof -
  show "painted (alert_overlay alert)"
    by (simp add: alert_overlay_def scope_row_def scope_chip_def alert_verdict_row_def verdict_chip_def details_toggle_def
        AlertScope_ALL_def Let_def split: option.split)
  show "painted (rules_body rules i message adding f)"
    by (simp add: rules_body_def rules_table_def rule_line_def rule_detail_def field_label_def
        case_prod_unfold Let_def list.pred_map comp_def list.pred_True split: option.split)
  show "painted (add_rule_overlay form)"
    by (simp add: add_rule_overlay_def rule_verdict_row_def RuleVerdict_ALL_def field_label_def action_chip_def
        Let_def split: option.split)
  show "painted (applications_body on_path ps sel m)"
    by (simp add: applications_body_def process_table_def process_line_def process_detail_def Let_def
        list.pred_map comp_def list.pred_True split: option.split)
  show "painted (network_body link network m)"
    by (simp add: network_body_def status_panel_def action_chip_def field_label_def Let_def
        split: option.split daemon_link.split)
qed (simp_all add: field_label_def action_chip_def)

end
