(* ===== verification/UiPages.thy ===== *)
theory UiPages
  imports UiViews
begin

text \<open>
  The pages and the frame of the desktop window: event and statistics tables with the filter bar
  (\<open>ui/src/stats_view.rs\<close>), toolbar, tabs, menu and the two modal panels (\<open>ui/src/shell_chrome.rs\<close>).
\<close>

section \<open>Tables and filter bar\<close>

definition EMPTY_CELL :: string where "EMPTY_CELL = ''-''"

text \<open>What the build writes into the program: its version and, when known, the description of the commit.\<close>

record build =
  bd_version :: string
  bd_git :: "string option"

record filter_bar_view =
  fb_filter :: list_filter
  fb_filter_input :: string
  fb_shown :: usize
  fb_total :: usize
  fb_verdict_open :: bool
  fb_limit_open :: bool
  fb_custom_limit_input :: "string option"

definition filter_bar :: "filter_bar_view \<Rightarrow> elem" where
  "filter_bar view =
     Stateful ''filter-bar''
       (styles [''flex'', ''flex_wrap'', ''items_end'', ''gap_2'', ''pt_2'', ''border_t_1''] @ [BorderColor (Slot ''border'')]) None
       ([Div [Px ''w'' 220] [InputField (fb_filter_input view)],
         verdict_select (lf_verdict (fb_filter view)) (fb_verdict_open view),
         limit_select (lf_limit (fb_filter view)) (fb_limit_open view)] @
        when_list (case lf_limit (fb_filter view) of LimitCustom _ \<Rightarrow> True | _ \<Rightarrow> False)
          (when_some (fb_custom_limit_input view) (\<lambda>input.
             [Div [Px ''w'' 88] [InputField input], secondary_btn ''filter-apply-custom'' ''Apply'' True UiApplyCustom])) @
        [ghost_btn ''filter-clear'' ''Clear'' True UiClearFilter,
         field_label (show_nat (fb_shown view) @ '' / '' @ show_nat (fb_total view) @ '' '' @ MIDDOT @ '' limit '' @
           ResultLimit_label (lf_limit (fb_filter view)))])"

definition event_row :: "usize \<Rightarrow> u64 \<Rightarrow> string \<Rightarrow> bool \<Rightarrow> elem" where
  "event_row index sequence message selected =
     Stateful (''event-'' @ show_nat index)
       (styles [''px_2'', ''py_1'', ''rounded_md'', ''cursor_pointer''] @
        when_list selected [Bg (Fade ''accent'' 0.18)] @
        when_list (\<not> selected) [Hover [Bg (Fade ''accent'' 0.08)]])
       (Some (UiLogRow index))
       [Div [Sty ''text_xs'', FontFamily ''monospace''] [Label (show_word sequence @ ''|'' @ message)]]"

definition events_body :: "(u64 \<times> string) list \<Rightarrow> usize option \<Rightarrow> bool \<Rightarrow> list_filter \<Rightarrow> elem" where
  "events_body lines selected subscribed f =
     (let (shown, total) = apply_rows f lines event_columns;
          showing = ''  '' @ MIDDOT @ ''  showing '' @ show_nat (length shown) @ '' of '' @ show_nat total;
          status = (if subscribed then ''audit subscribe: ready'' @ showing
                    else ''audit subscribe: connecting'' @ ELLIPSIS @ showing)
      in Div (styles [''v_flex'', ''gap_2''])
           ([field_label status, field_label ''seq|message (Events; cap 2000)''] @
            (if shown = [] then [muted_text ''no events match filter'']
             else
               [Stateful ''events-table'' (styles [''v_flex'', ''gap_1'', ''flex_1'']) None
                  (map (\<lambda>(offset, (sequence, message)). event_row offset sequence message (selected = Some offset))
                     (zip [0..<length shown] shown))] @
               when_some (Option.bind selected (\<lambda>index. if index < length lines then Some (lines ! index) else None))
                 (\<lambda>(_, message).
                   [Div (styles [''mt_2'', ''p_2'', ''rounded_md'', ''border_1''] @
                         [BorderColor (Slot ''border''), Sty ''v_flex'', Sty ''gap_1''])
                      [Div [Sty ''font_semibold''] [Label ''Selected''], Div [Sty ''text_sm''] [Label message]]]))))"

definition daemon_body :: "string \<Rightarrow> daemon_link \<Rightarrow> stats_summary_body option \<Rightarrow> elem" where
  "daemon_body socket link summary =
     (let (enforcement, traffic, version, git, uptime, connections, denied, rules) =
        (case (link, summary) of
           (UiUp status _, Some summary) \<Rightarrow>
             (ds_enforcement status, ds_traffic_effective status, su_version summary, su_git summary,
              show_word (su_uptime_secs summary) @ ''s'', show_word (su_connections summary),
              show_word (su_denied summary), show_word (su_rules summary))
         | (UiUp status _, None) \<Rightarrow>
             (ds_enforcement status, ds_traffic_effective status, EMPTY_CELL, EMPTY_CELL, EMPTY_CELL, EMPTY_CELL,
              EMPTY_CELL, EMPTY_CELL)
         | (UiDown reason, _) \<Rightarrow>
             (''stopped'', EMPTY_CELL, EMPTY_CELL, EMPTY_CELL, EMPTY_CELL, EMPTY_CELL, EMPTY_CELL, reason))
      in Div (styles [''v_flex'', ''gap_2''])
           [field_label ''socket  version  git  uptime  enforcement  traffic  connections  denied  rules'',
            Div [Sty ''text_sm'', FontFamily ''monospace'']
              [Label (join ''  '' [socket, version, git, uptime, enforcement, traffic, connections, denied, rules])]])"

fun key_label :: "ui_section \<Rightarrow> string" where
  "key_label SecHosts = ''host''"
| "key_label SecAddresses = ''address''"
| "key_label SecPorts = ''port''"
| "key_label SecUsers = ''uid''"
| "key_label SecApplications = ''executable''"
| "key_label _ = ''key''"

definition stats_table_body :: "ui_section \<Rightarrow> stats_row list \<Rightarrow> list_filter \<Rightarrow> elem" where
  "stats_table_body s rows f =
     (let (shown, total) = apply_rows f rows stats_columns
      in Div (styles [''v_flex'', ''gap_2''])
           [field_label (key_label s @ ''  hits  allow  deny  prompt  '' @ MIDDOT @ ''  '' @ show_nat (length shown) @
              '' of '' @ show_nat total),
            (if shown = [] then muted_text ''no rows match filter''
             else Stateful ''stats-table'' (styles [''v_flex'', ''gap_1'']) None
               (map (\<lambda>row. Div (styles [''px_2'', ''py_1'', ''rounded_md'', ''text_xs''] @ [FontFamily ''monospace''])
                  [Label (join ''  '' [row_key row, show_word (row_hits row), show_word (row_allow row),
                     show_word (row_deny row), show_word (row_prompt row)])]) shown))])"

definition stats_footer :: "build \<Rightarrow> stats_summary_body option \<Rightarrow> usize \<Rightarrow> elem" where
  "stats_footer B summary rules_fallback =
     (let (connections, denied, uptime, rules, version) =
        (case summary of
           None \<Rightarrow> (EMPTY_CELL, EMPTY_CELL, EMPTY_CELL, show_nat rules_fallback,
             bd_version B @ ''+'' @ (case bd_git B of Some g \<Rightarrow> g | None \<Rightarrow> ''unknown''))
         | Some summary \<Rightarrow>
             (show_word (su_connections summary), show_word (su_denied summary), show_word (su_uptime_secs summary) @ ''s'',
              show_word (su_rules summary), su_version summary @ ''+'' @ su_git summary));
          gap = ''  '' @ MIDDOT @ ''  ''
      in Stateful ''stats-footer''
           (styles [''mt_auto'', ''pt_2'', ''border_t_1''] @
            [BorderColor (Slot ''border''), Sty ''text_xs'', TextColor (Slot ''muted_foreground'')]) None
           [Label (''Connections '' @ connections @ gap @ ''Denied '' @ denied @ gap @ ''Uptime '' @ uptime @ gap @
              ''Rules '' @ rules @ gap @ ''Version '' @ version)])"

section \<open>Frame\<close>

text \<open>The pictures of \<open>brand.rs\<close>, by the file they are embedded from.\<close>

fun nav_mark_source :: "chrome_mode \<Rightarrow> string" where
  "nav_mark_source ModeDark = ''mark-phoenix-head-64.png''"
| "nav_mark_source ModeLight = ''icon-app-phoenix-light-64.png''"

definition logo_horizontal_source :: string where
  "logo_horizontal_source = ''logo-horizontal-readme.png''"

definition app_menu_dropdown :: elem where
  "app_menu_dropdown =
     (let line = Div [Px ''h'' 1, Sty ''my_1'', Bg (Slot ''border'')] []
      in Stateful ''app-menu-dropdown''
           (styles [''absolute'', ''top_full'', ''left_0'', ''mt_1''] @ [Px ''w'' 200] @
            styles [''p_1'', ''rounded_md'', ''border_1''] @ [BorderColor (Slot ''border''), Bg (Slot ''popover'')] @
            styles [''shadow_lg'', ''v_flex'', ''gap_0'']) None
           [menu_entry ''menu-open'' ''Open'' UiFocusMain,
            menu_entry ''menu-prefs'' ''Preferences'' UiOpenPreferences,
            line,
            menu_entry ''menu-traffic'' (''Traffic'' @ ELLIPSIS) UiOpenTraffic,
            menu_entry ''menu-network'' (''Network'' @ ELLIPSIS) (UiOpenSecondary SecNetwork),
            menu_entry ''menu-profiling'' (''Profiling'' @ ELLIPSIS) (UiOpenSecondary SecProfiling),
            line,
            menu_entry ''menu-about'' ''About'' UiOpenAbout,
            menu_entry ''menu-quit'' ''Quit'' UiQuit])"

definition toolbar_left :: "chrome_mode \<Rightarrow> bool \<Rightarrow> elem" where
  "toolbar_left mode menu_open =
     Div (styles [''flex'', ''items_center'', ''gap_2'', ''relative''])
       [Img ''toolbar-mark'' [Px ''w'' 28, Px ''h'' 28, Sty ''rounded_md'', Sty ''object_fit_contain''] (nav_mark_source mode),
        Div (styles [''text_sm'', ''font_semibold'']) [Label ''InterFire''],
        Div [Sty ''relative'']
          (secondary_btn ''app-menu'' (if menu_open then ''Menu '' @ DOWN_MARK else ''Menu'') True UiToggleMenu #
           when_list menu_open [app_menu_dropdown]),
        primary_btn ''add-rule-toolbar'' ''Add rule'' True UiBeginAdd]"

fun tray_pill_kind :: "tray_state \<Rightarrow> pill_kind" where
  "tray_pill_kind TrProtected = PillOn"
| "tray_pill_kind TrPrompting = PillInfo"
| "tray_pill_kind TrDegraded = PillWarn"
| "tray_pill_kind TrPaused = PillWarn"
| "tray_pill_kind TrBlocked = PillDanger"
| "tray_pill_kind TrUnavailable = PillDanger"

definition tray_pill :: "tray_state \<Rightarrow> elem" where
  "tray_pill state = state_pill (TrayState_label state) (tray_pill_kind state)"

definition toolbar_right :: "operator_labels \<Rightarrow> tray_state \<Rightarrow> elem" where
  "toolbar_right labels state =
     Div (styles [''flex'', ''items_center'', ''gap_3''])
       [play_pause_control ''daemon-btn'' (ol_daemon_label labels) (\<not> ol_daemon_up labels) True (ol_daemon_up labels)
          (UiAsk (if ol_daemon_up labels then AskStop else AskStart)),
        play_pause_control ''rules-btn'' (ol_rules_label labels) (ol_rules_paused labels) (ol_daemon_up labels)
          (ol_daemon_up labels \<and> \<not> ol_rules_paused labels)
          (UiAsk (if ol_rules_paused labels then AskResume else AskPause)),
        Div (styles [''flex'', ''items_center'', ''gap_1''])
          [Div [Sty ''text_xs'', Sty ''font_semibold'', TextColor (if ol_daemon_up labels then Slot ''foreground'' else off_fg)]
             [Label (ol_traffic_label labels)],
           secondary_btn ''traffic-btn'' ''Open'' (ol_daemon_up labels) UiOpenTraffic],
        tray_pill state]"

definition toolbar_row :: "tray_state \<Rightarrow> daemon_link \<Rightarrow> chrome_mode \<Rightarrow> bool \<Rightarrow> elem" where
  "toolbar_row state link mode menu_open =
     (let labels = operator_labels_of state link
      in Stateful ''toolbar'' (styles [''flex'', ''items_center'', ''justify_between'', ''gap_2'']) None
           [toolbar_left mode menu_open, toolbar_right labels state])"

definition tab_button :: "ui_section \<Rightarrow> bool \<Rightarrow> elem" where
  "tab_button s selected =
     Stateful (''tab-'' @ Section_label s)
       (styles [''px_3'', ''py_1'', ''rounded_md'', ''cursor_pointer'', ''text_sm''] @
        when_list selected
          [Bg (Fade ''accent'' 0.22), TextColor (Slot ''foreground''), Sty ''font_semibold'', Sty ''border_b_2'',
           BorderColor (Slot ''accent'')] @
        when_list (\<not> selected)
          [TextColor (Slot ''muted_foreground''), Hover [Bg (Fade ''accent'' 0.1), TextColor (Slot ''foreground'')]])
       (Some (UiSelect s)) [Label (Section_label s)]"

definition tabs_row :: "ui_section \<Rightarrow> elem" where
  "tabs_row selected =
     Stateful ''primary-tabs'' (styles [''flex'', ''flex_wrap'', ''gap_1'']) None
       (map (\<lambda>s. tab_button s (s = selected)) Section_PRIMARY)"

definition about_overlay :: "build \<Rightarrow> elem" where
  "about_overlay B =
     Stateful ''about-overlay''
       (styles [''absolute'', ''inset_0'', ''flex'', ''items_center'', ''justify_center''] @ [Bg (Fade ''background'' 0.72)]) None
       [Div ([Px ''w'' 400] @ styles [''p_4'', ''rounded_lg'', ''border_1''] @
             [BorderColor (Slot ''border''), Bg (Slot ''popover''), Sty ''v_flex'', Sty ''gap_3''])
          [Div (styles [''text_lg'', ''font_semibold'']) [Label ''About InterFire''],
           Div [Sty ''text_sm'', TextColor (Slot ''muted_foreground'')]
             [Label (''Version '' @ bd_version B @ '' ('' @ (case bd_git B of Some g \<Rightarrow> g | None \<Rightarrow> ''unknown'') @ '')'')],
           Div (styles [''flex'', ''justify_end'']) [secondary_btn ''about-close'' ''Close'' True UiCloseAbout]]]"

definition prefs_row :: "string \<Rightarrow> string \<Rightarrow> elem" where
  "prefs_row label value =
     Div (styles [''flex'', ''justify_between'', ''gap_3'', ''px_2'', ''py_1'', ''rounded_md''] @
          [Bg (Fade ''muted_foreground'' 0.08)])
       [Div [Sty ''text_xs'', Sty ''font_semibold'', TextColor (Slot ''muted_foreground'')] [Label label],
        Div [Sty ''text_xs'', FontFamily ''monospace''] [Label value]]"

definition theme_switcher :: "chrome_preference \<Rightarrow> elem" where
  "theme_switcher selected =
     Stateful ''theme-switcher'' (styles [''flex'', ''gap_2'']) None
       (map (\<lambda>preference.
          let is_selected = (preference = selected); label = ChromePreference_label preference
          in Stateful (''theme-'' @ label)
               (styles [''px_3'', ''py_1'', ''rounded_md'', ''border_1'', ''cursor_pointer''] @
                when_list is_selected
                  [Bg (Slot ''accent''), TextColor (Slot ''accent_foreground''), BorderColor (Slot ''accent''),
                   Sty ''font_semibold''] @
                when_list (\<not> is_selected) [BorderColor (Slot ''border''), Hover [Bg (Fade ''accent'' 0.15)]])
               (Some (UiChrome preference)) [Label label]) ChromePreference_ALL)"

definition preferences_overlay :: "string \<Rightarrow> tray_state \<Rightarrow> chrome_preference \<Rightarrow> chrome_mode \<Rightarrow> elem" where
  "preferences_overlay socket state pref mode =
     Stateful ''preferences-overlay''
       (styles [''absolute'', ''inset_0'', ''flex'', ''items_center'', ''justify_center''] @ [Bg (Slot ''overlay'')]) None
       [Div ([Px ''w'' 440] @ styles [''p_5'', ''rounded_xl'', ''border_1''] @
             [BorderColor (Slot ''border''), Bg (Slot ''popover'')] @ styles [''shadow_lg'', ''v_flex'', ''gap_3''])
          [Div (styles [''text_lg'', ''font_semibold'']) [Label ''Preferences''],
           Img ''prefs-logo'' [Px ''w'' 200, Px ''h'' 72, Sty ''object_fit_contain''] logo_horizontal_source,
           prefs_row ''Socket'' socket, prefs_row ''Tray'' (TrayState_label state),
           Div (styles [''v_flex'', ''gap_2''])
             [Div (styles [''text_sm'', ''font_semibold'']) [Label ''Theme''],
              field_label (''Appearance: '' @ ChromeMode_label mode @ '' (phoenix orange brand)''),
              theme_switcher pref],
           field_label ''Prompt defaults appear here when the daemon exposes them. Use Daemon tab for live status.'',
           Div (styles [''flex'', ''justify_end'']) [primary_btn ''prefs-close'' ''Done'' True UiClosePreferences]]]"

definition secondary_banner :: "string \<Rightarrow> elem" where
  "secondary_banner title =
     Stateful ''secondary-banner''
       (styles [''px_2'', ''py_1'', ''rounded_md''] @
        [Bg (Fade ''muted'' 0.25), Sty ''text_xs'', Sty ''font_semibold'', TextColor (Slot ''muted_foreground'')]) None
       [Label (''Secondary '' @ MIDDOT @ '' '' @ title)]"

section \<open>What the pages offer\<close>

lemma selects_wired:
  "wired (verdict_select current opened) = (''verdict-trigger'', UiToggleVerdict) #
     when_list opened (map (\<lambda>v. (verdict_option_id v, UiFilterVerdict v)) VerdictFilter_ALL)"
  "wired (limit_select limit opened) = (''limit-trigger'', UiToggleLimit) #
     when_list opened
       [(''limit-opt-50'', UiFilterLimit Limit50), (''limit-opt-100'', UiFilterLimit Limit100),
        (''limit-opt-200'', UiFilterLimit Limit200), (''limit-opt-300'', UiFilterLimit Limit300),
        (''limit-opt-all'', UiFilterLimit LimitEntryAll), (''limit-opt-custom'', UiFilterCustom)]"
  by (simp_all add: verdict_select_def limit_select_def VerdictFilter_ALL_def)

lemma filter_bar_inputs:
  "snd ` set (wired (filter_bar view)) \<subseteq>
     {UiToggleVerdict, UiToggleLimit, UiFilterCustom, UiApplyCustom, UiClearFilter} \<union> range UiFilterVerdict \<union> range UiFilterLimit"
  by (auto simp: filter_bar_def selects_wired when_some_def split: option.splits result_limit.splits)

lemma events_body_wired:
  "wired (events_body lines selected subscribed f) =
     map (\<lambda>offset. (''event-'' @ show_nat offset, UiLogRow offset)) [0..<length (fst (apply_rows f lines event_columns))]"
proof -
  have rows: "concat (map wired (map (\<lambda>(offset, (sequence, message)). event_row offset sequence message (sel offset)) (zip ns shown))) =
      map (\<lambda>offset. (''event-'' @ show_nat offset, UiLogRow offset)) ns" if "length ns = length shown"
    for ns and shown :: "(u64 \<times> string) list" and sel
    using that by (induction ns shown rule: list_induct2) (auto simp: event_row_def)
  show ?thesis
    using rows [of "[0..<length (fst (apply_rows f lines event_columns))]" "fst (apply_rows f lines event_columns)"
        "\<lambda>offset. selected = Some offset"]
    by (simp add: events_body_def Let_def case_prod_unfold)
qed

lemma pages_wired [simp]:
  "wired (daemon_body socket link summary) = []" "wired (stats_table_body s rows f) = []"
  "wired (stats_footer B summary n) = []" "wired (secondary_banner t) = []" "wired (prefs_row l v) = []"
  "wired (tray_pill state) = []"
  by (simp_all add: daemon_body_def stats_table_body_def stats_footer_def secondary_banner_def prefs_row_def tray_pill_def
      Let_def case_prod_unfold)

lemma toolbar_wired:
  "wired (toolbar_row state link mode menu_open) =
     (''app-menu'', UiToggleMenu) #
     when_list menu_open
       [(''menu-open'', UiFocusMain), (''menu-prefs'', UiOpenPreferences), (''menu-traffic'', UiOpenTraffic),
        (''menu-network'', UiOpenSecondary SecNetwork), (''menu-profiling'', UiOpenSecondary SecProfiling),
        (''menu-about'', UiOpenAbout), (''menu-quit'', UiQuit)] @
     [(''add-rule-toolbar'', UiBeginAdd),
      (''daemon-btn-glyph'', UiAsk (if state = TrUnavailable then AskStart else AskStop))] @
     when_list (state \<noteq> TrUnavailable)
       [(''rules-btn-glyph'', UiAsk (if ol_rules_paused (operator_labels_of state link) then AskResume else AskPause)),
        (''traffic-btn'', UiOpenTraffic)]"
proof -
  have up: "ol_daemon_up (operator_labels_of state link) \<longleftrightarrow> state \<noteq> TrUnavailable"
    by (simp add: operator_labels_of_def Let_def)
  show ?thesis by (simp add: toolbar_row_def toolbar_left_def toolbar_right_def app_menu_dropdown_def up Let_def)
qed

lemma frame_wired:
  "wired (tabs_row s) = map (\<lambda>s. (''tab-'' @ Section_label s, UiSelect s)) Section_PRIMARY"
  "wired (about_overlay B) = [(''about-close'', UiCloseAbout)]"
  "wired (preferences_overlay socket state pref mode) =
     map (\<lambda>p. (''theme-'' @ ChromePreference_label p, UiChrome p)) ChromePreference_ALL @ [(''prefs-close'', UiClosePreferences)]"
  by (simp_all add: tabs_row_def tab_button_def Section_PRIMARY_def about_overlay_def preferences_overlay_def
      theme_switcher_def ChromePreference_ALL_def Let_def)

lemma pages_painted [simp]:
  "painted (filter_bar view)" "painted (events_body lines sel sub f)" "painted (daemon_body socket link summary)"
  "painted (stats_table_body s rows f)" "painted (stats_footer B summary n)" "painted (toolbar_row state link mode mo)"
  "painted (tabs_row s)" "painted (about_overlay B)" "painted (preferences_overlay socket state pref mode)"
  "painted (secondary_banner t)"
proof -
  show "painted (filter_bar view)" by (simp add: filter_bar_def)
  show "painted (events_body lines sel sub f)"
    by (simp add: events_body_def event_row_def list.pred_map comp_def list.pred_True case_prod_unfold Let_def)
  show "painted (stats_table_body s rows f)"
    by (simp add: stats_table_body_def list.pred_map comp_def list.pred_True case_prod_unfold Let_def)
  show "painted (toolbar_row state link mode mo)"
    by (simp add: toolbar_row_def toolbar_left_def toolbar_right_def app_menu_dropdown_def tray_pill_def off_fg_def Let_def)
  show "painted (tabs_row s)" by (simp add: tabs_row_def tab_button_def list.pred_map comp_def list.pred_True)
  show "painted (preferences_overlay socket state pref mode)"
    by (simp add: preferences_overlay_def prefs_row_def theme_switcher_def list.pred_map comp_def list.pred_True Let_def)
qed (simp_all add: daemon_body_def stats_footer_def about_overlay_def secondary_banner_def case_prod_unfold Let_def)

end
