(* ===== verification/UiRender.thy ===== *)
theory UiRender
  imports UiPages
begin

text \<open>
  The whole desktop window (\<open>render\<close> and the bodies of the sections in \<open>ui/src/app.rs\<close>), and what an
  operator can do with it: the clicks it offers are inputs of \<open>UiRun\<close>, so the window and its handlers
  compose to runs of the client.
\<close>

section \<open>The window\<close>

record shell_content =
  sc_section :: ui_section
  sc_socket :: string
  sc_tray_state :: tray_state
  sc_link :: daemon_link
  sc_rules :: "rule_row list"
  sc_selected_rule :: "u64 option"
  sc_rules_message :: "string option"
  sc_adding :: bool
  sc_processes :: "process_row list"
  sc_selected_process :: "(u32 \<times> u64) option"
  sc_viewer_message :: "string option"
  sc_network :: "network_status_body option"
  sc_network_message :: "string option"
  sc_log :: log_buffer
  sc_profiling :: profiling_snapshot
  sc_chrome_pref :: chrome_preference
  sc_chrome_mode :: chrome_mode
  sc_traffic_scope_machine :: bool
  sc_traffic_direction :: string
  sc_filter :: list_filter
  sc_filter_input :: "string option"
  sc_stats_summary :: "stats_summary_body option"
  sc_stats_hosts :: "stats_row list"
  sc_stats_procs :: "stats_row list"
  sc_stats_addrs :: "stats_row list"
  sc_stats_ports :: "stats_row list"
  sc_stats_users :: "stats_row list"

text \<open>
  \<open>RenderSnapshot::capture\<close> copies the fields of the app, with the filter text read from its input, and
  \<open>content\<close> passes them on.
\<close>

definition capture_content :: "window_appearance \<Rightarrow> ui_app \<Rightarrow> shell_content" where
  "capture_content appearance a =
     \<lparr>sc_section = ua_section a, sc_socket = ua_socket a, sc_tray_state = ua_tray_state a, sc_link = ua_link a,
      sc_rules = ua_rules a, sc_selected_rule = ua_selected_rule a, sc_rules_message = ua_rules_message a,
      sc_adding = (ua_add_form a \<noteq> None), sc_processes = ua_processes a, sc_selected_process = ua_selected_process a,
      sc_viewer_message = ua_viewer_message a, sc_network = ua_network a, sc_network_message = ua_network_message a,
      sc_log = ua_log a, sc_profiling = pf_snapshot (ua_profiler a), sc_chrome_pref = ua_chrome_pref a,
      sc_chrome_mode = ChromePreference_resolve (ua_chrome_pref a) appearance,
      sc_traffic_scope_machine = ua_traffic_scope_machine a, sc_traffic_direction = ua_traffic_direction a,
      sc_filter = render_filter a, sc_filter_input = ua_filter_input a, sc_stats_summary = ua_stats_summary a,
      sc_stats_hosts = ua_stats_hosts a, sc_stats_procs = ua_stats_procs a, sc_stats_addrs = ua_stats_addrs a,
      sc_stats_ports = ua_stats_ports a, sc_stats_users = ua_stats_users a\<rparr>"

fun confirm_texts :: "confirm_kind \<Rightarrow> string \<times> string \<times> string" where
  "confirm_texts RulesPause = (''Pause rules?'',
     ''Temporary pause removes the InterFire queue table. New outbound TCP is no longer filtered until you Start rules again.'',
     ''Pause'')"
| "confirm_texts RulesResume = (''Start rules?'',
     ''Start installs the InterFire queue table. Do not Start while another application-firewall queue is already active.'',
     ''Start'')"
| "confirm_texts ConfirmTrafficBlock = (''Block traffic?'',
     ''Blocks new TCP for the selected scope and direction except localhost. Existing connections may continue. Machine scope asks for polkit.'',
     ''Block'')"
| "confirm_texts ConfirmTrafficUnblock = (''Unblock traffic?'',
     ''Clears the selected scope kill-switch. Machine overrides user without clearing stored user state.'',
     ''Unblock'')"
| "confirm_texts DaemonStop = (''Stop daemon?'',
     ''Stops interfired (polkit). IPC and prompts end. A Traffic Block may remain in the kernel until Unblock.'',
     ''Stop'')"
| "confirm_texts DaemonStart = (''Start daemon?'',
     ''Starts interfired via polkit so the UI can reconnect to the socket.'',
     ''Start'')"
| "confirm_texts OpenTraffic = ([], [], [])"

definition fw_confirm_overlay :: "confirm_kind \<Rightarrow> elem" where
  "fw_confirm_overlay kind =
     (let (title, body, ok) = confirm_texts kind
      in Stateful ''fw-confirm-overlay''
           (styles [''absolute'', ''inset_0'', ''flex'', ''items_center'', ''justify_center''] @ [Bg (Fade ''background'' 0.72)]) None
           [Div ([Px ''w'' 440] @ styles [''p_4'', ''rounded_lg'', ''border_1''] @
                 [BorderColor (Slot ''border''), Bg (Slot ''popover''), Sty ''v_flex'', Sty ''gap_3''])
              [Div (styles [''text_lg'', ''font_semibold'']) [Label title],
               Div [Sty ''text_sm'', TextColor (Slot ''muted_foreground'')] [Label body],
               Div (styles [''flex'', ''gap_2'', ''justify_end''])
                 [secondary_btn ''fw-confirm-cancel'' ''Cancel'' True UiCancelConfirm,
                  primary_btn ''fw-confirm-ok'' ok True UiConfirm]]])"

definition stats_section :: "ui_section \<Rightarrow> shell_content \<Rightarrow> elem" where
  "stats_section s content =
     (let rows =
        (case s of
           SecHosts \<Rightarrow> sc_stats_hosts content
         | SecAddresses \<Rightarrow> sc_stats_addrs content
         | SecPorts \<Rightarrow> sc_stats_ports content
         | SecUsers \<Rightarrow> sc_stats_users content
         | SecApplications \<Rightarrow> sc_stats_procs content
         | _ \<Rightarrow> [])
      in if rows = [] then Div [] [muted_text ''no stats yet'']
         else stats_table_body s rows (sc_filter content))"

definition traffic_toggle :: "string \<Rightarrow> string \<Rightarrow> bool \<Rightarrow> ui_input \<Rightarrow> elem" where
  "traffic_toggle i label selected handler = action_chip i label True selected handler"

definition traffic_body :: "shell_content \<Rightarrow> elem" where
  "traffic_body content =
     (let (machine, user, effective) =
        (case sc_link content of
           UiUp status _ \<Rightarrow> (ds_traffic_machine status, ds_traffic_user status, ds_traffic_effective status)
         | UiDown _ \<Rightarrow> (EMPTY_CELL, EMPTY_CELL, EMPTY_CELL));
          scope_machine = sc_traffic_scope_machine content;
          direction = sc_traffic_direction content
      in Div (styles [''v_flex'', ''gap_3''])
           ([Div [Sty ''text_sm'', TextColor (Slot ''muted_foreground'')]
               [Label (''machine='' @ machine @ ''  user='' @ user @ ''  effective='' @ effective)],
             Div [Sty ''text_sm'', TextColor (Slot ''muted_foreground'')]
               [Label ''Machine overrides user without clearing it. Loopback is never blocked. User inbound is uid-scoped.''],
             Div (styles [''flex'', ''gap_2''])
               [traffic_toggle ''scope-user'' ''This user'' (\<not> scope_machine) (UiTrafficScope False),
                traffic_toggle ''scope-machine'' ''Entire machine'' scope_machine (UiTrafficScope True)],
             Div (styles [''flex'', ''gap_2''])
               [traffic_toggle ''dir-out'' ''Outbound'' (direction = ''out'') (UiTrafficDirection DirOut),
                traffic_toggle ''dir-in'' ''Inbound'' (direction = ''in'') (UiTrafficDirection DirIn),
                traffic_toggle ''dir-all'' ''All'' (direction = ''all'') (UiTrafficDirection DirAll)],
             Div (styles [''flex'', ''gap_2''])
               [action_chip ''traffic-block'' ''Block'' True True (UiAsk AskBlock),
                action_chip ''traffic-unblock'' ''Unblock'' True False (UiAsk AskUnblock)]] @
            when_some (sc_network_message content) (\<lambda>message.
              [Div [Sty ''text_sm'', TextColor (Slot ''muted_foreground'')] [Label message]])))"

text \<open>\<open>{pct:.1}\<close> of a number that is not negative: rounded to tenths, half to even.\<close>

definition round_half_even :: "rat \<Rightarrow> int" where
  "round_half_even x =
     (let f = \<lfloor>x\<rfloor>; r = x - of_int f
      in if r < 1 / 2 then f else if 1 / 2 < r then f + 1 else if even f then f else f + 1)"

definition show_tenths :: "rat \<Rightarrow> string" where
  "show_tenths x = (let n = nat (round_half_even (x * 10)) in show_nat (n div 10) @ ''.'' @ show_nat (n mod 10))"

definition format_mib :: "u64 \<Rightarrow> string" where
  "format_mib kib = show_word (kib div 1024) @ '' MiB ('' @ show_word kib @ '' KiB)''"

definition profiling_body :: "profiling_snapshot \<Rightarrow> elem" where
  "profiling_body snap =
     (let ui_cpu = (case pf_ui_cpu_pct snap of None \<Rightarrow> ELLIPSIS | Some pct \<Rightarrow> show_tenths pct @ ''%'');
          daemon_rss = (case pf_daemon_rss_kib snap of None \<Rightarrow> ''unavailable'' | Some kib \<Rightarrow> format_mib kib);
          daemon_cpu =
            (case pf_daemon_cpu_pct snap of
               None \<Rightarrow> if pf_daemon_pid snap \<noteq> None then ELLIPSIS else ''unavailable''
             | Some pct \<Rightarrow> show_tenths pct @ ''%'');
          daemon_pid = (case pf_daemon_pid snap of None \<Rightarrow> ''-'' | Some pid \<Rightarrow> show_word pid)
      in Div (styles [''v_flex'', ''gap_3''])
           [Div [Sty ''font_semibold''] [Label ''Profiling''],
            muted_text ''Live VmRSS and CPU from /proc (UI) and daemon status IPC. GPUI idle is often ~190 MiB; the daemon stays far smaller.'',
            Div [Sty ''font_semibold''] [Label ''interfired (firewall)''],
            Div [] [Label (''pid = '' @ daemon_pid)],
            Div [] [Label (''RSS = '' @ daemon_rss)],
            Div [] [Label (''CPU = '' @ daemon_cpu)],
            Div (styles [''font_semibold'', ''mt_2'']) [Label ''interfire-ui (GPUI)''],
            Div [] [Label (''pid = '' @ show_word (pf_ui_pid snap))],
            Div [] [Label (''RSS = '' @ format_mib (pf_ui_rss_kib snap))],
            Div [] [Label (''CPU = '' @ ui_cpu)],
            Div [TextColor (Slot ''muted_foreground''), Sty ''mt_2'']
              [Label ''CPU % uses consecutive 1s polls (USER_HZ=100). Release gates: make memcheck / make memcheck-ui.'']])"

definition section_inner :: "(string \<Rightarrow> bool) \<Rightarrow> shell_content \<Rightarrow> elem" where
  "section_inner on_path content =
     (case sc_section content of
        SecEvents \<Rightarrow> events_body (LogBuffer_lines (sc_log content)) (selected_index (sc_log content))
          (lb_subscribed (sc_log content)) (sc_filter content)
      | SecDaemon \<Rightarrow> daemon_body (sc_socket content) (sc_link content) (sc_stats_summary content)
      | SecRules \<Rightarrow> rules_body (sc_rules content) (sc_selected_rule content) (sc_rules_message content)
          (sc_adding content) (sc_filter content)
      | SecHosts \<Rightarrow> stats_section SecHosts content
      | SecApplications \<Rightarrow> applications_body on_path (sc_processes content) (sc_selected_process content)
          (sc_viewer_message content)
      | SecAddresses \<Rightarrow> stats_section SecAddresses content
      | SecPorts \<Rightarrow> stats_section SecPorts content
      | SecUsers \<Rightarrow> stats_section SecUsers content
      | SecNetwork \<Rightarrow> network_body (sc_link content) (sc_network content) (sc_network_message content)
      | SecTraffic \<Rightarrow> traffic_body content
      | SecProfiling \<Rightarrow> profiling_body (sc_profiling content)
      | SecPreferences \<Rightarrow> Div [Sty ''text_sm'', TextColor (Slot ''muted_foreground'')]
          [Label ''Preferences open from the App menu.''])"

definition section_body :: "(string \<Rightarrow> bool) \<Rightarrow> shell_content \<Rightarrow> elem" where
  "section_body on_path content =
     (let inner = section_inner on_path content
      in if is_secondary (sc_section content)
         then Div (styles [''v_flex'', ''gap_2'']) [secondary_banner (Section_label (sc_section content)), inner]
         else inner)"

definition content_panel :: "(string \<Rightarrow> bool) \<Rightarrow> shell_content \<Rightarrow> elem" where
  "content_panel on_path content =
     Stateful ''content-panel''
       (styles [''flex_1'', ''v_flex'', ''gap_3'', ''p_3'', ''rounded_lg'', ''border_1''] @
        [BorderColor (Slot ''border''), Bg (Slot ''group_box'')]) None
       [section_body on_path content]"

definition render :: "'d ui_env \<Rightarrow> build \<Rightarrow> window_appearance \<Rightarrow> ui_app \<Rightarrow> elem" where
  "render E B appearance a =
     (let mode = ChromePreference_resolve (ua_chrome_pref a) appearance;
          content = capture_content appearance a;
          (filter_shown, filter_total) = filter_counts_for a
      in Stateful ''interfire-shell''
           (styles [''relative'', ''flex'', ''flex_col'', ''size_full''] @
            [Bg (Slot ''background''), TextColor (Slot ''foreground''), Sty ''p_3'', Sty ''gap_2'']) None
           ([toolbar_row (ua_tray_state a) (ua_link a) mode (ua_menu_open a),
             tabs_row (ua_section a),
             content_panel (ue_on_path E) content] @
            when_list (uses_filter (ua_section a))
              (when_some (ua_filter_input a) (\<lambda>input.
                 [filter_bar \<lparr>fb_filter = sc_filter content, fb_filter_input = input, fb_shown = filter_shown,
                    fb_total = filter_total, fb_verdict_open = ua_verdict_select_open a,
                    fb_limit_open = ua_limit_select_open a, fb_custom_limit_input = ua_custom_limit_input a\<rparr>])) @
            [stats_footer B (ua_stats_summary a) (length (ua_rules a))] @
            when_some (ua_add_form a) (\<lambda>form. [add_rule_overlay form]) @
            when_some (ua_alert a) (\<lambda>alert. [alert_overlay alert]) @
            when_some (ua_fw_confirm a) (\<lambda>kind. [fw_confirm_overlay kind]) @
            when_list (ua_about_open a) [about_overlay B] @
            when_list (ua_preferences_open a)
              [preferences_overlay (ua_socket a) (ua_tray_state a) (ua_chrome_pref a) mode]))"

section \<open>What the window offers\<close>

lemma fw_confirm_wired [simp]:
  "wired (fw_confirm_overlay kind) = [(''fw-confirm-cancel'', UiCancelConfirm), (''fw-confirm-ok'', UiConfirm)]"
  by (simp add: fw_confirm_overlay_def case_prod_unfold Let_def)

lemma traffic_body_wired [simp]:
  "wired (traffic_body content) =
     [(''scope-user'', UiTrafficScope False), (''scope-machine'', UiTrafficScope True),
      (''dir-out'', UiTrafficDirection DirOut), (''dir-in'', UiTrafficDirection DirIn), (''dir-all'', UiTrafficDirection DirAll),
      (''traffic-block'', UiAsk AskBlock), (''traffic-unblock'', UiAsk AskUnblock)]"
  by (simp add: traffic_body_def traffic_toggle_def case_prod_unfold Let_def)

lemma quiet_bodies [simp]: "wired (stats_section s content) = []" "wired (profiling_body snap) = []"
  by (simp_all add: stats_section_def profiling_body_def Let_def)

text \<open>The inputs of the window that only change the window.\<close>

fun local_input :: "ui_input \<Rightarrow> bool" where
  "local_input UiTick = False"
| "local_input (UiVerdict v) = False"
| "local_input UiSubmitAdd = False"
| "local_input UiDeleteRule = False"
| "local_input UiInstall = False"
| "local_input UiRemove = False"
| "local_input UiRefreshNetwork = False"
| "local_input UiConfirm = False"
| "local_input x = True"

lemma local_step: "local_input x \<Longrightarrow> ui_step E x st = (ui_local E x (fst st), snd st)"
  by (cases x) simp_all

lemma section_inputs:
  assumes "(i, x) \<in> set (wired (section_body on_path (capture_content appearance a)))"
  shows "local_input x \<or>
    x = UiDeleteRule \<and> ua_section a = SecRules \<and> ua_selected_rule a \<noteq> None \<and> ua_add_form a = None \<or>
    x \<in> {UiInstall, UiRemove, UiRefreshNetwork} \<and> ua_section a = SecNetwork \<and> (\<exists>status n. ua_link a = UiUp status n)"
proof (cases "ua_section a")
  case SecApplications
  then have "(i, x) \<in> set (wired (applications_body on_path (ua_processes a) (ua_selected_process a) (ua_viewer_message a)))"
    using assms by (simp add: section_body_def section_inner_def capture_content_def is_secondary_def)
  then show ?thesis using applications_body_wired by fastforce
qed (use assms in \<open>auto simp: section_body_def section_inner_def capture_content_def is_secondary_def events_body_wired
      rules_body_wired network_body_wired Let_def split: if_splits daemon_link.splits\<close>)

lemma window_parts:
  assumes "(i, x) \<in> set (wired (render E B appearance a))"
  obtains (toolbar) state link mode mo where "(i, x) \<in> set (wired (toolbar_row state link mode mo))"
    | (tabs) s where "(i, x) \<in> set (wired (tabs_row s))"
    | (panel) "(i, x) \<in> set (wired (section_body (ue_on_path E) (capture_content appearance a)))"
    | (bar) view where "(i, x) \<in> set (wired (filter_bar view))"
    | (add) form where "ua_add_form a = Some form" "(i, x) \<in> set (wired (add_rule_overlay form))"
    | (alert) alert where "ua_alert a = Some alert" "(i, x) \<in> set (wired (alert_overlay alert))"
    | (confirm) kind where "ua_fw_confirm a = Some kind" "(i, x) \<in> set (wired (fw_confirm_overlay kind))"
    | (about) "(i, x) \<in> set (wired (about_overlay B))"
    | (preferences) socket state pref mode where "(i, x) \<in> set (wired (preferences_overlay socket state pref mode))"
  using assms
  by (simp add: render_def Let_def case_prod_unfold content_panel_def when_some_member del: fw_confirm_wired split: if_splits)
    blast+

lemma frame_local:
  "list_all (\<lambda>p. local_input (snd p)) (wired (toolbar_row state link mode mo))"
  "list_all (\<lambda>p. local_input (snd p)) (wired (tabs_row s))"
  "list_all (\<lambda>p. local_input (snd p)) (wired (about_overlay B))"
  "list_all (\<lambda>p. local_input (snd p)) (wired (preferences_overlay socket state pref mode))"
  "list_all (\<lambda>p. local_input (snd p) \<or> p = (''submit-add-rule'', UiSubmitAdd)) (wired (add_rule_overlay form))"
  "list_all (\<lambda>p. local_input (snd p) \<or> p = (''fw-confirm-ok'', UiConfirm)) (wired (fw_confirm_overlay kind))"
  by (simp_all add: toolbar_wired frame_wired add_rule_overlay_wired list.pred_map comp_def list.pred_True)

lemma window_inputs:
  assumes "(i, x) \<in> set (wired (render E B appearance a))"
  shows "local_input x \<or>
    (\<exists>alert v. ua_alert a = Some alert \<and> can_submit alert \<and> i = ''verdict-'' @ AlertVerdict_label v \<and> x = UiVerdict v) \<or>
    x = UiSubmitAdd \<and> i = ''submit-add-rule'' \<and> ua_add_form a \<noteq> None \<or>
    x = UiDeleteRule \<and> ua_section a = SecRules \<and> ua_selected_rule a \<noteq> None \<and> ua_add_form a = None \<or>
    x \<in> {UiInstall, UiRemove, UiRefreshNetwork} \<and> ua_section a = SecNetwork \<and> (\<exists>status n. ua_link a = UiUp status n) \<or>
    x = UiConfirm \<and> i = ''fw-confirm-ok'' \<and> ua_fw_confirm a \<noteq> None"
  using assms
proof (cases rule: window_parts)
  case (bar view)
  then have "local_input x" using filter_bar_inputs [of view] by force
  then show ?thesis by blast
next
  case panel
  then show ?thesis using section_inputs by blast
next
  case (alert alert)
  have "local_input x \<or> can_submit alert \<and> (i = ''verdict-Allow'' \<and> x = UiVerdict AlAllow \<or> i = ''verdict-Deny'' \<and> x = UiVerdict AlDeny)"
    using alert(2) unfolding alert_overlay_wired AlertScope_ALL_def
    by (cases "can_submit alert") (simp_all, elim disjE, simp_all)
  then have "local_input x \<or> (\<exists>v. can_submit alert \<and> i = ''verdict-'' @ AlertVerdict_label v \<and> x = UiVerdict v)"
    by (metis AlertVerdict_label.simps append_Cons append_Nil)
  with alert(1) show ?thesis by blast
next
  case (toolbar state link mode mo)
  then show ?thesis using bspec [OF frame_local(1) [unfolded list_all_iff] toolbar] by simp
next
  case (tabs s)
  then show ?thesis using bspec [OF frame_local(2) [unfolded list_all_iff] tabs] by simp
next
  case about
  then show ?thesis using bspec [OF frame_local(3) [unfolded list_all_iff] about] by simp
next
  case (preferences socket state pref mode)
  then show ?thesis using bspec [OF frame_local(4) [unfolded list_all_iff] preferences] by simp
next
  case (add form)
  then show ?thesis using bspec [OF frame_local(5) [unfolded list_all_iff] add(2)] by (simp, elim disjE conjE, simp_all)
next
  case (confirm kind)
  then show ?thesis using bspec [OF frame_local(6) [unfolded list_all_iff] confirm(2)] by (simp, elim disjE conjE, simp_all)
qed

text \<open>
  C34: the window asks before it acts. Whatever state the desktop client is in: the only clicks it
  offers that reach the daemon or \<open>pkexec\<close> are the verdict buttons of an alert that can still be
  answered, \<open>Save\<close> in the open rule form, \<open>Delete selected\<close> with a rule selected and no form open, the
  three buttons of the network page while the daemon is up, and \<open>OK\<close> of a shown confirmation. So
  pausing, resuming, blocking, unblocking, starting and stopping take a confirmation.
\<close>

theorem window_asks_before_it_acts:
  assumes "(i, x) \<in> set (wired (render E B appearance a))" "snd (ui_step E x (a, d)) \<noteq> d"
  shows "(\<exists>alert v. ua_alert a = Some alert \<and> can_submit alert \<and> i = ''verdict-'' @ AlertVerdict_label v \<and> x = UiVerdict v) \<or>
    x = UiSubmitAdd \<and> i = ''submit-add-rule'' \<and> ua_add_form a \<noteq> None \<or>
    x = UiDeleteRule \<and> ua_section a = SecRules \<and> ua_selected_rule a \<noteq> None \<and> ua_add_form a = None \<or>
    x \<in> {UiInstall, UiRemove, UiRefreshNetwork} \<and> ua_section a = SecNetwork \<and> (\<exists>status n. ua_link a = UiUp status n) \<or>
    x = UiConfirm \<and> i = ''fw-confirm-ok'' \<and> ua_fw_confirm a \<noteq> None"
proof -
  have "\<not> local_input x" using assms(2) local_step [of x E "(a, d)"] by auto
  with window_inputs [OF assms(1)] show ?thesis by blast
qed

text \<open>A daemon that records the frames it is sent and refuses them.\<close>

definition env_recording :: "string list ui_env" where
  "env_recording = \<lparr>ue_exch = (\<lambda>frame d. (Inl ''refused'', frame # d)), ue_pkexec = (\<lambda>_ d. (Inl ''none'', d)),
     ue_on_path = (\<lambda>_. False), ue_spawn = (\<lambda>_ _. False), ue_now = (\<lambda>_. 0), ue_sample = (\<lambda>_. Inl NotFound)\<rparr>"

definition build_demo :: build where "build_demo = \<lparr>bd_version = ''1.0'', bd_git = None\<rparr>"

abbreviation app_asking :: ui_app where
  "app_asking \<equiv> request_confirm AskPause (build_root env_recording [] ''s'' None False)"

lemma confirm_offered:
  "ua_fw_confirm a = Some kind \<Longrightarrow> (''fw-confirm-ok'', UiConfirm) \<in> set (wired (render E B appearance a))"
  by (simp add: render_def Let_def case_prod_unfold)

theorem window_asks_before_it_acts_witness:
  "(''fw-confirm-ok'', UiConfirm) \<in> set (wired (render env_recording build_demo AppDark app_asking)) \<and>
   snd (ui_step env_recording UiConfirm (app_asking, [])) = [''v1 pause'' @ [NL]] \<and> ua_fw_confirm app_asking \<noteq> None"
proof -
  have ask: "ua_fw_confirm app_asking = Some RulesPause" by (simp add: request_confirm_def)
  have exch: "ue_exch env_recording = (\<lambda>frame d. (Inl ''refused'', frame # d))" by (simp add: env_recording_def)
  have sent: "snd (ui_step env_recording UiConfirm (app_asking, [])) = [''v1 pause'' @ [NL]]"
    by (simp add: confirm_fw_action_def ask pause_firewall_def network_action_def ui_pause_def send_expect_pong_def
        one_shot_def exch Let_def)
  note ok = confirm_offered [OF ask, of env_recording build_demo AppDark]
  from window_asks_before_it_acts [OF ok, of "[]"] sent ok show ?thesis by auto
qed

section \<open>Colours\<close>

lemma section_painted: "painted (section_body on_path content)"
proof -
  have bodies: "painted (traffic_body content)" "painted (stats_section s content)" "painted (profiling_body snap)" for s snap
    by (simp_all add: traffic_body_def traffic_toggle_def stats_section_def profiling_body_def case_prod_unfold Let_def)
  show ?thesis by (simp add: section_body_def section_inner_def bodies Let_def split: ui_section.split)
qed

lemma window_painted: "painted (render E B appearance a)"
  by (simp add: render_def content_panel_def section_painted fw_confirm_overlay_def case_prod_unfold Let_def)

text \<open>
  The window's colours are those of the mode. Every colour that any state of the window uses is
  a slot the theme painters assign, and applying a mode does not panic and gives this slot a colour
  that depends on the mode alone, whatever theme was there before: after a switch between light and
  dark nothing of the old mode shows.
\<close>

theorem window_colours_follow_mode:
  assumes "reads_hex K" "p \<in> set (paints (render E B appearance a))"
  shows "\<exists>c. \<forall>kit_theme old. \<exists>new. apply_phoenix_theme K kit_theme mode old = Some new \<and> new (paint_slot p) = Some c"
  using applied_slot [OF assms(1)] window_painted [of E B appearance a] assms(2) unfolding painted_def by blast

definition kit_plain :: "string kit" where
  "kit_plain = \<lparr>kit_parse_hex = (\<lambda>s. if is_hex_colour s then Some s else None), kit_opacity = (\<lambda>c _. c),
     kit_hsla = (\<lambda>_ _ _ _. ''#000000'')\<rparr>"

theorem window_colours_follow_mode_witness:
  "\<exists>c. \<forall>kit_theme old. \<exists>new. apply_phoenix_theme kit_plain kit_theme ModeLight old = Some new \<and> new ''background'' = Some c"
proof -
  have reads: "reads_hex kit_plain" by (simp add: reads_hex_def kit_plain_def)
  have "Slot ''background'' \<in> set (paints (render env_recording build_demo AppDark app_asking))"
    by (simp add: render_def case_prod_unfold Let_def)
  from window_colours_follow_mode [OF reads this] show ?thesis by simp
qed

section \<open>Small print\<close>

text \<open>
  Six of the seven entries of the app menu close it; \<open>Traffic\<close> leaves it open, because
  \<open>open_traffic_tab\<close> was written for the toolbar button.
\<close>

lemma traffic_entry_leaves_menu_open:
  "list_all (\<lambda>(i, x). ua_menu_open (fst (ui_step E x (a, d))) \<longleftrightarrow> i = ''menu-traffic'' \<and> ua_menu_open a) (wired app_menu_dropdown)"
  by (simp add: app_menu_dropdown_def Let_def ui_edits)

text \<open>
  The pill of a paused firewall has the warning colour; the muted kind made for it is never shown.
\<close>

lemma paused_pill_warns:
  "paints (tray_pill TrPaused) = [Fade ''warning'' 0.2, Slot ''warning'']" "tray_pill_kind state \<noteq> PillOff"
  by (simp_all add: tray_pill_def state_pill_def styles_def) (cases state; simp)

text \<open>The event table holds an element for every row the filter shows, visible or not.\<close>

lemma every_shown_event_is_an_element:
  "length (wired (events_body lines selected subscribed f)) = length (fst (apply_rows f lines event_columns))"
  by (simp add: events_body_wired)

end
