(* ===== verification/UiDesk.thy ===== *)
theory UiDesk
  imports UiRender
begin

text \<open>
  The desktop process around its window (\<open>ui/src/main.rs\<close> and \<open>ui/src/tray_host.rs\<close>): the choice of the
  renderer, the tray item and its pictures, opening, closing and reopening the window, and the loop
  that turns tray actions into confirmations. The D-Bus registration and the PNG decoder are
  parameters. What is shown: the process starts itself anew at most once, and an entry of the tray
  menu always ends in a window that asks.
\<close>

section \<open>Renderer and environment\<close>

type_synonym environ = "string \<rightharpoonup> string"

text \<open>\<open>env::var(name).ok()\<close>: a value that is not valid UTF-8 counts as absent.\<close>

definition env_var :: "environ \<Rightarrow> string \<Rightarrow> string option" where
  "env_var env name =
     (case env name of Some v \<Rightarrow> if utf8_valid v then Some v else None | None \<Rightarrow> None)"

definition profile_shutdown_ms :: "environ \<Rightarrow> u64" where
  "profile_shutdown_ms env =
     (case Option.bind (env_var env ''HOTPATH_SHUTDOWN_MS'') parse_word of Some ms \<Rightarrow> ms | None \<Rightarrow> 0)"

definition reexec_with_software_gl :: "environ \<Rightarrow> environ" where
  "reexec_with_software_gl env = env(''LIBGL_ALWAYS_SOFTWARE'' \<mapsto> ''1'', ''WGPU_BACKEND'' \<mapsto> ''gl'')"

text \<open>\<open>Some env\<close> when the process is replaced by itself, with this environment and the same arguments.\<close>

definition apply_default_renderer_env :: "environ \<Rightarrow> environ option" where
  "apply_default_renderer_env env =
     (if software_renderer (env_var env ''INTERFIRE_UI_NATIVE_GPU'') (env_var env ''WGPU_BACKEND'')
      then Some (reexec_with_software_gl env) else None)"

lemma reexec_once: "apply_default_renderer_env env = Some env' \<Longrightarrow> apply_default_renderer_env env' = None"
  by (auto simp: apply_default_renderer_env_def reexec_with_software_gl_def env_var_def software_renderer_def
      utf8_valid_literal split: if_splits)

section \<open>The tray item\<close>

datatype tray_command = SetState tray_state

text \<open>
  \<open>TrayHost::try_spawn\<close>: there is a tray when its thread could be started and the item registered; the
  thread then applies the commands it receives, in order, as long as there is a sender.
\<close>

definition TrayHost_try_spawn :: "bool \<Rightarrow> bool \<Rightarrow> tray_state \<Rightarrow> tray_state option" where
  "TrayHost_try_spawn spawned registered initial =
     (if \<not> spawned then None else if registered then Some initial else None)"

definition tray_thread :: "tray_command list \<Rightarrow> tray_state \<Rightarrow> tray_state" where
  "tray_thread commands initial = fold (\<lambda>command _. case command of SetState state \<Rightarrow> state) commands initial"

definition InterfireTray_id :: string where "InterfireTray_id = ''interfire-ui''"

definition InterfireTray_title :: string where "InterfireTray_title = ''InterFire''"

record icon =
  ic_width :: int
  ic_height :: int
  ic_data :: "u8 list"

text \<open>\<open>i32::try_from(n).unwrap_or(64)\<close>, and \<open>chunks_exact_mut(4)\<close> with each chunk rotated right by one.\<close>

definition i32_or_64 :: "u32 \<Rightarrow> int" where
  "i32_or_64 n = (if unat n < 2 ^ 31 then int (unat n) else 64)"

fun rgba_to_argb :: "u8 list \<Rightarrow> u8 list" where
  "rgba_to_argb (r # g # b # a # rest) = a # r # g # b # rgba_to_argb rest"
| "rgba_to_argb rest = rest"

text \<open>The decoder gives width, height and pixels; \<open>None\<close> is a panic on a picture it cannot read.\<close>

definition png_to_argb_icon :: "('p \<Rightarrow> (u32 \<times> u32 \<times> u8 list) option) \<Rightarrow> 'p \<Rightarrow> icon option" where
  "png_to_argb_icon decode png =
     map_option (\<lambda>(width, height, rgba).
       \<lparr>ic_width = i32_or_64 width, ic_height = i32_or_64 height, ic_data = rgba_to_argb rgba\<rparr>) (decode png)"

text \<open>The pictures are asked for with the cells of \<open>brand_icon\<close>, which they may fill.\<close>

type_synonym icon_cells = "icon_slot \<Rightarrow> tray_state option"

definition icon_pixmap :: "tray_state \<Rightarrow> icon_cells \<Rightarrow> tray_state list \<times> icon_cells" where
  "icon_pixmap state cells = (let (icon, cells) = brand_icon state cells in ([icon], cells))"

definition attention_icon_pixmap :: "tray_state \<Rightarrow> icon_cells \<Rightarrow> tray_state list \<times> icon_cells" where
  "attention_icon_pixmap state cells =
     (if state = TrPrompting then let (icon, cells) = brand_icon state cells in ([icon], cells) else ([], cells))"

datatype tray_status = NeedsAttention | TrayActive

fun InterfireTray_status :: "tray_state \<Rightarrow> tray_status" where
  "InterfireTray_status TrPrompting = NeedsAttention"
| "InterfireTray_status TrProtected = TrayActive"
| "InterfireTray_status TrDegraded = TrayActive"
| "InterfireTray_status TrPaused = TrayActive"
| "InterfireTray_status TrBlocked = TrayActive"
| "InterfireTray_status TrUnavailable = TrayActive"

record tool_tip =
  tt_title :: string
  tt_description :: string
  tt_icon :: "tray_state list"

definition InterfireTray_tool_tip :: "tray_state \<Rightarrow> icon_cells \<Rightarrow> tool_tip \<times> icon_cells" where
  "InterfireTray_tool_tip state cells =
     (let (icons, cells) = icon_pixmap state cells
      in (\<lparr>tt_title = ''InterFire'', tt_description = TrayState_label state @ '': '' @ TrayState_guidance state,
           tt_icon = icons\<rparr>, cells))"

lemma rgba_pixel:
  "4 * i + 3 < length px \<Longrightarrow>
     map ((!) (rgba_to_argb px)) [4 * i, 4 * i + 1, 4 * i + 2, 4 * i + 3] =
     map ((!) px) [4 * i + 3, 4 * i, 4 * i + 1, 4 * i + 2]"
proof (induction px arbitrary: i rule: rgba_to_argb.induct)
  case (1 r g b a rest)
  then show ?case by (cases i) (simp_all add: numeral_eq_Suc)
qed simp_all

lemma rgba_length [simp]: "length (rgba_to_argb px) = length px"
  by (induction px rule: rgba_to_argb.induct) simp_all

section \<open>The process\<close>

text \<open>
  The process with its window, or with the tray only (its state and the confirmation cell stay), or
  ended. While a window is open the tray and the cell are reached through it.
\<close>

datatype desk =
    DeskOpen ui_app
  | DeskClosed "tray_state option" "confirm_kind option mutex"
  | DeskEnded

text \<open>
  \<open>build_root\<close> in a process that may already have a tray and a filled cell: \<open>App::new\<close> gets a clone of the
  tray's handle and sends it nothing.
\<close>

definition open_root ::
    "'d ui_env \<Rightarrow> 'd \<Rightarrow> string \<Rightarrow> rss_probe_mode option \<Rightarrow> tray_state option \<Rightarrow> confirm_kind option mutex \<Rightarrow> ui_app" where
  "open_root E d socket probe tray cell =
     (let a = attach_filter_input ((ui_App_new E d socket (tray \<noteq> None))\<lparr>ua_tray := tray, ua_confirm := cell\<rparr>)
      in case probe of Some mode \<Rightarrow> apply_rss_probe mode a | None \<Rightarrow> a)"

lemma first_root: "open_root E d socket probe (if has_tray then Some TrUnavailable else None) (Healthy None) =
    build_root E d socket probe has_tray"
  by (simp add: open_root_def build_root_def ui_App_new_def Let_def)

text \<open>\<open>opens\<close> says whether the toolkit can open a window; a failure is ignored.\<close>

definition open_window ::
    "'d ui_env \<Rightarrow> 'd \<Rightarrow> string \<Rightarrow> rss_probe_mode option \<Rightarrow> bool \<Rightarrow> tray_state option \<Rightarrow> confirm_kind option mutex \<Rightarrow> desk" where
  "open_window E d socket probe opens tray cell =
     (if opens then DeskOpen (open_root E d socket probe tray cell) else DeskClosed tray cell)"

text \<open>\<open>main\<close> after the renderer is settled.\<close>

definition ui_main :: "'d ui_env \<Rightarrow> 'd \<Rightarrow> string list \<Rightarrow> bool \<Rightarrow> bool \<Rightarrow> bool \<Rightarrow> desk" where
  "ui_main E d args spawned registered opens =
     (let (socket, probe) = ui_parse_args args;
          tray = TrayHost_try_spawn spawned registered TrUnavailable
      in open_window E d socket probe opens tray (Healthy None))"

text \<open>
  One turn of \<open>spawn_tray_action_loop\<close>, which runs only with a tray. An open window is brought to the
  front, otherwise one is opened.
\<close>

fun tray_turn ::
    "'d ui_env \<Rightarrow> string \<Rightarrow> rss_probe_mode option \<Rightarrow> tray_action list \<Rightarrow> bool \<Rightarrow> desk \<times> 'd \<Rightarrow> desk \<times> 'd" where
  "tray_turn E socket probe pending opens (DeskOpen a, d) =
     (if ua_tray a = None \<or> pending = [] then (DeskOpen a, d)
      else let (quit, need_show, cell) = tray_actions pending False (ua_confirm a)
           in (if quit then DeskEnded else DeskOpen (a\<lparr>ua_confirm := cell\<rparr>), d))"
| "tray_turn E socket probe pending opens (DeskClosed tray cell, d) =
     (if tray = None \<or> pending = [] then (DeskClosed tray cell, d)
      else let (quit, need_show, cell) = tray_actions pending False cell
           in (if quit then DeskEnded
               else if need_show then open_window E d socket probe opens tray cell
               else DeskClosed tray cell, d))"
| "tray_turn E socket probe pending opens (DeskEnded, d) = (DeskEnded, d)"

text \<open>
  The steps of the process: an input of the open window (the tray's inputs are its own step, and
  \<open>Quit\<close> of the menu ends the process), closing the window, and a turn of the tray loop. With a tray
  the quit mode is explicit, so the process survives its last window; without one it does not.
\<close>

datatype desk_step = DeskInput ui_input | DeskClose | DeskTurn "tray_action list" bool

fun is_tray_input :: "ui_input \<Rightarrow> bool" where
  "is_tray_input (UiTray _) = True"
| "is_tray_input _ = False"

fun desk_next :: "'d ui_env \<Rightarrow> string \<Rightarrow> rss_probe_mode option \<Rightarrow> desk_step \<Rightarrow> desk \<times> 'd \<Rightarrow> desk \<times> 'd" where
  "desk_next E socket probe (DeskInput x) (DeskOpen a, d) =
     (if is_tray_input x then (DeskOpen a, d)
      else if x = UiQuit then (DeskEnded, d)
      else let (a, d) = ui_step E x (a, d) in (DeskOpen a, d))"
| "desk_next E socket probe DeskClose (DeskOpen a, d) =
     (if ua_tray a = None then DeskEnded else DeskClosed (ua_tray a) (ua_confirm a), d)"
| "desk_next E socket probe (DeskTurn pending opens) s = tray_turn E socket probe pending opens s"
| "desk_next E socket probe x s = s"

definition desk_run ::
    "'d ui_env \<Rightarrow> string \<Rightarrow> rss_probe_mode option \<Rightarrow> desk_step list \<Rightarrow> desk \<times> 'd \<Rightarrow> desk \<times> 'd" where
  "desk_run E socket probe = fold (desk_next E socket probe)"


section \<open>What survives\<close>

text \<open>Once there is a tray it stays, and the confirmation cell is never poisoned.\<close>

definition tray_ready :: "ui_app \<Rightarrow> bool" where
  "tray_ready a \<longleftrightarrow> ua_tray a \<noteq> None \<and> lock (ua_confirm a) \<noteq> None"

fun desk_ready :: "desk \<Rightarrow> bool" where
  "desk_ready (DeskOpen a) = tray_ready a"
| "desk_ready (DeskClosed tray cell) = (tray \<noteq> None \<and> lock cell \<noteq> None)"
| "desk_ready DeskEnded = True"

lemma ready_edits [simp]:
  "tray_ready (a\<lparr>ua_network_message := m\<rparr>) = tray_ready a" "tray_ready (a\<lparr>ua_rules_message := m\<rparr>) = tray_ready a"
  "tray_ready (a\<lparr>ua_add_form := form\<rparr>) = tray_ready a" "tray_ready (a\<lparr>ua_selected_rule := i\<rparr>) = tray_ready a"
  "tray_ready (form_error t a) = tray_ready a" "tray_ready (a\<lparr>ua_alert := al\<rparr>) = tray_ready a"
  "tray_ready (a\<lparr>ua_fw_confirm := k\<rparr>) = tray_ready a"
  by (simp_all add: tray_ready_def form_error_def)

lemma confirm_take_ready: "confirm_take (Healthy k) = (k, Healthy None)"
  by (simp add: confirm_take_def)

lemma snapshot_ready: "ua_confirm (apply_snapshot snap a) = ua_confirm a" "ua_section (apply_snapshot snap a) = ua_section a"
  by (simp_all add: apply_snapshot_def tray_set_state_def Let_def split: option.splits)

lemma refresh_asked:
  assumes "ua_confirm a = Healthy k"
  shows "let a' = fst (refresh_from_daemon E (a, d)) in
    ua_confirm a' = Healthy None \<and> (ua_tray a \<noteq> None \<longrightarrow> ua_tray a' \<noteq> None) \<and>
    (case k of None \<Rightarrow> True | Some kind \<Rightarrow>
       if kind = OpenTraffic then ua_section a' = SecTraffic else ua_fw_confirm a' = Some kind)"
proof -
  obtain snap d' where p: "poll_snapshot_of (ue_exch E) d = (snap, d')" by fastforce
  show ?thesis
    by (simp add: refresh_from_daemon_def p take_confirm_def assms confirm_take_ready drain_audit_events_def
        apply_snapshot_fields snapshot_ready Let_def split: option.split)
qed

lemma refresh_ready: "tray_ready a \<Longrightarrow> tray_ready (fst (refresh_from_daemon E (a, d)))"
  using refresh_asked [of a _ E d] by (cases "ua_confirm a") (auto simp: tray_ready_def Let_def)

lemma local_ready: "tray_ready a \<Longrightarrow> \<not> is_tray_input x \<Longrightarrow> tray_ready (ui_local E x a)"
  by (cases x) (simp_all add: tray_ready_def ui_edits ui_filters set_scope_def toggle_details_def select_log_row_def
      request_confirm_def cancel_fw_confirm_def set_traffic_direction_def Let_def case_prod_unfold)

lemma network_ready: "tray_ready a \<Longrightarrow> tray_ready (fst (network_action E act ok (a, d)))"
  by (simp add: network_action_def refresh_ready split: prod.split sum.split)

lemma step_ready: "tray_ready a \<Longrightarrow> \<not> is_tray_input x \<Longrightarrow> tray_ready (fst (ui_step E x (a, d)))"
proof -
  assume r: "tray_ready a" "\<not> is_tray_input x"
  have "tray_ready (fst (submit_verdict E v (a, d)))" for v
    using r by (simp add: submit_verdict_def refresh_ready split: option.split prod.split sum.split)
  moreover have "tray_ready (fst (submit_add_rule E (a, d)))"
    using r by (simp add: submit_add_rule_def refresh_ready split: option.split prod.split sum.split)
  moreover have "tray_ready (fst (ui_delete_selected_rule E (a, d)))"
    using r by (simp add: ui_delete_selected_rule_def refresh_ready split: option.split prod.split sum.split)
  moreover have "tray_ready (fst (confirm_fw_action E (a, d)))"
    using r by (auto simp: confirm_fw_action_def Let_def ui_network_actions network_ready
        split: option.split confirm_kind.split)
  moreover have "tray_ready (fst (refresh_network_status E (a, d)))"
    using r by (simp add: refresh_network_status_def refresh_ready)
  ultimately show ?thesis
    using r local_ready [OF r]
    by (cases x) (simp_all add: refresh_ready install_network_table_def remove_network_table_def network_ready
        del: ui_local.simps)
qed

lemma actions_healthy: "\<exists>k'. snd (snd (tray_actions pending b (Healthy k))) = Healthy k'"
  by (induction pending arbitrary: b k) (simp_all add: confirm_push_def split: option.split)

lemma actions_ready: "lock m \<noteq> None \<Longrightarrow> lock (snd (snd (tray_actions pending b m))) \<noteq> None"
  by (cases m) (use actions_healthy [of pending b] in \<open>auto\<close>)

lemma root_ready: "tray \<noteq> None \<Longrightarrow> lock cell \<noteq> None \<Longrightarrow> tray_ready (open_root E d socket probe tray cell)"
  by (auto simp: open_root_def attach_filter_input_def apply_rss_probe_def tray_set_state_def tray_ready_def Let_def
      split: option.split rss_probe_mode.split)

lemma open_next_ready: "tray_ready a \<Longrightarrow> desk_ready (fst (desk_next E socket probe x (DeskOpen a, d)))"
proof (cases x)
  case (DeskInput i)
  assume "tray_ready a"
  then show ?thesis using step_ready [of a i E d] by (simp add: DeskInput case_prod_unfold Let_def)
next
  case (DeskTurn pending opens)
  assume "tray_ready a"
  then show ?thesis
    using actions_ready [of "ua_confirm a" pending False]
    by (simp add: DeskTurn tray_ready_def case_prod_unfold Let_def del: lock_Some_iff)
qed (simp add: tray_ready_def)

lemma closed_next_ready:
  assumes "tray \<noteq> None" "lock cell \<noteq> None"
  shows "desk_ready (fst (desk_next E socket probe x (DeskClosed tray cell, d)))"
proof (cases x)
  case (DeskTurn pending opens)
  let ?cell = "snd (snd (tray_actions pending False cell))"
  have "lock ?cell \<noteq> None" using actions_ready [OF assms(2)] .
  then show ?thesis
    using assms root_ready [OF assms(1), of ?cell E d socket probe]
    by (simp add: DeskTurn open_window_def case_prod_unfold Let_def)
qed (use assms in simp_all)

interpretation desk: kept_machine "desk_next E socket probe" "\<lambda>st. desk_ready (fst st)" for E socket probe
proof (unfold_locales, goal_cases)
  case (1 st x)
  obtain s d where st: "st = (s, d)" by (cases st)
  then show ?case
    using 1 by (cases s) (simp_all add: open_next_ready closed_next_ready del: desk_next.simps, cases x, simp_all)
qed

section \<open>The tray asks\<close>

lemma actions_last:
  assumes "TrayQuit \<notin> set (before @ action # later)" "tray_confirm action = Some kind"
    "\<forall>x \<in> set later. tray_confirm x = None"
  shows "tray_actions (before @ action # later) b (Healthy k) = (False, True, Healthy (Some kind))"
  using assms(1)
proof (induction before arbitrary: b k)
  case Nil
  have "TrayQuit \<notin> set later \<Longrightarrow> \<forall>x \<in> set later. tray_confirm x = None \<Longrightarrow>
      tray_actions later True (Healthy k') = (False, True, Healthy k')" for k'
    by (induction later) auto
  with Nil assms(2,3) show ?case by (auto simp: confirm_push_def)
next
  case (Cons x before)
  then show ?case by (auto simp: confirm_push_def split: option.split)
qed

text \<open>
  C35: what the tray asks for reaches the operator and goes no further. Whatever happened since the
  start of a process with a tray, windows closed and reopened included: as long as it runs, a turn
  of the tray loop with a request sends nothing to the daemon and leaves a window open, and the next
  poll of this window shows the last request of the turn: the traffic page, or a confirmation whose
  \<open>OK\<close> is on the screen. No pause, resume, stop or start from the tray skips the question or is lost.
\<close>

theorem tray_request_asks:
  assumes "desk_run E socket probe steps (ui_main E d0 args True True opens, d0) = (s, d)" "s \<noteq> DeskEnded"
    and "TrayQuit \<notin> set (before @ action # later)" "tray_confirm action = Some kind"
    and "\<forall>x \<in> set later. tray_confirm x = None"
  shows "\<exists>a. desk_next E socket probe (DeskTurn (before @ action # later) True) (s, d) = (DeskOpen a, d) \<and>
    (let a' = fst (refresh_from_daemon E (a, d)) in
     if kind = OpenTraffic then ua_section a' = SecTraffic
     else ua_fw_confirm a' = Some kind \<and> (''fw-confirm-ok'', UiConfirm) \<in> set (wired (render E B appearance a')))"
proof -
  have "desk_ready (ui_main E d0 args True True opens)"
    by (simp add: ui_main_def TrayHost_try_spawn_def open_window_def root_ready case_prod_unfold Let_def)
  then have ready: "desk_ready s"
    using desk.run_wf [of "(ui_main E d0 args True True opens, d0)" E socket probe steps] assms(1)
    by (simp add: desk_run_def)
  note last = actions_last [OF assms(3-5)]
  have asks: "let a' = fst (refresh_from_daemon E (a, d)) in
      if kind = OpenTraffic then ua_section a' = SecTraffic
      else ua_fw_confirm a' = Some kind \<and> (''fw-confirm-ok'', UiConfirm) \<in> set (wired (render E B appearance a'))"
    if "ua_confirm a = Healthy (Some kind)" for a
    using refresh_asked [OF that, of E d] confirm_offered by (auto simp: Let_def)
  show ?thesis
  proof (cases s)
    case (DeskOpen a)
    with ready obtain k where "ua_tray a \<noteq> None" "ua_confirm a = Healthy k"
      by (cases "ua_confirm a") (auto simp: tray_ready_def)
    then have "desk_next E socket probe (DeskTurn (before @ action # later) True) (s, d) =
        (DeskOpen (a\<lparr>ua_confirm := Healthy (Some kind)\<rparr>), d)"
      by (auto simp: DeskOpen last)
    then show ?thesis using asks by simp
  next
    case (DeskClosed tray cell)
    with ready obtain k where cell: "tray \<noteq> None" "cell = Healthy k" by (cases cell) auto
    have "ua_confirm (open_root E d socket probe tray (Healthy (Some kind))) = Healthy (Some kind)"
      by (auto simp: open_root_def attach_filter_input_def apply_rss_probe_def tray_set_state_def Let_def
          split: option.split rss_probe_mode.split)
    moreover have "desk_next E socket probe (DeskTurn (before @ action # later) True) (s, d) =
        (DeskOpen (open_root E d socket probe tray (Healthy (Some kind))), d)"
      using cell by (auto simp: DeskClosed last open_window_def)
    ultimately show ?thesis using asks by simp
  qed (use assms(2) in simp)
qed

text \<open>
  But a reopened window does not tell the tray that the daemon is gone. \<open>App::new\<close> takes the state to be
  \<open>Unavailable\<close> without sending it, and a poll sends only changes: with the daemon down, the tray keeps
  the state of the window that was closed, say \<open>protected\<close>, for as long as the daemon stays down.
\<close>

lemma reopened_tray_stale:
  assumes "\<And>d. \<exists>reason. ps_link (fst (poll_snapshot_of (ue_exch E) d)) = UiDown reason"
    "desk_next E socket None (DeskTurn [TrayShow] True) (DeskClosed (Some shown) (Healthy None), d) = (DeskOpen a, d)"
  shows "ua_tray (fst ((refresh_from_daemon E ^^ n) (a, d))) = Some shown"
proof -
  have a: "ua_tray a = Some shown" "ua_tray_state a = TrUnavailable" "ua_rss_probe a = None" "ua_confirm a = Healthy None"
    using assms(2) by (auto simp: open_window_def open_root_def attach_filter_input_def ui_App_new_def
        Let_def)
  have "let b = fst ((refresh_from_daemon E ^^ n) (a, d)) in
      ua_tray b = Some shown \<and> ua_tray_state b = TrUnavailable \<and> ua_rss_probe b = None \<and> ua_confirm b = Healthy None"
  proof (induction n)
    case (Suc n)
    obtain b d' where b: "(refresh_from_daemon E ^^ n) (a, d) = (b, d')" by fastforce
    obtain snap d'' where p: "poll_snapshot_of (ue_exch E) d' = (snap, d'')" by fastforce
    then obtain reason where "ps_link snap = UiDown reason" using assms(1) [of d'] by auto
    then show ?case
      using Suc b
      by (simp add: refresh_from_daemon_def p take_confirm_def confirm_take_ready drain_audit_events_def
          apply_snapshot_fields snapshot_ready Let_def)
  qed (simp add: a)
  then show ?thesis by (simp add: Let_def)
qed

theorem tray_request_asks_witness:
  "\<exists>a. desk_next env_recording ''s'' None (DeskTurn [TrayShow, TrayPause] True)
       (desk_next env_recording ''s'' None DeskClose (ui_main env_recording [] [] True True True, [])) = (DeskOpen a, []) \<and>
     ua_fw_confirm (fst (refresh_from_daemon env_recording (a, []))) = Some RulesPause"
proof -
  let ?s = "desk_next env_recording ''s'' None DeskClose (ui_main env_recording [] [] True True True, [])"
  have s: "?s = (DeskClosed (Some TrUnavailable) (Healthy None), [])"
    by (simp add: ui_main_def ui_parse_args_def TrayHost_try_spawn_def open_window_def open_root_def
        attach_filter_input_def Let_def)
  then have "desk_run env_recording ''s'' None [DeskClose] (ui_main env_recording [] [] True True True, []) =
      (DeskClosed (Some TrUnavailable) (Healthy None), [])" by (simp add: desk_run_def)
  from tray_request_asks [OF this, of "[TrayShow]" TrayPause "[]" RulesPause] show ?thesis
    unfolding s by (auto simp: Let_def)
qed

end
