(* ===== verification/TuiDraw.thy ===== *)
theory TuiDraw
  imports TuiMain
begin

text \<open>
  Drawing in the terminal client: the palette (\<open>interfire-tui/src/palette.rs\<close>), the widgets of one
  frame (\<open>ui.rs\<close>) and how \<open>main.rs\<close> takes and gives back the terminal. \<open>ratatui\<close> is not part of the
  repository: a frame is the list of widgets it is given, each with its area, in order, and how an
  area is split is a parameter.
\<close>

section \<open>Palette\<close>

datatype color = Rgb nat nat nat

record tui_style =
  st_fg :: "color option"
  st_bg :: "color option"
  st_bold :: bool

definition style_default :: tui_style where
  "style_default = \<lparr>st_fg = None, st_bg = None, st_bold = False\<rparr>"

text \<open>\<open>MODE\<close> as the functions of the palette read it.\<close>

definition is_dark :: "palette_mode \<Rightarrow> bool" where
  "is_dark mode \<longleftrightarrow> mode \<noteq> Light"

definition canvas :: "palette_mode \<Rightarrow> color" where
  "canvas m = (if is_dark m then Rgb 0x0E 0x11 0x14 else Rgb 0xF5 0xF6 0xF8)"

definition surface :: "palette_mode \<Rightarrow> color" where
  "surface m = (if is_dark m then Rgb 0x16 0x1B 0x20 else Rgb 0xFF 0xFF 0xFF)"

definition elevated :: "palette_mode \<Rightarrow> color" where
  "elevated m = (if is_dark m then Rgb 0x1E 0x25 0x2C else Rgb 0xEC 0xEF 0xF3)"

definition border_color :: "palette_mode \<Rightarrow> color" where
  "border_color m = (if is_dark m then Rgb 0x2C 0x35 0x40 else Rgb 0xD0 0xD7 0xDE)"

definition text_color :: "palette_mode \<Rightarrow> color" where
  "text_color m = (if is_dark m then Rgb 0xE8 0xED 0xF2 else Rgb 0x1F 0x23 0x28)"

definition muted_fg :: "palette_mode \<Rightarrow> color" where
  "muted_fg m = (if is_dark m then Rgb 0x8B 0x97 0xA5 else Rgb 0x65 0x6D 0x76)"

definition TUI_ACCENT :: color where "TUI_ACCENT = Rgb 0xF8 0x48 0x00"
definition TUI_ON_ACCENT :: color where "TUI_ON_ACCENT = Rgb 0xFF 0xFF 0xFF"
definition TUI_DANGER :: color where "TUI_DANGER = Rgb 0xDC 0x35 0x45"
definition TUI_OK :: color where "TUI_OK = Rgb 0x3D 0xDC 0x97"
definition TUI_WARN :: color where "TUI_WARN = Rgb 0xF5 0xA6 0x23"

definition title_style :: tui_style where
  "title_style = style_default\<lparr>st_fg := Some TUI_ACCENT, st_bold := True\<rparr>"

definition selected_style :: tui_style where
  "selected_style = style_default\<lparr>st_fg := Some TUI_ON_ACCENT, st_bg := Some TUI_ACCENT, st_bold := True\<rparr>"

definition muted_style :: "palette_mode \<Rightarrow> tui_style" where
  "muted_style m = style_default\<lparr>st_fg := Some (muted_fg m)\<rparr>"

definition body_style :: "palette_mode \<Rightarrow> tui_style" where
  "body_style m = style_default\<lparr>st_fg := Some (text_color m)\<rparr>"

definition allow_style :: tui_style where
  "allow_style = style_default\<lparr>st_fg := Some TUI_ON_ACCENT, st_bg := Some TUI_ACCENT, st_bold := True\<rparr>"

definition deny_style :: tui_style where
  "deny_style = style_default\<lparr>st_fg := Some TUI_ON_ACCENT, st_bg := Some TUI_DANGER, st_bold := True\<rparr>"

definition focus_style :: tui_style where
  "focus_style = style_default\<lparr>st_fg := Some TUI_ACCENT, st_bold := True\<rparr>"

definition panel_style :: "palette_mode \<Rightarrow> tui_style" where
  "panel_style m = style_default\<lparr>st_fg := Some (text_color m), st_bg := Some (canvas m)\<rparr>"

definition chrome_style :: "palette_mode \<Rightarrow> tui_style" where
  "chrome_style m = style_default\<lparr>st_fg := Some (text_color m), st_bg := Some (surface m)\<rparr>"

definition overlay_style :: "palette_mode \<Rightarrow> tui_style" where
  "overlay_style m = style_default\<lparr>st_fg := Some (text_color m), st_bg := Some (elevated m)\<rparr>"

definition accent_label_style :: tui_style where
  "accent_label_style = style_default\<lparr>st_fg := Some TUI_ACCENT, st_bold := True\<rparr>"

definition border_style :: "palette_mode \<Rightarrow> tui_style" where
  "border_style m = style_default\<lparr>st_fg := Some (border_color m)\<rparr>"

definition ok_style :: tui_style where
  "ok_style = style_default\<lparr>st_fg := Some TUI_OK, st_bold := True\<rparr>"

definition warn_style :: tui_style where
  "warn_style = style_default\<lparr>st_fg := Some TUI_WARN, st_bold := True\<rparr>"

definition err_style :: tui_style where
  "err_style = style_default\<lparr>st_fg := Some TUI_DANGER, st_bold := True\<rparr>"

section \<open>Widgets and areas\<close>

type_synonym span = "string \<times> tui_style"

text \<open>A line with a style of its own under that of its spans.\<close>

type_synonym text_line = "span list \<times> tui_style"

text \<open>A border all around, with a title.\<close>

record block =
  bl_border :: tui_style
  bl_style :: tui_style
  bl_title :: span

datatype widget =
    Clear
  | Paragraph "text_line list" tui_style bool "block option"
  | ListWidget "text_line list" block tui_style "usize option"

record rect =
  re_x :: nat
  re_y :: nat
  re_width :: nat
  re_height :: nat

datatype constraint = Length nat | MinLength nat | Percentage nat

datatype split_direction = Vertical | Horizontal

type_synonym split = "split_direction \<Rightarrow> constraint list \<Rightarrow> rect \<Rightarrow> rect list"

definition rect_within :: "rect \<Rightarrow> rect \<Rightarrow> bool" where
  "rect_within r area \<longleftrightarrow>
     re_x area \<le> re_x r \<and> re_x r + re_width r \<le> re_x area + re_width area \<and>
     re_y area \<le> re_y r \<and> re_y r + re_height r \<le> re_y area + re_height area"

text \<open>What \<open>Layout::split\<close> documents: one area for each constraint, all inside the area that is split.\<close>

definition lawful_split :: "split \<Rightarrow> bool" where
  "lawful_split S \<longleftrightarrow>
     (\<forall>d cs area. length (S d cs area) = length cs \<and> list_all (\<lambda>r. rect_within r area) (S d cs area))"

type_synonym frame = "(widget \<times> rect) list"

definition plain_line :: "tui_style \<Rightarrow> string \<Rightarrow> text_line" where
  "plain_line s t = ([(t, s)], style_default)"

definition framed :: "palette_mode \<Rightarrow> tui_style \<Rightarrow> span \<Rightarrow> block" where
  "framed m s t = \<lparr>bl_border = border_style m, bl_style = s, bl_title = t\<rparr>"

section \<open>A frame\<close>

definition stats_footer_line :: "app \<Rightarrow> string" where
  "stats_footer_line a =
     (let f = EventsVerdictFilter_label (ap_events_filter a);
          gap = ''  '' @ MIDDOT @ ''  '';
          line = (\<lambda>connections denied uptime rules version.
            ''Connections '' @ connections @ gap @ ''Denied '' @ denied @ gap @ ''Uptime '' @ uptime @ gap @
            ''Rules '' @ rules @ gap @ ''Version '' @ version @ gap @ ''filter '' @ f)
      in case ap_stats_summary a of
           None \<Rightarrow> line ''-'' ''-'' ''-'' ''-'' ''-''
         | Some summary \<Rightarrow>
             line (show_word (su_connections summary)) (show_word (su_denied summary))
               (show_word (su_uptime_secs summary) @ ''s'') (show_word (su_rules summary))
               (su_version summary @ ''+'' @ su_git summary))"

definition tabs_bar :: "palette_mode \<Rightarrow> app \<Rightarrow> widget" where
  "tabs_bar m a =
     Paragraph
       [([(''InterFire'', title_style), ('' v'' @ show_word IPC_VERSION @ ''  '', muted_style m)] @
         map (\<lambda>tab. ('' '' @ Tab_label tab @ '' '', if tab = ap_tab a then selected_style else body_style m)) Tab_ALL,
         style_default)]
       style_default False
       (Some (framed m (chrome_style m) (''tabs '' @ MIDDOT @ '' '' @ chrome_title a, muted_style m)))"

definition list_widget :: "palette_mode \<Rightarrow> app \<Rightarrow> visible_list \<Rightarrow> usize option \<Rightarrow> widget" where
  "list_widget m a visible state =
     (let focus = (if ap_pane a = PaneList then '' [focus]'' else []);
          title = (if ap_tab a = TabEvents \<and> 0 < vl_total visible then
                     ''Events list'' @ focus @ ''  '' @ show_nat (vl_start visible + 1) @ ''-'' @
                     show_nat (vl_start visible + length (vl_items visible)) @ ''/'' @ show_nat (vl_total visible)
                   else Tab_label (ap_tab a) @ '' list'' @ focus)
      in ListWidget (map (\<lambda>line. ([(line, style_default)], body_style m)) (vl_items visible))
           (framed m (panel_style m) (title, muted_style m)) selected_style state)"

definition detail_widget :: "palette_mode \<Rightarrow> app \<Rightarrow> widget" where
  "detail_widget m a =
     (let title = (if Tab_has_split (ap_tab a) \<and> ap_pane a = PaneDetail then Tab_label (ap_tab a) @ '' detail [focus]''
                   else Tab_label (ap_tab a) @ '' detail'')
      in Paragraph (map (plain_line (body_style m)) (detail_lines a)) (panel_style m) True
           (Some (framed m style_default (title, muted_style m))))"

definition draw_body :: "split \<Rightarrow> palette_mode \<Rightarrow> app \<Rightarrow> rect \<Rightarrow> frame" where
  "draw_body S m a area =
     (if Tab_has_split (ap_tab a) then
        let panes = S Horizontal [Percentage 45, Percentage 55] area;
            viewport_rows = re_height (panes ! 0) - 2;
            visible = visible_list_of viewport_rows a;
            state = (if vl_items visible \<noteq> [] then Some (vl_relative_selected visible) else None)
        in [(list_widget m a visible state, panes ! 0), (detail_widget m a, panes ! 1)]
      else [(detail_widget m a, area)])"

definition centered_rect :: "split \<Rightarrow> nat \<Rightarrow> nat \<Rightarrow> rect \<Rightarrow> rect" where
  "centered_rect S percent_x percent_y area =
     (let vertical = S Vertical [Percentage ((100 - percent_y) div 2), Percentage percent_y,
            Percentage ((100 - percent_y) div 2)] area
      in S Horizontal [Percentage ((100 - percent_x) div 2), Percentage percent_x,
            Percentage ((100 - percent_x) div 2)] (vertical ! 1) ! 1)"

text \<open>The common end of the overlays: the area is cleared, then the card is drawn on it.\<close>

definition draw_card :: "palette_mode \<Rightarrow> text_line list \<Rightarrow> string \<Rightarrow> rect \<Rightarrow> frame" where
  "draw_card m ls title area =
     [(Clear, area), (Paragraph ls (overlay_style m) False (Some (framed m style_default (title, accent_label_style))), area)]"

definition draw_notice :: "split \<Rightarrow> palette_mode \<Rightarrow> string \<Rightarrow> rect \<Rightarrow> frame" where
  "draw_notice S m message area =
     draw_card m
       [plain_line title_style ''Overlay'', plain_line style_default [], plain_line (body_style m) message,
        plain_line style_default [], plain_line (muted_style m) (''Esc dismisses '' @ MIDDOT @ '' does not quit'')]
       ''notice'' (centered_rect S 60 30 area)"

definition field_line :: "palette_mode \<Rightarrow> add_rule_form \<Rightarrow> add_field \<Rightarrow> string \<Rightarrow> text_line" where
  "field_line m form fd value =
     (let marker = (if af_focus form = fd then ''>'' else '' '');
          s = (if af_focus form = fd then focus_style else body_style m)
      in plain_line s (marker @ '' '' @ AddField_label fd @ '': '' @ value))"

definition draw_add_rule :: "split \<Rightarrow> palette_mode \<Rightarrow> add_rule_form \<Rightarrow> rect \<Rightarrow> frame" where
  "draw_add_rule S m form area =
     draw_card m
       [field_line m form FieldId (af_id form), field_line m form FieldExecutable (af_executable form),
        field_line m form FieldVerdict (af_verdict form), field_line m form FieldPort (af_port form),
        plain_line style_default [],
        plain_line (muted_style m) (''Tab next field '' @ MIDDOT @ '' Enter submit '' @ MIDDOT @ '' Esc cancel'')]
       ''add rule'' (centered_rect S 70 55 area)"

definition draw_answer_prompt :: "split \<Rightarrow> palette_mode \<Rightarrow> answer_prompt_form \<Rightarrow> rect \<Rightarrow> frame" where
  "draw_answer_prompt S m form area =
     (let prompt = pf_prompt form;
          allow = (if pf_verdict form = AvAllow then allow_style else body_style m);
          deny = (if pf_verdict form = AvDeny then deny_style else body_style m);
          remaining = (if pw_remaining_secs prompt \<le> 5 then err_style
                       else if pw_remaining_secs prompt \<le> 15 then warn_style else ok_style)
      in draw_card m
           [plain_line title_style (''prompt #'' @ show_word (pw_id prompt)),
            plain_line (body_style m) (''path: '' @ pw_executable prompt),
            plain_line (body_style m)
              (''dest: '' @ pw_destination prompt @ '':'' @ show_word (pw_port prompt) @ '' ('' @ pw_protocol prompt @ '')''),
            plain_line remaining (''remaining: '' @ show_word (pw_remaining_secs prompt) @ ''s''),
            plain_line style_default [],
            ([(''verdict: '', muted_style m), ('' allow '', allow), ('' deny '', deny)], style_default),
            plain_line (body_style m)
              (''scope:   '' @ AnswerScope_as_str (pf_scope form) @ ''  (Tab cycles once|session|permanent)''),
            plain_line style_default [],
            plain_line (muted_style m)
              (''a/d or Left/Right verdict '' @ MIDDOT @ '' Enter submit '' @ MIDDOT @ '' Esc cancel'')]
           ''answer prompt'' (centered_rect S 70 60 area))"

definition draw_traffic :: "split \<Rightarrow> palette_mode \<Rightarrow> traffic_form \<Rightarrow> rect \<Rightarrow> frame" where
  "draw_traffic S m form area =
     draw_card m
       [plain_line (body_style m)
          (''scope:     '' @ TrafficScopeChoice_as_str (tf_scope form) @ ''  (Tab toggles user|machine)''),
        plain_line (body_style m)
          (''direction: '' @ TrafficDirectionChoice_as_str (tf_direction form) @ ''  (Left/Right cycles out|in|all)''),
        plain_line (body_style m)
          (''action:    '' @ TrafficActionChoice_as_str (tf_action form) @
           ''  (b block '' @ MIDDOT @ '' u unblock '' @ MIDDOT @ '' a toggle)''),
        plain_line style_default [],
        plain_line (muted_style m) ''Machine scope: use pkexec CLI (TUI does not elevate)'',
        plain_line (muted_style m) (''Enter submit '' @ MIDDOT @ '' Esc cancel'')]
       ''traffic'' (centered_rect S 70 50 area)"

definition draw_overlay :: "split \<Rightarrow> palette_mode \<Rightarrow> app \<Rightarrow> rect \<Rightarrow> frame" where
  "draw_overlay S m a area =
     (case ap_overlay a of
        OverlayNone \<Rightarrow> []
      | OverlayNotice message \<Rightarrow> draw_notice S m message area
      | OverlayAddRule form \<Rightarrow> draw_add_rule S m form area
      | OverlayAnswerPrompt form \<Rightarrow> draw_answer_prompt S m form area
      | OverlayTraffic form \<Rightarrow> draw_traffic S m form area)"

definition draw :: "split \<Rightarrow> palette_mode \<Rightarrow> app \<Rightarrow> rect \<Rightarrow> frame" where
  "draw S m a area =
     (let chunks = S Vertical [Length 3, MinLength 3, Length 2] area
      in [(tabs_bar m a, chunks ! 0)] @ draw_body S m a (chunks ! 1) @
         [(Paragraph [([(stats_footer_line a, style_default)], style_default), ([(footer_hints a, style_default)], muted_style m)]
             style_default False None, chunks ! 2)] @
         draw_overlay S m a area)"

section \<open>The terminal\<close>

record tty =
  tty_raw :: bool
  tty_alternate :: bool

text \<open>The answers of the terminal to the calls: \<open>None\<close> is success.\<close>

record tty_calls =
  tc_enable_raw :: "io_error option"
  tc_enter :: "io_error option"
  tc_new :: "io_error option"
  tc_disable_raw :: "io_error option"
  tc_leave :: "io_error option"

definition tty_call :: "io_error option \<Rightarrow> (tty \<Rightarrow> tty) \<Rightarrow> tty \<Rightarrow> (io_error + unit) \<times> tty" where
  "tty_call answer f t = (case answer of None \<Rightarrow> (Inr (), f t) | Some e \<Rightarrow> (Inl e, t))"

definition setup_terminal :: "tty_calls \<Rightarrow> tty \<Rightarrow> (io_error + unit) \<times> tty" where
  "setup_terminal T t =
     (case tty_call (tc_enable_raw T) (\<lambda>t. t\<lparr>tty_raw := True\<rparr>) t of
        (Inl e, t) \<Rightarrow> (Inl e, t)
      | (Inr _, t) \<Rightarrow>
          (case tty_call (tc_enter T) (\<lambda>t. t\<lparr>tty_alternate := True\<rparr>) t of
             (Inl e, t) \<Rightarrow> (Inl e, t)
           | (Inr _, t) \<Rightarrow> tty_call (tc_new T) (\<lambda>t. t) t))"

definition restore_terminal :: "tty_calls \<Rightarrow> tty \<Rightarrow> (io_error + unit) \<times> tty" where
  "restore_terminal T t =
     (case tty_call (tc_disable_raw T) (\<lambda>t. t\<lparr>tty_raw := False\<rparr>) t of
        (Inl e, t) \<Rightarrow> (Inl e, t)
      | (Inr _, t) \<Rightarrow> tty_call (tc_leave T) (\<lambda>t. t\<lparr>tty_alternate := False\<rparr>) t)"

text \<open>\<open>main\<close>, with what \<open>run\<close> does: it returns a result, or it panics and the hook runs.\<close>

datatype run_end = Returned "io_error + unit" | Panicked

definition tui_main :: "tty_calls \<Rightarrow> run_end \<Rightarrow> tty \<Rightarrow> (io_error + unit) option \<times> tty" where
  "tui_main T run_result t =
     (case setup_terminal T t of
        (Inl e, t) \<Rightarrow> (Some (Inl e), t)
      | (Inr _, t) \<Rightarrow>
          (case run_result of
             Panicked \<Rightarrow> (None, snd (restore_terminal T t))
           | Returned result \<Rightarrow>
               (case restore_terminal T t of (Inl e, t) \<Rightarrow> (Some (Inl e), t) | (Inr _, t) \<Rightarrow> (Some result, t))))"

section \<open>Frames stay on the screen\<close>

lemma within_refl [simp]: "rect_within r r"
  by (simp add: rect_within_def)

lemma within_trans: "rect_within a b \<Longrightarrow> rect_within b c \<Longrightarrow> rect_within a c"
  by (auto simp: rect_within_def)

lemma split_within: "lawful_split S \<Longrightarrow> n < length cs \<Longrightarrow> rect_within (S d cs area ! n) area"
  by (auto simp: lawful_split_def list_all_length)

lemma centered_within: "lawful_split S \<Longrightarrow> rect_within (centered_rect S x y area) area"
  unfolding centered_rect_def Let_def by (rule within_trans) (rule split_within, simp_all)+

text \<open>An overlay is two draws on one area: everything there is cleared, then the card is drawn.\<close>

lemma draw_overlay_card:
  assumes "ap_overlay a \<noteq> OverlayNone"
  obtains ls title r where "draw_overlay S m a area = draw_card m ls title r"
    "lawful_split S \<Longrightarrow> rect_within r area"
    "\<And>form. ap_overlay a = OverlayAnswerPrompt form \<Longrightarrow>
       plain_line (body_style m) (''path: '' @ pw_executable (pf_prompt form)) \<in> set ls"
  using assms centered_within
  by (cases "ap_overlay a")
    (force simp: draw_overlay_def draw_notice_def draw_add_rule_def draw_answer_prompt_def draw_traffic_def Let_def)+

text \<open>
  Every frame of the terminal client stays on the screen, and an overlay is on top. For every
  state and screen size, each widget is drawn inside the screen; when an overlay is open, the last
  thing drawn is its card, on an area cleared just before, and the card that asks for an answer
  shows the whole path of the executable.
\<close>

theorem tui_overlay_on_top:
  assumes "lawful_split S"
  shows "list_all (\<lambda>(w, r). rect_within r area) (draw S m a area) \<and>
    (ap_overlay a \<noteq> OverlayNone \<longrightarrow>
      (\<exists>below ls title r. draw S m a area = below @ draw_card m ls title r \<and>
        (\<forall>form. ap_overlay a = OverlayAnswerPrompt form \<longrightarrow>
           plain_line (body_style m) (''path: '' @ pw_executable (pf_prompt form)) \<in> set ls)))"
proof
  have chunks: "rect_within (S Vertical [Length 3, MinLength 3, Length 2] area ! n) area" if "n < 3" for n
    using split_within [OF assms, of n] that by simp
  have panes: "rect_within (S Horizontal [Percentage 45, Percentage 55] r ! n) area" if "n < 2" "rect_within r area" for n r
    using within_trans [OF split_within [OF assms, of n]] that by simp
  have overlay: "list_all (\<lambda>(w, r). rect_within r area) (draw_overlay S m a area)"
  proof (cases "ap_overlay a = OverlayNone")
    case False
    obtain ls title r where "draw_overlay S m a area = draw_card m ls title r" "rect_within r area"
      using draw_overlay_card [OF False, of S m area] assms by metis
    then show ?thesis by (simp add: draw_card_def)
  qed (simp add: draw_overlay_def)
  show "list_all (\<lambda>(w, r). rect_within r area) (draw S m a area)"
    using overlay chunks [of 0] chunks [of 1] chunks [of 2] panes [of 0 "S Vertical [Length 3, MinLength 3, Length 2] area ! 1"]
      panes [of 1 "S Vertical [Length 3, MinLength 3, Length 2] area ! 1"]
    by (simp add: draw_def draw_body_def Let_def)
  show "ap_overlay a \<noteq> OverlayNone \<longrightarrow> (\<exists>below ls title r. draw S m a area = below @ draw_card m ls title r \<and>
      (\<forall>form. ap_overlay a = OverlayAnswerPrompt form \<longrightarrow>
         plain_line (body_style m) (''path: '' @ pw_executable (pf_prompt form)) \<in> set ls))"
  proof
    assume "ap_overlay a \<noteq> OverlayNone"
    then obtain ls title r where card: "draw_overlay S m a area = draw_card m ls title r"
        "\<And>form. ap_overlay a = OverlayAnswerPrompt form \<Longrightarrow>
           plain_line (body_style m) (''path: '' @ pw_executable (pf_prompt form)) \<in> set ls"
      using draw_overlay_card [of a S m area] by metis
    then show "\<exists>below ls title r. draw S m a area = below @ draw_card m ls title r \<and>
      (\<forall>form. ap_overlay a = OverlayAnswerPrompt form \<longrightarrow>
         plain_line (body_style m) (''path: '' @ pw_executable (pf_prompt form)) \<in> set ls)"
      unfolding draw_def Let_def by (metis append.assoc)
  qed
qed

section \<open>Text can be read\<close>

text \<open>What \<open>Style::patch\<close> documents: a later style replaces what it sets.\<close>

definition patch :: "tui_style \<Rightarrow> tui_style \<Rightarrow> tui_style" where
  "patch base over =
     \<lparr>st_fg = (case st_fg over of None \<Rightarrow> st_fg base | c \<Rightarrow> c), st_bg = (case st_bg over of None \<Rightarrow> st_bg base | c \<Rightarrow> c),
      st_bold = (st_bold base \<or> st_bold over)\<rparr>"

definition line_styles :: "tui_style \<Rightarrow> text_line \<Rightarrow> tui_style list" where
  "line_styles base = (\<lambda>(spans, s). map (\<lambda>(t, span). patch (patch base s) span) spans)"

text \<open>The styles in which a widget draws its texts, the title included; the selected row is highlighted.\<close>

fun widget_styles :: "widget \<Rightarrow> tui_style list" where
  "widget_styles Clear = []"
| "widget_styles (Paragraph ls s wrap b) =
     (let base = (case b of None \<Rightarrow> s | Some b \<Rightarrow> patch s (bl_style b))
      in concat (map (line_styles base) ls) @ (case b of None \<Rightarrow> [] | Some b \<Rightarrow> [patch base (snd (bl_title b))]))"
| "widget_styles (ListWidget items b highlight state) =
     (let base = bl_style b
      in concat (map (line_styles base) items) @ map (\<lambda>st. patch st highlight) (concat (map (line_styles base) items)) @
         [patch base (snd (bl_title b))])"

text \<open>The brightness of a colour in thousandths.\<close>

fun brightness :: "color \<Rightarrow> int" where
  "brightness (Rgb r g b) = 299 * int r + 587 * int g + 114 * int b"

text \<open>Where the background is the client's own, text differs from it by 60 of 255 steps of brightness.\<close>

definition legible :: "tui_style \<Rightarrow> bool" where
  "legible st \<longleftrightarrow>
     (case (st_fg st, st_bg st) of (Some f, Some g) \<Rightarrow> 60000 \<le> \<bar>brightness f - brightness g\<bar> | _ \<Rightarrow> True)"

lemmas palette_defs = style_default_def title_style_def selected_style_def muted_style_def body_style_def allow_style_def
  deny_style_def focus_style_def panel_style_def chrome_style_def overlay_style_def accent_label_style_def border_style_def
  ok_style_def warn_style_def err_style_def canvas_def surface_def elevated_def text_color_def muted_fg_def is_dark_def
  TUI_ACCENT_def TUI_ON_ACCENT_def TUI_DANGER_def TUI_OK_def TUI_WARN_def

lemmas legible_defs = legible_def patch_def line_styles_def plain_line_def framed_def palette_defs

lemma legible_lists:
  "list_all legible (concat (map (line_styles (patch (panel_style m) style_default)) (map (plain_line (body_style m)) ls)))"
  "list_all legible (concat (map (line_styles (panel_style m)) (map (\<lambda>line. ([(line, style_default)], body_style m)) items)))"
  "list_all legible (map (\<lambda>st. patch st selected_style)
     (concat (map (line_styles (panel_style m)) (map (\<lambda>line. ([(line, style_default)], body_style m)) items))))"
  by (induction ls; cases m; simp add: legible_defs)
    (induction items; cases m; simp add: legible_defs)+

lemma body_legible: "list_all (\<lambda>(w, r). list_all legible (widget_styles w)) (draw_body S m a area)"
proof -
  have "list_all legible (widget_styles (detail_widget m a))"
    using legible_lists(1) [of m "detail_lines a"]
    by (cases m) (simp_all add: detail_widget_def framed_def Let_def legible_def patch_def palette_defs)
  moreover have "list_all legible (widget_styles (list_widget m a visible state))" for visible state
    using legible_lists(2,3) [of m "vl_items visible"]
    by (cases m) (simp_all add: list_widget_def framed_def Let_def legible_def patch_def palette_defs)
  ultimately show ?thesis by (simp add: draw_body_def Let_def)
qed

lemma overlay_legible: "list_all (\<lambda>(w, r). list_all legible (widget_styles w)) (draw_overlay S m a area)"
  by (cases m; cases "ap_overlay a")
    (simp_all add: draw_overlay_def draw_notice_def draw_add_rule_def draw_answer_prompt_def draw_traffic_def draw_card_def
      field_line_def Let_def legible_defs)

lemma bars_legible:
  "list_all legible (widget_styles (tabs_bar m a))"
  "list_all legible (widget_styles (Paragraph [([(t, style_default)], style_default), ([(u, style_default)], muted_style m)]
     style_default False None))"
  by (cases m; cases "ap_tab a"; simp add: tabs_bar_def Tab_ALL_def Let_def legible_defs)
    (cases m; simp add: Let_def legible_defs)

text \<open>
  The terminal client is legible in both modes. Whatever is drawn, on the tabs, lists, details and
  overlays, highlighted or not, in dark and in light mode: every text with a background of the
  client's own differs from it in brightness by at least 60 of 255 steps.
\<close>

theorem tui_text_legible:
  "list_all (\<lambda>(w, r). list_all legible (widget_styles w)) (draw S m a area)"
  by (simp add: draw_def Let_def body_legible overlay_legible bars_legible del: widget_styles.simps)

section \<open>The terminal is given back\<close>

text \<open>
  C40: the terminal is given back. Once the terminal was set up and as long as it answers, the client
  leaves raw mode and the alternate screen however \<open>run\<close> ends: normally, with an error, or by a panic.
\<close>

theorem tui_terminal_given_back:
  assumes "fst (setup_terminal T t) = Inr ()" "tc_disable_raw T = None" "tc_leave T = None"
  shows "snd (tui_main T run_result t) = \<lparr>tty_raw = False, tty_alternate = False\<rparr> \<and>
    fst (tui_main T run_result t) = (case run_result of Returned r \<Rightarrow> Some r | Panicked \<Rightarrow> None)"
proof -
  obtain t1 where "setup_terminal T t = (Inr (), t1)" using assms(1) by (metis prod.collapse)
  then show ?thesis
    using assms(2,3) by (cases t1) (simp add: tui_main_def restore_terminal_def tty_call_def split: run_end.split)
qed

text \<open>
  But a failure half-way through the set-up is not undone: when the terminal enters raw mode and
  refuses the alternate screen, \<open>main\<close> returns the error and raw mode stays on.
\<close>

lemma tty_left_raw:
  "tc_enable_raw T = None \<Longrightarrow> tc_enter T = Some e \<Longrightarrow> tui_main T run_result t = (Some (Inl e), t\<lparr>tty_raw := True\<rparr>)"
  by (simp add: tui_main_def setup_terminal_def tty_call_def)

section \<open>Witnesses\<close>

definition split_whole :: split where
  "split_whole d cs area = map (\<lambda>_. area) cs"

theorem tui_overlay_on_top_witness:
  "list_all (\<lambda>(w, r). rect_within r \<lparr>re_x = 0, re_y = 0, re_width = 80, re_height = 24\<rparr>)
     (draw split_whole Dark app_answer_demo \<lparr>re_x = 0, re_y = 0, re_width = 80, re_height = 24\<rparr>)"
proof -
  have "lawful_split split_whole" by (simp add: lawful_split_def split_whole_def list_all_iff)
  from tui_overlay_on_top [OF this] show ?thesis by blast
qed

theorem tui_terminal_given_back_witness:
  "snd (tui_main \<lparr>tc_enable_raw = None, tc_enter = None, tc_new = None, tc_disable_raw = None, tc_leave = None\<rparr> Panicked
     \<lparr>tty_raw = False, tty_alternate = False\<rparr>) = \<lparr>tty_raw = False, tty_alternate = False\<rparr>"
  using tui_terminal_given_back [of "\<lparr>tc_enable_raw = None, tc_enter = None, tc_new = None, tc_disable_raw = None, tc_leave = None\<rparr>"
      "\<lparr>tty_raw = False, tty_alternate = False\<rparr>" Panicked]
  by (simp add: setup_terminal_def tty_call_def)

end
