(* ===== verification/Spec2Isabelle.thy ===== *)
theory Spec2Isabelle
  imports EndToEnd Delivery LockReads ModeRaces CacheSpec Tooling UiDesk TuiDraw
begin

text \<open>
  InterFire is an application firewall for Linux. A kernel probe reports every TCP connect; the
  daemon \<open>interfired\<close> attributes the event to a process, decides it by rules or by asking the
  operator, and stores the verdict; the packet itself waits in a netfilter queue until the daemon
  finds the verdict for its destination. Three clients (a terminal interface, a command line tool and
  a desktop interface) talk to the daemon over a Unix socket, one request line per connection.

  \<^bold>\<open>Parts and theories.\<close> Each theory names the source file it models; definitions keep the
  source's names, with the type in front where two types share a method name.

  \<^item> \<open>Prelude\<close>, \<open>RustStr\<close>, \<open>Utf8\<close>, \<open>Fs\<close>: what the code uses of Rust's standard library. Machine
    integers are words, \<open>HashMap\<close>s are association lists with distinct keys, \<open>Result\<close> is a sum, a
    mutex carries its poison flag, strings are byte lists with the UTF-8 rules written out, and the
    filesystem is a state in which any operation can be made to fail.
  \<^item> \<open>Fifo\<close>: the bounded insertion-ordered table that six components share, with its list
    specification and the locale \<open>bounded_cache\<close>, which every such component interprets.
  \<^item> \<open>Ebpf\<close>: \<open>interfire-ebpf-programs/src/main.rs\<close> and \<open>interfire-ebpf/src/lib.rs\<close>, the probe and its record.
  \<^item> \<open>Rules\<close>: \<open>interfire-rules/src/lib.rs\<close>, matching, precedence and the TOML store.
  \<^item> \<open>Pending\<close>, \<open>Packet\<close>, \<open>Prompts\<close>, \<open>Dns\<close>, \<open>Process\<close>, \<open>Recent\<close>, \<open>Stats\<close>, \<open>Policy\<close>: the daemon's tables
    and its decision, one theory per file of \<open>interfire-daemon/src\<close>.
  \<^item> \<open>Modes\<close>: \<open>enforcement_mode.rs\<close> and \<open>traffic_mode.rs\<close>; \<open>Nft\<close>: \<open>nft.rs\<close>; \<open>AuditLog\<close>: \<open>audit.rs\<close>;
    \<open>Operator\<close>: \<open>operator_auth.rs\<close> and \<open>proc_metrics.rs\<close>.
  \<^item> \<open>Proto\<close>, \<open>ProtoRows\<close>: \<open>interfire-proto/src/lib.rs\<close>, requests, responses and the rows clients parse.
  \<^item> \<open>Shared\<close>: \<open>shared.rs\<close>, the state behind its mutexes and the mode changes; \<open>Observe\<close>: the observation
    and queue threads; \<open>Ipc\<close>: \<open>ipc.rs\<close>, every request handler; \<open>Daemon\<close>: \<open>main.rs\<close> and the interleaving of
    all threads as an inductive relation. A connect event is handled in four sections (decide, store,
    count, log) between which other threads run; an attempt of the queue thread, a request and the
    end of a stream are one section each.
  \<^item> \<open>Tables\<close>, \<open>Provenance\<close>, \<open>Delivery\<close>: what holds in every run of the daemon. \<open>Tables\<close> sees a run through
    one table at a time, \<open>Provenance\<close> traces rules and allow-once tokens back to the requests that asked
    for them, \<open>Delivery\<close> follows a stored verdict to its packet.
  \<^item> \<open>Locks\<close>, \<open>LockOrder\<close>, \<open>LockReads\<close>: threads that block on mutexes. \<open>Locks\<close> is the machine: threads with the locks they
    hold and the sequence of locks still to take and give back, any of them moving at any time, and
    the locale \<open>lock_order\<close>. \<open>LockOrder\<close> has the sequence of every operation of the daemon, read off
    \<open>observe.rs\<close>, \<open>nfqueue_live.rs\<close>, \<open>ipc.rs\<close> and \<open>shared.rs\<close>, \<open>LockReads\<close> that operations read and change
    only what they lock. \<open>ModeRaces\<close>: the mode changes of \<open>shared.rs\<close> as the
    four actions between which other threads can come; two blocks at once keep each other in force.
  \<^item> \<open>PendingSpec\<close>, \<open>CacheSpec\<close>: the tables of pending verdicts, identities and recent destinations as
    implementations of plain lists, with the locale \<open>refines\<close>.
  \<^item> \<open>Loader\<close>: \<open>loader.rs\<close>, \<open>loader_attach.rs\<close> and \<open>loader_live.rs\<close> of \<open>interfire-ebpf\<close>. \<open>NftDouble\<close>, \<open>Doubles\<close>: the
    variants of \<open>nft.rs\<close>, \<open>nfqueue.rs\<close> and \<open>observe.rs\<close> that are compiled for unit tests, compared with the
    live code. \<open>Tooling\<close>: the fuzz target, the build scripts, the helpers of unit tests, and the parts of
    \<open>log_buf.rs\<close> and \<open>audit_host.rs\<close> around the window's log.
  \<^item> \<open>RustChar\<close>, \<open>Client\<close>: characters pushed to and popped from strings, and what the clients share,
    with the locale \<open>control_link\<close> for a peer that answers \<open>v1 pong\<close> only when it served the request.
  \<^item> \<open>TuiIpc\<close>, \<open>TuiApp\<close>, \<open>TuiView\<close>, \<open>TuiMain\<close>, \<open>TuiDraw\<close>: \<open>interfire-tui\<close>. The polls, the command worker and the
    audit stream (\<open>ipc.rs\<close>); the state, every key handler and the text of the panes (\<open>app.rs\<close>); the event
    loop (\<open>main.rs\<close>); colours, widgets and the terminal (\<open>palette.rs\<close>, \<open>ui.rs\<close>, \<open>main.rs\<close>).
  \<^item> \<open>Ctl\<close>: \<open>interfirectl/src/main.rs\<close>.
  \<^item> \<open>UiState\<close>, \<open>UiIpc\<close>, \<open>UiProfile\<close>, \<open>UiApp\<close>, \<open>UiRun\<close>: the desktop client under \<open>ui/src\<close>. \<open>UiState\<close> holds the filter,
    sections, event buffer, alert, rule form, tray and the text the pages compute; \<open>UiIpc\<close> the requests
    (\<open>ipc_poll.rs\<close>), the audit thread (\<open>audit_host.rs\<close>) and the \<open>pkexec\<close> commands (\<open>service.rs\<close>); \<open>UiProfile\<close>
    sampling and CPU figures; \<open>UiApp\<close> the window's state and handlers (\<open>app.rs\<close>); \<open>UiRun\<close> its runs.
  \<^item> \<open>UiTheme\<close>, \<open>UiElem\<close>, \<open>UiViews\<close>, \<open>UiPages\<close>, \<open>UiRender\<close>: what the window shows. \<open>UiTheme\<close> the colours and the
    slots they are painted into (\<open>theme.rs\<close>); \<open>UiElem\<close> element trees with their clicks and the widgets of
    \<open>chrome.rs\<close>; \<open>UiViews\<close> and \<open>UiPages\<close> the pages (\<open>*_view.rs\<close>, \<open>shell_chrome.rs\<close>, \<open>brand.rs\<close>); \<open>UiRender\<close> the whole
    window (\<open>render\<close> of \<open>app.rs\<close>), whose clicks are the inputs of \<open>UiRun\<close>. \<open>UiDesk\<close>: the process around the
    window (\<open>main.rs\<close>, \<open>tray_host.rs\<close>), with windows closed and reopened.
  \<^item> \<open>EndToEnd\<close>: the clients joined to the daemon's request handler, which interprets \<open>control_link\<close>.

  \<^bold>\<open>State.\<close> \<open>shared\<close> is the Rust struct of the same name. A \<open>world\<close> adds the filesystem, the
  subscriber channels and the kernel's table. Services outside the repository are arguments, collected
  in \<open>host\<close>: the \<open>nft\<close> program, \<open>/proc\<close>, the account databases and the TOML crate. Where a theorem
  needs something of them, it is a named hypothesis (\<open>nft_lawful\<close>, \<open>toml_faithful\<close>) with a witness.
  Clocks are arguments: a handler gets the value of each of its readings.

  \<^bold>\<open>What is shown.\<close> The decision fails closed and never uses a stale, foreign or consumed verdict
  (\<open>Policy\<close>, \<open>Pending\<close>, \<open>Observe\<close>); across all threads an accepted packet rests on a rule or an answer that
  somebody with permission gave (below), a decided connection gets its verdict, and without such a
  peer the policy does not move (\<open>Delivery\<close>). The rule with the greatest precedence decides (\<open>Rules\<close>) and
  an operator's answer becomes such a rule (\<open>Ipc\<close>); all tables stay within their bounds in every run
  (\<open>Tables\<close>), are read and changed under their locks only (\<open>LockReads\<close>), and no thread waits for good as
  long as nobody asks for the process list (\<open>LockOrder\<close>); from outside they are lists (\<open>PendingSpec\<close>, \<open>CacheSpec\<close>); a kill switch the daemon reports is in force and survives a restart (\<open>Shared\<close>, \<open>Nft\<close>, \<open>Modes\<close>);
  rules, modes and the audit log survive a restart (\<open>Rules\<close>, \<open>Ipc\<close>, \<open>Modes\<close>, \<open>AuditLog\<close>); frames are read back as
  they were sent (\<open>ProtoRows\<close>); an unauthorised peer changes nothing (\<open>Ipc\<close>, \<open>Operator\<close>); the daemon reports
  \<open>attached\<close> only with an attached probe (\<open>Loader\<close>); the code under test behaves like the code in use
  (\<open>Doubles\<close>, \<open>NftDouble\<close>). The clients build only frames the daemon reads as the user meant them (\<open>TuiMain\<close>,
  \<open>Ctl\<close>), report success only when the daemon served the request (\<open>EndToEnd\<close>), keep their selections
  within what they list and show every audit record once (\<open>TuiMain\<close>, \<open>TuiIpc\<close>, \<open>UiState\<close>, \<open>UiIpc\<close>); the desktop
  client answers only prompts that are still open (\<open>UiRun\<close>), offers no click that acts without asking
  (\<open>UiRender\<close>) and turns every request of the tray into a question (\<open>UiDesk\<close>); the terminal client draws
  overlays on top and gives the terminal back (\<open>TuiDraw\<close>).

  Some theorems record behaviour that differs from what comments or the design documents say: a
  process list and a connect event that block each other for good, mode changes that overlap and
  undo a kill switch or leave file and memory apart,
  reversed address octets, a store stuck after a failed rename, an old audit stream that
  unsubscribes its successor, a DNS note that stops observation, a broken audit stream that is shown
  twice, a detail pane that shows another event than the one selected (in both clients), a
  machine-wide block whose success says nothing, two tray pictures that never appear, a tray that
  keeps saying \<open>protected\<close> after its window was reopened without a daemon, a menu left open, a pill in
  the wrong colour, a log that is not virtualised, a terminal left in raw mode.

  \<^bold>\<open>Interfaces.\<close> \<open>bounded_cache\<close> (a table with a capacity), \<open>kept_machine\<close> and \<open>bounded_machine\<close> (a state
  whose every step keeps an invariant, and a bound), \<open>durable_setting\<close> (a preference and its file),
  \<open>control_link\<close>, \<open>daemon_view\<close> and \<open>daemon_table\<close> (a table seen through the steps of the daemon) and
  \<open>provenance\<close> (what appears in a set was asked for), \<open>lock_order\<close> (operations that take locks upwards) and
  \<open>refines\<close> (an implementation and its specification step by step) are locales; every component that offers one
  interprets it, and the properties use the result.

  \<^bold>\<open>Bounds and loops.\<close> Loops are recursion on the list they consume, or on the fifty attempts the
  lookup makes; endless loops of the clients take the turns, ticks or servers they meet as a list or
  count, so there is no fuel. Capacities are parameters of the theorems; \<open>Tables\<close> uses those of \<open>main.rs\<close>
  and limits the length of a run only so that the 64-bit prompt counter does not saturate.

  \<^bold>\<open>Not modelled.\<close> Laying out and painting (\<open>ratatui\<close>'s solver is a parameter, the desktop toolkit gets
  an element tree), registering the tray and decoding pictures (parameters), the \<open>aya\<close>, \<open>nfq\<close> and \<open>toml\<close>
  crates (parameters), log lines, the profiler and the bodies of the unit tests. Percentages are exact rationals instead of \<open>f64\<close>. A failed write leaves the file unchanged in
  the filesystem model. In a run of \<open>Daemon\<close> a section of an event and a whole request are one step
  each, although answering a prompt takes two locks one after the other and a mode change takes none
  throughout: \<open>LockOrder\<close> treats the former's waiting, \<open>ModeRaces\<close> the latter's overlaps. What is done under a
  lock, input and output included, is taken to end.
\<close>

section \<open>From connect to packet\<close>

text \<open>
  C1: no packet passes without permission. From a fresh start, in every interleaving of observed
  connects, queued packets, client requests, ending streams and queue changes: when an attempt to
  find a verdict for a packet accepts it, then the last step that touched the packet's destination
  was a connect event for it, no older than the time to live of verdicts; the event was attributed
  to a process, and its decision rests on an allow rule that matches this executable, address and
  port, or on an allow-once answer for exactly this executable and destination that had not run
  out. The rule was among the start-up rules, or a peer that may change the policy asked for it
  earlier in the run, by \<open>rule-add\<close> or by answering a prompt; the answer came from such a peer too.
\<close>

theorem accepted_packet_was_authorised:
  assumes "fresh_start ttl token_ttl w0" "daemon_run H (w0, Idle) tr (w, f)"
    and "fst (attempt_packet now payload w) = Some Accept"
  shows "\<exists>tr1 t ev d tr2 tr3 w1 idt. tr = tr1 @ SDecide t ev (Some d) # tr2 @ SStore t ev d # tr3 \<and>
    daemon_run H (w0, Idle) tr1 (w1, Idle) \<and>
    tcp_destination payload = Some (event_key ev) \<and> (\<forall>x \<in> set tr3. step_key x \<noteq> Some (event_key ev)) \<and>
    now - t 7 \<le> ttl \<and>
    fst (attribute (ho_procfs H) ev (into_inner (sh_process_cache (w_shared w1)))) = Inr idt \<and>
    ((\<exists>r cn. r \<in> rules_in w1 \<and> rule_verdict r = Allow \<and> Rule_matches r cn \<and>
        conn_executable cn = display (pi_executable idt) \<and> conn_address cn = V4 (event_octets ev) \<and>
        conn_port cn = ev_destination_port ev \<and> (r \<in> rules_in w0 \<or> caused_by H (asks_rule H) (w0, Idle) tr1 r)) \<or>
     (\<exists>t0. caused_by H (grants_once H) (w0, Idle) tr1 (prompt_key_of idt ev, t0) \<and> t 1 \<le> t0 + token_ttl))"
proof -
  obtain cap p where fresh: "sh_pending (w_shared w0) = Healthy p" "PendingTable_new cap ttl = Some p"
    using assms(1) unfolding fresh_start_def by blast
  obtain key t0 where key: "tcp_destination payload = Some key" "decided_by H (w0, Idle) tr key Accept t0" "now - t0 \<le> ttl"
    by (rule accepted_decided [OF assms(2) fresh assms(3)])
  obtain tr1 t ev tr2 tr3 w1 d where h: "tr = tr1 @ SDecide t ev (Some d) # tr2 @ SStore t ev d # tr3"
      "daemon_run H (w0, Idle) tr1 (w1, Idle)" "event_decision H t ev w1 = Some d" "d_packet_verdict d = Accept"
      "event_key ev = key" "t 7 = t0" "\<forall>x \<in> set tr3. step_key x \<noteq> Some key"
    by (rule decided_by_split [OF key(2)])
  note toks = fresh_tokens [OF assms(1) h(2)]
  obtain idt where idt: "fst (attribute (ho_procfs H) ev (into_inner (sh_process_cache (w_shared w1)))) = Inr idt"
    and why: "(\<exists>r cn. r \<in> rules_in w1 \<and> rule_verdict r = Allow \<and> Rule_matches r cn \<and>
        conn_executable cn = display (pi_executable idt) \<and> conn_address cn = V4 (event_octets ev) \<and>
        conn_port cn = ev_destination_port ev) \<or>
     (\<exists>t0. (prompt_key_of idt ev, t0) \<in> tokens_in w1 \<and>
        t 1 \<le> t0 + pq_ttl (into_inner (sh_prompts (w_shared w1))))"
    by (rule accept_grounds [OF h(3,4) toks(3)])
  have "(\<exists>r cn. r \<in> rules_in w1 \<and> rule_verdict r = Allow \<and> Rule_matches r cn \<and>
        conn_executable cn = display (pi_executable idt) \<and> conn_address cn = V4 (event_octets ev) \<and>
        conn_port cn = ev_destination_port ev \<and> (r \<in> rules_in w0 \<or> caused_by H (asks_rule H) (w0, Idle) tr1 r)) \<or>
     (\<exists>t0. caused_by H (grants_once H) (w0, Idle) tr1 (prompt_key_of idt ev, t0) \<and> t 1 \<le> t0 + token_ttl)"
    using why rule_origin.traced [OF h(2)] token_origin.traced [OF h(2)] toks(1,2,4) by (simp, blast)
  with h idt key show ?thesis by blast
qed

theorem accepted_packet_was_authorised_witness:
  "\<exists>r. r \<in> rules_in world_allow \<and> rule_verdict r = Allow \<and> rule_executable r = ''/bin/x''"
proof -
  let ?t = "\<lambda>_. 0"
  obtain d w1 where d: "decide_event host_demo ?t event_demo world_allow = (Some d, w1)" "d_packet_verdict d = Accept"
    using world_allow_accepts by (metis prod.collapse)
  let ?w = "handle_event host_demo ?t event_demo world_allow"
  note run = event_steps [OF d(1)]
  have "sh_pending (w_shared ?w) = Healthy (PendingTable_insert 0 0 (event_key event_demo) Accept pending_two)"
    using decide_event_pending [of host_demo ?t event_demo world_allow] decision_key [of host_demo ?t event_demo world_allow d]
    by (simp add: handle_event_def store_shared d world_allow_shared)
  then have accepted: "fst (attempt_packet 0 packet_demo ?w) = Some Accept"
    using pending.look_same [of pending_two 0 "event_key event_demo" Accept] PendingTable_new_wf [OF pending_two_new]
    by (simp add: attempt_packet_def packet_demo_key lookup_attempt_def case_prod_unfold Let_def pending_peek_def)
  have fresh: "fresh_start 5 10 world_allow"
    unfolding fresh_start_def using world_allow_shared(3,6) pending_two_new queue_demo_new by auto
  from accepted_packet_was_authorised [OF fresh run accepted]
  obtain tr1 t ev d' tr2 tr3 w1 idt where h: "[SDecide ?t event_demo (Some d), SStore ?t event_demo d, SCount, SLog] =
        tr1 @ SDecide t ev (Some d') # tr2 @ SStore t ev d' # tr3"
      "daemon_run host_demo (world_allow, Idle) tr1 (w1, Idle)"
      "(\<exists>r cn. r \<in> rules_in w1 \<and> rule_verdict r = Allow \<and> Rule_matches r cn) \<or>
       (\<exists>t0. caused_by host_demo (grants_once host_demo) (world_allow, Idle) tr1 (prompt_key_of idt ev, t0))"
    by blast
  have "tr1 = []" using h(1) by (auto simp: Cons_eq_append_conv)
  moreover have "w1 = world_allow" using h(2) \<open>tr1 = []\<close> by (simp add: daemon_run_Nil)
  ultimately show ?thesis using h(3) world_allow_shared(1) by (auto simp: rules_in_def)
qed

end
